(* ===== verification/Prelude.thy ===== *)
theory Prelude
  imports Main "HOL-Library.Word" "HOL-Library.Multiset"
begin

text \<open>
  Shared vocabulary of the development: JavaScript strings as lists of UTF-16 code
  units, insertion-ordered \<^verbatim>\<open>Map\<close> objects as association lists, the stable
  \<^verbatim>\<open>Array.prototype.sort\<close> over a comparison function, the injected clock, and the
  interfaces (locales) that the component theories instantiate: comparison functions,
  keyed stores, and state machines with an invariant.
\<close>

section \<open>JavaScript strings\<close>

text \<open>A string value is its sequence of UTF-16 code units, so \<open>length\<close> is JavaScript's.\<close>

type_synonym jsstr = "16 word list"

text \<open>ASCII literals of the source, written \<open>js ''ALL''\<close>.\<close>

definition js :: "string \<Rightarrow> jsstr" where
  "js s = map of_char s"

lemma of_char_16_inj: "(of_char c :: 16 word) = of_char d \<longleftrightarrow> c = d"
proof
  assume "(of_char c :: 16 word) = of_char d"
  then have "unat (of_nat (of_char c) :: 16 word) = unat (of_nat (of_char d) :: 16 word)"
    by (simp only: of_nat_of_char)
  moreover have "(of_char c :: nat) < 256" "(of_char d :: nat) < 256"
    by (rule nat_of_char_less_256)+
  ultimately have "(of_char c :: nat) = of_char d"
    by (simp add: unat_of_nat take_bit_eq_mod)
  then show "c = d" by simp
qed simp

lemma js_eq_iff [simp]: "js s = js t \<longleftrightarrow> s = t"
  by (simp add: js_def inj_map_eq_map inj_def of_char_16_inj)

lemma js_eq_Nil_iff [simp]: "js s = [] \<longleftrightarrow> s = []" "[] = js s \<longleftrightarrow> s = []"
  by (auto simp: js_def)

lemma js_length [simp]: "length (js s) = length s"
  by (simp add: js_def)

lemma js_append: "js (s @ t) = js s @ js t"
  by (simp add: js_def)

text \<open>
  JavaScript truthiness of a \<^verbatim>\<open>string | null | undefined\<close>: absent and empty are
  both falsy.
\<close>

definition truthy :: "jsstr option \<Rightarrow> bool" where
  "truthy s = (case s of None \<Rightarrow> False | Some t \<Rightarrow> t \<noteq> [])"

lemma truthy_simps [simp]:
  "\<not> truthy None" "truthy (Some t) \<longleftrightarrow> t \<noteq> []"
  by (simp_all add: truthy_def)

lemma truthy_Some_iff: "truthy s \<longleftrightarrow> (\<exists>t. s = Some t \<and> t \<noteq> [])"
  by (cases s) auto

text \<open>The code units that \<^verbatim>\<open>String.prototype.trim\<close> and \<^verbatim>\<open>\s\<close> treat as white space.\<close>

definition is_ws :: "16 word \<Rightarrow> bool" where
  "is_ws c = (let n = unat c in
     n \<in> {9, 10, 11, 12, 13, 32, 160, 5760, 8232, 8233, 8239, 8287, 12288, 65279}
     \<or> (8192 \<le> n \<and> n \<le> 8202))"

definition trim :: "jsstr \<Rightarrow> jsstr" where
  "trim s = rev (dropWhile is_ws (rev (dropWhile is_ws s)))"

lemma set_trim: "set (trim s) \<subseteq> set s"
  unfolding trim_def by (auto dest!: set_dropWhileD [of _ is_ws "rev (dropWhile is_ws s)"] dest: set_dropWhileD)

lemma length_trim: "length (trim s) \<le> length s"
  unfolding trim_def
  by (metis length_dropWhile_le length_rev order_trans)

lemma dropWhile_eq_self_iff: "dropWhile P xs = xs \<longleftrightarrow> xs = [] \<or> \<not> P (hd xs)"
  by (cases xs) (auto simp: dropWhile_eq_Cons_conv)

lemma trim_hd_last:
  assumes "trim s \<noteq> []"
  shows "\<not> is_ws (hd (trim s))" "\<not> is_ws (last (trim s))"
proof -
  let ?u = "dropWhile is_ws s"
  let ?v = "dropWhile is_ws (rev ?u)"
  have v: "?v \<noteq> []" using assms by (simp add: trim_def)
  then have "\<not> is_ws (hd ?v)" by (rule hd_dropWhile)
  then show "\<not> is_ws (last (trim s))" using v by (simp add: trim_def last_rev)
  have u: "?u \<noteq> []" using v by fastforce
  obtain w where "rev ?u = w @ ?v"
    by (metis takeWhile_dropWhile_id)
  then have "?u = rev ?v @ rev w" by (metis rev_append rev_rev_ident)
  then have "hd ?u = hd (rev ?v)" using v by (metis hd_append2 rev_is_Nil_conv)
  then show "\<not> is_ws (hd (trim s))" using hd_dropWhile [OF u] by (simp add: trim_def)
qed

lemma trim_idem: "trim (trim s) = trim s"
proof (cases "trim s = []")
  case True
  then show ?thesis by (simp add: trim_def [of "[]"])
next
  case False
  let ?t = "trim s"
  have "dropWhile is_ws ?t = ?t"
    using trim_hd_last(1) [OF False] by (simp add: dropWhile_eq_self_iff)
  moreover have "dropWhile is_ws (rev ?t) = rev ?t"
    using trim_hd_last(2) [OF False] False by (simp add: dropWhile_eq_self_iff hd_rev)
  ultimately show ?thesis by (metis rev_rev_ident trim_def)
qed

lemma unat_of_char: "unat (of_char c :: 16 word) = of_char c"
proof -
  define n :: nat where "n = of_char c"
  have "n < 256" unfolding n_def by (rule nat_of_char_less_256)
  then have "n mod 65536 = n" by simp
  moreover have "unat (of_nat n :: 16 word) = n mod 65536"
    by (simp only: unat_of_nat len_num0 len_num1 len_bit0 len_bit1) simp
  ultimately show ?thesis by (simp only: n_def of_nat_of_char)
qed

lemma of_char_eq: "n < 256 \<Longrightarrow> (of_char c :: nat) = n \<longleftrightarrow> c = char_of n"
  by (metis char_of_char mod_less of_char_of)

lemma trim_js:
  assumes "s = [] \<or> \<not> is_ws (of_char (hd s)) \<and> \<not> is_ws (of_char (last s))"
  shows "trim (js s) = js s"
proof -
  have "dropWhile is_ws (js s) = js s" "dropWhile is_ws (rev (js s)) = rev (js s)"
    using assms by (auto simp: dropWhile_eq_self_iff js_def hd_map last_map hd_rev)
  then show ?thesis by (simp add: trim_def)
qed

lemma trim_Nil [simp]: "trim [] = []"
  by (simp add: trim_def)

section \<open>Sorting by a comparison function\<close>

text \<open>
  \<^verbatim>\<open>Array.prototype.sort\<close> is stable: among elements that compare equal the original
  order is kept. The insertion sort below inserts each element after its equals.
\<close>

fun insert_by :: "('a \<Rightarrow> 'a \<Rightarrow> int) \<Rightarrow> 'a \<Rightarrow> 'a list \<Rightarrow> 'a list" where
  "insert_by cmp x [] = [x]"
| "insert_by cmp x (y # ys) = (if cmp x y \<le> 0 then x # y # ys else y # insert_by cmp x ys)"

definition sort_by :: "('a \<Rightarrow> 'a \<Rightarrow> int) \<Rightarrow> 'a list \<Rightarrow> 'a list" where
  "sort_by cmp xs = foldr (insert_by cmp) xs []"

lemma sort_by_simps [simp]:
  "sort_by cmp [] = []"
  "sort_by cmp (x # xs) = insert_by cmp x (sort_by cmp xs)"
  by (simp_all add: sort_by_def)

lemma mset_insert_by [simp]: "mset (insert_by cmp x xs) = add_mset x (mset xs)"
  by (induction xs) auto

lemma mset_sort_by [simp]: "mset (sort_by cmp xs) = mset xs"
  by (induction xs) auto

lemma set_sort_by [simp]: "set (sort_by cmp xs) = set xs"
  by (metis mset_sort_by set_mset_mset)

lemma length_sort_by [simp]: "length (sort_by cmp xs) = length xs"
  by (metis mset_sort_by size_mset)

lemma distinct_sort_by [simp]: "distinct (sort_by cmp xs) \<longleftrightarrow> distinct xs"
  by (metis mset_sort_by mset_eq_imp_distinct_iff)

text \<open>The contract a comparison function owes to \<open>sort\<close>: a total preorder.\<close>

locale comparator =
  fixes cmp :: "'a \<Rightarrow> 'a \<Rightarrow> int"
  assumes cmp_flip: "cmp y x \<le> 0 \<longleftrightarrow> cmp x y \<ge> 0"
    and cmp_trans: "cmp x y \<le> 0 \<Longrightarrow> cmp y z \<le> 0 \<Longrightarrow> cmp x z \<le> 0"
begin

lemma cmp_total: "cmp x y \<le> 0 \<or> cmp y x \<le> 0"
  using cmp_flip [of y x] by linarith

lemma cmp_refl: "cmp x x = 0"
  using cmp_total [of x x] cmp_flip [of x x] by linarith

lemma sorted_insert_by:
  "sorted_wrt (\<lambda>a b. cmp a b \<le> 0) xs \<Longrightarrow> sorted_wrt (\<lambda>a b. cmp a b \<le> 0) (insert_by cmp x xs)"
proof (induction xs)
  case (Cons y ys)
  show ?case
  proof (cases "cmp x y \<le> 0")
    case True
    then show ?thesis using Cons.prems by (auto intro: cmp_trans)
  next
    case False
    then have "cmp y x \<le> 0" using cmp_total by blast
    moreover have "set (insert_by cmp x ys) = insert x (set ys)"
      by (metis mset_insert_by set_mset_add_mset_insert set_mset_mset)
    ultimately show ?thesis using False Cons by auto
  qed
qed simp

lemma sorted_sort_by: "sorted_wrt (\<lambda>a b. cmp a b \<le> 0) (sort_by cmp xs)"
  by (induction xs) (auto intro: sorted_insert_by)

lemma sort_by_sorted: "sorted_wrt (\<lambda>a b. cmp a b \<le> 0) xs \<Longrightarrow> sort_by cmp xs = xs"
proof (induction xs)
  case (Cons x xs)
  then show ?case by (cases xs) auto
qed simp

text \<open>Stability: the elements of one comparison class keep their order.\<close>

lemma insert_by_filter:
  "sorted_wrt (\<lambda>a b. cmp a b \<le> 0) xs \<Longrightarrow>
   filter (\<lambda>y. cmp y k = 0) (insert_by cmp x xs) = filter (\<lambda>y. cmp y k = 0) (x # xs)"
proof (induction xs)
  case (Cons y ys)
  show ?case
  proof (cases "cmp x y \<le> 0")
    case False
    have "\<not> (cmp x k = 0 \<and> cmp y k = 0)"
    proof
      assume eq: "cmp x k = 0 \<and> cmp y k = 0"
      then have "cmp k y \<le> 0" using cmp_flip [of k y] by linarith
      moreover have "cmp x k \<le> 0" using eq by simp
      ultimately show False using False cmp_trans by blast
    qed
    then show ?thesis using False Cons by auto
  qed simp
qed simp

lemma sort_by_stable: "filter (\<lambda>y. cmp y k = 0) (sort_by cmp xs) = filter (\<lambda>y. cmp y k = 0) xs"
  by (induction xs) (simp_all add: insert_by_filter sorted_sort_by)

text \<open>
  Where the elements that compare equal are equal, the sorted list depends only on the
  multiset: the result does not depend on the order the input arrives in.
\<close>

lemma sorted_unique:
  assumes "mset xs = mset ys"
    and "sorted_wrt (\<lambda>a b. cmp a b \<le> 0) xs" and "sorted_wrt (\<lambda>a b. cmp a b \<le> 0) ys"
    and "\<And>a b. a \<in> set xs \<Longrightarrow> b \<in> set xs \<Longrightarrow> cmp a b = 0 \<Longrightarrow> a = b"
  shows "xs = ys"
  using assms
proof (induction xs arbitrary: ys)
  case (Cons x xs)
  from Cons.prems(1) obtain y zs where ys: "ys = y # zs" by (cases ys) auto
  have sets: "insert x (set xs) = insert y (set zs)"
    using Cons.prems(1) ys by (metis list.simps(15) set_mset_mset)
  have "cmp x y \<le> 0" using Cons.prems(2) sets cmp_refl [of x] by (cases "x = y") auto
  moreover have "cmp y x \<le> 0" using Cons.prems(3) ys sets cmp_refl [of x] by (cases "x = y") auto
  ultimately have "cmp x y = 0" using cmp_flip [of y x] by linarith
  then have "x = y" using Cons.prems(4) [of x y] sets by auto
  moreover have "xs = zs" using Cons ys \<open>x = y\<close> by auto
  ultimately show ?case using ys by simp
qed simp

lemma sort_by_perm:
  assumes "mset xs = mset ys"
    and "\<And>a b. a \<in> set xs \<Longrightarrow> b \<in> set xs \<Longrightarrow> cmp a b = 0 \<Longrightarrow> a = b"
  shows "sort_by cmp xs = sort_by cmp ys"
  using assms by (intro sorted_unique) (auto intro: sorted_sort_by)

end

text \<open>Only the answers a sort actually asks for matter.\<close>

lemma insert_by_cong:
  "(\<And>y. y \<in> set xs \<Longrightarrow> c1 x y \<le> 0 \<longleftrightarrow> c2 x y \<le> 0) \<Longrightarrow> insert_by c1 x xs = insert_by c2 x xs"
  by (induction xs) auto

lemma sort_by_cong:
  "(\<And>x y. x \<in> set xs \<Longrightarrow> y \<in> set xs \<Longrightarrow> c1 x y \<le> 0 \<longleftrightarrow> c2 x y \<le> 0) \<Longrightarrow>
   sort_by c1 xs = sort_by c2 xs"
proof (induction xs)
  case (Cons x xs)
  then have "sort_by c1 xs = sort_by c2 xs" by simp
  then show ?case using Cons.prems by (auto intro!: insert_by_cong)
qed simp

text \<open>A comparison by a key that is itself compared, and one with a tie-break.\<close>

definition cmp_on :: "('a \<Rightarrow> 'k) \<Rightarrow> ('k \<Rightarrow> 'k \<Rightarrow> int) \<Rightarrow> 'a \<Rightarrow> 'a \<Rightarrow> int" where
  "cmp_on f cmp a b = cmp (f a) (f b)"

definition cmp_then :: "('a \<Rightarrow> 'a \<Rightarrow> int) \<Rightarrow> ('a \<Rightarrow> 'a \<Rightarrow> int) \<Rightarrow> 'a \<Rightarrow> 'a \<Rightarrow> int" where
  "cmp_then c1 c2 a b = (if c1 a b \<noteq> 0 then c1 a b else c2 a b)"

lemma comparator_on: "comparator cmp \<Longrightarrow> comparator (cmp_on f cmp)"
  unfolding comparator_def cmp_on_def by blast

lemma comparator_then:
  assumes a: "comparator c1" and b: "comparator c2"
  shows "comparator (cmp_then c1 c2)"
proof
  note f1 = comparator.cmp_flip [OF a] and f2 = comparator.cmp_flip [OF b]
  have z: "c1 x y = 0 \<longleftrightarrow> c1 y x = 0" for x y
    using f1 [of x y] f1 [of y x] by linarith
  show "cmp_then c1 c2 y x \<le> 0 \<longleftrightarrow> cmp_then c1 c2 x y \<ge> 0" for x y
    using f1 [of y x] f2 [of y x] z [of x y] by (simp add: cmp_then_def)
  show "cmp_then c1 c2 x z \<le> 0"
    if "cmp_then c1 c2 x y \<le> 0" and "cmp_then c1 c2 y z \<le> 0" for x y z
  proof -
    have xy: "c1 x y \<le> 0" and yz: "c1 y z \<le> 0"
      using that by (auto simp: cmp_then_def split: if_splits)
    then have xz: "c1 x z \<le> 0" by (rule comparator.cmp_trans [OF a])
    show ?thesis
    proof (cases "c1 x z = 0")
      case True
      then have zx: "c1 z x \<le> 0" using z [of x z] by linarith
      have "c1 y x \<le> 0" and "c1 z y \<le> 0"
        using comparator.cmp_trans [OF a yz zx] comparator.cmp_trans [OF a zx xy] by simp_all
      then have "c1 x y = 0" "c1 y z = 0"
        using xy yz f1 [of x y] f1 [of y x] f1 [of y z] f1 [of z y] by linarith+
      then have "c2 x y \<le> 0" "c2 y z \<le> 0"
        using that by (simp_all add: cmp_then_def)
      then have "c2 x z \<le> 0" by (rule comparator.cmp_trans [OF b])
      then show ?thesis using True by (simp add: cmp_then_def)
    qed (use xz in \<open>simp add: cmp_then_def\<close>)
  qed
qed

text \<open>Comparison of numbers by subtraction, \<^verbatim>\<open>(a, b) => a - b\<close>.\<close>

definition cmp_sub :: "int \<Rightarrow> int \<Rightarrow> int" where
  "cmp_sub a b = a - b"

interpretation sub_cmp: comparator cmp_sub
  by unfold_locales (auto simp: cmp_sub_def)

section \<open>Insertion-ordered maps\<close>

text \<open>
  A \<^verbatim>\<open>Map\<close> keeps its entries in insertion order; \<^verbatim>\<open>set\<close> on a present key replaces
  the value in place. The lookup is \<open>map_of\<close>.
\<close>

type_synonym ('k, 'v) jsmap = "('k \<times> 'v) list"

fun map_set :: "'k \<Rightarrow> 'v \<Rightarrow> ('k, 'v) jsmap \<Rightarrow> ('k, 'v) jsmap" where
  "map_set k v [] = [(k, v)]"
| "map_set k v ((k', v') # m) = (if k = k' then (k, v) # m else (k', v') # map_set k v m)"

definition map_delete :: "'k \<Rightarrow> ('k, 'v) jsmap \<Rightarrow> ('k, 'v) jsmap" where
  "map_delete k m = filter (\<lambda>(k', v). k' \<noteq> k) m"

definition map_vals :: "('k, 'v) jsmap \<Rightarrow> 'v list" where
  "map_vals m = map snd m"

lemma map_of_map_set [simp]: "map_of (map_set k v m) = (map_of m)(k \<mapsto> v)"
  by (induction m) auto

lemma map_of_map_delete [simp]: "map_of (map_delete k m) = (map_of m)(k := None)"
  by (induction m) (auto simp: map_delete_def)

definition map_wf :: "('k, 'v) jsmap \<Rightarrow> bool" where
  "map_wf m \<longleftrightarrow> distinct (map fst m)"

lemma map_wf_Nil [simp]: "map_wf []"
  by (simp add: map_wf_def)

lemma keys_map_set: "fst ` set (map_set k v m) = insert k (fst ` set m)"
proof (induction m)
  case (Cons p m)
  obtain k' v' where "p = (k', v')" by (cases p)
  then show ?case using Cons by (cases "k = k'") auto
qed simp

lemma map_wf_set [simp]: "map_wf m \<Longrightarrow> map_wf (map_set k v m)"
  unfolding map_wf_def
proof (induction m)
  case (Cons p m)
  obtain k' v' where p: "p = (k', v')" by (cases p)
  have "fst ` set (map_set k v m) = insert k (fst ` set m)" by (rule keys_map_set)
  then show ?case using Cons p by auto
qed simp

lemma map_wf_delete [simp]: "map_wf m \<Longrightarrow> map_wf (map_delete k m)"
  by (induction m) (auto simp: map_wf_def map_delete_def)

lemma map_wf_vals: "map_wf m \<Longrightarrow> v \<in> set (map_vals m) \<longleftrightarrow> (\<exists>k. map_of m k = Some v)"
  by (force simp: map_wf_def map_vals_def dest: map_of_SomeD)

text \<open>What a client of a keyed store relies on.\<close>

locale keyed_store =
  fixes lookup :: "'s \<Rightarrow> 'k \<Rightarrow> 'v option"
    and put :: "'k \<Rightarrow> 'v \<Rightarrow> 's \<Rightarrow> 's"
    and del :: "'k \<Rightarrow> 's \<Rightarrow> 's"
    and wf :: "'s \<Rightarrow> bool"
  assumes lookup_put: "wf s \<Longrightarrow> lookup (put k v s) = (lookup s)(k \<mapsto> v)"
    and lookup_del: "wf s \<Longrightarrow> lookup (del k s) = (lookup s)(k := None)"
    and wf_put: "wf s \<Longrightarrow> wf (put k v s)"
    and wf_del: "wf s \<Longrightarrow> wf (del k s)"
begin

lemma read_back: "wf s \<Longrightarrow> lookup (put k v s) k = Some v"
  by (simp add: lookup_put)

lemma put_frame: "wf s \<Longrightarrow> k' \<noteq> k \<Longrightarrow> lookup (put k v s) k' = lookup s k'"
  by (simp add: lookup_put)

lemma wf_foldl_del: "wf s \<Longrightarrow> wf (foldl (\<lambda>s k. del k s) s ks)"
  by (induction ks arbitrary: s) (auto simp: wf_del)

lemma lookup_foldl_del:
  "wf s \<Longrightarrow> lookup (foldl (\<lambda>s k. del k s) s ks) k = (if k \<in> set ks then None else lookup s k)"
  by (induction ks arbitrary: s) (auto simp: wf_del lookup_del)

lemma dom_put: "wf s \<Longrightarrow> dom (lookup (put k v s)) = insert k (dom (lookup s))"
  by (simp add: lookup_put)

end

interpretation js_store: keyed_store map_of map_set map_delete map_wf
  by unfold_locales auto

section \<open>The injected clock\<close>

text \<open>
  Operations take \<^verbatim>\<open>now: () => Date\<close>. Each call may return another time, so the clock
  is the sequence of its readings and a step consumes the ones it makes.
\<close>

type_synonym ms = int
type_synonym clock = "nat \<Rightarrow> ms"

definition tick :: "clock \<Rightarrow> ms \<times> clock" where
  "tick c = (c 0, (\<lambda>n. c (Suc n)))"

section \<open>State machines with an invariant\<close>

definition run :: "('s \<Rightarrow> 'e \<Rightarrow> 's) \<Rightarrow> 's \<Rightarrow> 'e list \<Rightarrow> 's" where
  "run step s es = foldl step s es"

lemma run_simps [simp]:
  "run step s [] = s"
  "run step s (e # es) = run step (step s e) es"
  by (simp_all add: run_def)

lemma run_append: "run step s (es @ fs) = run step (run step s es) fs"
  by (simp add: run_def)

text \<open>The states a run visits, first and last included.\<close>

fun trace :: "('s \<Rightarrow> 'e \<Rightarrow> 's) \<Rightarrow> 's \<Rightarrow> 'e list \<Rightarrow> 's list" where
  "trace step s [] = [s]"
| "trace step s (e # es) = s # trace step (step s e) es"

lemma run_in_trace: "run step s es \<in> set (trace step s es)"
  by (induction es arbitrary: s) auto

lemma trace_prefix:
  "t \<in> set (trace step s es) \<Longrightarrow> \<exists>fs gs. es = fs @ gs \<and> t = run step s fs"
proof (induction es arbitrary: s)
  case (Cons e es)
  show ?case
  proof (cases "t = s")
    case True
    then have "e # es = [] @ (e # es) \<and> t = run step s []" by simp
    then show ?thesis by blast
  next
    case False
    with Cons.prems have "t \<in> set (trace step (step s e) es)" by simp
    from Cons.IH [OF this] obtain fs gs where "es = fs @ gs" "t = run step (step s e) fs" by blast
    then have "e # es = (e # fs) @ gs \<and> t = run step s (e # fs)" by simp
    then show ?thesis by blast
  qed
qed simp

locale invariant_machine =
  fixes step :: "'s \<Rightarrow> 'e \<Rightarrow> 's" and inv :: "'s \<Rightarrow> bool"
  assumes inv_step: "inv s \<Longrightarrow> inv (step s e)"
begin

lemma inv_run: "inv s \<Longrightarrow> inv (run step s es)"
  by (induction es arbitrary: s) (auto intro: inv_step)

lemma inv_trace: "inv s \<Longrightarrow> t \<in> set (trace step s es) \<Longrightarrow> inv t"
  using trace_prefix [of t step s es] inv_run by blast

end

text \<open>A machine some of whose states only certain events can leave.\<close>

locale absorbing_machine =
  fixes step :: "'s \<Rightarrow> 'e \<Rightarrow> 's" and final :: "'s \<Rightarrow> bool" and leaves :: "'e \<Rightarrow> bool"
  assumes final_stays: "final s \<Longrightarrow> \<not> leaves e \<Longrightarrow> step s e = s"
begin

lemma final_run: "final s \<Longrightarrow> \<forall>e \<in> set es. \<not> leaves e \<Longrightarrow> run step s es = s"
  by (induction es arbitrary: s) (auto simp: final_stays)

end

end
