(* ===== verification/JsNumber.thy ===== *)
theory JsNumber
  imports Complex_Main Prelude "HOL-Library.Log_Nat"
begin

text \<open>
  JavaScript numbers: IEEE-754 doubles with their special values, over exact rationals and
  an explicit rounding to nearest, ties to even. The arithmetic below is the fragment the
  money code uses: \<^verbatim>\<open>*\<close>, \<^verbatim>\<open>/\<close>, \<^verbatim>\<open>+\<close>, \<^verbatim>\<open>-\<close>, comparison, \<^verbatim>\<open>Math.round\<close>, \<^verbatim>\<open>Math.abs\<close>,
  \<^verbatim>\<open>Number.isFinite\<close>, \<^verbatim>\<open>Number.isInteger\<close>. The lemmas bound the error of one rounding, which
  is what the conversions between Baht and satang rest on. Dynamically typed values (the
  \<^verbatim>\<open>unknown\<close> of the source) are \<open>jsval\<close>.
\<close>

section \<open>Doubles\<close>

text \<open>\<open>Fin 0\<close> is \<^verbatim>\<open>+0\<close>; the other zero is a constructor of its own.\<close>

datatype jsnum = NaN | PosInf | NegInf | NegZero | Fin rat

text \<open>The exponent of the leading bit of a positive rational.\<close>

definition ilog2 :: "rat \<Rightarrow> int" where
  "ilog2 r = (let (p, q) = quotient_of r; k = bitlen p - bitlen q
              in if 2 powi k \<le> r then k else k - 1)"

definition round_half_even :: "rat \<Rightarrow> int" where
  "round_half_even x = (let f = \<lfloor>x\<rfloor>; d = x - of_int f in
     if d < 1/2 then f else if d > 1/2 then f + 1 else if even f then f else f + 1)"

text \<open>The exponent of the last place of the double nearest to \<open>r\<close>: 53 significant bits, not
  below the subnormal limit.\<close>

definition ulp_exp :: "rat \<Rightarrow> int" where
  "ulp_exp r = max (ilog2 \<bar>r\<bar> - 52) (- 1074)"

definition fl :: "rat \<Rightarrow> jsnum" where
  "fl r = (if r = 0 then Fin 0 else
     let e = ulp_exp r; m = round_half_even (r / 2 powi e); v = of_int m * 2 powi e in
     if \<bar>v\<bar> \<ge> 2 powi 1024 then (if r > 0 then PosInf else NegInf)
     else if m = 0 then (if r < 0 then NegZero else Fin 0)
     else Fin v)"

fun num_val :: "jsnum \<Rightarrow> rat" where
  "num_val (Fin r) = r"
| "num_val _ = 0"

fun sign_neg :: "jsnum \<Rightarrow> bool" where
  "sign_neg (Fin r) = (r < 0)"
| "sign_neg NegZero = True"
| "sign_neg NegInf = True"
| "sign_neg _ = False"

definition signed_zero :: "bool \<Rightarrow> jsnum" where
  "signed_zero b = (if b then NegZero else Fin 0)"

definition signed_inf :: "bool \<Rightarrow> jsnum" where
  "signed_inf b = (if b then NegInf else PosInf)"

fun isFinite :: "jsnum \<Rightarrow> bool" where
  "isFinite (Fin _) = True"
| "isFinite NegZero = True"
| "isFinite _ = False"

definition isInteger :: "jsnum \<Rightarrow> bool" where
  "isInteger x \<longleftrightarrow> isFinite x \<and> of_int \<lfloor>num_val x\<rfloor> = num_val x"

definition js_mul :: "jsnum \<Rightarrow> jsnum \<Rightarrow> jsnum" where
  "js_mul a b =
    (if a = NaN \<or> b = NaN then NaN
     else let s = (sign_neg a \<noteq> sign_neg b) in
       if isFinite a \<and> isFinite b then
         (if num_val a * num_val b = 0 then signed_zero s else fl (num_val a * num_val b))
       else if (isFinite a \<and> num_val a = 0) \<or> (isFinite b \<and> num_val b = 0) then NaN
       else signed_inf s)"

definition js_div :: "jsnum \<Rightarrow> jsnum \<Rightarrow> jsnum" where
  "js_div a b =
    (if a = NaN \<or> b = NaN then NaN
     else let s = (sign_neg a \<noteq> sign_neg b) in
       if isFinite a then
         (if \<not> isFinite b then signed_zero s
          else if num_val b = 0 then (if num_val a = 0 then NaN else signed_inf s)
          else if num_val a = 0 then signed_zero s else fl (num_val a / num_val b))
       else if isFinite b then signed_inf s else NaN)"

fun js_neg :: "jsnum \<Rightarrow> jsnum" where
  "js_neg (Fin r) = (if r = 0 then NegZero else Fin (- r))"
| "js_neg NegZero = Fin 0"
| "js_neg PosInf = NegInf"
| "js_neg NegInf = PosInf"
| "js_neg NaN = NaN"

definition js_add :: "jsnum \<Rightarrow> jsnum \<Rightarrow> jsnum" where
  "js_add a b =
    (if a = NaN \<or> b = NaN then NaN
     else if isFinite a \<and> isFinite b then
       (if a = NegZero \<and> b = NegZero then NegZero else fl (num_val a + num_val b))
     else if isFinite a then b else if isFinite b then a
     else if a = b then a else NaN)"

definition js_sub :: "jsnum \<Rightarrow> jsnum \<Rightarrow> jsnum" where
  "js_sub a b = js_add a (js_neg b)"

fun js_abs :: "jsnum \<Rightarrow> jsnum" where
  "js_abs (Fin r) = Fin \<bar>r\<bar>"
| "js_abs NegZero = Fin 0"
| "js_abs NegInf = PosInf"
| "js_abs x = x"

definition js_lt :: "jsnum \<Rightarrow> jsnum \<Rightarrow> bool" where
  "js_lt a b \<longleftrightarrow> a \<noteq> NaN \<and> b \<noteq> NaN \<and>
     (if isFinite a \<and> isFinite b then num_val a < num_val b
      else a \<noteq> b \<and> (a = NegInf \<or> b = PosInf))"

definition js_eq :: "jsnum \<Rightarrow> jsnum \<Rightarrow> bool" where
  "js_eq a b \<longleftrightarrow> a \<noteq> NaN \<and> b \<noteq> NaN \<and>
     (if isFinite a \<and> isFinite b then num_val a = num_val b else a = b)"

definition js_le :: "jsnum \<Rightarrow> jsnum \<Rightarrow> bool" where
  "js_le a b \<longleftrightarrow> js_lt a b \<or> js_eq a b"

text \<open>\<^verbatim>\<open>Math.round\<close>: the nearest integer, ties upwards; \<^verbatim>\<open>-0\<close> on \<open>[-0.5, 0)\<close>.\<close>

fun math_round :: "jsnum \<Rightarrow> jsnum" where
  "math_round (Fin r) =
     (let k = \<lfloor>r + 1/2\<rfloor> in if k = 0 \<and> r < 0 then NegZero else Fin (of_int k))"
| "math_round x = x"

text \<open>\<^verbatim>\<open>Number(n)\<close> of a big integer.\<close>

definition number_of_bigint :: "int \<Rightarrow> jsnum" where
  "number_of_bigint n = fl (of_int n)"

text \<open>Numeric literals round to nearest as well.\<close>

definition lit :: "rat \<Rightarrow> jsnum" where
  "lit r = fl r"

section \<open>Values of unknown type\<close>

datatype jsval =
  JUndef | JNull | JBool bool | JNum jsnum | JStr jsstr | JArr "jsval list" | JObj "(jsstr \<times> jsval) list"

text \<open>Reading an own property of a value.\<close>

fun get_prop :: "jsval \<Rightarrow> jsstr \<Rightarrow> jsval" where
  "get_prop (JObj fs) k = (case map_of fs k of Some v \<Rightarrow> v | None \<Rightarrow> JUndef)"
| "get_prop _ k = JUndef"

fun is_str :: "jsval \<Rightarrow> bool" where
  "is_str (JStr _) = True"
| "is_str _ = False"

section \<open>Exceptions\<close>

text \<open>Built-in operations that throw return \<open>Inl\<close>; \<open>and_then\<close> sequences them.\<close>

datatype js_error = TypeError | RangeError

definition and_then :: "'e + 'a \<Rightarrow> ('a \<Rightarrow> 'e + 'b) \<Rightarrow> 'e + 'b" where
  "and_then r f = (case r of Inl e \<Rightarrow> Inl e | Inr x \<Rightarrow> f x)"

lemma and_then_simps [simp]: "and_then (Inl e) f = Inl e" "and_then (Inr x) f = f x"
  by (simp_all add: and_then_def)

lemma and_then_Inr_iff: "and_then r f = Inr y \<longleftrightarrow> (\<exists>x. r = Inr x \<and> f x = Inr y)"
  by (cases r) auto

fun map_result :: "('a \<Rightarrow> 'e + 'b) \<Rightarrow> 'a list \<Rightarrow> 'e + 'b list" where
  "map_result f [] = Inr []"
| "map_result f (x # xs) = and_then (f x) (\<lambda>y. and_then (map_result f xs) (\<lambda>ys. Inr (y # ys)))"

fun fold_result :: "('b \<Rightarrow> 'a \<Rightarrow> 'e + 'b) \<Rightarrow> 'b \<Rightarrow> 'a list \<Rightarrow> 'e + 'b" where
  "fold_result f s [] = Inr s"
| "fold_result f s (x # xs) = and_then (f s x) (\<lambda>t. fold_result f t xs)"

lemma map_result_cong [fundef_cong]:
  "xs = ys \<Longrightarrow> (\<And>x. x \<in> set ys \<Longrightarrow> f x = g x) \<Longrightarrow> map_result f xs = map_result g ys"
  by (induction xs arbitrary: ys) auto

lemma map_result_total: "(\<And>x. x \<in> set xs \<Longrightarrow> f x = Inr (g x)) \<Longrightarrow> map_result f xs = Inr (map g xs)"
  by (induction xs) auto

lemma fold_result_total:
  "(\<And>s x. x \<in> set xs \<Longrightarrow> f s x = Inr (g s x)) \<Longrightarrow> fold_result f s xs = Inr (foldl g s xs)"
  by (induction xs arbitrary: s) auto

text \<open>\<^verbatim>\<open>BigInt(x)\<close> throws a \<^verbatim>\<open>RangeError\<close> on a number that is not integral.\<close>

definition BigInt :: "jsnum \<Rightarrow> js_error + int" where
  "BigInt x = (if isInteger x then Inr \<lfloor>num_val x\<rfloor> else Inl RangeError)"

text \<open>Truthiness, and \<^verbatim>\<open>String(v ?? '')\<close>. The decimal rendering of numbers is the argument \<open>fmt\<close>.
  An object read from JSON is rendered by the inherited \<^verbatim>\<open>toString\<close>; an own property of
  that name is never callable, and the conversion then throws.\<close>

fun js_truthy :: "jsval \<Rightarrow> bool" where
  "js_truthy JUndef = False"
| "js_truthy JNull = False"
| "js_truthy (JBool b) = b"
| "js_truthy (JNum n) = (n \<noteq> NaN \<and> num_val n \<noteq> 0 \<or> n = PosInf \<or> n = NegInf)"
| "js_truthy (JStr s) = (s \<noteq> [])"
| "js_truthy _ = True"

definition is_nullish :: "jsval \<Rightarrow> bool" where
  "is_nullish v \<longleftrightarrow> v = JUndef \<or> v = JNull"

fun join_comma :: "jsstr list \<Rightarrow> jsstr" where
  "join_comma [] = []"
| "join_comma [s] = s"
| "join_comma (s # ss) = s @ js '','' @ join_comma ss"

function js_String :: "(jsnum \<Rightarrow> jsstr) \<Rightarrow> jsval \<Rightarrow> js_error + jsstr" where
  "js_String fmt JUndef = Inr []"
| "js_String fmt JNull = Inr []"
| "js_String fmt (JBool b) = Inr (js (if b then ''true'' else ''false''))"
| "js_String fmt (JNum n) = Inr (fmt n)"
| "js_String fmt (JStr s) = Inr s"
| "js_String fmt (JArr vs) =
    and_then (map_result (js_String fmt) vs) (\<lambda>ss. Inr (join_comma ss))"
| "js_String fmt (JObj fs) =
    (if map_of fs (js ''toString'') \<noteq> None then Inl TypeError else Inr (js ''[object Object]''))"
  by pat_completeness auto
termination by (relation "measure (\<lambda>(_, v). size v)") (auto dest: size_list_estimation' [where f = size])

text \<open>The sign a comparison function's numeric result has for \<^verbatim>\<open>sort\<close> (\<^verbatim>\<open>NaN\<close> counts as 0).\<close>

fun js_sgn :: "jsnum \<Rightarrow> int" where
  "js_sgn (Fin r) = (if r > 0 then 1 else if r < 0 then -1 else 0)"
| "js_sgn PosInf = 1"
| "js_sgn NegInf = -1"
| "js_sgn _ = 0"

section \<open>Rounding\<close>

lemma powi_mono: "m \<le> n \<Longrightarrow> (2::rat) powi m \<le> 2 powi n"
  by (rule power_int_increasing) simp_all

lemma powi_pos [simp]: "(2::rat) powi n > 0"
  by (simp add: zero_less_power_int)

lemma powi_nz [simp]: "(2::rat) powi n \<noteq> 0"
  by simp

lemma ilog2_bounds:
  assumes "0 < r"
  shows "2 powi ilog2 r \<le> r" and "r < 2 powi (ilog2 r + 1)"
proof -
  obtain p q where pq: "quotient_of r = (p, q)" by (cases "quotient_of r")
  have q: "0 < q" and r: "r = of_int p / of_int q"
    using quotient_of_denom_pos [OF pq] quotient_of_div [OF pq] by auto
  have p: "0 < p" using assms q r by (simp add: zero_less_divide_iff)
  define k where "k = bitlen p - bitlen q"
  have bp: "1 \<le> bitlen p" and bq: "1 \<le> bitlen q"
    using p q bitlen_eq_zero_iff bitlen_nonneg by (smt (verit))+
  have P: "2 powi (bitlen p - 1) \<le> (of_int p :: rat)" "(of_int p :: rat) < 2 powi bitlen p"
  proof -
    have "2 ^ nat (bitlen p - 1) \<le> p \<and> p < 2 ^ nat (bitlen p)"
      using bitlen_bounds [OF p] .
    then have "of_int (2 ^ nat (bitlen p - 1)) \<le> (of_int p :: rat)"
      "(of_int p :: rat) < of_int (2 ^ nat (bitlen p))" by (simp_all only: of_int_le_iff of_int_less_iff)
    then show "2 powi (bitlen p - 1) \<le> (of_int p :: rat)" "(of_int p :: rat) < 2 powi bitlen p"
      using bp by (simp_all add: power_int_def)
  qed
  have Q: "2 powi (bitlen q - 1) \<le> (of_int q :: rat)" "(of_int q :: rat) < 2 powi bitlen q"
  proof -
    have "2 ^ nat (bitlen q - 1) \<le> q \<and> q < 2 ^ nat (bitlen q)"
      using bitlen_bounds [OF q] .
    then have "of_int (2 ^ nat (bitlen q - 1)) \<le> (of_int q :: rat)"
      "(of_int q :: rat) < of_int (2 ^ nat (bitlen q))" by (simp_all only: of_int_le_iff of_int_less_iff)
    then show "2 powi (bitlen q - 1) \<le> (of_int q :: rat)" "(of_int q :: rat) < 2 powi bitlen q"
      using bq by (simp_all add: power_int_def)
  qed
  have low: "2 powi (k - 1) \<le> r"
  proof -
    have "2 powi (k - 1) = (2 powi (bitlen p - 1) / 2 powi bitlen q :: rat)"
      unfolding k_def by (simp add: power_int_diff [symmetric] algebra_simps)
    also have "\<dots> \<le> of_int p / of_int q"
      using P(1) Q(2) p q by (intro frac_le) auto
    finally show ?thesis using r by simp
  qed
  have high: "r < 2 powi (k + 1)"
  proof -
    have "of_int p / of_int q < (2 powi bitlen p / 2 powi (bitlen q - 1) :: rat)"
      using P(2) Q(1) p by (intro frac_less) auto
    also have "\<dots> = 2 powi (k + 1)"
      unfolding k_def by (simp add: power_int_diff [symmetric] algebra_simps)
    finally show ?thesis using r by simp
  qed
  have il: "ilog2 r = (if 2 powi k \<le> r then k else k - 1)"
    by (simp add: ilog2_def pq k_def)
  show "2 powi ilog2 r \<le> r" "r < 2 powi (ilog2 r + 1)"
    using low high il by auto
qed

lemma ilog2_le:
  assumes "0 < r" "r < 2 powi n"
  shows "ilog2 r < n"
proof (rule ccontr)
  assume "\<not> ilog2 r < n"
  then have "2 powi n \<le> (2 powi ilog2 r :: rat)" by (intro powi_mono) simp
  with ilog2_bounds(1) [OF assms(1)] assms(2) show False by simp
qed

lemma ilog2_ge:
  assumes "2 powi n \<le> r"
  shows "n \<le> ilog2 r"
proof (rule ccontr)
  assume "\<not> n \<le> ilog2 r"
  then have "2 powi (ilog2 r + 1) \<le> (2 powi n :: rat)" by (intro powi_mono) simp
  moreover have "0 < r" using assms powi_pos [of n] by linarith
  ultimately show False using ilog2_bounds(2) [of r] assms by simp
qed

lemma round_half_even_error: "\<bar>of_int (round_half_even x) - x\<bar> \<le> 1/2"
proof -
  have "of_int \<lfloor>x\<rfloor> \<le> x" "x < of_int \<lfloor>x\<rfloor> + 1" by linarith+
  then show ?thesis by (auto simp: round_half_even_def Let_def abs_le_iff)
qed

lemma round_half_even_of_int [simp]: "round_half_even (of_int k) = k"
  by (simp add: round_half_even_def Let_def)

lemma round_half_even_ge: "of_int k \<le> x \<Longrightarrow> k \<le> round_half_even x"
proof -
  assume "of_int k \<le> x"
  then have "k \<le> \<lfloor>x\<rfloor>" by linarith
  then show ?thesis by (auto simp: round_half_even_def Let_def)
qed

lemma round_half_even_le: "x \<le> of_int k \<Longrightarrow> round_half_even x \<le> k"
proof -
  assume a: "x \<le> of_int k"
  show ?thesis
  proof (cases "\<lfloor>x\<rfloor> = k")
    case True
    then have "x = of_int k" using a by linarith
    then show ?thesis by simp
  next
    case False
    then have "\<lfloor>x\<rfloor> + 1 \<le> k" using a by linarith
    then show ?thesis by (auto simp: round_half_even_def Let_def)
  qed
qed

text \<open>The value a rounding produces, apart from overflow.\<close>

definition fl_val :: "rat \<Rightarrow> rat" where
  "fl_val r = of_int (round_half_even (r / 2 powi ulp_exp r)) * 2 powi ulp_exp r"

lemma fl_val_error: "\<bar>fl_val r - r\<bar> \<le> 2 powi ulp_exp r / 2"
proof -
  let ?u = "2 powi ulp_exp r :: rat"
  let ?m = "of_int (round_half_even (r / ?u)) :: rat"
  have "fl_val r - r = (?m - r / ?u) * ?u"
    by (simp add: fl_val_def algebra_simps)
  then have "\<bar>fl_val r - r\<bar> = \<bar>?m - r / ?u\<bar> * ?u" by (simp add: abs_mult)
  also have "\<dots> \<le> 1/2 * ?u"
    using round_half_even_error [of "r / ?u"] by (intro mult_right_mono) auto
  finally show ?thesis by simp
qed

lemma fl_val_exact: "r = of_int k * 2 powi ulp_exp r \<Longrightarrow> fl_val r = r"
  by (metis fl_val_def nonzero_mult_div_cancel_right powi_nz round_half_even_of_int)

lemma fl_val_bound:
  assumes "0 < r" "r < 2 powi n" "-1022 \<le> n"
  shows "fl_val r \<le> 2 powi n" "0 \<le> fl_val r"
proof -
  let ?e = "ulp_exp r"
  have "ilog2 r < n" by (rule ilog2_le) fact+
  then have e: "?e \<le> n" using assms by (simp add: ulp_exp_def)
  have "r / 2 powi ?e \<le> of_int (2 ^ nat (n - ?e))"
  proof -
    have "r / 2 powi ?e \<le> 2 powi n / 2 powi ?e"
      using assms by (intro divide_right_mono) auto
    also have "\<dots> = (2 powi (n - ?e) :: rat)" by (simp add: power_int_diff)
    also have "\<dots> = of_int (2 ^ nat (n - ?e))" using e by (simp add: power_int_def)
    finally show ?thesis .
  qed
  then have "round_half_even (r / 2 powi ?e) \<le> 2 ^ nat (n - ?e)" by (rule round_half_even_le)
  then have "of_int (round_half_even (r / 2 powi ?e)) \<le> (of_int (2 ^ nat (n - ?e)) :: rat)"
    by (simp only: of_int_le_iff)
  also have "\<dots> = 2 powi (n - ?e)" using e by (simp add: power_int_def)
  finally have "fl_val r \<le> 2 powi (n - ?e) * 2 powi ?e"
    unfolding fl_val_def by (intro mult_right_mono) auto
  also have "\<dots> = 2 powi n" by (simp add: power_int_add [symmetric])
  finally show "fl_val r \<le> 2 powi n" .
  have "0 \<le> round_half_even (r / 2 powi ?e)"
    using assms by (intro round_half_even_ge) simp
  then show "0 \<le> fl_val r" by (simp add: fl_val_def)
qed

lemma fl_val_ge_one: "1 \<le> r \<Longrightarrow> 1 \<le> fl_val r"
proof -
  assume r: "1 \<le> r"
  let ?e = "ulp_exp r"
  show ?thesis
  proof (cases "?e \<le> 0")
    case True
    have "of_int (2 ^ nat (- ?e)) \<le> r / 2 powi ?e"
    proof -
      have "(1::rat) / 2 powi ?e \<le> r / 2 powi ?e" using r by (intro divide_right_mono) auto
      moreover have "(1::rat) / 2 powi ?e = of_int (2 ^ nat (- ?e))"
        using True by (cases "?e = 0") (simp_all add: power_int_def field_simps)
      ultimately show ?thesis by simp
    qed
    then have "2 ^ nat (- ?e) \<le> round_half_even (r / 2 powi ?e)" by (rule round_half_even_ge)
    then have "of_int (2 ^ nat (- ?e)) \<le> (of_int (round_half_even (r / 2 powi ?e)) :: rat)"
      by (simp only: of_int_le_iff)
    then have "of_int (2 ^ nat (- ?e)) * 2 powi ?e \<le> fl_val r"
      unfolding fl_val_def by (intro mult_right_mono) auto
    moreover have "of_int (2 ^ nat (- ?e)) * 2 powi ?e = (1::rat)"
      using True by (cases "?e = 0") (simp_all add: power_int_def field_simps)
    ultimately show ?thesis by simp
  next
    case False
    have "?e \<le> ilog2 r" using r False by (auto simp: ulp_exp_def)
    then have "2 powi ?e \<le> r" using ilog2_bounds(1) [of r] r powi_mono [of ?e "ilog2 r"] by linarith
    then have "of_int 1 \<le> r / 2 powi ?e" by simp
    then have "1 \<le> round_half_even (r / 2 powi ?e)" by (rule round_half_even_ge)
    then have "of_int 1 * 2 powi ?e \<le> fl_val r"
      unfolding fl_val_def by (intro mult_right_mono) auto
    moreover have "(1::rat) \<le> 2 powi ?e" using False powi_mono [of 0 ?e] by simp
    ultimately show ?thesis by simp
  qed
qed

lemma fl_pos:
  assumes "0 \<le> r" "r < 2 powi 1023"
  shows "fl r = Fin (fl_val r)"
proof (cases "r = 0")
  case True
  then show ?thesis using round_half_even_of_int [of 0] by (simp add: fl_def fl_val_def)
next
  case False
  then have r: "0 < r" using assms by simp
  have "\<bar>fl_val r\<bar> \<le> 2 powi 1023" using fl_val_bound [OF r assms(2)] by simp
  also have "\<dots> < 2 powi 1024" by (rule power_int_strict_increasing) simp_all
  finally have "\<not> 2 powi 1024 \<le> \<bar>fl_val r\<bar>" by simp
  then show ?thesis using r by (simp add: fl_def fl_val_def Let_def)
qed

text \<open>Relative error of one rounding in the normal range, and exactness on small integers.\<close>

lemma fl_rel_error_nz:
  assumes "r \<noteq> 0"
  shows "\<bar>fl_val r - r\<bar> \<le> max (\<bar>r\<bar> * 2 powi -53) (2 powi -1075)"
proof -
  have "2 powi ulp_exp r / 2 \<le> max (\<bar>r\<bar> * 2 powi -53) (2 powi -1075 :: rat)"
  proof (cases "ilog2 \<bar>r\<bar> - 52 \<ge> - 1074")
    case True
    then have e: "ulp_exp r = ilog2 \<bar>r\<bar> + (- 52)"
      using assms by (simp add: ulp_exp_def)
    have u: "2 powi ulp_exp r = (2 powi ilog2 \<bar>r\<bar> * 2 powi (-52) :: rat)"
      unfolding e by (rule power_int_add) simp
    have "2 powi ulp_exp r / 2 = (2 powi ilog2 \<bar>r\<bar> * 2 powi (-53) :: rat)"
      unfolding u by (simp add: power_int_def power_divide)
    also have "\<dots> \<le> \<bar>r\<bar> * 2 powi (-53)"
      using ilog2_bounds(1) [of "\<bar>r\<bar>"] assms by (intro mult_right_mono) auto
    finally show ?thesis by (rule order_trans [OF _ max.cobounded1])
  next
    case False
    then have "ulp_exp r = - 1074" using assms by (simp add: ulp_exp_def)
    moreover have "(2 powi (-1074) / 2 :: rat) = 2 powi (-1075)"
      using power_int_add [of "2::rat" "-1074" "-1"] by (simp add: power_int_def)
    ultimately show ?thesis by (simp only: max.cobounded2)
  qed
  then show ?thesis using fl_val_error [of r] by linarith
qed

lemma fl_rel_error: "\<bar>fl_val r - r\<bar> \<le> max (\<bar>r\<bar> * 2 powi -53) (2 powi -1075)"
proof (cases "r = 0")
  case True
  then show ?thesis using round_half_even_of_int [of 0] by (simp add: fl_val_def le_max_iff_disj)
qed (rule fl_rel_error_nz)

lemma fl_fin:
  assumes "\<bar>r\<bar> < 2 powi 1023"
  shows "isFinite (fl r)" and "num_val (fl r) = fl_val r"
proof -
  have "\<bar>fl_val r\<bar> \<le> \<bar>r\<bar> + max (\<bar>r\<bar> * 2 powi -53) (2 powi -1075)"
    using fl_rel_error [of r] by linarith
  moreover have "max (\<bar>r\<bar> * 2 powi -53) (2 powi -1075) \<le> max \<bar>r\<bar> (1::rat)"
    by (intro max.mono mult_left_le) (simp_all add: power_int_def power_le_one)
  moreover have "max \<bar>r\<bar> 1 < (2 powi 1023 :: rat)"
    using assms power_int_strict_increasing [of 0 1023 "2::rat"] by (simp add: max_def)
  moreover have "2 powi 1023 + 2 powi 1023 = (2 powi 1024 :: rat)"
    using power_int_add [of "2::rat" 1023 1] by simp
  ultimately have "\<not> 2 powi 1024 \<le> \<bar>fl_val r\<bar>" using assms by linarith
  then show "isFinite (fl r)" "num_val (fl r) = fl_val r"
    using round_half_even_of_int [of 0]
    by (auto simp: fl_def fl_val_def Let_def)
qed

lemma fl_nat:
  assumes "0 \<le> n" "n < 2 ^ 53"
  shows "fl (of_int n) = Fin (of_int n)"
proof (cases "n = 0")
  case False
  let ?r = "of_int n :: rat"
  have r: "0 < ?r" using assms False by simp
  have "?r < of_int (2 ^ 53)" using assms by (simp only: of_int_less_iff)
  then have lt: "?r < 2 powi 53" by (simp add: power_int_def)
  have "ilog2 ?r < 53" by (rule ilog2_le [OF r lt])
  then have e: "ulp_exp ?r \<le> 0" using r by (simp add: ulp_exp_def)
  have "?r = of_int (n * 2 ^ nat (- ulp_exp ?r)) * 2 powi ulp_exp ?r"
    using e by (cases "ulp_exp ?r = 0") (simp_all add: power_int_def field_simps)
  then have "fl_val ?r = ?r" by (rule fl_val_exact)
  moreover have "?r < 2 powi 1023" using lt powi_mono [of 53 1023] by linarith
  ultimately show ?thesis using fl_pos [of ?r] r by simp
qed (simp add: fl_def)

text \<open>A linear form of the error bound.\<close>

lemma fl_err: "\<bar>fl_val r - r\<bar> \<le> \<bar>r\<bar> / 9007199254740992 + 1 / 10 ^ 30"
proof -
  have "(2 powi (-1075) :: rat) \<le> 2 powi (-100)" by (rule powi_mono) simp
  also have "\<dots> \<le> 1 / 10 ^ 30" by (simp add: power_int_def power_divide)
  finally have "max (\<bar>r\<bar> * 2 powi -53) (2 powi -1075) \<le> \<bar>r\<bar> * 2 powi -53 + 1 / 10 ^ 30"
    by (auto simp: max_def)
  moreover have "\<bar>r\<bar> * 2 powi -53 = \<bar>r\<bar> / 9007199254740992"
    by (simp add: power_int_def power_divide)
  ultimately show ?thesis using fl_rel_error [of r] by linarith
qed

lemma ulp_exp_eq:
  assumes "2 powi k \<le> r" "r < 2 powi (k + 1)" "-1022 \<le> k"
  shows "ulp_exp r = k - 52"
proof -
  have r: "0 < r" using assms(1) powi_pos [of k] by linarith
  have "ilog2 r = k" using ilog2_ge [OF assms(1)] ilog2_le [OF r assms(2)] by simp
  then show ?thesis using r assms(3) by (simp add: ulp_exp_def)
qed

lemma ulp_exp_le:
  assumes "0 < r" "r < 2 powi (k + 1)" "-1022 \<le> k"
  shows "ulp_exp r \<le> k - 52"
  using ilog2_le [OF assms(1,2)] assms by (simp add: ulp_exp_def)

lemma small_lt_max: "\<bar>r\<bar> \<le> 10 ^ 30 \<Longrightarrow> \<bar>r\<bar> < (2 powi 1023 :: rat)"
proof -
  assume "\<bar>r\<bar> \<le> (10 ^ 30 :: rat)"
  moreover have "(10 ^ 30 :: rat) < 2 powi 100" by (simp add: power_int_def)
  moreover have "(2 powi 100 :: rat) \<le> 2 powi 1023" by (rule powi_mono) simp
  ultimately show ?thesis by linarith
qed

lemma fl_nonneg: "0 \<le> r \<Longrightarrow> r \<le> 10 ^ 30 \<Longrightarrow> fl r = Fin (fl_val r) \<and> 0 \<le> fl_val r"
proof -
  assume r: "0 \<le> r" "r \<le> 10 ^ 30"
  then have lt: "r < 2 powi 1023" using small_lt_max [of r] by simp
  have "0 \<le> fl_val r"
  proof (cases "r = 0")
    case True
    then show ?thesis using round_half_even_of_int [of 0] by (simp add: fl_val_def)
  next
    case False
    then show ?thesis using fl_val_bound(2) [of r 1023] r lt by simp
  qed
  then show ?thesis using fl_pos [OF r(1) lt] by simp
qed

section \<open>Arithmetic on ordinary values\<close>

lemma fl_0 [simp]: "fl 0 = Fin 0"
  by (simp add: fl_def)

lemma fl_val_0 [simp]: "fl_val 0 = 0"
  using round_half_even_of_int [of 0] by (simp add: fl_val_def)

lemma lit_nat: "lit (numeral k) = Fin (numeral k)" if "(numeral k :: int) < 2 ^ 53"
  using fl_nat [of "numeral k"] that by (simp add: lit_def)

lemma js_mul_Fin: "0 \<le> a \<Longrightarrow> 0 \<le> b \<Longrightarrow> js_mul (Fin a) (Fin b) = fl (a * b)"
  by (auto simp: js_mul_def signed_zero_def Let_def)

lemma js_div_Fin: "0 \<le> a \<Longrightarrow> 0 < b \<Longrightarrow> js_div (Fin a) (Fin b) = fl (a / b)"
  by (auto simp: js_div_def signed_zero_def Let_def)

lemma js_add_Fin: "js_add (Fin a) (Fin b) = fl (a + b)"
  by (simp add: js_add_def)

lemma js_sub_Fin: "js_sub (Fin a) (Fin b) = fl (a - b)"
  by (auto simp: js_sub_def js_add_def)

lemma num_val_js_abs: "isFinite x \<Longrightarrow> num_val (js_abs x) = \<bar>num_val x\<bar>"
  by (cases x) auto

lemma isFinite_js_abs [simp]: "isFinite (js_abs x) = isFinite x"
  by (cases x) auto

lemma js_lt_finite: "isFinite a \<Longrightarrow> isFinite b \<Longrightarrow> js_lt a b \<longleftrightarrow> num_val a < num_val b"
  by (auto simp: js_lt_def)

lemma js_eq_finite: "isFinite a \<Longrightarrow> isFinite b \<Longrightarrow> js_eq a b \<longleftrightarrow> num_val a = num_val b"
  by (auto simp: js_eq_def)

lemma math_round_near:
  assumes "0 \<le> s" "\<bar>s - of_int n\<bar> < 1/2"
  shows "math_round (Fin s) = Fin (of_int n)"
proof -
  have "\<lfloor>s + 1/2\<rfloor> = n" unfolding floor_eq_iff using assms(2) by linarith
  then show ?thesis using assms(1) by (simp add: Let_def)
qed

lemma BigInt_int [simp]: "BigInt (Fin (of_int n)) = Inr n"
  by (simp add: BigInt_def isInteger_def)

lemma BigInt_math_round: "isFinite x \<Longrightarrow> \<exists>n. BigInt (math_round x) = Inr n"
  by (cases x) (auto simp: BigInt_def isInteger_def Let_def)

text \<open>Evaluating one rounding from the position of its leading bit.\<close>

lemma round_half_even_near: "\<bar>x - of_int k\<bar> < 1/2 \<Longrightarrow> round_half_even x = k"
proof -
  assume "\<bar>x - of_int k\<bar> < 1/2"
  moreover have "\<bar>of_int (round_half_even x) - x\<bar> \<le> 1/2" by (rule round_half_even_error)
  ultimately have "\<bar>of_int (round_half_even x) - of_int k :: rat\<bar> < of_int 1" by linarith
  then have "\<bar>round_half_even x - k\<bar> < 1" by (simp only: of_int_diff [symmetric] of_int_abs [symmetric] of_int_less_iff)
  then show ?thesis by simp
qed

lemma fl_val_eval:
  assumes "ulp_exp r = - int e" and "\<bar>r * 2 ^ e - of_int k\<bar> < 1/2"
  shows "fl_val r = of_int k / 2 ^ e"
proof -
  have p: "(2 powi (- int e) :: rat) = 1 / 2 ^ e"
    by (simp add: power_int_minus power_int_of_nat divide_simps)
  show ?thesis using round_half_even_near [OF assms(2)] by (simp add: fl_val_def assms(1) p)
qed

section \<open>The sign of a difference\<close>

lemma round_half_even_minus: "round_half_even (- x) = - round_half_even x"
proof (cases "x = of_int \<lfloor>x\<rfloor>")
  case True
  then show ?thesis by (metis of_int_minus round_half_even_of_int)
next
  case False
  define f d where "f = \<lfloor>x\<rfloor>" and "d = x - of_int f"
  have d: "0 < d" "d < 1" using False unfolding d_def f_def by linarith+
  have x: "x = of_int f + d" by (simp add: d_def)
  have fl: "\<lfloor>- x\<rfloor> = - f - 1" unfolding floor_eq_iff x using d by simp
  have "- x - of_int (- f - 1) = 1 - d" by (simp add: x)
  then show ?thesis
    using d unfolding round_half_even_def fl f_def [symmetric] d_def [symmetric]
    by (auto simp: Let_def)
qed

lemma fl_val_minus: "fl_val (- r) = - fl_val r"
  by (simp add: fl_val_def ulp_exp_def round_half_even_minus flip: minus_divide_left)

lemma js_sgn_fl: "1 \<le> \<bar>r\<bar> \<Longrightarrow> js_sgn (fl r) = (if r > 0 then 1 else -1)"
proof -
  assume r: "1 \<le> \<bar>r\<bar>"
  have v: "if r > 0 then 1 \<le> fl_val r else fl_val r \<le> -1"
    using r fl_val_ge_one [of r] fl_val_ge_one [of "- r"] by (auto simp: fl_val_minus abs_if split: if_splits)
  show ?thesis
  proof (cases "2 powi 1024 \<le> \<bar>fl_val r\<bar>")
    case True
    then show ?thesis using r by (auto simp: fl_def fl_val_def Let_def)
  next
    case False
    moreover have "round_half_even (r / 2 powi ulp_exp r) \<noteq> 0"
      using v by (auto simp: fl_val_def split: if_splits)
    ultimately have "fl r = Fin (fl_val r)" using r by (auto simp: fl_def fl_val_def Let_def)
    then show ?thesis using v by (auto split: if_splits)
  qed
qed

lemma js_sub_finite:
  assumes "isFinite a" "isFinite b" "num_val a \<noteq> num_val b"
  shows "js_sub a b = fl (num_val a - num_val b)"
  using assms by (cases a; cases b) (auto simp: js_sub_def js_add_def)

lemma js_sgn_sub_integers:
  assumes "isInteger a" "isInteger b" "num_val a \<noteq> num_val b"
  shows "js_sgn (js_sub a b) = (if num_val a < num_val b then -1 else 1)"
proof -
  obtain m n where mn: "num_val a = of_int m" "num_val b = of_int n"
    using assms(1,2) unfolding isInteger_def by metis
  then have "1 \<le> \<bar>m - n\<bar>" using assms(3) by auto
  then have "of_int 1 \<le> (of_int \<bar>m - n\<bar> :: rat)" by (simp only: of_int_le_iff)
  then have "1 \<le> \<bar>num_val a - num_val b\<bar>" by (simp add: mn)
  then show ?thesis
    using assms js_sgn_fl [of "num_val a - num_val b"] by (auto simp: js_sub_finite isInteger_def)
qed

text \<open>The order of numeric values as a comparison function.\<close>

definition rat_cmp :: "rat \<Rightarrow> rat \<Rightarrow> int" where
  "rat_cmp a b = (if a < b then -1 else if b < a then 1 else 0)"

interpretation rat_order: comparator rat_cmp
  by unfold_locales (auto simp: rat_cmp_def split: if_splits)

end
