(* ===== verification/JsString.thy ===== *)
theory JsString
  imports Prelude
begin

text \<open>
  UTF-8 encoding of JavaScript strings, as \<^verbatim>\<open>Buffer.from(s, 'utf8')\<close> and
  \<^verbatim>\<open>TextEncoder\<close> perform it (a lone surrogate becomes U+FFFD), the fatal
  decoder, and the byte order \<^verbatim>\<open>Buffer.compare\<close>. The lemmas show that decoding inverts
  encoding on well-formed strings, so that on those the byte order only identifies equal
  strings.
\<close>

section \<open>Code points\<close>

definition is_high :: "16 word \<Rightarrow> bool" where
  "is_high u \<longleftrightarrow> 55296 \<le> unat u \<and> unat u < 56320"

definition is_low :: "16 word \<Rightarrow> bool" where
  "is_low u \<longleftrightarrow> 56320 \<le> unat u \<and> unat u < 57344"

definition combine :: "16 word \<Rightarrow> 16 word \<Rightarrow> nat" where
  "combine u v = 65536 + (unat u - 55296) * 1024 + (unat v - 56320)"

fun code_points :: "jsstr \<Rightarrow> nat list" where
  "code_points [] = []"
| "code_points [u] = [if is_high u \<or> is_low u then 65533 else unat u]"
| "code_points (u # v # us) =
    (if is_high u \<and> is_low v then combine u v # code_points us
     else (if is_high u \<or> is_low u then 65533 else unat u) # code_points (v # us))"

text \<open>No lone surrogate.\<close>

fun well_formed :: "jsstr \<Rightarrow> bool" where
  "well_formed [] = True"
| "well_formed [u] = (\<not> is_high u \<and> \<not> is_low u)"
| "well_formed (u # v # us) =
    (if is_high u \<and> is_low v then well_formed us
     else \<not> is_high u \<and> \<not> is_low u \<and> well_formed (v # us))"

lemma not_surrogate_of_char [simp]: "\<not> is_high (of_char c)" "\<not> is_low (of_char c)"
  unfolding is_high_def is_low_def unat_of_char using nat_of_char_less_256 [of c] by linarith+

lemma well_formed_js [simp]: "well_formed (js s)"
proof -
  have "well_formed (map of_char s)"
    by (induction s rule: induct_list012) auto
  then show ?thesis by (simp add: js_def)
qed

definition code_units :: "nat \<Rightarrow> jsstr" where
  "code_units c =
    (if c < 65536 then [of_nat c]
     else [of_nat (55296 + (c - 65536) div 1024), of_nat (56320 + (c - 65536) mod 1024)])"

definition scalar :: "nat \<Rightarrow> bool" where
  "scalar c \<longleftrightarrow> c < 1114112 \<and> \<not> (55296 \<le> c \<and> c < 57344)"

lemma unat_16_less: "unat (u :: 16 word) < 65536"
  using unsigned_less [of u, where 'a = nat] by simp

lemma unat_of_nat_16: "n < 65536 \<Longrightarrow> unat (of_nat n :: 16 word) = n"
  by (simp add: unat_of_nat take_bit_eq_mod)

lemma code_units_unat: "code_units (unat u) = [u]"
  using unat_16_less [of u] by (simp add: code_units_def)

lemma code_units_combine:
  assumes "is_high u" "is_low v"
  shows "code_units (combine u v) = [u, v]"
proof -
  have "unat u - 55296 < 1024" "unat v - 56320 < 1024"
    using assms by (auto simp: is_high_def is_low_def)
  then have "(combine u v - 65536) div 1024 = unat u - 55296"
    "(combine u v - 65536) mod 1024 = unat v - 56320"
    by (simp_all add: combine_def)
  moreover have "\<not> combine u v < 65536" by (simp add: combine_def)
  ultimately show ?thesis
    using assms by (simp add: code_units_def is_high_def is_low_def)
qed

lemma code_points_scalar: "c \<in> set (code_points s) \<Longrightarrow> scalar c"
proof (induction s rule: code_points.induct)
  case (2 u)
  then show ?case using unat_16_less [of u] by (auto simp: scalar_def is_high_def is_low_def split: if_splits)
next
  case (3 u v us)
  have "is_high u \<and> is_low v \<Longrightarrow> scalar (combine u v)"
    by (auto simp: scalar_def combine_def is_high_def is_low_def)
  with 3 show ?case
    using unat_16_less [of u] by (auto simp: scalar_def is_high_def is_low_def split: if_splits)
qed simp

lemma code_units_code_points:
  "well_formed s \<Longrightarrow> concat (map code_units (code_points s)) = s"
proof (induction s rule: code_points.induct)
  case (2 u)
  then show ?case by (simp add: code_units_unat)
next
  case (3 u v us)
  then show ?case
    by (cases "is_high u \<and> is_low v") (auto simp: code_units_unat code_units_combine)
qed simp

section \<open>UTF-8\<close>

definition utf8_cp :: "nat \<Rightarrow> nat list" where
  "utf8_cp c =
    (if c < 128 then [c]
     else if c < 2048 then [192 + c div 64, 128 + c mod 64]
     else if c < 65536 then [224 + c div 4096, 128 + c div 64 mod 64, 128 + c mod 64]
     else [240 + c div 262144, 128 + c div 4096 mod 64, 128 + c div 64 mod 64, 128 + c mod 64])"

definition utf8 :: "jsstr \<Rightarrow> nat list" where
  "utf8 s = concat (map utf8_cp (code_points s))"

definition cont :: "nat \<Rightarrow> bool" where
  "cont b \<longleftrightarrow> 128 \<le> b \<and> b < 192"

text \<open>The fatal decoder: the bounds on the second byte exclude overlong forms, surrogates
  and values beyond U+10FFFF.\<close>

fun utf8_decode :: "nat list \<Rightarrow> nat list option" where
  "utf8_decode [] = Some []"
| "utf8_decode (a # bs) =
    (if a < 128 then map_option (Cons a) (utf8_decode bs)
     else if 194 \<le> a \<and> a < 224 then
       (case bs of b # bs' \<Rightarrow>
          if cont b then map_option (Cons ((a - 192) * 64 + (b - 128))) (utf8_decode bs') else None
        | _ \<Rightarrow> None)
     else if 224 \<le> a \<and> a < 240 then
       (case bs of b # c # bs' \<Rightarrow>
          if (if a = 224 then 160 else 128) \<le> b \<and> b < (if a = 237 then 160 else 192) \<and> cont c
          then map_option (Cons ((a - 224) * 4096 + (b - 128) * 64 + (c - 128))) (utf8_decode bs')
          else None
        | _ \<Rightarrow> None)
     else if 240 \<le> a \<and> a < 245 then
       (case bs of b # c # d # bs' \<Rightarrow>
          if (if a = 240 then 144 else 128) \<le> b \<and> b < (if a = 244 then 144 else 192) \<and> cont c \<and> cont d
          then map_option (Cons ((a - 240) * 262144 + (b - 128) * 4096 + (c - 128) * 64 + (d - 128)))
                 (utf8_decode bs')
          else None
        | _ \<Rightarrow> None)
     else None)"

lemma split_64:
  fixes c :: nat
  shows "c = c div 64 * 64 + c mod 64"
    and "c div 64 = c div 4096 * 64 + c div 64 mod 64"
    and "c div 4096 = c div 262144 * 64 + c div 4096 mod 64"
  using div_mult_mod_eq [of "c div 64" 64] div_mult_mod_eq [of "c div 4096" 64]
  by (simp_all add: div_mult2_eq [symmetric])

lemma utf8_decode_cp:
  assumes "scalar c"
  shows "utf8_decode (utf8_cp c @ bs) = map_option (Cons c) (utf8_decode bs)"
proof -
  consider "c < 128" | "128 \<le> c" "c < 2048" | "2048 \<le> c" "c < 65536" | "65536 \<le> c" by linarith
  then show ?thesis
  proof cases
    case 1
    then show ?thesis by (simp add: utf8_cp_def)
  next
    case 2
    then have "2 \<le> c div 64" "c div 64 < 32" by linarith+
    then show ?thesis using 2 by (simp add: utf8_cp_def cont_def)
  next
    case 3
    define h m l where "h = c div 4096" "m = c div 64 mod 64" "l = c mod 64"
    have c: "c = h * 4096 + m * 64 + l"
      using split_64 [of c] unfolding h_m_l_def by linarith
    have b: "m < 64" "l < 64" "h < 16"
      using 3 unfolding h_m_l_def by (simp_all add: div_less_iff_less_mult)
    have lo: "h = 0 \<Longrightarrow> 32 \<le> m" using 3 c b by linarith
    have hi: "h = 13 \<Longrightarrow> m < 32" using assms c b by (auto simp: scalar_def)
    have "utf8_cp c = [224 + h, 128 + m, 128 + l]" using 3 by (simp add: utf8_cp_def h_m_l_def)
    then show ?thesis using lo hi b c by (auto simp: cont_def)
  next
    case 4
    define g h m l where "g = c div 262144" "h = c div 4096 mod 64" "m = c div 64 mod 64" "l = c mod 64"
    have lt: "c < 1114112" using assms by (simp add: scalar_def)
    have c: "c = g * 262144 + h * 4096 + m * 64 + l"
      using split_64 [of c] unfolding g_h_m_l_def by linarith
    have b: "h < 64" "m < 64" "l < 64" "g < 5"
      using lt unfolding g_h_m_l_def by (simp_all add: div_less_iff_less_mult)
    have lo: "g = 0 \<Longrightarrow> 16 \<le> h" using 4 c b by linarith
    have hi: "g = 4 \<Longrightarrow> h < 16" using lt c b by linarith
    have "utf8_cp c = [240 + g, 128 + h, 128 + m, 128 + l]" using 4 by (simp add: utf8_cp_def g_h_m_l_def)
    then show ?thesis using lo hi b c by (auto simp: cont_def)
  qed
qed

lemma utf8_decode_cps:
  "(\<And>c. c \<in> set cs \<Longrightarrow> scalar c) \<Longrightarrow> utf8_decode (concat (map utf8_cp cs)) = Some cs"
  by (induction cs) (simp_all add: utf8_decode_cp)

lemma utf8_decode_utf8: "utf8_decode (utf8 s) = Some (code_points s)"
  unfolding utf8_def by (rule utf8_decode_cps) (rule code_points_scalar)

lemma utf8_inj: "well_formed s \<Longrightarrow> well_formed t \<Longrightarrow> utf8 s = utf8 t \<Longrightarrow> s = t"
  by (metis code_units_code_points option.inject utf8_decode_utf8)

section \<open>Byte order\<close>

fun bytes_cmp :: "nat list \<Rightarrow> nat list \<Rightarrow> int" where
  "bytes_cmp [] [] = 0"
| "bytes_cmp [] (b # bs) = -1"
| "bytes_cmp (a # as) [] = 1"
| "bytes_cmp (a # as) (b # bs) = (if a < b then -1 else if b < a then 1 else bytes_cmp as bs)"

lemma bytes_cmp_eq_0 [simp]: "bytes_cmp a b = 0 \<longleftrightarrow> a = b"
  by (induction a b rule: bytes_cmp.induct) auto

lemma bytes_cmp_swap: "bytes_cmp b a = - bytes_cmp a b"
  by (induction a b rule: bytes_cmp.induct) auto

lemma bytes_cmp_trans: "bytes_cmp a b \<le> 0 \<Longrightarrow> bytes_cmp b c \<le> 0 \<Longrightarrow> bytes_cmp a c \<le> 0"
proof (induction a b arbitrary: c rule: bytes_cmp.induct)
  case (2 b bs)
  then show ?case by (cases c) auto
next
  case (4 a as b bs)
  show ?case
  proof (cases c)
    case (Cons d ds)
    consider "a < b" | "a = b" | "b < a" by linarith
    then show ?thesis
    proof cases
      case 2
      then show ?thesis using 4 Cons by (simp split: if_splits)
    qed (use 4 Cons in \<open>simp_all split: if_splits\<close>)
  qed (use 4 in simp)
qed auto

interpretation bytes_order: comparator bytes_cmp
proof
  show "bytes_cmp y x \<le> 0 \<longleftrightarrow> bytes_cmp x y \<ge> 0" for x y
    using bytes_cmp_swap [of y x] by linarith
qed (rule bytes_cmp_trans)

text \<open>\<^verbatim>\<open>Buffer.compare(Buffer.from(a, 'utf8'), Buffer.from(b, 'utf8'))\<close>\<close>

definition utf8ByteCompare :: "jsstr \<Rightarrow> jsstr \<Rightarrow> int" where
  "utf8ByteCompare a b = bytes_cmp (utf8 a) (utf8 b)"

lemma utf8_comparator: "comparator utf8ByteCompare"
proof -
  have "utf8ByteCompare = cmp_on utf8 bytes_cmp"
    by (intro ext) (simp add: cmp_on_def utf8ByteCompare_def)
  then show ?thesis using comparator_on [OF bytes_order.comparator_axioms, of utf8] by simp
qed

lemma utf8ByteCompare_eq_0:
  "well_formed a \<Longrightarrow> well_formed b \<Longrightarrow> utf8ByteCompare a b = 0 \<longleftrightarrow> a = b"
  by (auto simp: utf8ByteCompare_def dest: utf8_inj)

end
