(* ===== verification/ShiftCloseMoney.thy ===== *)
theory ShiftCloseMoney
  imports JsNumber JsString
begin

text \<open>
  The server's money kernels for shift-close validation:
  \<^verbatim>\<open>functions/src/shiftCloseValidationCore.ts\<close> (conversion of Baht numbers to satang,
  classification and folding of a shift's cash entries, parity with the captured totals)
  and \<^verbatim>\<open>functions/src/shiftCloseValidationDrawerFold.ts\<close> (the device-scoped tender fold
  over the synced orders). Numbers are doubles; satang sums are unbounded integers
  (\<^verbatim>\<open>bigint\<close>). Fields typed \<^verbatim>\<open>unknown\<close> are \<open>jsval\<close>.
\<close>

section \<open>Conversion to minor units\<close>

datatype entry_malformed =
  NonFiniteAmount | NonPositiveAmount | AmountOverBound | AmountPrecision

datatype total_malformed =
  NonFiniteTotal | NegativeTotal | TotalOverBound | TotalPrecision

definition CAP_SNAPSHOT_ENTRIES :: nat where "CAP_SNAPSHOT_ENTRIES = 1000"
definition MAX_ENTRY_BAHT :: jsnum where "MAX_ENTRY_BAHT = lit 10000000"
definition MAX_TOTAL_BAHT :: jsnum where "MAX_TOTAL_BAHT = lit 10000000000"
definition PRECISION_EPSILON :: jsnum where "PRECISION_EPSILON = lit (1 / 1000000)"

definition toPositiveEntryMinor :: "jsnum \<Rightarrow> entry_malformed + jsnum" where
  "toPositiveEntryMinor x =
    (if \<not> isFinite x then Inl NonFiniteAmount
     else if js_le x (Fin 0) then Inl NonPositiveAmount
     else if js_lt MAX_ENTRY_BAHT x then Inl AmountOverBound
     else let scaled = js_mul x (lit 100); nearest = math_round scaled in
       if js_lt PRECISION_EPSILON (js_abs (js_sub scaled nearest)) then Inl AmountPrecision
       else Inr nearest)"

definition toNonNegativeTotalMinor :: "jsnum \<Rightarrow> total_malformed + jsnum" where
  "toNonNegativeTotalMinor x =
    (if \<not> isFinite x then Inl NonFiniteTotal
     else if js_lt x (Fin 0) then Inl NegativeTotal
     else if x = NegZero then Inr (Fin 0)
     else if js_lt MAX_TOTAL_BAHT x then Inl TotalOverBound
     else let scaled = js_mul x (lit 100); nearest = math_round scaled in
       if js_lt PRECISION_EPSILON (js_abs (js_sub scaled nearest)) then Inl TotalPrecision
       else Inr nearest)"

definition roundMoneyKernel :: "jsnum \<Rightarrow> jsnum" where
  "roundMoneyKernel x =
    (if isFinite x then js_div (math_round (js_mul x (lit 100))) (lit 100) else Fin 0)"

section \<open>Cash entries\<close>

record cash_entry_raw =
  ce_id :: jsval
  ce_type :: jsval
  ce_amount :: jsval
  ce_note :: jsval
  ce_staffId :: jsval
  ce_staffName :: jsval
  ce_at :: jsval

datatype cash_type = PayIn | PayOut

datatype entry_blocking =
  IdMissing | IdDuplicate | TypeUnknown | BadAmount entry_malformed

record soft_flags =
  sf_note :: bool
  sf_staffId :: bool
  sf_staffName :: bool
  sf_at :: bool

record classified_entry =
  cl_raw :: cash_entry_raw
  cl_index :: nat
  cl_orderingId :: jsstr
  cl_orderingAt :: jsnum
  cl_blocking :: "entry_blocking option"
  cl_type :: "cash_type option"
  cl_amountMinor :: "jsnum option"
  cl_soft :: soft_flags

text \<open>\<open>first_reason r s\<close> is \<^verbatim>\<open>r ??= s\<close>: the first reason found is kept.\<close>

definition first_reason :: "'a option \<Rightarrow> 'a \<Rightarrow> 'a option" where
  "first_reason r s = (case r of None \<Rightarrow> Some s | Some _ \<Rightarrow> r)"

definition at_bad :: "jsval \<Rightarrow> bool" where
  "at_bad v = (case v of JNum n \<Rightarrow> \<not> (isFinite n \<and> isInteger n) | _ \<Rightarrow> True)"

text \<open>
  The three steps of \<^verbatim>\<open>classifyCashEntry\<close> that can block the fold, in its order: id,
  type, amount. \<^verbatim>\<open>seenIds\<close> is a \<^verbatim>\<open>Set\<close> the call mutates: it is threaded through.
\<close>

definition classify_id :: "jsval \<Rightarrow> jsstr set \<Rightarrow> entry_blocking option \<times> jsstr \<times> jsstr set" where
  "classify_id v seenIds = (case v of
      JStr s \<Rightarrow> if s = [] then (Some IdMissing, [], seenIds)
               else if s \<in> seenIds then (Some IdDuplicate, s, seenIds)
               else (None, s, insert s seenIds)
    | _ \<Rightarrow> (Some IdMissing, [], seenIds))"

definition classify_type :: "jsval \<Rightarrow> entry_blocking option \<Rightarrow> cash_type option \<times> entry_blocking option" where
  "classify_type v blocking =
    (if v = JStr (js ''pay_in'') then (Some PayIn, blocking)
     else if v = JStr (js ''pay_out'') then (Some PayOut, blocking)
     else (None, first_reason blocking TypeUnknown))"

definition classify_amount :: "jsval \<Rightarrow> entry_blocking option \<Rightarrow> jsnum option \<times> entry_blocking option" where
  "classify_amount v blocking = (case v of
      JNum x \<Rightarrow> (case toPositiveEntryMinor x of
         Inr m \<Rightarrow> (Some m, blocking)
       | Inl r \<Rightarrow> (None, first_reason blocking (BadAmount r)))
    | _ \<Rightarrow> (None, first_reason blocking (BadAmount NonFiniteAmount)))"

definition classify_at :: "jsval \<Rightarrow> jsnum" where
  "classify_at v = (if at_bad v then Fin 0 else case v of JNum n \<Rightarrow> n | _ \<Rightarrow> Fin 0)"

definition classifyCashEntry ::
  "cash_entry_raw \<Rightarrow> nat \<Rightarrow> jsstr set \<Rightarrow> classified_entry \<times> jsstr set" where
  "classifyCashEntry raw i seenIds =
    (let (blocking, orderingId, seen) = classify_id (ce_id raw) seenIds;
         (type, blocking) = classify_type (ce_type raw) blocking;
         (minor, blocking) = classify_amount (ce_amount raw) blocking
     in (\<lparr>cl_raw = raw, cl_index = i, cl_orderingId = orderingId,
          cl_orderingAt = classify_at (ce_at raw),
          cl_blocking = blocking, cl_type = type, cl_amountMinor = minor,
          cl_soft = \<lparr>sf_note = \<not> is_str (ce_note raw), sf_staffId = \<not> is_str (ce_staffId raw),
                     sf_staffName = \<not> is_str (ce_staffName raw), sf_at = at_bad (ce_at raw)\<rparr>\<rparr>,
         seen))"

text \<open>The left-to-right \<^verbatim>\<open>map\<close> of \<^verbatim>\<open>foldCashEntriesSnapshot\<close>.\<close>

fun classify_all :: "nat \<Rightarrow> jsstr set \<Rightarrow> cash_entry_raw list \<Rightarrow> classified_entry list" where
  "classify_all i seen [] = []"
| "classify_all i seen (r # rs) =
    (let (c, seen') = classifyCashEntry r i seen in c # classify_all (Suc i) seen' rs)"

text \<open>The comparison function; only the sign of its result matters to \<^verbatim>\<open>sort\<close>.\<close>

definition compareCanonicalOrder :: "classified_entry \<Rightarrow> classified_entry \<Rightarrow> int" where
  "compareCanonicalOrder a b =
    (if \<not> js_eq (cl_orderingAt a) (cl_orderingAt b)
     then js_sgn (js_sub (cl_orderingAt a) (cl_orderingAt b))
     else let idCmp = utf8ByteCompare (cl_orderingId a) (cl_orderingId b) in
       if idCmp \<noteq> 0 then idCmp else int (cl_index a) - int (cl_index b))"

definition canonicalOrder :: "classified_entry list \<Rightarrow> classified_entry list" where
  "canonicalOrder es = sort_by compareCanonicalOrder es"

record snapshot_meta =
  sm_count :: nat
  sm_foldBlockingCount :: nat
  sm_softFlagCount :: nat
  sm_firstFoldBlockingReason :: "entry_blocking option"
  sm_sourceEntryCount :: nat
  sm_cashEntriesOverflowed :: bool

record cash_fold =
  cf_meta :: snapshot_meta
  cf_storedSubset :: "classified_entry list"
  cf_payInMinor :: "int option"
  cf_payOutMinor :: "int option"

definition soft_flagged :: "classified_entry \<Rightarrow> bool" where
  "soft_flagged e = (sf_note (cl_soft e) \<or> sf_staffId (cl_soft e) \<or> sf_staffName (cl_soft e) \<or> sf_at (cl_soft e))"

definition scan_step ::
  "nat \<times> nat \<times> entry_blocking option \<Rightarrow> classified_entry \<Rightarrow> nat \<times> nat \<times> entry_blocking option" where
  "scan_step acc e = (case acc of (blocking, soft, first) \<Rightarrow>
     (let (blocking', first') =
            (case cl_blocking e of None \<Rightarrow> (blocking, first)
             | Some r \<Rightarrow> (blocking + 1, first_reason first r))
      in (blocking', if soft_flagged e then soft + 1 else soft, first')))"

text \<open>\<^verbatim>\<open>BigInt(entry.amountMinor as number)\<close>: \<^verbatim>\<open>BigInt(null)\<close> would throw.\<close>

definition sum_step :: "int \<times> int \<Rightarrow> classified_entry \<Rightarrow> js_error + (int \<times> int)" where
  "sum_step acc e = (case acc of (payIn, payOut) \<Rightarrow>
     and_then (case cl_amountMinor e of None \<Rightarrow> Inl TypeError | Some m \<Rightarrow> BigInt m)
       (\<lambda>minor. Inr (if cl_type e = Some PayIn then (payIn + minor, payOut)
                     else if cl_type e = Some PayOut then (payIn, payOut + minor)
                     else (payIn, payOut))))"

definition foldCashEntriesSnapshot :: "cash_entry_raw list \<Rightarrow> js_error + cash_fold" where
  "foldCashEntriesSnapshot rawEntries =
    (let sourceEntryCount = length rawEntries;
         cashEntriesOverflowed = (sourceEntryCount > CAP_SNAPSHOT_ENTRIES);
         classified = classify_all 0 {} rawEntries;
         ordered = canonicalOrder classified;
         storedSubset = take CAP_SNAPSHOT_ENTRIES ordered;
         (blocking, soft, first) = foldl scan_step (0, 0, None) storedSubset;
         meta = \<lparr>sm_count = length storedSubset, sm_foldBlockingCount = blocking,
                 sm_softFlagCount = soft, sm_firstFoldBlockingReason = first,
                 sm_sourceEntryCount = sourceEntryCount,
                 sm_cashEntriesOverflowed = cashEntriesOverflowed\<rparr>
     in if blocking = 0 \<and> \<not> cashEntriesOverflowed then
          and_then (fold_result sum_step (0, 0) storedSubset)
            (\<lambda>(payIn, payOut). Inr \<lparr>cf_meta = meta, cf_storedSubset = storedSubset,
               cf_payInMinor = Some payIn, cf_payOutMinor = Some payOut\<rparr>)
        else Inr \<lparr>cf_meta = meta, cf_storedSubset = storedSubset,
               cf_payInMinor = None, cf_payOutMinor = None\<rparr>)"

text \<open>The verdict is \<open>None\<close> where the code returns \<^verbatim>\<open>null\<close>.\<close>

definition drawerCashParityMatches :: "cash_fold \<Rightarrow> jsnum \<Rightarrow> jsnum \<Rightarrow> js_error + bool option" where
  "drawerCashParityMatches f evidencePayIn evidencePayOut =
    (case (cf_payInMinor f, cf_payOutMinor f) of
       (Some payIn, Some payOut) \<Rightarrow>
         if \<not> isFinite evidencePayIn \<or> \<not> isFinite evidencePayOut then Inr None
         else (case (toNonNegativeTotalMinor (roundMoneyKernel evidencePayIn),
                     toNonNegativeTotalMinor (roundMoneyKernel evidencePayOut)) of
             (Inr i, Inr out) \<Rightarrow>
               and_then (BigInt i) (\<lambda>i'. if payIn \<noteq> i' then Inr (Some False)
                 else and_then (BigInt out) (\<lambda>out'. Inr (Some (payOut = out'))))
           | _ \<Rightarrow> Inr None)
     | _ \<Rightarrow> Inr None)"

section \<open>The device-scoped tender fold\<close>

record async_order =
  ao_id :: jsstr
  ao_deviceId :: jsval
  ao_status :: jsval
  ao_voidRequested :: jsval
  ao_reconcileStatus :: jsval
  ao_changeAmt :: jsval
  ao_payments :: jsval

datatype tender = Cash | Qr | Kbank | Card | Credit

definition KNOWN_PAYMENT_METHODS :: "(jsstr \<times> tender) list" where
  "KNOWN_PAYMENT_METHODS =
    [(js ''cash'', Cash), (js ''qr'', Qr), (js ''kbank'', Kbank), (js ''card'', Card), (js ''credit'', Credit)]"

datatype tender_blocking =
  PaymentsMalformed | UnknownPaymentMethod | BadTender entry_malformed | MalformedChangeAmt

definition isLedgerSaleDoc :: "async_order \<Rightarrow> bool" where
  "isLedgerSaleDoc d =
    (if ao_status d = JStr (js ''voided'') then False
     else if ao_voidRequested d = JBool True then False
     else if ao_reconcileStatus d = JStr (js ''exception'') then False
     else True)"

text \<open>The five running sums, by tender.\<close>

record sale_fold =
  fo_docId :: jsstr
  fo_blocking :: "tender_blocking option"
  fo_sums :: "tender \<Rightarrow> int"
  fo_changeAmt :: int

fun is_object :: "jsval \<Rightarrow> bool" where
  "is_object (JObj _) = True"
| "is_object (JArr _) = True"
| "is_object _ = False"

definition payment_step ::
  "tender_blocking option \<times> (tender \<Rightarrow> int) \<Rightarrow> jsval \<Rightarrow> js_error + (tender_blocking option \<times> (tender \<Rightarrow> int))" where
  "payment_step acc p = (case acc of (blocking, tot) \<Rightarrow>
    (if \<not> is_object p then Inr (first_reason blocking PaymentsMalformed, tot)
     else case get_prop p (js ''method'') of
       JStr m \<Rightarrow> (case map_of KNOWN_PAYMENT_METHODS m of
           None \<Rightarrow> Inr (first_reason blocking UnknownPaymentMethod, tot)
         | Some t \<Rightarrow> (case get_prop p (js ''amount'') of
               JNum x \<Rightarrow> (case toPositiveEntryMinor x of
                   Inl r \<Rightarrow> Inr (first_reason blocking (BadTender r), tot)
                 | Inr m' \<Rightarrow> and_then (BigInt m')
                     (\<lambda>minor. Inr (blocking, tot(t := tot t + minor))))
             | _ \<Rightarrow> Inr (first_reason blocking (BadTender NonFiniteAmount), tot)))
     | _ \<Rightarrow> Inr (first_reason blocking UnknownPaymentMethod, tot)))"

definition foldOneSale :: "async_order \<Rightarrow> js_error + sale_fold" where
  "foldOneSale d =
    and_then (case ao_payments d of
        JArr ps \<Rightarrow> fold_result payment_step (None, \<lambda>_. 0) ps
      | _ \<Rightarrow> Inr (Some PaymentsMalformed, \<lambda>_. 0))
    (\<lambda>(blocking, tot).
      and_then
        (if blocking = None then
           (case ao_changeAmt d of
              JNum x \<Rightarrow> (case toNonNegativeTotalMinor x of
                 Inl _ \<Rightarrow> Inr (Some MalformedChangeAmt, 0)
               | Inr m \<Rightarrow> and_then (BigInt m) (\<lambda>c. Inr (None, c)))
            | _ \<Rightarrow> Inr (Some MalformedChangeAmt, 0))
         else Inr (blocking, 0))
      (\<lambda>(blocking', change).
         Inr \<lparr>fo_docId = ao_id d, fo_blocking = blocking', fo_sums = tot, fo_changeAmt = change\<rparr>))"

record drawer_summary =
  dr_foldBlocked :: bool
  dr_foldBlockReason :: "tender_blocking option"
  dr_foldBlockDocId :: "jsstr option"
  dr_saleCount :: nat
  dr_totalBills :: "nat option"
  dr_expected :: "tender \<Rightarrow> jsnum option"
  dr_crossDeviceCount :: nat

definition drawer_sum_step :: "(tender \<Rightarrow> int) \<Rightarrow> sale_fold \<Rightarrow> tender \<Rightarrow> int" where
  "drawer_sum_step acc f t =
    (if t = Cash then
       acc Cash + (if fo_sums f Cash > fo_changeAmt f then fo_sums f Cash - fo_changeAmt f else 0)
     else acc t + fo_sums f t)"

definition foldDeviceScopedDrawer :: "async_order list \<Rightarrow> jsstr \<Rightarrow> js_error + drawer_summary" where
  "foldDeviceScopedDrawer docs evidenceDeviceId =
    (let ordered = sort_by (\<lambda>a b. utf8ByteCompare (ao_id a) (ao_id b)) docs;
         sameDevice = filter (\<lambda>d. isLedgerSaleDoc d \<and> ao_deviceId d = JStr evidenceDeviceId) ordered;
         otherDevice = filter (\<lambda>d. isLedgerSaleDoc d \<and> ao_deviceId d \<noteq> JStr evidenceDeviceId) ordered
     in and_then (map_result foldOneSale sameDevice) (\<lambda>folds.
       let firstBlocked = List.find (\<lambda>f. fo_blocking f \<noteq> None) folds;
           foldBlocked = (firstBlocked \<noteq> None);
           totals = foldl drawer_sum_step (\<lambda>_. 0) folds
       in Inr \<lparr>dr_foldBlocked = foldBlocked,
              dr_foldBlockReason = Option.bind firstBlocked fo_blocking,
              dr_foldBlockDocId = map_option fo_docId firstBlocked,
              dr_saleCount = length sameDevice,
              dr_totalBills = (if foldBlocked then None else Some (length folds)),
              dr_expected = (\<lambda>t. if foldBlocked then None else Some (number_of_bigint (totals t))),
              dr_crossDeviceCount = length otherDevice\<rparr>))"

section \<open>Accuracy of the conversions\<close>

text \<open>The double nearest to an amount of \<open>n\<close> satang, which is what a two-decimal literal denotes.\<close>

definition baht :: "int \<Rightarrow> jsnum" where
  "baht n = lit (of_int n / 100)"

lemma baht_val:
  assumes "0 \<le> n" "n \<le> 10 ^ 20"
  shows "baht n = Fin (fl_val (of_int n / 100))" "0 \<le> fl_val (of_int n / 100)"
proof -
  have "of_int n \<le> (of_int (10 ^ 20) :: rat)" using assms(2) by (simp only: of_int_le_iff)
  then have "(of_int n / 100 :: rat) \<le> 10 ^ 30" by simp
  then show "baht n = Fin (fl_val (of_int n / 100))" "0 \<le> fl_val (of_int n / 100)"
    using fl_nonneg [of "of_int n / 100"] assms(1) by (simp_all add: baht_def lit_def)
qed

lemma lit_100: "lit 100 = Fin 100"
  using lit_nat [of "num.Bit0 (num.Bit0 (num.Bit1 (num.Bit0 (num.Bit0 (num.Bit1 num.One)))))"] by simp

lemma PRECISION_EPSILON_val:
  obtains e where "PRECISION_EPSILON = Fin e" "999 / 1000000000 \<le> e" "e \<le> 1001 / 1000000000"
proof
  let ?r = "1 / 1000000 :: rat"
  show "PRECISION_EPSILON = Fin (fl_val ?r)"
    using fl_nonneg [of ?r] by (simp add: PRECISION_EPSILON_def lit_def)
  have "\<bar>fl_val ?r - ?r\<bar> \<le> 1 / 10000000000" by (rule order_trans [OF fl_err]) simp
  then show "999 / 1000000000 \<le> fl_val ?r" "fl_val ?r \<le> 1001 / 1000000000"
    unfolding abs_le_iff by linarith+
qed

lemma MAX_ENTRY_BAHT_val: "MAX_ENTRY_BAHT = Fin 10000000"
  using fl_nat [of 10000000] by (simp add: MAX_ENTRY_BAHT_def lit_def)

lemma MAX_TOTAL_BAHT_val: "MAX_TOTAL_BAHT = Fin 10000000000"
  using fl_nat [of 10000000000] by (simp add: MAX_TOTAL_BAHT_def lit_def)

text \<open>Deviations within the tolerance, and well beyond it.\<close>

lemma within_epsilon:
  assumes "\<bar>d\<bar> \<le> 99 / 100000000"
  shows "\<not> js_lt PRECISION_EPSILON (js_abs (fl d))"
proof -
  obtain e where e: "PRECISION_EPSILON = Fin e" "999 / 1000000000 \<le> e" by (rule PRECISION_EPSILON_val)
  have fin: "isFinite (fl d)" "num_val (fl d) = fl_val d"
    using fl_fin [of d] small_lt_max [of d] assms by simp_all
  have "\<bar>fl_val d\<bar> \<le> \<bar>d\<bar> + \<bar>fl_val d - d\<bar>" by linarith
  also have "\<dots> \<le> \<bar>d\<bar> + (\<bar>d\<bar> / 9007199254740992 + 1 / 10 ^ 30)" using fl_err [of d] by linarith
  also have "\<dots> \<le> 999 / 1000000000" using assms by simp
  finally have "\<not> e < \<bar>fl_val d\<bar>" using e(2) by linarith
  then show ?thesis unfolding e(1) using fin by (simp add: js_lt_finite num_val_js_abs)
qed

text \<open>
  Scaling a two-decimal amount below 2^27 Baht by 100 lands within the tolerance of the
  exact satang count. Below 2^32 satang the absolute error of the two roundings gives it;
  above, the scaled value lies on a lattice coarser than the remaining error.
\<close>

definition EXACT_LIMIT :: int where "EXACT_LIMIT = 13421772800"

lemma scaled_error:
  assumes "0 \<le> n" "n < EXACT_LIMIT"
  defines "w \<equiv> fl_val (of_int n / 100) * 100"
  shows "0 \<le> w" "\<bar>w - of_int n\<bar> \<le> 746 / 1000000000" "\<bar>fl_val w - of_int n\<bar> \<le> 99 / 100000000"
proof -
  let ?x = "of_int n / 100 :: rat" and ?n = "of_int n :: rat"
  have lt: "?n < 13421772800" using assms(2) unfolding EXACT_LIMIT_def
    by (metis of_int_less_iff of_int_numeral)
  have n0: "0 \<le> ?n" using assms(1) by simp
  have v0: "0 \<le> fl_val ?x" using fl_nonneg [of ?x] n0 lt by simp
  then show w0: "0 \<le> w" by (simp add: w_def)
  have "?x < 2 powi (26 + 1)" using lt by (simp add: power_int_def)
  then have ve: "\<bar>fl_val ?x - ?x\<bar> \<le> 1 / 134217728"
  proof (cases "?x = 0")
    case False
    then have "ulp_exp ?x \<le> 26 - 52" using \<open>?x < 2 powi (26 + 1)\<close> n0 by (intro ulp_exp_le) auto
    then have "2 powi ulp_exp ?x \<le> (2 powi (-26) :: rat)" by (intro powi_mono) simp
    then show ?thesis using fl_val_error [of ?x] by (simp add: power_int_def power_divide)
  qed simp
  have "w - ?n = (fl_val ?x - ?x) * 100" by (simp add: w_def algebra_simps)
  then have "\<bar>w - ?n\<bar> = \<bar>fl_val ?x - ?x\<bar> * 100" by (simp only: abs_mult abs_numeral)
  also have "\<dots> \<le> 1 / 134217728 * 100" by (rule mult_right_mono [OF ve]) simp
  finally have we: "\<bar>w - ?n\<bar> \<le> 100 / 134217728" by simp
  then show "\<bar>w - of_int n\<bar> \<le> 746 / 1000000000" by simp
  have "w \<le> ?n + 100 / 134217728" using we by linarith
  then have "w < 17179869184" using lt by linarith
  then have w34: "w < 2 powi (33 + 1)" by (simp add: power_int_def)
  have lattice: "\<bar>fl_val w - ?n\<bar> \<le> 99 / 100000000"
    if k: "k \<in> {32, 33}" and low: "2 powi k \<le> w" and high: "w < 2 powi (k + 1)" for k
  proof -
    define q where "q = nat (52 - k)"
    have u: "ulp_exp w = k - 52" using ulp_exp_eq [OF low high] k by auto
    have "k - 52 \<in> {-20, -19}" using k by auto
    then have p: "(2 powi (k - 52) :: rat) = 1 / 2 ^ q" and q: "q \<in> {20, 19}"
      using k by (auto simp: q_def power_int_def power_divide)
    obtain m where m: "fl_val w = of_int m * (1 / 2 ^ q)"
      unfolding fl_val_def u p by blast
    have "\<bar>fl_val w - w\<bar> \<le> 1 / 2 ^ q / 2" using fl_val_error [of w] unfolding u p .
    then have "\<bar>fl_val w - ?n\<bar> \<le> 100 / 134217728 + 1 / 2 ^ q / 2" using we by linarith
    then have "\<bar>of_int m * (1 / 2 ^ q) - ?n\<bar> * 2 ^ q \<le> (100 / 134217728 + 1 / 2 ^ q / 2) * 2 ^ q"
      unfolding m by (intro mult_right_mono) auto
    moreover have "\<bar>of_int m * (1 / 2 ^ q) - ?n\<bar> * 2 ^ q = \<bar>of_int (m - n * 2 ^ q)\<bar>"
    proof -
      have "(of_int m * (1 / 2 ^ q) - ?n) * 2 ^ q = of_int (m - n * 2 ^ q)"
        by (simp add: field_simps)
      then show ?thesis by (metis abs_mult abs_of_pos zero_less_numeral zero_less_power)
    qed
    ultimately have d: "of_int \<bar>m - n * 2 ^ q\<bar> \<le> (100 / 134217728 * 2 ^ q + 1 / 2 :: rat)"
      by (simp add: algebra_simps)
    have eq: "fl_val w - ?n = of_int (m - n * 2 ^ q) / 2 ^ q"
      unfolding m by (simp add: field_simps)
    from q consider "q = 20" | "q = 19" by blast
    then show ?thesis
    proof cases
      case 1
      have "of_int \<bar>m - n * 2 ^ q\<bar> < (of_int 2 :: rat)" using d unfolding 1 by simp
      then have "\<bar>m - n * 2 ^ q\<bar> \<le> 1" by (simp only: of_int_less_iff)
      then have "of_int \<bar>m - n * 2 ^ q\<bar> \<le> (of_int 1 :: rat)" by (simp only: of_int_le_iff)
      then show ?thesis unfolding eq 1 by simp
    next
      case 2
      have "of_int \<bar>m - n * 2 ^ q\<bar> < (of_int 1 :: rat)" using d unfolding 2 by simp
      then have "m = n * 2 ^ q" by (simp only: of_int_less_iff)
      then show ?thesis unfolding eq by simp
    qed
  qed
  show "\<bar>fl_val w - of_int n\<bar> \<le> 99 / 100000000"
  proof -
    consider "w = 0" | "0 < w" "w < 2 powi (31 + 1)" | "2 powi 32 \<le> w" "w < 2 powi (32 + 1)"
      | "2 powi 33 \<le> w"
      using w0 by force
    then show ?thesis
    proof cases
      case 1
      then show ?thesis using we by simp
    next
      case 2
      then have "ulp_exp w \<le> 31 - 52" by (intro ulp_exp_le) auto
      then have "2 powi ulp_exp w \<le> (2 powi (-21) :: rat)" by (intro powi_mono) simp
      then have "\<bar>fl_val w - w\<bar> \<le> 1 / 4194304"
        using fl_val_error [of w] by (simp add: power_int_def power_divide)
      moreover have "\<bar>fl_val w - ?n\<bar> \<le> \<bar>fl_val w - w\<bar> + \<bar>w - ?n\<bar>"
        by (rule abs_triangle_ineq [of "fl_val w - w" "w - ?n", simplified])
      ultimately have "\<bar>fl_val w - ?n\<bar> \<le> 1 / 4194304 + 100 / 134217728"
        using we by (meson add_mono order_trans)
      then show ?thesis by simp
    next
      case 3
      then show ?thesis by (intro lattice [of 32]) auto
    next
      case 4
      then show ?thesis using w34 by (intro lattice [of 33]) auto
    qed
  qed
qed

lemma baht_scaled:
  assumes "0 \<le> n" "n < EXACT_LIMIT"
  shows "math_round (js_mul (baht n) (lit 100)) = Fin (of_int n)"
    and "\<not> js_lt PRECISION_EPSILON (js_abs (js_sub (js_mul (baht n) (lit 100)) (Fin (of_int n))))"
proof -
  define w where "w = fl_val (of_int n / 100) * 100"
  note se = scaled_error [OF assms, folded w_def]
  have b: "baht n = Fin (fl_val (of_int n / 100))" "0 \<le> fl_val (of_int n / 100)"
    using baht_val [of n] assms by (simp_all add: EXACT_LIMIT_def)
  have "of_int n < (13421772800 :: rat)"
    using assms(2) unfolding EXACT_LIMIT_def by (metis of_int_less_iff of_int_numeral)
  moreover have "w \<le> of_int n + 746 / 1000000000" using se(2) by linarith
  ultimately have "w \<le> 13421772801" by linarith
  then have "w \<le> 10 ^ 30" by simp
  then have fl: "fl w = Fin (fl_val w)" "0 \<le> fl_val w" using fl_nonneg [OF se(1)] by auto
  have m: "js_mul (baht n) (lit 100) = Fin (fl_val w)"
    unfolding b(1) lit_100 by (subst js_mul_Fin) (use b(2) fl(1) in \<open>simp_all add: w_def\<close>)
  have "\<bar>fl_val w - of_int n\<bar> < 1 / 2" by (rule le_less_trans [OF se(3)]) simp
  then show "math_round (js_mul (baht n) (lit 100)) = Fin (of_int n)"
    unfolding m by (rule math_round_near [OF fl(2)])
  show "\<not> js_lt PRECISION_EPSILON (js_abs (js_sub (js_mul (baht n) (lit 100)) (Fin (of_int n))))"
    unfolding m js_sub_Fin by (rule within_epsilon [OF se(3)])
qed

lemma baht_bounds:
  assumes "0 \<le> n" "n < EXACT_LIMIT"
  shows "isFinite (baht n)" "\<not> js_lt (baht n) (Fin 0)" "baht n \<noteq> NegZero"
    "\<not> js_lt MAX_TOTAL_BAHT (baht n)"
    "0 < n \<Longrightarrow> \<not> js_le (baht n) (Fin 0)"
    "n \<le> 10 ^ 9 \<Longrightarrow> \<not> js_lt MAX_ENTRY_BAHT (baht n)"
proof -
  let ?x = "of_int n / 100 :: rat"
  have b: "baht n = Fin (fl_val ?x)" "0 \<le> fl_val ?x"
    using baht_val [of n] assms by (simp_all add: EXACT_LIMIT_def)
  have err: "fl_val ?x \<le> ?x + (?x / 9007199254740992 + 1 / 10 ^ 30)"
    "?x - (?x / 9007199254740992 + 1 / 10 ^ 30) \<le> fl_val ?x"
    using fl_err [of ?x] assms(1) by (simp_all only: abs_le_iff abs_of_nonneg, linarith+)
  have lt: "of_int n < (13421772800 :: rat)"
    using assms(2) unfolding EXACT_LIMIT_def by (metis of_int_less_iff of_int_numeral)
  show "isFinite (baht n)" "\<not> js_lt (baht n) (Fin 0)" "baht n \<noteq> NegZero"
    using b by (simp_all add: js_lt_finite)
  have "fl_val ?x \<le> 10000000000" using err(1) lt by simp
  then show "\<not> js_lt MAX_TOTAL_BAHT (baht n)" by (simp add: b MAX_TOTAL_BAHT_val js_lt_finite)
  show "\<not> js_le (baht n) (Fin 0)" if "0 < n"
  proof -
    have "(1 :: rat) \<le> of_int n" using that by simp
    then have "0 < fl_val ?x" using err(2) by simp
    then show ?thesis by (simp add: b js_le_def js_lt_finite js_eq_finite)
  qed
  show "\<not> js_lt MAX_ENTRY_BAHT (baht n)" if "n \<le> 10 ^ 9"
  proof (cases "n = 10 ^ 9")
    case True
    then have "baht n = Fin 10000000" using fl_nat [of 10000000] by (simp add: baht_def lit_def)
    then show ?thesis by (simp add: MAX_ENTRY_BAHT_val js_lt_finite)
  next
    case False
    then have "n \<le> 999999999" using that by simp
    then have "of_int n \<le> (999999999 :: rat)" by (metis of_int_le_iff of_int_numeral)
    then have "fl_val ?x \<le> 10000000" using err(1) by simp
    then show ?thesis by (simp add: b MAX_ENTRY_BAHT_val js_lt_finite)
  qed
qed

lemma toNonNegativeTotalMinor_baht:
  "0 \<le> n \<Longrightarrow> n < EXACT_LIMIT \<Longrightarrow> toNonNegativeTotalMinor (baht n) = Inr (Fin (of_int n))"
  using baht_scaled [of n] baht_bounds [of n] by (simp add: toNonNegativeTotalMinor_def Let_def)

lemma toPositiveEntryMinor_baht:
  "1 \<le> n \<Longrightarrow> n \<le> 10 ^ 9 \<Longrightarrow> toPositiveEntryMinor (baht n) = Inr (Fin (of_int n))"
  using baht_scaled [of n] baht_bounds [of n]
  by (simp add: toPositiveEntryMinor_def Let_def EXACT_LIMIT_def)

text \<open>An amount whose scaled value is nearest to \<open>n\<close> satang is rounded to that amount.\<close>

lemma roundMoneyKernel_near:
  assumes "isFinite x" "math_round (js_mul x (lit 100)) = Fin (of_int n)" "0 \<le> n"
  shows "roundMoneyKernel x = baht n"
  using assms by (simp add: roundMoneyKernel_def lit_100 js_div_Fin baht_def lit_def [of "of_int n / 100"])

lemma roundMoneyKernel_baht:
  "0 \<le> n \<Longrightarrow> n < EXACT_LIMIT \<Longrightarrow> roundMoneyKernel (baht n) = baht n"
  using baht_scaled(1) [of n] baht_bounds(1) [of n] by (simp add: roundMoneyKernel_near)

lemma toPositiveEntryMinor_range:
  assumes "toPositiveEntryMinor x = Inr m"
  shows "\<exists>n. m = Fin (of_int n) \<and> 0 \<le> n \<and> n \<le> 10 ^ 9"
proof -
  obtain r where x: "x = Fin r" "0 < r"
    using assms by (cases x) (auto simp: toPositiveEntryMinor_def js_le_def js_lt_finite js_eq_finite
        js_lt_def js_eq_def split: if_splits)
  have r: "r \<le> 10000000"
    using assms x by (simp add: toPositiveEntryMinor_def MAX_ENTRY_BAHT_val js_lt_finite split: if_splits)
  let ?s = "fl_val (r * 100)"
  have s: "js_mul x (lit 100) = Fin ?s" "0 \<le> ?s"
    using fl_nonneg [of "r * 100"] x r by (simp_all add: lit_100 js_mul_Fin)
  then have m: "m = math_round (Fin ?s)"
    using assms by (simp add: toPositiveEntryMinor_def Let_def split: if_splits)
  have k: "0 \<le> \<lfloor>?s + 1/2\<rfloor>" using s(2) by simp
  have "?s \<le> r * 100 + (r * 100 / 9007199254740992 + 1 / 10 ^ 30)"
    using fl_err [of "r * 100"] x(2) by (simp only: abs_le_iff abs_of_pos, simp)
  then have "?s + 1/2 < of_int (10 ^ 9) + 1" using r by simp
  then have "\<lfloor>?s + 1/2\<rfloor> \<le> 10 ^ 9" by (simp add: floor_le_iff)
  then show ?thesis using m k s(2) by (auto simp: Let_def)
qed

section \<open>Folding cash entries\<close>

text \<open>What a well-formed raw entry is, and its exact contribution in satang.\<close>

definition raw_type :: "cash_entry_raw \<Rightarrow> cash_type option" where
  "raw_type r = (if ce_type r = JStr (js ''pay_in'') then Some PayIn
     else if ce_type r = JStr (js ''pay_out'') then Some PayOut else None)"

definition amount_minor :: "jsval \<Rightarrow> int option" where
  "amount_minor v = (case v of JNum x \<Rightarrow> (case toPositiveEntryMinor x of Inr m \<Rightarrow> Some \<lfloor>num_val m\<rfloor> | Inl _ \<Rightarrow> None)
     | _ \<Rightarrow> None)"

definition raw_wellformed :: "cash_entry_raw \<Rightarrow> bool" where
  "raw_wellformed r \<longleftrightarrow> is_str (ce_id r) \<and> ce_id r \<noteq> JStr [] \<and> raw_type r \<noteq> None \<and> amount_minor (ce_amount r) \<noteq> None"

definition raw_total :: "cash_type \<Rightarrow> cash_entry_raw list \<Rightarrow> int" where
  "raw_total t rs = sum_list (map (\<lambda>r. the (amount_minor (ce_amount r))) (filter (\<lambda>r. raw_type r = Some t) rs))"

lemma first_reason_ne [simp]: "first_reason b r \<noteq> None"
  by (simp add: first_reason_def split: option.split)

lemma first_reason_Some [simp]: "first_reason (Some x) r = Some x"
  by (simp add: first_reason_def)

lemma is_str_iff: "is_str v \<longleftrightarrow> (\<exists>s. v = JStr s)"
  by (cases v) auto

lemma classify_id_block:
  "fst (classify_id v seen) = None \<longleftrightarrow> is_str v \<and> v \<noteq> JStr [] \<and> v \<notin> JStr ` seen"
  by (auto simp: classify_id_def split: jsval.splits)

lemma classify_id_seen:
  "is_str v \<Longrightarrow> v \<noteq> JStr [] \<Longrightarrow> JStr ` snd (snd (classify_id v seen)) = insert v (JStr ` seen)"
  by (auto simp: classify_id_def split: jsval.splits)

lemma classify_type_simps:
  "fst (classify_type (ce_type r) bl) = raw_type r"
  "snd (classify_type (ce_type r) bl) = None \<longleftrightarrow> bl = None \<and> raw_type r \<noteq> None"
  by (auto simp: classify_type_def raw_type_def)

lemma classify_amount_simps:
  "map_option (\<lambda>m. \<lfloor>num_val m\<rfloor>) (fst (classify_amount v bl)) = amount_minor v"
  "snd (classify_amount v bl) = None \<longleftrightarrow> bl = None \<and> amount_minor v \<noteq> None"
  by (auto simp: classify_amount_def amount_minor_def split: jsval.splits sum.splits)

lemma classify_amount_int:
  "fst (classify_amount v bl) = Some m \<Longrightarrow> \<exists>n. m = Fin (of_int n) \<and> amount_minor v = Some n"
  by (auto simp: classify_amount_def amount_minor_def split: jsval.splits sum.splits
      dest!: toPositiveEntryMinor_range)

lemma classify_at_integer: "isInteger (classify_at v)"
  by (auto simp: classify_at_def at_bad_def isInteger_def split: jsval.splits)

lemma classify_fields:
  "cl_raw (fst (classifyCashEntry r i seen)) = r"
  "cl_index (fst (classifyCashEntry r i seen)) = i"
  "cl_type (fst (classifyCashEntry r i seen)) = raw_type r"
  "cl_orderingAt (fst (classifyCashEntry r i seen)) = classify_at (ce_at r)"
  "\<exists>bl. cl_amountMinor (fst (classifyCashEntry r i seen)) = fst (classify_amount (ce_amount r) bl)"
  "cl_blocking (fst (classifyCashEntry r i seen)) = None \<longleftrightarrow> raw_wellformed r \<and> ce_id r \<notin> JStr ` seen"
  "snd (classifyCashEntry r i seen) = snd (snd (classify_id (ce_id r) seen))"
  by (auto simp: classifyCashEntry_def Let_def case_prod_unfold classify_type_simps
      classify_amount_simps classify_id_block raw_wellformed_def)

lemma classify_seen:
  "raw_wellformed r \<Longrightarrow> JStr ` snd (classifyCashEntry r i seen) = insert (ce_id r) (JStr ` seen)"
  by (simp add: classify_fields classify_id_seen raw_wellformed_def)

lemma classify_all_Cons:
  "classify_all i seen (r # rs) =
   fst (classifyCashEntry r i seen) # classify_all (Suc i) (snd (classifyCashEntry r i seen)) rs"
  by (simp add: case_prod_unfold Let_def)

lemma length_classify_all [simp]: "length (classify_all i seen rs) = length rs"
  by (induction rs arbitrary: i seen) (auto simp: classify_all_Cons simp del: classify_all.simps(2))

lemma classify_all_raw: "map cl_raw (classify_all i seen rs) = rs"
  by (induction rs arbitrary: i seen)
    (auto simp: classify_all_Cons classify_fields simp del: classify_all.simps(2))

lemma classify_all_index: "map cl_index (classify_all i seen rs) = [i ..< i + length rs]"
  by (induction rs arbitrary: i seen)
    (auto simp: classify_all_Cons classify_fields upt_rec simp del: classify_all.simps(2))

lemma classify_all_in:
  "c \<in> set (classify_all i seen rs) \<Longrightarrow> \<exists>j seen'. c = fst (classifyCashEntry (cl_raw c) j seen')"
proof (induction rs arbitrary: i seen)
  case (Cons r rs)
  then consider "c = fst (classifyCashEntry r i seen)"
    | "c \<in> set (classify_all (Suc i) (snd (classifyCashEntry r i seen)) rs)"
    by (auto simp: classify_all_Cons simp del: classify_all.simps(2))
  then show ?case
  proof cases
    case 1
    then have "cl_raw c = r" by (simp add: classify_fields)
    then show ?thesis using 1 by blast
  qed (rule Cons.IH)
qed simp

lemma classify_all_clean:
  "list_all (\<lambda>c. cl_blocking c = None) (classify_all i seen rs) \<longleftrightarrow>
   list_all raw_wellformed rs \<and> distinct (map ce_id rs) \<and> set (map ce_id rs) \<inter> JStr ` seen = {}"
proof (induction rs arbitrary: i seen)
  case (Cons r rs)
  show ?case
  proof (cases "raw_wellformed r")
    case True
    show ?thesis
      unfolding classify_all_Cons list.pred_inject Cons.IH classify_fields(6) classify_seen [OF True]
      using True by auto
  qed (simp add: classify_all_Cons classify_fields del: classify_all.simps(2))
qed simp

lemma sum_step_ok:
  assumes "c \<in> set (classify_all i seen rs)" "cl_blocking c = None"
  shows "sum_step acc c = Inr (let m = the (amount_minor (ce_amount (cl_raw c)));
      t = raw_type (cl_raw c) in
    (if t = Some PayIn then fst acc + m else fst acc, if t = Some PayOut then snd acc + m else snd acc))"
proof -
  obtain j seen' where c: "c = fst (classifyCashEntry (cl_raw c) j seen')"
    using classify_all_in [OF assms(1)] by blast
  have wf: "raw_wellformed (cl_raw c)" using classify_fields(6) [of "cl_raw c" j seen'] c assms(2) by metis
  have ty: "cl_type c = raw_type (cl_raw c)"
    using classify_fields(3) [of "cl_raw c" j seen'] c by simp
  obtain bl where bl: "cl_amountMinor c = fst (classify_amount (ce_amount (cl_raw c)) bl)"
    using classify_fields(5) [of "cl_raw c" j seen'] c by auto
  moreover obtain m where m: "fst (classify_amount (ce_amount (cl_raw c)) bl) = Some m"
    using wf classify_amount_simps(1) [of "ce_amount (cl_raw c)" bl] unfolding raw_wellformed_def by auto
  ultimately obtain n where n: "cl_amountMinor c = Some (Fin (of_int n))"
    "amount_minor (ce_amount (cl_raw c)) = Some n"
    using classify_amount_int [OF m] by auto
  show ?thesis
    unfolding sum_step_def ty n by (cases acc) (simp add: n Let_def)
qed

lemma fold_sum_step:
  assumes "set cs \<subseteq> set (classify_all i seen rs)" "list_all (\<lambda>c. cl_blocking c = None) cs"
  shows "fold_result sum_step acc cs =
    Inr (fst acc + raw_total PayIn (map cl_raw cs), snd acc + raw_total PayOut (map cl_raw cs))"
  using assms
proof (induction cs arbitrary: acc)
  case (Cons c cs)
  then show ?case
    by (cases "raw_type (cl_raw c)")
      (auto simp: sum_step_ok raw_total_def Let_def split: cash_type.splits)
qed (simp add: raw_total_def)

lemma raw_total_perm: "mset rs = mset rs' \<Longrightarrow> raw_total t rs = raw_total t rs'"
proof -
  assume "mset rs = mset rs'"
  then have "mset (map (\<lambda>r. the (amount_minor (ce_amount r))) (filter (\<lambda>r. raw_type r = Some t) rs)) =
    mset (map (\<lambda>r. the (amount_minor (ce_amount r))) (filter (\<lambda>r. raw_type r = Some t) rs'))"
    by simp
  then show ?thesis unfolding raw_total_def by (metis sum_mset_sum_list)
qed

lemma scan_blocking:
  "fst (foldl scan_step (b, s, f) cs) = b + length (filter (\<lambda>c. cl_blocking c \<noteq> None) cs)"
  by (induction cs arbitrary: b s f) (auto simp: scan_step_def split: option.splits prod.splits)

text \<open>
  The comparison function agrees with the lexicographic order of (\<^verbatim>\<open>at\<close>, UTF-8 id, index):
  its subtraction of two integral timestamps has the right sign, even where it overflows.
\<close>

definition canonical_key_cmp :: "classified_entry \<Rightarrow> classified_entry \<Rightarrow> int" where
  "canonical_key_cmp = cmp_then (cmp_on (\<lambda>e. num_val (cl_orderingAt e)) rat_cmp)
     (cmp_then (cmp_on cl_orderingId utf8ByteCompare) (cmp_on (\<lambda>e. int (cl_index e)) cmp_sub))"

interpretation canonical: comparator canonical_key_cmp
  unfolding canonical_key_cmp_def
  by (intro comparator_then comparator_on utf8_comparator rat_order.comparator_axioms
      sub_cmp.comparator_axioms)

lemma compareCanonicalOrder_key:
  assumes "isInteger (cl_orderingAt a)" "isInteger (cl_orderingAt b)"
  shows "compareCanonicalOrder a b = canonical_key_cmp a b"
  using assms js_sgn_sub_integers [of "cl_orderingAt a" "cl_orderingAt b"]
  by (auto simp: compareCanonicalOrder_def canonical_key_cmp_def cmp_then_def cmp_on_def cmp_sub_def
      rat_cmp_def Let_def js_eq_finite isInteger_def)

lemma classify_all_at: "c \<in> set (classify_all i seen rs) \<Longrightarrow> isInteger (cl_orderingAt c)"
  by (metis classify_all_in classify_at_integer classify_fields(4))

lemma canonicalOrder_classified:
  "canonicalOrder (classify_all i seen rs) = sort_by canonical_key_cmp (classify_all i seen rs)"
  unfolding canonicalOrder_def
  by (rule sort_by_cong) (simp add: compareCanonicalOrder_key classify_all_at)

lemma canonical_key_0: "canonical_key_cmp a b = 0 \<Longrightarrow> cl_index a = cl_index b"
  by (auto simp: canonical_key_cmp_def cmp_then_def cmp_on_def cmp_sub_def split: if_splits)

text \<open>What \<^verbatim>\<open>foldCashEntriesSnapshot\<close> returns, over the raw entries.\<close>

definition snapshot_clean :: "cash_entry_raw list \<Rightarrow> bool" where
  "snapshot_clean rs \<longleftrightarrow> length rs \<le> CAP_SNAPSHOT_ENTRIES \<and> list_all raw_wellformed rs \<and> distinct (map ce_id rs)"

lemma snapshot_result:
  obtains f where "foldCashEntriesSnapshot rs = Inr f"
    "cf_storedSubset f = take CAP_SNAPSHOT_ENTRIES (canonicalOrder (classify_all 0 {} rs))"
    "sm_count (cf_meta f) = min (length rs) CAP_SNAPSHOT_ENTRIES"
    "sm_sourceEntryCount (cf_meta f) = length rs"
    "sm_cashEntriesOverflowed (cf_meta f) = (length rs > CAP_SNAPSHOT_ENTRIES)"
    "cf_payInMinor f = (if snapshot_clean rs then Some (raw_total PayIn rs) else None)"
    "cf_payOutMinor f = (if snapshot_clean rs then Some (raw_total PayOut rs) else None)"
proof -
  define cs where "cs = classify_all 0 {} rs"
  define st where "st = take CAP_SNAPSHOT_ENTRIES (canonicalOrder cs)"
  obtain b sf fr where scan: "foldl scan_step (0, 0, None) st = (b, sf, fr)" by (metis prod_cases3)
  have b: "b = length (filter (\<lambda>c. cl_blocking c \<noteq> None) st)"
    using scan_blocking [of 0 0 None st] scan by simp
  have lc: "length (canonicalOrder cs) = length rs" by (simp add: canonicalOrder_def cs_def)
  have ms: "mset (canonicalOrder cs) = mset cs" by (simp add: canonicalOrder_def)
  have ls: "length st = min (length rs) CAP_SNAPSHOT_ENTRIES" by (simp add: st_def lc min.commute)
  have st: "mset st = mset cs" if "length rs \<le> CAP_SNAPSHOT_ENTRIES"
    using that ms lc by (simp add: st_def)
  have clean: "b = 0 \<and> \<not> length rs > CAP_SNAPSHOT_ENTRIES \<longleftrightarrow> snapshot_clean rs"
  proof (cases "length rs > CAP_SNAPSHOT_ENTRIES")
    case False
    then have "set st = set cs" using st by (metis leI set_mset_mset)
    then have "b = 0 \<longleftrightarrow> list_all (\<lambda>c. cl_blocking c = None) cs"
      using b by (auto simp: list_all_iff filter_empty_conv)
    also have "\<dots> \<longleftrightarrow> list_all raw_wellformed rs \<and> distinct (map ce_id rs)"
      unfolding cs_def classify_all_clean by simp
    finally show ?thesis using False by (auto simp: snapshot_clean_def)
  qed (simp add: snapshot_clean_def)
  let ?meta = "\<lparr>sm_count = length st, sm_foldBlockingCount = b, sm_softFlagCount = sf,
    sm_firstFoldBlockingReason = fr, sm_sourceEntryCount = length rs,
    sm_cashEntriesOverflowed = (length rs > CAP_SNAPSHOT_ENTRIES)\<rparr>"
  show ?thesis
  proof (cases "snapshot_clean rs")
    case True
    then have le: "length rs \<le> CAP_SNAPSHOT_ENTRIES" by (simp add: snapshot_clean_def)
    have "list_all (\<lambda>c. cl_blocking c = None) st"
      using True clean b by (auto simp: list_all_iff filter_empty_conv)
    moreover have "set st \<subseteq> set (classify_all 0 {} rs)"
      using st [OF le] by (metis cs_def set_mset_mset subset_refl)
    ultimately have "fold_result sum_step (0, 0) st =
      Inr (raw_total PayIn (map cl_raw st), raw_total PayOut (map cl_raw st))"
      using fold_sum_step [of st 0 "{}" rs "(0, 0)"] by simp
    moreover have "raw_total t (map cl_raw st) = raw_total t rs" for t
    proof -
      have "mset (map cl_raw st) = mset (map cl_raw cs)" using st [OF le] by simp
      then show ?thesis using classify_all_raw [of 0 "{}" rs] cs_def by (metis raw_total_perm)
    qed
    ultimately have "foldCashEntriesSnapshot rs = Inr \<lparr>cf_meta = ?meta, cf_storedSubset = st,
        cf_payInMinor = Some (raw_total PayIn rs), cf_payOutMinor = Some (raw_total PayOut rs)\<rparr>"
      using clean True scan by (simp add: foldCashEntriesSnapshot_def Let_def st_def cs_def)
    then show ?thesis using that ls True by (simp add: st_def cs_def)
  next
    case False
    then have "foldCashEntriesSnapshot rs = Inr \<lparr>cf_meta = ?meta, cf_storedSubset = st,
        cf_payInMinor = None, cf_payOutMinor = None\<rparr>"
      using clean scan unfolding foldCashEntriesSnapshot_def Let_def st_def [symmetric, unfolded cs_def] by auto
    then show ?thesis using that ls False by (simp add: st_def cs_def)
  qed
qed

section \<open>Folding the synced orders\<close>

definition payment_contrib :: "jsval \<Rightarrow> (tender \<times> int) option" where
  "payment_contrib p = (if is_object p then
     (case get_prop p (js ''method'') of
        JStr m \<Rightarrow> (case map_of KNOWN_PAYMENT_METHODS m of
            Some t \<Rightarrow> map_option (Pair t) (amount_minor (get_prop p (js ''amount'')))
          | None \<Rightarrow> None)
      | _ \<Rightarrow> None) else None)"

definition total_minor :: "jsval \<Rightarrow> int option" where
  "total_minor v = (case v of
      JNum x \<Rightarrow> (case toNonNegativeTotalMinor x of Inr m \<Rightarrow> Some \<lfloor>num_val m\<rfloor> | Inl _ \<Rightarrow> None)
    | _ \<Rightarrow> None)"

fun payments_of :: "jsval \<Rightarrow> jsval list" where
  "payments_of (JArr ps) = ps"
| "payments_of _ = []"

fun is_array :: "jsval \<Rightarrow> bool" where
  "is_array (JArr _) = True"
| "is_array _ = False"

definition sale_wellformed :: "async_order \<Rightarrow> bool" where
  "sale_wellformed d \<longleftrightarrow> is_array (ao_payments d)
     \<and> list_all (\<lambda>p. payment_contrib p \<noteq> None) (payments_of (ao_payments d))
     \<and> total_minor (ao_changeAmt d) \<noteq> None"

definition tendered :: "jsval list \<Rightarrow> tender \<Rightarrow> int" where
  "tendered ps t = sum_list (map (\<lambda>p. case payment_contrib p of
      Some (t', m) \<Rightarrow> if t' = t then m else 0 | None \<Rightarrow> 0) ps)"

text \<open>Cash is net of the change handed back, and never negative.\<close>

definition sale_expected :: "tender \<Rightarrow> async_order \<Rightarrow> int" where
  "sale_expected t d = (let m = tendered (payments_of (ao_payments d)) t in
     if t = Cash then max 0 (m - the (total_minor (ao_changeAmt d))) else m)"

lemma toNonNegativeTotalMinor_int:
  assumes "toNonNegativeTotalMinor x = Inr m"
  shows "\<exists>n. m = Fin (of_int n) \<and> 0 \<le> n"
proof (cases "x = NegZero")
  case True
  then have "m = Fin (of_int 0)" using assms by (auto simp: toNonNegativeTotalMinor_def js_lt_def)
  then show ?thesis by blast
next
  case False
  obtain r where x: "x = Fin r" "0 \<le> r"
    using assms False by (cases x) (auto simp: toNonNegativeTotalMinor_def js_lt_def split: if_splits)
  have r: "r \<le> 10000000000"
    using assms x by (simp add: toNonNegativeTotalMinor_def MAX_TOTAL_BAHT_val js_lt_finite split: if_splits)
  let ?s = "fl_val (r * 100)"
  have s: "js_mul x (lit 100) = Fin ?s" "0 \<le> ?s"
    using fl_nonneg [of "r * 100"] x r by (simp_all add: lit_100 js_mul_Fin)
  then have "m = math_round (Fin ?s)"
    using assms x by (simp add: toNonNegativeTotalMinor_def Let_def split: if_splits)
  moreover have "0 \<le> \<lfloor>?s + 1/2\<rfloor>" using s(2) by simp
  ultimately show ?thesis using s(2) by (auto simp: Let_def)
qed

lemma amount_minor_Inr:
  "amount_minor (JNum x) = Some n \<longleftrightarrow> toPositiveEntryMinor x = Inr (Fin (of_int n))"
  by (auto simp: amount_minor_def split: sum.splits dest!: toPositiveEntryMinor_range)

lemma payment_step_ok:
  "payment_contrib p = Some (t, m) \<Longrightarrow> payment_step (bl, tot) p = Inr (bl, tot(t := tot t + m))"
  unfolding payment_contrib_def payment_step_def
  by (auto split: if_splits jsval.splits option.splits simp: amount_minor_Inr)
    (auto simp: amount_minor_def split: jsval.splits sum.splits dest!: toPositiveEntryMinor_range)

lemma payment_step_bad:
  "payment_contrib p = None \<Longrightarrow> \<exists>r. payment_step (bl, tot) p = Inr (first_reason bl r, tot)"
  unfolding payment_contrib_def payment_step_def
  by (auto split: if_splits jsval.splits option.splits sum.splits simp: amount_minor_def)

lemma tendered_Cons:
  "tendered (p # ps) t = (case payment_contrib p of Some (t', m) \<Rightarrow> if t' = t then m else 0 | None \<Rightarrow> 0) + tendered ps t"
  by (simp add: tendered_def)

lemma payments_fold:
  "\<exists>bl'. fold_result payment_step (bl, tot) ps = Inr (bl', \<lambda>t. tot t + tendered ps t) \<and>
     (bl' = None \<longleftrightarrow> bl = None \<and> list_all (\<lambda>p. payment_contrib p \<noteq> None) ps)"
proof (induction ps arbitrary: bl tot)
  case (Cons p ps)
  show ?case
  proof (cases "payment_contrib p")
    case None
    then obtain r where r: "payment_step (bl, tot) p = Inr (first_reason bl r, tot)"
      using payment_step_bad by blast
    from Cons.IH [of "first_reason bl r" tot] obtain bl' where
      "fold_result payment_step (first_reason bl r, tot) ps = Inr (bl', \<lambda>t. tot t + tendered ps t)"
      "bl' \<noteq> None" by auto
    then show ?thesis using r None by (simp add: tendered_Cons)
  next
    case (Some tm)
    obtain t m where tm: "tm = (t, m)" by (cases tm)
    have st: "payment_step (bl, tot) p = Inr (bl, tot(t := tot t + m))"
      using Some tm by (simp add: payment_step_ok)
    have eq: "(\<lambda>t'. (tot(t := tot t + m)) t' + tendered ps t') = (\<lambda>t'. tot t' + tendered (p # ps) t')"
      using Some tm by (auto simp: tendered_Cons)
    from Cons.IH [of bl "tot(t := tot t + m)", unfolded eq] show ?thesis
      using st Some by (simp del: fun_upd_apply)
  qed
qed (simp add: tendered_def)

lemma foldOneSale_ok:
  "\<exists>f. foldOneSale d = Inr f \<and> fo_docId f = ao_id d
     \<and> (fo_blocking f = None \<longleftrightarrow> sale_wellformed d)
     \<and> (sale_wellformed d \<longrightarrow> fo_sums f = tendered (payments_of (ao_payments d))
          \<and> fo_changeAmt f = the (total_minor (ao_changeAmt d)))"
proof (cases "is_array (ao_payments d)")
  case False
  then have "foldOneSale d = Inr \<lparr>fo_docId = ao_id d, fo_blocking = Some PaymentsMalformed,
      fo_sums = (\<lambda>_. 0), fo_changeAmt = 0\<rparr>"
    unfolding foldOneSale_def by (cases "ao_payments d") simp_all
  then show ?thesis using False by (simp add: sale_wellformed_def)
next
  case True
  then obtain ps where ps: "ao_payments d = JArr ps" by (cases "ao_payments d") auto
  obtain bl tot where f: "fold_result payment_step (None, \<lambda>_. 0) ps = Inr (bl, tot)"
    "bl = None \<longleftrightarrow> list_all (\<lambda>p. payment_contrib p \<noteq> None) ps" "tot = tendered ps"
    using payments_fold [of None "\<lambda>_. 0" ps] by (simp, metis)
  show ?thesis
  proof (cases "bl = None")
    case False
    then show ?thesis using f ps by (auto simp: foldOneSale_def sale_wellformed_def)
  next
    case bl: True
    show ?thesis
    proof (cases "total_minor (ao_changeAmt d)")
      case None
      then show ?thesis using f ps bl
        by (auto simp: foldOneSale_def sale_wellformed_def total_minor_def split: jsval.splits sum.splits)
    next
      case (Some c)
      then obtain x where x: "ao_changeAmt d = JNum x" "toNonNegativeTotalMinor x = Inr (Fin (of_int c))"
        by (auto simp: total_minor_def split: jsval.splits sum.splits dest!: toNonNegativeTotalMinor_int)
      then show ?thesis using f ps bl Some
        by (simp add: foldOneSale_def sale_wellformed_def)
    qed
  qed
qed

definition the_sale_fold :: "async_order \<Rightarrow> sale_fold" where
  "the_sale_fold d = projr (foldOneSale d)"

lemma the_sale_fold:
  "foldOneSale d = Inr (the_sale_fold d)"
  "fo_docId (the_sale_fold d) = ao_id d"
  "fo_blocking (the_sale_fold d) = None \<longleftrightarrow> sale_wellformed d"
  "sale_wellformed d \<Longrightarrow> drawer_sum_step acc (the_sale_fold d) t = acc t + sale_expected t d"
proof -
  obtain f where f: "foldOneSale d = Inr f" "fo_docId f = ao_id d"
    "fo_blocking f = None \<longleftrightarrow> sale_wellformed d"
    "sale_wellformed d \<longrightarrow> fo_sums f = tendered (payments_of (ao_payments d))
          \<and> fo_changeAmt f = the (total_minor (ao_changeAmt d))"
    using foldOneSale_ok [of d] by (elim exE conjE)
  then show "foldOneSale d = Inr (the_sale_fold d)" "fo_docId (the_sale_fold d) = ao_id d"
    "fo_blocking (the_sale_fold d) = None \<longleftrightarrow> sale_wellformed d"
    by (simp_all add: the_sale_fold_def)
  show "drawer_sum_step acc (the_sale_fold d) t = acc t + sale_expected t d" if "sale_wellformed d"
    using f that by (auto simp: the_sale_fold_def drawer_sum_step_def sale_expected_def Let_def)
qed

lemma fold_drawer_sums:
  "list_all sale_wellformed ds \<Longrightarrow>
   foldl drawer_sum_step acc (map the_sale_fold ds) t = acc t + sum_list (map (sale_expected t) ds)"
  by (induction ds arbitrary: acc) (simp_all add: the_sale_fold)

definition drawer_member :: "jsstr \<Rightarrow> async_order \<Rightarrow> bool" where
  "drawer_member dev d \<longleftrightarrow> isLedgerSaleDoc d \<and> ao_deviceId d = JStr dev"

definition drawer_foreign :: "jsstr \<Rightarrow> async_order \<Rightarrow> bool" where
  "drawer_foreign dev d \<longleftrightarrow> isLedgerSaleDoc d \<and> ao_deviceId d \<noteq> JStr dev"

lemma drawer_unfold:
  "foldDeviceScopedDrawer docs dev =
    (let ordered = sort_by (cmp_on ao_id utf8ByteCompare) docs;
         members = filter (drawer_member dev) ordered;
         firstBlocked = List.find (\<lambda>d. \<not> sale_wellformed d) members
     in Inr \<lparr>dr_foldBlocked = (firstBlocked \<noteq> None),
          dr_foldBlockReason = Option.bind firstBlocked (\<lambda>d. fo_blocking (the_sale_fold d)),
          dr_foldBlockDocId = map_option ao_id firstBlocked,
          dr_saleCount = length members,
          dr_totalBills = (if firstBlocked \<noteq> None then None else Some (length members)),
          dr_expected = (\<lambda>t. if firstBlocked \<noteq> None then None else
             Some (number_of_bigint (sum_list (map (sale_expected t) members)))),
          dr_crossDeviceCount = length (filter (drawer_foreign dev) ordered)\<rparr>)"
proof -
  define ordered where "ordered = sort_by (cmp_on ao_id utf8ByteCompare) docs"
  define members where "members = filter (drawer_member dev) ordered"
  have m: "map_result foldOneSale members = Inr (map the_sale_fold members)"
    by (rule map_result_total) (rule the_sale_fold)
  have fnd: "List.find (\<lambda>f. fo_blocking f \<noteq> None) (map the_sale_fold ds) =
    map_option the_sale_fold (List.find (\<lambda>d. \<not> sale_wellformed d) ds)" for ds
    by (induction ds) (simp_all add: the_sale_fold del: not_None_eq)
  have tot: "List.find (\<lambda>d. \<not> sale_wellformed d) members = None \<Longrightarrow>
    foldl drawer_sum_step (\<lambda>_. 0) (map the_sale_fold members) t = sum_list (map (sale_expected t) members)" for t
    by (subst fold_drawer_sums) (simp_all add: find_None_iff list_all_iff)
  show ?thesis
  proof (cases "List.find (\<lambda>d. \<not> sale_wellformed d) members")
    case None
    then show ?thesis
      using m fnd [of members] tot unfolding foldDeviceScopedDrawer_def Let_def drawer_member_def
        drawer_foreign_def cmp_on_def ordered_def members_def
      by simp
  next
    case (Some d)
    then show ?thesis
      using m fnd [of members] unfolding foldDeviceScopedDrawer_def Let_def drawer_member_def
        drawer_foreign_def cmp_on_def ordered_def members_def
      by (simp add: the_sale_fold)
  qed
qed

section \<open>Properties\<close>

text \<open>Every entry amount with at most two decimals, from THB 0.01 to THB 10,000,000, is
  accepted and converted to its exact number of satang, although the scaled double is not
  exact; and the terminal's rounding leaves it unchanged.\<close>

theorem entry_satang_exact:
  assumes "1 \<le> n" and "n \<le> 10 ^ 9"
  shows "toPositiveEntryMinor (baht n) = Inr (Fin (of_int n)) \<and> roundMoneyKernel (baht n) = baht n"
  using toPositiveEntryMinor_baht [OF assms] roundMoneyKernel_baht [of n] assms
  by (simp add: EXACT_LIMIT_def)

theorem entry_satang_exact_witness:
  "toPositiveEntryMinor (baht 1999) = Inr (Fin 1999) \<and> roundMoneyKernel (baht 1999) = baht 1999"
  using entry_satang_exact [of 1999] by simp

text \<open>Every aggregate total with at most two decimals below THB 134,217,728.00 survives the
  terminal's rounding and the server's conversion: the result is its exact number of satang.\<close>

theorem total_satang_exact:
  assumes "0 \<le> n" and "n < EXACT_LIMIT"
  shows "toNonNegativeTotalMinor (roundMoneyKernel (baht n)) = Inr (Fin (of_int n))"
  using assms by (simp add: roundMoneyKernel_baht toNonNegativeTotalMinor_baht)

theorem total_satang_exact_witness:
  "toNonNegativeTotalMinor (roundMoneyKernel (baht 13421772799)) = Inr (Fin 13421772799)"
  using total_satang_exact [of 13421772799] by (simp add: EXACT_LIMIT_def)

text \<open>The bound of the previous property is where the code fails: THB 134,217,728.02 is a
  two-decimal amount far below the accepted maximum of THB 10,000,000,000, but the absolute
  tolerance of 1e-6 rejects it as imprecise, so a shift whose fold and captured total agree
  on it gets no verdict.\<close>

theorem total_precision_gap:
  "js_lt (baht 13421772802) MAX_TOTAL_BAHT
   \<and> toNonNegativeTotalMinor (roundMoneyKernel (baht 13421772802)) = Inl TotalPrecision
   \<and> drawerCashParityMatches (f\<lparr>cf_payInMinor := Some 13421772802, cf_payOutMinor := Some 0\<rparr>)
       (baht 13421772802) (baht 0) = Inr None"
proof -
  let ?x = "4503599628041585 / 33554432 :: rat" and ?s = "7036874418814977 / 524288 :: rat"
  have x: "baht 13421772802 = Fin ?x"
  proof -
    have "ulp_exp (13421772802 / 100) = 27 - 52" by (rule ulp_exp_eq) (simp_all add: power_int_def)
    then have "fl_val (13421772802 / 100) = ?x"
      using fl_val_eval [of "13421772802 / 100" 25 4503599628041585] by simp
    then show ?thesis using baht_val(1) [of 13421772802] by simp
  qed
  have s: "js_mul (Fin ?x) (lit 100) = Fin ?s"
  proof -
    have "ulp_exp (?x * 100) = 33 - 52" by (rule ulp_exp_eq) (simp_all add: power_int_def)
    then have "fl_val (?x * 100) = ?s"
      using fl_val_eval [of "?x * 100" 19 7036874418814977] by simp
    then show ?thesis using fl_nonneg [of "?x * 100"] by (simp add: lit_100 js_mul_Fin)
  qed
  have n: "math_round (Fin ?s) = Fin 13421772802"
    using math_round_near [of ?s 13421772802] by simp
  have d: "js_lt PRECISION_EPSILON (js_abs (js_sub (Fin ?s) (Fin 13421772802)))"
  proof -
    have "\<bar>fl_val (1 / 524288) - 1 / 524288\<bar> \<le> 1 / 10000000" by (rule order_trans [OF fl_err]) simp
    then have "15 / 10000000 < fl_val (1 / 524288)" unfolding abs_le_iff by linarith
    moreover obtain e where e: "PRECISION_EPSILON = Fin e" "e \<le> 1001 / 1000000000"
      by (rule PRECISION_EPSILON_val)
    ultimately have "e < fl_val (1 / 524288)" by linarith
    then show ?thesis
      using fl_nonneg [of "1 / 524288"] unfolding e(1) by (simp add: js_sub_Fin js_lt_finite)
  qed
  have r: "roundMoneyKernel (baht 13421772802) = baht 13421772802"
    using n by (intro roundMoneyKernel_near) (simp_all add: x s)
  have p: "toNonNegativeTotalMinor (baht 13421772802) = Inl TotalPrecision"
    using n d by (simp add: toNonNegativeTotalMinor_def x s js_lt_finite MAX_TOTAL_BAHT_val Let_def)
  have x': "isFinite (baht 13421772802)" "js_lt (baht 13421772802) MAX_TOTAL_BAHT"
    by (simp_all add: x js_lt_finite MAX_TOTAL_BAHT_val)
  show ?thesis
    using p x' by (simp add: r drawerCashParityMatches_def)
qed

text \<open>C39. \<^verbatim>\<open>foldCashEntriesSnapshot\<close> never throws. It sums exactly the pay-in and pay-out satang of
  the raw entries when there are at most 1000 of them, each is well-formed and no id
  repeats, whatever their order; in every other case both sums are null. The counts are
  those of the source array.\<close>

theorem snapshot_fold_spec:
  "\<exists>f. foldCashEntriesSnapshot rs = Inr f
     \<and> sm_sourceEntryCount (cf_meta f) = length rs
     \<and> sm_count (cf_meta f) = min (length rs) CAP_SNAPSHOT_ENTRIES
     \<and> sm_cashEntriesOverflowed (cf_meta f) = (length rs > CAP_SNAPSHOT_ENTRIES)
     \<and> cf_payInMinor f = (if snapshot_clean rs then Some (raw_total PayIn rs) else None)
     \<and> cf_payOutMinor f = (if snapshot_clean rs then Some (raw_total PayOut rs) else None)"
  by (rule snapshot_result [of rs]) blast

text \<open>The stored subset is in canonical order: strictly increasing in the triple of
  timestamp, UTF-8 bytes of the id, and source index. The order is total, so the first
  1000 entries kept on overflow are determined by the source.\<close>

theorem snapshot_canonical:
  "\<exists>f. foldCashEntriesSnapshot rs = Inr f
     \<and> sorted_wrt (\<lambda>a b. num_val (cl_orderingAt a) < num_val (cl_orderingAt b)
         \<or> num_val (cl_orderingAt a) = num_val (cl_orderingAt b)
           \<and> (utf8ByteCompare (cl_orderingId a) (cl_orderingId b) < 0
             \<or> utf8ByteCompare (cl_orderingId a) (cl_orderingId b) = 0 \<and> cl_index a < cl_index b))
       (cf_storedSubset f)"
proof -
  obtain f where f: "foldCashEntriesSnapshot rs = Inr f"
    "cf_storedSubset f = take CAP_SNAPSHOT_ENTRIES (canonicalOrder (classify_all 0 {} rs))"
    by (rule snapshot_result [of rs])
  let ?s = "sort_by canonical_key_cmp (classify_all 0 {} rs)"
  have "distinct (map cl_index (classify_all 0 {} rs))" by (simp add: classify_all_index)
  moreover have "mset (map cl_index ?s) = mset (map cl_index (classify_all 0 {} rs))" by simp
  ultimately have "distinct (map cl_index ?s)" by (metis mset_eq_imp_distinct_iff)
  then have "sorted_wrt (\<lambda>a b. cl_index a \<noteq> cl_index b) ?s"
    by (simp add: distinct_map distinct_conv_nth inj_on_def sorted_wrt_iff_nth_less)
  then have "sorted_wrt (\<lambda>a b. canonical_key_cmp a b < 0) ?s"
    using canonical.sorted_sort_by [of "classify_all 0 {} rs"] canonical_key_0
    by (fastforce simp: sorted_wrt_iff_nth_less order_le_less)
  then have "sorted_wrt (\<lambda>a b. canonical_key_cmp a b < 0) (cf_storedSubset f)"
    unfolding f(2) canonicalOrder_classified by (rule sorted_wrt_take)
  then show ?thesis using f(1)
    by (auto elim!: sorted_wrt_mono_rel [rotated]
        simp: canonical_key_cmp_def cmp_then_def cmp_on_def cmp_sub_def rat_cmp_def split: if_splits)
qed

text \<open>For captured totals of \<open>i\<close> and \<open>p\<close> satang below THB 134,217,728, an unblocked fold gets the
  verdict true exactly when both its sums equal the captured totals; it never throws and
  never answers null.\<close>

theorem parity_exact:
  assumes "cf_payInMinor f = Some a" and "cf_payOutMinor f = Some b"
    and "0 \<le> i" and "i < EXACT_LIMIT" and "0 \<le> p" and "p < EXACT_LIMIT"
  shows "drawerCashParityMatches f (baht i) (baht p) = Inr (Some (a = i \<and> b = p))"
  using assms
  by (simp add: drawerCashParityMatches_def roundMoneyKernel_baht toNonNegativeTotalMinor_baht baht_bounds)

theorem parity_exact_witness:
  "\<exists>f. drawerCashParityMatches f (baht 70) (baht 30) = Inr (Some (70 = (70::int) \<and> 25 = (30::int)))"
  using parity_exact [of "\<lparr>cf_meta = \<lparr>sm_count = 2, sm_foldBlockingCount = 0, sm_softFlagCount = 0,
      sm_firstFoldBlockingReason = None, sm_sourceEntryCount = 2, sm_cashEntriesOverflowed = False\<rparr>,
      cf_storedSubset = [], cf_payInMinor = Some 70, cf_payOutMinor = Some 25\<rparr>" 70 25 70 30]
  by (auto simp: EXACT_LIMIT_def)

text \<open>\<^verbatim>\<open>foldDeviceScopedDrawer\<close> never throws. Its members are the ledger-visible orders of the
  closing device; ledger-visible orders of other devices are only counted. It is blocked
  exactly when a member is malformed; otherwise each expected amount is the exact satang
  sum over the members, cash net of change per sale and never negative.\<close>

theorem drawer_fold_spec:
  "\<exists>s. foldDeviceScopedDrawer docs dev = Inr s
     \<and> dr_saleCount s = length (filter (drawer_member dev) docs)
     \<and> dr_crossDeviceCount s = length (filter (drawer_foreign dev) docs)
     \<and> dr_foldBlocked s = (\<not> list_all sale_wellformed (filter (drawer_member dev) docs))
     \<and> (dr_foldBlockReason s = None \<longleftrightarrow> \<not> dr_foldBlocked s)
     \<and> dr_expected s = (\<lambda>t. if dr_foldBlocked s then None else
          Some (number_of_bigint (sum_list (map (sale_expected t) (filter (drawer_member dev) docs)))))"
proof -
  let ?o = "sort_by (cmp_on ao_id utf8ByteCompare) docs"
  have perm: "mset (filter P ?o) = mset (filter P docs)" for P by simp
  have len: "length (filter P ?o) = length (filter P docs)" for P
    by (metis perm size_mset)
  have all: "list_all sale_wellformed (filter (drawer_member dev) ?o) =
    list_all sale_wellformed (filter (drawer_member dev) docs)"
    by (auto simp: list_all_iff)
  have sum: "sum_list (map h (filter P ?o)) = sum_list (map h (filter P docs))" for P and h :: "async_order \<Rightarrow> int"
    by (metis perm mset_map sum_mset_sum_list)
  have find: "(List.find (\<lambda>d. \<not> sale_wellformed d) ds = None) = list_all sale_wellformed ds" for ds
    by (auto simp: find_None_iff list_all_iff)
  show ?thesis
  proof (cases "List.find (\<lambda>d. \<not> sale_wellformed d) (filter (drawer_member dev) ?o)")
    case None
    then show ?thesis
      using find [of "filter (drawer_member dev) ?o"] all unfolding drawer_unfold Let_def
      by (simp add: len sum)
  next
    case (Some d)
    then have "\<not> sale_wellformed d" by (auto simp: find_Some_iff)
    then have "fo_blocking (the_sale_fold d) \<noteq> None" by (simp only: the_sale_fold) simp
    then show ?thesis
      using Some find [of "filter (drawer_member dev) ?o"] all unfolding drawer_unfold Let_def
      by (simp add: len)
  qed
qed

text \<open>The whole summary, the first blocking reason and document included, does not depend on
  the order in which the orders are read, for distinct well-formed document ids.\<close>

theorem drawer_fold_order_independent:
  assumes "mset docs = mset docs'" and "distinct (map ao_id docs)"
    and "list_all (\<lambda>d. well_formed (ao_id d)) docs"
  shows "foldDeviceScopedDrawer docs dev = foldDeviceScopedDrawer docs' dev"
proof -
  have "sort_by (cmp_on ao_id utf8ByteCompare) docs = sort_by (cmp_on ao_id utf8ByteCompare) docs'"
  proof (rule comparator.sort_by_perm [OF comparator_on [OF utf8_comparator] assms(1)])
    show "a = b" if "a \<in> set docs" "b \<in> set docs" "cmp_on ao_id utf8ByteCompare a b = 0" for a b
      using that assms(2,3) by (auto simp: cmp_on_def utf8ByteCompare_eq_0 list_all_iff distinct_map inj_on_def)
  qed
  then show ?thesis by (simp add: drawer_unfold)
qed

theorem drawer_fold_order_independent_witness:
  "\<exists>a b. a \<noteq> b \<and> foldDeviceScopedDrawer [a, b] (js ''D'') = foldDeviceScopedDrawer [b, a] (js ''D'')"
proof -
  let ?o = "\<lambda>i. \<lparr>ao_id = js i, ao_deviceId = JStr (js ''D''), ao_status = JStr (js ''pending''),
    ao_voidRequested = JUndef, ao_reconcileStatus = JUndef, ao_changeAmt = JNum (Fin 0),
    ao_payments = JArr [JObj [(js ''method'', JStr (js ''cash'')), (js ''amount'', JNum (Fin 5))]]\<rparr>"
  have "foldDeviceScopedDrawer [?o ''a'', ?o ''b''] (js ''D'') = foldDeviceScopedDrawer [?o ''b'', ?o ''a''] (js ''D'')"
    by (intro drawer_fold_order_independent) simp_all
  moreover have "?o ''a'' \<noteq> ?o ''b''" by simp
  ultimately show ?thesis by blast
qed

end
