(* ===== verification/ShiftLedger.thy ===== *)
theory ShiftLedger
  imports ShiftCloseMoney
begin

text \<open>
  The terminal's own drawer arithmetic, in floating point: \<^verbatim>\<open>src/lib/money.ts\<close>
  (\<^verbatim>\<open>roundMoney\<close>), \<^verbatim>\<open>src/lib/pos/localLedger.ts\<close> (which orders are sales, and their order)
  and \<^verbatim>\<open>src/lib/pos/shiftLedger.ts\<close> (the running sums of cash entries and tenders). The
  lemmas bound the accumulated rounding error of the running sums, so that the final
  \<^verbatim>\<open>roundMoney\<close> yields the amount nearest to the exact number of satang.
\<close>

section \<open>Definitions\<close>

definition roundMoney :: "jsnum \<Rightarrow> jsnum" where
  "roundMoney amount =
    (if \<not> isFinite amount then Fin 0
     else js_div (math_round (js_mul amount (lit 100))) (lit 100))"

record shift_cash_entry =
  sc_type :: cash_type
  sc_amount :: jsnum

definition cash_entry_step :: "jsnum \<times> jsnum \<Rightarrow> shift_cash_entry \<Rightarrow> jsnum \<times> jsnum" where
  "cash_entry_step acc e = (case acc of (payIn, payOut) \<Rightarrow>
     if sc_type e = PayIn then (js_add payIn (sc_amount e), payOut)
     else if sc_type e = PayOut then (payIn, js_add payOut (sc_amount e))
     else (payIn, payOut))"

definition foldCashEntries :: "shift_cash_entry list \<Rightarrow> jsnum \<times> jsnum" where
  "foldCashEntries entries =
    (let (payIn, payOut) = foldl cash_entry_step (Fin 0, Fin 0) entries
     in (roundMoney payIn, roundMoney payOut))"

record local_payment =
  lp_method :: jsstr
  lp_amount :: jsnum

datatype order_status = Voided | OtherStatus jsstr
datatype reconcile_status = ReconcileException | OtherReconcile jsstr

record terminal_order =
  to_id :: jsstr
  to_status :: order_status
  to_reconcileStatus :: reconcile_status
  to_voidRequested :: "bool option"
  to_changeAmt :: jsnum
  to_payments :: "local_payment list"
  to_serverCreatedAt :: "jsnum option"
  to_clientCreatedAt :: jsnum

record local_sale =
  ls_id :: jsstr
  ls_changeAmt :: jsnum
  ls_payments :: "local_payment list"
  ls_pendingSync :: bool
  ls_clientCreatedAt :: jsnum
  ls_occurredAt :: jsnum
  ls_sortSeq :: jsnum

definition isLedgerSale :: "terminal_order \<Rightarrow> bool" where
  "isLedgerSale d =
    (if to_status d = Voided then False
     else if to_voidRequested d = Some True then False
     else if to_reconcileStatus d = ReconcileException then False
     else True)"

definition effectiveMillis :: "terminal_order \<Rightarrow> jsnum" where
  "effectiveMillis d = (case to_serverCreatedAt d of Some t \<Rightarrow> t | None \<Rightarrow> to_clientCreatedAt d)"

text \<open>The sequence number is the text after the last hyphen, read by \<^verbatim>\<open>Number\<close>: that parser is
  an argument.\<close>

definition last_segment :: "jsstr \<Rightarrow> jsstr" where
  "last_segment s = rev (takeWhile (\<lambda>c. c \<noteq> of_char (CHR ''-'')) (rev s))"

definition localSeqOf :: "(jsstr \<Rightarrow> jsnum) \<Rightarrow> jsstr \<Rightarrow> jsnum" where
  "localSeqOf number i = (let n = number (last_segment i) in if isFinite n then n else Fin 0)"

definition toLocalSale :: "(jsstr \<Rightarrow> jsnum) \<Rightarrow> terminal_order \<Rightarrow> local_sale" where
  "toLocalSale number d =
    \<lparr>ls_id = to_id d, ls_changeAmt = to_changeAmt d, ls_payments = to_payments d,
     ls_pendingSync = (to_serverCreatedAt d = None), ls_clientCreatedAt = to_clientCreatedAt d,
     ls_occurredAt = effectiveMillis d, ls_sortSeq = localSeqOf number (to_id d)\<rparr>"

definition compareSales :: "local_sale \<Rightarrow> local_sale \<Rightarrow> int" where
  "compareSales a b =
    (if \<not> js_eq (ls_clientCreatedAt a) (ls_clientCreatedAt b)
     then js_sgn (js_sub (ls_clientCreatedAt a) (ls_clientCreatedAt b))
     else js_sgn (js_sub (ls_sortSeq a) (ls_sortSeq b)))"

definition selectLocalLedger :: "(jsstr \<Rightarrow> jsnum) \<Rightarrow> terminal_order list \<Rightarrow> local_sale list" where
  "selectLocalLedger number orders =
    sort_by compareSales (map (toLocalSale number) (filter isLedgerSale orders))"

text \<open>\<^verbatim>\<open>Math.max\<close> of two numbers.\<close>

definition js_max :: "jsnum \<Rightarrow> jsnum \<Rightarrow> jsnum" where
  "js_max a b = (if a = NaN \<or> b = NaN then NaN else if js_lt a b then b else if js_lt b a then a
     else if a = NegZero then b else a)"

text \<open>The five accumulators; during one sale the cash slot is that sale's \<^verbatim>\<open>cashIn\<close>.\<close>

definition tender_step :: "(tender \<Rightarrow> jsnum) \<Rightarrow> local_payment \<Rightarrow> tender \<Rightarrow> jsnum" where
  "tender_step acc p = (case map_of KNOWN_PAYMENT_METHODS (lp_method p) of
      Some t \<Rightarrow> acc(t := js_add (acc t) (lp_amount p))
    | None \<Rightarrow> acc)"

definition sale_step :: "(tender \<Rightarrow> jsnum) \<Rightarrow> local_sale \<Rightarrow> tender \<Rightarrow> jsnum" where
  "sale_step acc s =
    (let acc' = foldl tender_step (acc(Cash := Fin 0)) (ls_payments s)
     in acc'(Cash := js_add (acc Cash) (js_max (Fin 0) (js_sub (acc' Cash) (ls_changeAmt s)))))"

record drawer_totals =
  dt_expected :: "tender \<Rightarrow> jsnum"
  dt_totalBills :: nat

definition summarizeDrawer :: "local_sale list \<Rightarrow> drawer_totals" where
  "summarizeDrawer sales =
    (let acc = foldl sale_step (\<lambda>_. Fin 0) sales
     in \<lparr>dt_expected = (\<lambda>t. roundMoney (acc t)), dt_totalBills = length sales\<rparr>)"

section \<open>Accumulated rounding error\<close>

text \<open>A nonnegative double within \<open>e\<close> of \<open>q\<close> satang; \<open>e\<close> counts units of 1.2e-6 Baht.\<close>

definition near :: "jsnum \<Rightarrow> int \<Rightarrow> nat \<Rightarrow> bool" where
  "near x q e \<longleftrightarrow> (\<exists>v. x = Fin v \<and> 0 \<le> v \<and> \<bar>v - of_int q / 100\<bar> \<le> of_nat e * (12 / 10000000))"

lemma near_0: "near (Fin 0) 0 0"
  by (simp add: near_def)

lemma near_mono: "near x q e \<Longrightarrow> e \<le> f \<Longrightarrow> near x q f"
proof -
  assume n: "near x q e" and "e \<le> f"
  then have "of_nat e * (12 / 10000000) \<le> (of_nat f * (12 / 10000000) :: rat)" by simp
  moreover obtain v where "x = Fin v" "0 \<le> v" "\<bar>v - of_int q / 100\<bar> \<le> of_nat e * (12 / 10000000)"
    using n unfolding near_def by blast
  ultimately show ?thesis unfolding near_def by (intro exI [of _ v] conjI) (assumption+, linarith)
qed

lemma near_baht:
  assumes "0 \<le> n" "n \<le> 10 ^ 9"
  shows "near (baht n) n 1"
proof -
  have n: "of_int n \<le> (1000000000 :: rat)" 
  proof -
    have "of_int n \<le> (of_int (10 ^ 9) :: rat)" using assms(2) by (simp only: of_int_le_iff)
    then show ?thesis by simp
  qed
  have "\<bar>fl_val (of_int n / 100) - of_int n / 100\<bar> \<le> 12 / 10000000"
    by (rule order_trans [OF fl_err]) (use n assms(1) in simp)
  then show ?thesis using baht_val [of n] assms by (auto simp: near_def)
qed

lemma rounding_small:
  assumes "\<bar>r\<bar> \<le> 10000000002"
  shows "\<bar>fl_val r - r\<bar> \<le> 12 / 10000000"
  by (rule order_trans [OF fl_err]) (use assms in simp)

lemma near_add:
  assumes "near x q e" "near y p f" "\<bar>q + p\<bar> \<le> 10 ^ 12" "e + f \<le> 10 ^ 5"
  shows "near (js_add x y) (q + p) (Suc (e + f))"
proof -
  obtain v w where v: "x = Fin v" "0 \<le> v" "\<bar>v - of_int q / 100\<bar> \<le> of_nat e * (12 / 10000000)"
    and w: "y = Fin w" "0 \<le> w" "\<bar>w - of_int p / 100\<bar> \<le> of_nat f * (12 / 10000000)"
    using assms(1,2) unfolding near_def by blast
  let ?q = "of_int (q + p) / 100 :: rat" and ?d = "of_nat (e + f) * (12 / 10000000) :: rat"
  have d: "\<bar>(v + w) - ?q\<bar> \<le> ?d"
  proof -
    have "(v + w) - ?q = (v - of_int q / 100) + (w - of_int p / 100)" by (simp add: field_simps)
    then have "\<bar>(v + w) - ?q\<bar> \<le> \<bar>v - of_int q / 100\<bar> + \<bar>w - of_int p / 100\<bar>"
      by (simp only: abs_triangle_ineq)
    also have "\<dots> \<le> of_nat e * (12 / 10000000) + of_nat f * (12 / 10000000)" using v w by linarith
    finally show ?thesis by (simp add: algebra_simps)
  qed
  have "of_int (\<bar>q + p\<bar>) \<le> (of_int (10 ^ 12) :: rat)" using assms(3) by (simp only: of_int_le_iff)
  then have q: "?q \<le> 10000000000" by simp
  have "(of_nat (e + f) :: rat) \<le> of_nat (10 ^ 5)" using assms(4) by (simp only: of_nat_le_iff)
  then have "?d \<le> 1" by simp
  then have sum: "v + w \<le> 10000000002" using d q by linarith
  then have r: "\<bar>fl_val (v + w) - (v + w)\<bar> \<le> 12 / 10000000" using v w by (intro rounding_small) simp
  have f: "fl (v + w) = Fin (fl_val (v + w))" "0 \<le> fl_val (v + w)"
    using fl_nonneg [of "v + w"] v w sum by simp_all
  have "\<bar>fl_val (v + w) - ?q\<bar> \<le> \<bar>fl_val (v + w) - (v + w)\<bar> + \<bar>(v + w) - ?q\<bar>" by linarith
  also have "\<dots> \<le> of_nat (Suc (e + f)) * (12 / 10000000)" using d r by (simp add: algebra_simps)
  finally show ?thesis unfolding near_def v(1) w(1) js_add_Fin using f by blast
qed

lemma near_sub_max:
  assumes "near x q e" "near y p f" "\<bar>q - p\<bar> \<le> 10 ^ 12" "e + f \<le> 10 ^ 5"
  shows "near (js_max (Fin 0) (js_sub x y)) (max 0 (q - p)) (Suc (e + f))"
proof -
  obtain v w where v: "x = Fin v" "0 \<le> v" "\<bar>v - of_int q / 100\<bar> \<le> of_nat e * (12 / 10000000)"
    and w: "y = Fin w" "0 \<le> w" "\<bar>w - of_int p / 100\<bar> \<le> of_nat f * (12 / 10000000)"
    using assms(1,2) unfolding near_def by blast
  let ?q = "of_int (q - p) / 100 :: rat" and ?d = "of_nat (e + f) * (12 / 10000000) :: rat"
  have d: "\<bar>(v - w) - ?q\<bar> \<le> ?d"
  proof -
    have "(v - w) - ?q = (v - of_int q / 100) - (w - of_int p / 100)" by (simp add: field_simps)
    then have "\<bar>(v - w) - ?q\<bar> \<le> \<bar>v - of_int q / 100\<bar> + \<bar>w - of_int p / 100\<bar>"
      by (simp only: abs_triangle_ineq4)
    also have "\<dots> \<le> of_nat e * (12 / 10000000) + of_nat f * (12 / 10000000)" using v w by linarith
    finally show ?thesis by (simp add: algebra_simps)
  qed
  have "of_int (\<bar>q - p\<bar>) \<le> (of_int (10 ^ 12) :: rat)" using assms(3) by (simp only: of_int_le_iff)
  then have q: "\<bar>?q\<bar> \<le> 10000000000" by simp
  have "(of_nat (e + f) :: rat) \<le> of_nat (10 ^ 5)" using assms(4) by (simp only: of_nat_le_iff)
  then have "?d \<le> 1" by simp
  then have sum: "\<bar>v - w\<bar> \<le> 10000000002" using d q by linarith
  then have r: "\<bar>fl_val (v - w) - (v - w)\<bar> \<le> 12 / 10000000" by (rule rounding_small)
  have f: "isFinite (fl (v - w))" "num_val (fl (v - w)) = fl_val (v - w)"
    using fl_fin [of "v - w"] small_lt_max [of "v - w"] sum by simp_all
  have tri: "\<bar>fl_val (v - w) - ?q\<bar> \<le> \<bar>fl_val (v - w) - (v - w)\<bar> + \<bar>(v - w) - ?q\<bar>" by linarith
  have e: "\<bar>fl_val (v - w) - ?q\<bar> \<le> of_nat (Suc (e + f)) * (12 / 10000000)"
    using tri d r by (simp add: algebra_simps)
  have m: "js_max (Fin 0) (fl (v - w)) = Fin (max 0 (fl_val (v - w)))"
    using f by (cases "fl (v - w)") (auto simp: js_max_def js_lt_finite max_def)
  have mq: "of_int (max 0 (q - p)) / 100 = max 0 ?q" by (simp add: max_def)
  have "\<bar>max 0 a - max 0 b\<bar> \<le> \<bar>a - b\<bar>" for a b :: rat by (simp add: max_def)
  then have "\<bar>max 0 (fl_val (v - w)) - max 0 ?q\<bar> \<le> of_nat (Suc (e + f)) * (12 / 10000000)"
    using e order_trans by blast
  then show ?thesis
    unfolding near_def v(1) w(1) js_sub_Fin m mq
    by (intro exI [of _ "max 0 (fl_val (v - w))"] conjI) simp_all
qed

lemma roundMoney_near:
  assumes "near x n e" "0 \<le> n" "n \<le> 10 ^ 12" "e \<le> 3000"
  shows "roundMoney x = baht n"
proof -
  obtain v where v: "x = Fin v" "0 \<le> v" "\<bar>v - of_int n / 100\<bar> \<le> of_nat e * (12 / 10000000)"
    using assms(1) unfolding near_def by blast
  have "(of_nat e :: rat) \<le> 3000" using assms(4) by (metis of_nat_le_iff of_nat_numeral)
  then have "of_nat e * (12 / 10000000) \<le> (4 / 1000 :: rat)" by simp
  then have d: "\<bar>v - of_int n / 100\<bar> \<le> 4 / 1000" using v(3) by linarith
  have "(of_int n :: rat) \<le> of_int (10 ^ 12)" using assms(3) by (simp only: of_int_le_iff)
  then have n: "(of_int n :: rat) \<le> 1000000000000" by simp
  have vd: "\<bar>v * 100 - of_int n\<bar> \<le> 4 / 10"
  proof -
    have "v * 100 - of_int n = (v - of_int n / 100) * 100" by (simp add: field_simps)
    then have "\<bar>v * 100 - of_int n\<bar> = \<bar>v - of_int n / 100\<bar> * 100" by (simp only: abs_mult abs_numeral)
    also have "\<dots> \<le> 4 / 1000 * 100" by (rule mult_right_mono [OF d]) simp
    finally show ?thesis by simp
  qed
  then have b: "v * 100 \<le> 1000000000001" using n by linarith
  have fe: "\<bar>fl_val (v * 100) - v * 100\<bar> \<le> 1 / 1000"
    by (rule order_trans [OF fl_err]) (use v(2) b in simp)
  have f: "fl (v * 100) = Fin (fl_val (v * 100))" "0 \<le> fl_val (v * 100)"
    using fl_nonneg [of "v * 100"] v(2) b by simp_all
  have "\<bar>fl_val (v * 100) - of_int n\<bar> \<le> \<bar>fl_val (v * 100) - v * 100\<bar> + \<bar>v * 100 - of_int n\<bar>" by linarith
  then have "\<bar>fl_val (v * 100) - of_int n\<bar> < 1 / 2" using fe vd by linarith
  then have "math_round (js_mul x (lit 100)) = Fin (of_int n)"
    using math_round_near [OF f(2), of n] f(1) v by (simp add: lit_100 js_mul_Fin)
  then show ?thesis
    using v(1) assms(2) by (simp add: roundMoney_def lit_100 js_div_Fin baht_def lit_def [of "of_int n / 100"])
qed

section \<open>The running sums are exact after rounding\<close>

definition cash_sum :: "cash_type \<Rightarrow> (cash_type \<times> int) list \<Rightarrow> int" where
  "cash_sum t es = sum_list (map snd (filter (\<lambda>e. fst e = t) es))"

definition satang_ok :: "int \<Rightarrow> bool" where
  "satang_ok n \<longleftrightarrow> 1 \<le> n \<and> n \<le> 10 ^ 9"

definition terminal_entry :: "cash_type \<times> int \<Rightarrow> shift_cash_entry" where
  "terminal_entry e = \<lparr>sc_type = fst e, sc_amount = baht (snd e)\<rparr>"

lemma cash_sum_bounds:
  "list_all (\<lambda>e. satang_ok (snd e)) es \<Longrightarrow> 0 \<le> cash_sum t es \<and> cash_sum t es \<le> int (length es) * 10 ^ 9"
  by (induction es) (auto simp: cash_sum_def satang_ok_def)

lemma near_foldCashEntries:
  assumes "list_all (\<lambda>e. satang_ok (snd e)) es" "near a qa (2 * k)" "near b qb (2 * k)"
    and "0 \<le> qa" "0 \<le> qb" "qa \<le> int k * 10 ^ 9" "qb \<le> int k * 10 ^ 9" "k + length es \<le> 1000"
  shows "\<exists>a' b'. foldl cash_entry_step (a, b) (map terminal_entry es) = (a', b')
    \<and> near a' (qa + cash_sum PayIn es) (2 * (k + length es))
    \<and> near b' (qb + cash_sum PayOut es) (2 * (k + length es))"
  using assms
proof (induction es arbitrary: a b qa qb k)
  case (Cons e es)
  obtain t n where e: "e = (t, n)" by (cases e)
  have n: "0 \<le> n" "n \<le> 10 ^ 9" using Cons.prems(1) e by (simp_all add: satang_ok_def)
  have k: "int k \<le> 999" using Cons.prems(8) by simp
  have one: "near (js_add x (baht n)) (q + n) (2 * Suc k)" if "near x q (2 * k)" "0 \<le> q" "q \<le> int k * 10 ^ 9" for x q
  proof -
    have "near (js_add x (baht n)) (q + n) (Suc (2 * k + 1))"
      using that n k by (intro near_add near_baht) simp_all
    then show ?thesis by simp
  qed
  have up: "near x q (2 * k) \<Longrightarrow> near x q (2 * Suc k)" for x q
    by (erule near_mono) (intro mult_le_mono2 le_SucI order_refl)
  show ?case
  proof (cases t)
    case PayIn
    from Cons.IH [OF _ one [OF Cons.prems(2,4,6)] up [OF Cons.prems(3)]] show ?thesis
      using Cons.prems n PayIn e by (auto simp: cash_entry_step_def terminal_entry_def cash_sum_def algebra_simps)
  next
    case PayOut
    from Cons.IH [OF _ up [OF Cons.prems(2)] one [OF Cons.prems(3,5,7)]] show ?thesis
      using Cons.prems n PayOut e by (auto simp: cash_entry_step_def terminal_entry_def cash_sum_def algebra_simps)
  qed
qed (simp add: cash_sum_def)

lemma foldCashEntries_exact:
  assumes "list_all (\<lambda>e. satang_ok (snd e)) es" "length es \<le> 1000"
  shows "foldCashEntries (map terminal_entry es) = (baht (cash_sum PayIn es), baht (cash_sum PayOut es))"
proof -
  obtain a b where ab: "foldl cash_entry_step (Fin 0, Fin 0) (map terminal_entry es) = (a, b)"
    "near a (cash_sum PayIn es) (2 * length es)" "near b (cash_sum PayOut es) (2 * length es)"
    using near_foldCashEntries [OF assms(1), of "Fin 0" 0 0 "Fin 0" 0] assms(2) near_0 by auto
  have le: "cash_sum t es \<le> 10 ^ 12" for t
    using cash_sum_bounds [OF assms(1), of t] assms(2) by simp
  have "roundMoney a = baht (cash_sum PayIn es)" "roundMoney b = baht (cash_sum PayOut es)"
    using roundMoney_near [OF ab(2)] roundMoney_near [OF ab(3)] le assms cash_sum_bounds [OF assms(1)]
    by simp_all
  then show ?thesis using ab(1) by (simp add: foldCashEntries_def)
qed

text \<open>A sale given by its exact tenders and change, in satang.\<close>

type_synonym sale_spec = "(tender \<times> int) list \<times> int"

fun tender_name :: "tender \<Rightarrow> jsstr" where
  "tender_name Cash = js ''cash''"
| "tender_name Qr = js ''qr''"
| "tender_name Kbank = js ''kbank''"
| "tender_name Card = js ''card''"
| "tender_name Credit = js ''credit''"

definition terminal_payment :: "tender \<times> int \<Rightarrow> local_payment" where
  "terminal_payment p = \<lparr>lp_method = tender_name (fst p), lp_amount = baht (snd p)\<rparr>"

definition spec_sum :: "tender \<Rightarrow> (tender \<times> int) list \<Rightarrow> int" where
  "spec_sum t ps = sum_list (map snd (filter (\<lambda>p. fst p = t) ps))"

definition spec_amount :: "tender \<Rightarrow> sale_spec \<Rightarrow> int" where
  "spec_amount t s = (if t = Cash then max 0 (spec_sum Cash (fst s) - snd s) else spec_sum t (fst s))"

definition spec_ok :: "sale_spec \<Rightarrow> bool" where
  "spec_ok s \<longleftrightarrow> list_all (\<lambda>p. satang_ok (snd p)) (fst s) \<and> 0 \<le> snd s \<and> snd s \<le> 10 ^ 9"

definition spec_cost :: "sale_spec list \<Rightarrow> nat" where
  "spec_cost ss = sum_list (map (\<lambda>s. Suc (length (fst s))) ss)"

definition sale_matches :: "local_sale \<Rightarrow> sale_spec \<Rightarrow> bool" where
  "sale_matches s spec \<longleftrightarrow> ls_payments s = map terminal_payment (fst spec) \<and> ls_changeAmt s = baht (snd spec)"

lemma known_method [simp]: "map_of KNOWN_PAYMENT_METHODS (tender_name t) = Some t"
  by (cases t) (simp_all add: KNOWN_PAYMENT_METHODS_def)

lemma spec_sum_simps [simp]:
  "spec_sum t [] = 0"
  "spec_sum t (p # ps) = (if fst p = t then snd p else 0) + spec_sum t ps"
  by (simp_all add: spec_sum_def)

lemma spec_sum_bounds:
  "list_all (\<lambda>p. satang_ok (snd p)) ps \<Longrightarrow> 0 \<le> spec_sum t ps \<and> spec_sum t ps \<le> int (length ps) * 10 ^ 9"
  by (induction ps) (auto simp: satang_ok_def)

lemma tender_step_slot:
  "tender_step acc (terminal_payment p) t = (if fst p = t then js_add (acc t) (baht (snd p)) else acc t)"
  by (simp add: tender_step_def terminal_payment_def)

lemma near_tender_fold:
  assumes "list_all (\<lambda>p. satang_ok (snd p)) ps" "near (acc t) q e" "0 \<le> q"
    "q + int (length ps) * 10 ^ 9 \<le> 10 ^ 12" "e + 2 * length ps \<le> 10 ^ 4"
  shows "near (foldl tender_step acc (map terminal_payment ps) t) (q + spec_sum t ps) (e + 2 * length ps)"
  using assms
proof (induction ps arbitrary: acc q e)
  case (Cons p ps)
  let ?n = "if fst p = t then snd p else 0"
  have n: "0 \<le> snd p" "snd p \<le> 10 ^ 9" using Cons.prems(1) by (simp_all add: satang_ok_def)
  have "near (tender_step acc (terminal_payment p) t) (q + ?n) (e + 2)"
  proof (cases "fst p = t")
    case True
    have "near (js_add (acc t) (baht (snd p))) (q + snd p) (Suc (e + 1))"
      using Cons.prems n by (intro near_add near_baht) simp_all
    then show ?thesis using True by (simp add: tender_step_slot)
  next
    case False
    then show ?thesis using Cons.prems(2) by (simp add: tender_step_slot near_mono)
  qed
  then show ?case
    using Cons.IH [of "tender_step acc (terminal_payment p)" "q + ?n" "e + 2"] Cons.prems n
    by (auto simp: algebra_simps)
qed simp

lemma near_sale_step:
  assumes "sale_matches s spec" "spec_ok spec" "near (acc t) q (3 * k)" "0 \<le> q" "q \<le> int k * 10 ^ 9"
    "k + Suc (length (fst spec)) \<le> 1000"
  shows "near (sale_step acc s t) (q + spec_amount t spec) (3 * (k + Suc (length (fst spec))))"
proof -
  let ?ps = "fst spec" and ?c = "snd spec"
  have ok: "list_all (\<lambda>p. satang_ok (snd p)) ?ps" "0 \<le> ?c" "?c \<le> 10 ^ 9"
    using assms(2) by (simp_all add: spec_ok_def)
  have kb: "int k + int (length ?ps) \<le> 999" using assms(6) by simp
  note sb = spec_sum_bounds [OF ok(1)]
  show ?thesis
  proof (cases "t = Cash")
    case False
    have "near (foldl tender_step (acc(Cash := Fin 0)) (map terminal_payment ?ps) t)
      (q + spec_sum t ?ps) (3 * k + 2 * length ?ps)"
      using assms ok kb False by (intro near_tender_fold) auto
    then show ?thesis
      using False assms(1) by (simp add: sale_step_def Let_def sale_matches_def spec_amount_def near_mono)
  next
    case True
    have "near (foldl tender_step (acc(Cash := Fin 0)) (map terminal_payment ?ps) Cash)
      (0 + spec_sum Cash ?ps) (0 + 2 * length ?ps)"
      using ok kb by (intro near_tender_fold) (auto simp: near_0)
    then have "near (js_max (Fin 0) (js_sub (foldl tender_step (acc(Cash := Fin 0)) (map terminal_payment ?ps) Cash) (baht ?c)))
      (max 0 (spec_sum Cash ?ps - ?c)) (Suc (2 * length ?ps + 1))"
      using ok kb sb [of Cash] by (intro near_sub_max near_baht) (simp_all add: abs_le_iff)
    then have "near (js_add (acc Cash) (js_max (Fin 0) (js_sub (foldl tender_step (acc(Cash := Fin 0)) (map terminal_payment ?ps) Cash) (baht ?c))))
      (q + max 0 (spec_sum Cash ?ps - ?c)) (Suc (3 * k + Suc (2 * length ?ps + 1)))"
      using assms(3,4,5) True ok kb sb [of Cash] by (intro near_add) (simp_all add: abs_le_iff max_def)
    then show ?thesis
      using True assms(1) by (simp add: sale_step_def Let_def sale_matches_def spec_amount_def near_mono)
  qed
qed

lemma spec_amount_bounds:
  "spec_ok s \<Longrightarrow> 0 \<le> spec_amount t s \<and> spec_amount t s \<le> int (length (fst s)) * 10 ^ 9"
  using spec_sum_bounds [of "fst s" t] by (auto simp: spec_amount_def spec_ok_def)

lemma near_sale_fold:
  assumes "list_all2 sale_matches sales specs" "list_all spec_ok specs"
    "near (acc t) q (3 * k)" "0 \<le> q" "q \<le> int k * 10 ^ 9" "k + spec_cost specs \<le> 1000"
  shows "near (foldl sale_step acc sales t) (q + sum_list (map (spec_amount t) specs)) (3 * (k + spec_cost specs))"
  using assms
proof (induction sales specs arbitrary: acc q k rule: list_all2_induct)
  case (Cons s ss spec specs)
  have c: "k + Suc (length (fst spec)) + spec_cost specs \<le> 1000"
    using Cons.prems(5) by (simp add: spec_cost_def)
  have ok: "spec_ok spec" using Cons.prems by simp
  have st: "near (sale_step acc s t) (q + spec_amount t spec) (3 * (k + Suc (length (fst spec))))"
    using near_sale_step [of s spec acc t q k] Cons.hyps(1) ok Cons.prems(2,3,4) c by simp
  note ab = spec_amount_bounds [OF ok, of t]
  have le: "q + spec_amount t spec \<le> int (k + Suc (length (fst spec))) * 10 ^ 9"
    using Cons.prems(4) ab by (simp add: algebra_simps)
  show ?case
    using Cons.IH [of "sale_step acc s" "q + spec_amount t spec" "k + Suc (length (fst spec))"]
      st le c Cons.prems ab by (simp add: spec_cost_def add.assoc)
qed (simp add: spec_cost_def)

lemma spec_total_bounds:
  "list_all spec_ok specs \<Longrightarrow>
   0 \<le> sum_list (map (spec_amount t) specs) \<and> sum_list (map (spec_amount t) specs) \<le> int (spec_cost specs) * 10 ^ 9"
proof (induction specs)
  case (Cons s ss)
  then show ?case using spec_amount_bounds [of s t] by (auto simp: spec_cost_def algebra_simps)
qed (simp add: spec_cost_def)

lemma summarizeDrawer_exact:
  assumes "list_all2 sale_matches sales specs" "list_all spec_ok specs" "spec_cost specs \<le> 1000"
  shows "dt_expected (summarizeDrawer sales) t = baht (sum_list (map (spec_amount t) specs))"
proof -
  have "near (foldl sale_step (\<lambda>_. Fin 0) sales t) (sum_list (map (spec_amount t) specs)) (3 * spec_cost specs)"
    using near_sale_fold [OF assms(1,2), of "\<lambda>_. Fin 0" t 0 0] assms(3) near_0 by simp
  moreover have "sum_list (map (spec_amount t) specs) \<le> 10 ^ 12"
    using spec_total_bounds [OF assms(2), of t] assms(3) by simp
  ultimately show ?thesis
    using roundMoney_near [of _ _ "3 * spec_cost specs"] spec_total_bounds [OF assms(2), of t] assms(3)
    by (simp add: summarizeDrawer_def Let_def)
qed

section \<open>The local ledger\<close>

definition sale_key_cmp :: "local_sale \<Rightarrow> local_sale \<Rightarrow> int" where
  "sale_key_cmp = cmp_then (cmp_on (\<lambda>s. num_val (ls_clientCreatedAt s)) rat_cmp)
     (cmp_on (\<lambda>s. num_val (ls_sortSeq s)) rat_cmp)"

interpretation sale_order: comparator sale_key_cmp
  unfolding sale_key_cmp_def by (intro comparator_then comparator_on rat_order.comparator_axioms)

definition integral_times :: "(jsstr \<Rightarrow> jsnum) \<Rightarrow> terminal_order \<Rightarrow> bool" where
  "integral_times number d \<longleftrightarrow> isInteger (to_clientCreatedAt d) \<and> isInteger (localSeqOf number (to_id d))"

lemma compareSales_key:
  assumes "isInteger (ls_clientCreatedAt a)" "isInteger (ls_clientCreatedAt b)"
    "isInteger (ls_sortSeq a)" "isInteger (ls_sortSeq b)"
  shows "compareSales a b \<le> 0 \<longleftrightarrow> sale_key_cmp a b \<le> 0"
proof -
  have z: "js_sgn (js_sub (ls_sortSeq a) (ls_sortSeq b)) = 0" if "num_val (ls_sortSeq a) = num_val (ls_sortSeq b)"
    using that assms(3,4) by (cases "ls_sortSeq a"; cases "ls_sortSeq b")
      (auto simp: js_sub_def js_add_def isInteger_def)
  show ?thesis
    using assms z js_sgn_sub_integers [of "ls_clientCreatedAt a" "ls_clientCreatedAt b"]
      js_sgn_sub_integers [of "ls_sortSeq a" "ls_sortSeq b"]
    by (auto simp: compareSales_def sale_key_cmp_def cmp_then_def cmp_on_def rat_cmp_def js_eq_finite isInteger_def)
qed

lemma selectLocalLedger_sort:
  assumes "list_all (integral_times number) orders"
  shows "selectLocalLedger number orders =
    sort_by sale_key_cmp (map (toLocalSale number) (filter isLedgerSale orders))"
  unfolding selectLocalLedger_def
  using assms by (intro sort_by_cong compareSales_key)
    (auto simp: toLocalSale_def integral_times_def list_all_iff)

section \<open>Properties\<close>

text \<open>\<^verbatim>\<open>foldCashEntries\<close>: the floating-point running sums of up to 1000 two-decimal entries,
  rounded once at the end, are the doubles nearest to the exact sums in satang: the
  accumulated error never reaches half a satang.\<close>

theorem cash_totals_exact:
  assumes "list_all (\<lambda>e. satang_ok (snd e)) es" and "length es \<le> 1000"
  shows "foldCashEntries (map terminal_entry es) = (baht (cash_sum PayIn es), baht (cash_sum PayOut es))"
  using assms by (rule foldCashEntries_exact)

theorem cash_totals_exact_witness:
  "foldCashEntries (map terminal_entry [(PayIn, 10), (PayIn, 20), (PayOut, 70)]) = (baht 30, baht 70)"
  using cash_totals_exact [of "[(PayIn, 10), (PayIn, 20), (PayOut, 70)]"]
  by (simp add: satang_ok_def cash_sum_def)

text \<open>\<^verbatim>\<open>selectLocalLedger\<close> keeps exactly the orders that are neither voided, void-requested nor
  reconcile exceptions, each projected once, in chronological order with the local
  sequence breaking ties.\<close>

theorem local_ledger_spec:
  assumes "list_all (integral_times number) orders"
  shows "mset (selectLocalLedger number orders) = image_mset (toLocalSale number) (mset (filter isLedgerSale orders))
    \<and> sorted_wrt (\<lambda>a b. num_val (ls_clientCreatedAt a) < num_val (ls_clientCreatedAt b)
        \<or> num_val (ls_clientCreatedAt a) = num_val (ls_clientCreatedAt b)
          \<and> num_val (ls_sortSeq a) \<le> num_val (ls_sortSeq b)) (selectLocalLedger number orders)"
proof -
  have "sorted_wrt (\<lambda>a b. sale_key_cmp a b \<le> 0) (selectLocalLedger number orders)"
    unfolding selectLocalLedger_sort [OF assms] by (rule sale_order.sorted_sort_by)
  then have "sorted_wrt (\<lambda>a b. num_val (ls_clientCreatedAt a) < num_val (ls_clientCreatedAt b)
        \<or> num_val (ls_clientCreatedAt a) = num_val (ls_clientCreatedAt b)
          \<and> num_val (ls_sortSeq a) \<le> num_val (ls_sortSeq b)) (selectLocalLedger number orders)"
    by (rule sorted_wrt_mono_rel [rotated])
      (auto simp: sale_key_cmp_def cmp_then_def cmp_on_def rat_cmp_def split: if_splits)
  then show ?thesis by (simp add: selectLocalLedger_def)
qed

theorem local_ledger_spec_witness:
  "\<exists>number d. isLedgerSale d \<and> mset (selectLocalLedger number [d]) = {#toLocalSale number d#}"
proof -
  let ?d = "\<lparr>to_id = js ''D-7'', to_status = OtherStatus (js ''pending''),
    to_reconcileStatus = OtherReconcile (js ''pending_reconcile''), to_voidRequested = None,
    to_changeAmt = Fin 0, to_payments = [], to_serverCreatedAt = None, to_clientCreatedAt = Fin 5\<rparr>"
  let ?number = "\<lambda>_. Fin 7"
  have five: "isInteger (Fin 5)" "isInteger (Fin 7)" by (simp_all add: isInteger_def)
  have "isLedgerSale ?d" by (simp add: isLedgerSale_def)
  moreover have "mset (selectLocalLedger ?number [?d]) = {#toLocalSale ?number ?d#}"
    using local_ledger_spec [of ?number "[?d]"] five \<open>isLedgerSale ?d\<close>
    by (simp add: integral_times_def localSeqOf_def)
  ultimately show ?thesis by blast
qed

end
