(* ===== verification/ShiftCloseState.thy ===== *)
theory ShiftCloseState
  imports JsNumber
begin

text \<open>
  The state contract of a shift-close case. From
  \<^verbatim>\<open>functions/src/shiftCloseValidationTypes.ts\<close> and \<^verbatim>\<open>shiftCloseValidationState.ts\<close>: the
  four state dimensions, the validity of an alert projection, the transition table of the
  validation verdicts, and the cursor model of the worker's two streams. From
  \<^verbatim>\<open>resolveShiftCloseAlertCore.ts\<close>: payload validation, authority, the lease guard and the
  manager's adjudication of an alert.
\<close>

section \<open>The four state dimensions\<close>

datatype processing_state =
  Queued | AwaitingDependencies | Validating | Validated | RetryableError
  | PermanentlyUnverifiable | RequiresOperatorReview

datatype settlement_state =
  Unsettled | ProvisionalMatch | ManualReviewRequired | ManuallyResolved

datatype alert_state = AlertNone | AlertOpen | AlertAcknowledged | AlertResolved

datatype error_classification =
  SourceLimitExceeded | CashEntryMalformed | LegacyMissingRequiredField
  | DependencyUnavailable | CashPairValueMismatch

datatype alert_reason =
  OfClassification error_classification | InvalidPayload | DrawerDiscrepancy
  | IdentityMismatch | RetryExhausted | SupersedingMatch

definition ALERT_REASON_CODES :: "(jsstr \<times> alert_reason) list" where
  "ALERT_REASON_CODES =
    [(js ''source_limit_exceeded'', OfClassification SourceLimitExceeded),
     (js ''cash_entry_malformed'', OfClassification CashEntryMalformed),
     (js ''legacy_missing_required_field'', OfClassification LegacyMissingRequiredField),
     (js ''dependency_unavailable'', OfClassification DependencyUnavailable),
     (js ''cash_pair_value_mismatch'', OfClassification CashPairValueMismatch),
     (js ''invalid_payload'', InvalidPayload), (js ''drawer_discrepancy'', DrawerDiscrepancy),
     (js ''identity_mismatch'', IdentityMismatch), (js ''retry_exhausted'', RetryExhausted),
     (js ''superseding_match'', SupersedingMatch)]"

text \<open>\<^verbatim>\<open>isValidAlertReasonCode\<close>, together with the code it recognises.\<close>

definition alert_reason_of :: "jsval \<Rightarrow> alert_reason option" where
  "alert_reason_of v = (case v of JStr s \<Rightarrow> map_of ALERT_REASON_CODES s | _ \<Rightarrow> None)"

datatype alert_actor = SystemActor | ManagerActor jsstr

section \<open>Alert projections and verdict transitions\<close>

record alert_projection =
  ap_alertState :: alert_state
  ap_reasonCode :: "alert_reason option"
  ap_acknowledgedByActor :: "alert_actor option"
  ap_resolvedByActor :: "alert_actor option"

fun is_manager :: "alert_actor \<Rightarrow> bool" where
  "is_manager (ManagerActor _) = True"
| "is_manager SystemActor = False"

definition isValidAlertProjection :: "alert_projection \<Rightarrow> bool" where
  "isValidAlertProjection a = (case ap_alertState a of
      AlertNone \<Rightarrow> ap_reasonCode a = None \<and> ap_acknowledgedByActor a = None \<and> ap_resolvedByActor a = None
    | AlertOpen \<Rightarrow> ap_reasonCode a \<noteq> None \<and> ap_acknowledgedByActor a = None \<and> ap_resolvedByActor a = None
    | AlertAcknowledged \<Rightarrow> ap_reasonCode a \<noteq> None
        \<and> (case ap_acknowledgedByActor a of Some m \<Rightarrow> is_manager m | None \<Rightarrow> False)
        \<and> ap_resolvedByActor a = None
    | AlertResolved \<Rightarrow> ap_reasonCode a \<noteq> None \<and> ap_resolvedByActor a \<noteq> None
        \<and> (case ap_acknowledgedByActor a of Some m \<Rightarrow> is_manager m | None \<Rightarrow> True))"

definition ALERT_NONE :: alert_projection where
  "ALERT_NONE = \<lparr>ap_alertState = AlertNone, ap_reasonCode = None,
     ap_acknowledgedByActor = None, ap_resolvedByActor = None\<rparr>"

definition alertOpen :: "alert_reason \<Rightarrow> alert_projection" where
  "alertOpen r = \<lparr>ap_alertState = AlertOpen, ap_reasonCode = Some r,
     ap_acknowledgedByActor = None, ap_resolvedByActor = None\<rparr>"

record run_transition =
  rt_processingState :: processing_state
  rt_settlementState :: settlement_state
  rt_errorClassification :: "error_classification option"
  rt_alert :: alert_projection

record prior_alert =
  pa_alertState :: alert_state
  pa_acknowledgedByActor :: "alert_actor option"

definition computeMatchTransition :: "prior_alert \<Rightarrow> run_transition" where
  "computeMatchTransition prior =
    (let superseding = (pa_alertState prior = AlertOpen \<or> pa_alertState prior = AlertAcknowledged);
         alert = (if superseding then
             \<lparr>ap_alertState = AlertResolved, ap_reasonCode = Some SupersedingMatch,
              ap_acknowledgedByActor =
                (if pa_alertState prior = AlertAcknowledged then pa_acknowledgedByActor prior else None),
              ap_resolvedByActor = Some SystemActor\<rparr>
           else ALERT_NONE)
     in \<lparr>rt_processingState = Validated, rt_settlementState = ProvisionalMatch,
         rt_errorClassification = None, rt_alert = alert\<rparr>)"

definition computeDiscrepancyTransition :: run_transition where
  "computeDiscrepancyTransition =
    \<lparr>rt_processingState = Validated, rt_settlementState = ManualReviewRequired,
     rt_errorClassification = None, rt_alert = alertOpen DrawerDiscrepancy\<rparr>"

definition computeIdentityMismatchTransition :: run_transition where
  "computeIdentityMismatchTransition =
    \<lparr>rt_processingState = Validated, rt_settlementState = ManualReviewRequired,
     rt_errorClassification = None, rt_alert = alertOpen IdentityMismatch\<rparr>"

definition computeInvalidPayloadTransition :: run_transition where
  "computeInvalidPayloadTransition =
    \<lparr>rt_processingState = PermanentlyUnverifiable, rt_settlementState = ManualReviewRequired,
     rt_errorClassification = None, rt_alert = alertOpen InvalidPayload\<rparr>"

definition computeInsufficientEvidenceTransition :: "error_classification \<Rightarrow> run_transition" where
  "computeInsufficientEvidenceTransition cause =
    (let structural = {CashEntryMalformed, LegacyMissingRequiredField}
     in \<lparr>rt_processingState = (if cause \<in> structural then PermanentlyUnverifiable else RequiresOperatorReview),
         rt_settlementState = ManualReviewRequired, rt_errorClassification = Some cause,
         rt_alert = alertOpen (OfClassification cause)\<rparr>)"

datatype run_verdict =
  VMatch prior_alert | VDiscrepancy | VIdentityMismatch | VInvalidPayload
  | VInsufficientEvidence error_classification

fun computeRunTransition :: "run_verdict \<Rightarrow> run_transition" where
  "computeRunTransition (VMatch prior) = computeMatchTransition prior"
| "computeRunTransition VDiscrepancy = computeDiscrepancyTransition"
| "computeRunTransition VIdentityMismatch = computeIdentityMismatchTransition"
| "computeRunTransition VInvalidPayload = computeInvalidPayloadTransition"
| "computeRunTransition (VInsufficientEvidence cause) = computeInsufficientEvidenceTransition cause"

text \<open>Not a run: the settlement state is left as it is.\<close>

record non_run_transition =
  nt_processingState :: processing_state
  nt_alert :: alert_projection

definition computeRetryExhaustionTransition :: non_run_transition where
  "computeRetryExhaustionTransition =
    \<lparr>nt_processingState = RequiresOperatorReview, nt_alert = alertOpen RetryExhausted\<rparr>"

definition computeManagerResolution :: "jsstr \<Rightarrow> alert_reason \<Rightarrow> alert_actor option \<Rightarrow> alert_projection" where
  "computeManagerResolution managerUid originalReasonCode priorAcknowledged =
    \<lparr>ap_alertState = AlertResolved, ap_reasonCode = Some originalReasonCode,
     ap_acknowledgedByActor = priorAcknowledged, ap_resolvedByActor = Some (ManagerActor managerUid)\<rparr>"

section \<open>Streams and cursors\<close>

type_synonym case_id = jsstr

datatype durable_outcome = Completed | Deferred jsnum

type_synonym result_cache = "(case_id, durable_outcome) jsmap"

text \<open>The key of the last consumed row, \<open>None\<close> at the start of a cycle.\<close>

type_synonym cursor = "case_id option"

record step_result =
  sr_cursor :: cursor
  sr_processedCaseId :: "case_id option"
  sr_outcome :: "durable_outcome option"
  sr_fromCache :: bool
  sr_exhausted :: bool

fun index_of :: "'a \<Rightarrow> 'a list \<Rightarrow> nat option" where
  "index_of x [] = None"
| "index_of x (y # ys) = (if y = x then Some 0 else map_option Suc (index_of x ys))"

definition indexAfterCursor :: "case_id list \<Rightarrow> cursor \<Rightarrow> nat" where
  "indexAfterCursor order cursor = (case cursor of None \<Rightarrow> 0
     | Some k \<Rightarrow> (case index_of k order of None \<Rightarrow> 0 | Some i \<Rightarrow> i + 1))"

text \<open>One step; the second component is the cache after it. \<open>process\<close> is called exactly when the
  result names a case and is not from the cache.\<close>

definition stepStream ::
  "case_id list \<Rightarrow> cursor \<Rightarrow> (case_id \<Rightarrow> bool) \<Rightarrow> result_cache \<Rightarrow> bool \<Rightarrow> (case_id \<Rightarrow> durable_outcome)
   \<Rightarrow> step_result \<times> result_cache" where
  "stepStream order cursor isEligible cache budgetAvailable process =
    (if \<not> budgetAvailable then
       (\<lparr>sr_cursor = cursor, sr_processedCaseId = None, sr_outcome = None,
         sr_fromCache = False, sr_exhausted = False\<rparr>, cache)
     else (case dropWhile (\<lambda>c. \<not> isEligible c) (drop (indexAfterCursor order cursor) order) of
         [] \<Rightarrow> (\<lparr>sr_cursor = cursor, sr_processedCaseId = None, sr_outcome = None,
               sr_fromCache = False, sr_exhausted = True\<rparr>, cache)
       | caseId # _ \<Rightarrow>
           (case map_of cache caseId of
              Some outcome \<Rightarrow>
                (\<lparr>sr_cursor = Some caseId, sr_processedCaseId = Some caseId, sr_outcome = Some outcome,
                  sr_fromCache = True, sr_exhausted = False\<rparr>, cache)
            | None \<Rightarrow>
                (\<lparr>sr_cursor = Some caseId, sr_processedCaseId = Some caseId,
                  sr_outcome = Some (process caseId), sr_fromCache = False, sr_exhausted = False\<rparr>,
                 map_set caseId (process caseId) cache))))"

text \<open>\<^verbatim>\<open>drainStream\<close> loops until a step returns no case. Eligibility is a live query and the budget
  a callback: both may change from step to step. The loop is given fuel; \<open>None\<close> means it has
  not returned.\<close>

fun drainStream ::
  "nat \<Rightarrow> case_id list \<Rightarrow> cursor \<Rightarrow> (nat \<Rightarrow> case_id \<Rightarrow> bool) \<Rightarrow> result_cache \<Rightarrow> (case_id \<Rightarrow> durable_outcome)
   \<Rightarrow> (nat \<Rightarrow> bool) \<Rightarrow> nat \<Rightarrow> (cursor \<times> step_result list \<times> result_cache) option" where
  "drainStream 0 order cursor isEligible cache process budget i = None"
| "drainStream (Suc fuel) order cursor isEligible cache process budget i =
    (let (r, cache') = stepStream order cursor (isEligible i) cache (budget i) process
     in if sr_processedCaseId r = None then Some (cursor, [r], cache')
        else map_option (\<lambda>(c, steps, cache''). (c, r # steps, cache''))
          (drainStream fuel order (sr_cursor r) isEligible cache' process budget (i + 1)))"

section \<open>Adjudication requests\<close>

datatype adjudication_outcome = Acknowledge | Resolve

definition MAX_REASON_NOTE_LENGTH :: nat where "MAX_REASON_NOTE_LENGTH = 1000"

record validated_request =
  vr_commandId :: jsstr
  vr_shiftId :: jsstr
  vr_branchId :: jsstr
  vr_expectedCaseVersion :: jsnum
  vr_requestedOutcome :: adjudication_outcome
  vr_reasonCode :: alert_reason
  vr_reasonNote :: "jsstr option"
  vr_approvalId :: jsstr

text \<open>A request is the list of its own properties.\<close>

type_synonym request = "(jsstr \<times> jsval) list"

definition req_field :: "request \<Rightarrow> string \<Rightarrow> jsval" where
  "req_field req k = get_prop (JObj req) (js k)"

definition hasPresentPin :: "request \<Rightarrow> bool" where
  "hasPresentPin req \<longleftrightarrow> map_of req (js ''pin'') \<noteq> None"

definition trimmed_field :: "(jsnum \<Rightarrow> jsstr) \<Rightarrow> request \<Rightarrow> string \<Rightarrow> js_error + jsstr" where
  "trimmed_field fmt req k = and_then (js_String fmt (req_field req k)) (\<lambda>s. Inr (trim s))"

definition outcome_of :: "jsval \<Rightarrow> adjudication_outcome option" where
  "outcome_of v = (if v = JStr (js ''acknowledge'') then Some Acknowledge
     else if v = JStr (js ''resolve'') then Some Resolve else None)"

definition version_ok :: "jsval \<Rightarrow> jsnum option" where
  "version_ok v = (case v of JNum n \<Rightarrow> if isInteger n \<and> \<not> js_lt n (Fin 0) then Some n else None | _ \<Rightarrow> None)"

definition note_of :: "jsval \<Rightarrow> jsstr option option" where
  "note_of v = (case v of JUndef \<Rightarrow> Some None
     | JStr s \<Rightarrow> if length s > MAX_REASON_NOTE_LENGTH then None else Some (Some s)
     | _ \<Rightarrow> None)"

definition validateAdjudicationPayload ::
  "(jsnum \<Rightarrow> jsstr) \<Rightarrow> request \<Rightarrow> js_error + validated_request option" where
  "validateAdjudicationPayload fmt req =
    and_then (trimmed_field fmt req ''commandId'') (\<lambda>commandId.
    and_then (trimmed_field fmt req ''shiftId'') (\<lambda>shiftId.
    and_then (trimmed_field fmt req ''branchId'') (\<lambda>branchId.
    and_then (trimmed_field fmt req ''approvalId'') (\<lambda>approvalId. Inr (
      if hasPresentPin req then None
      else if commandId = [] \<or> shiftId = [] \<or> branchId = [] then None
      else if approvalId = [] then None
      else case version_ok (req_field req ''expectedCaseVersion'') of None \<Rightarrow> None
      | Some version \<Rightarrow> (case outcome_of (req_field req ''requestedOutcome'') of None \<Rightarrow> None
      | Some requestedOutcome \<Rightarrow> (case alert_reason_of (req_field req ''reasonCode'') of None \<Rightarrow> None
      | Some reason \<Rightarrow> (case note_of (req_field req ''reasonNote'') of None \<Rightarrow> None
      | Some note \<Rightarrow> Some \<lparr>vr_commandId = commandId, vr_shiftId = shiftId, vr_branchId = branchId,
          vr_expectedCaseVersion = version, vr_requestedOutcome = requestedOutcome,
          vr_reasonCode = reason, vr_reasonNote = note, vr_approvalId = approvalId\<rparr>))))))))"

section \<open>Authority and lease\<close>

record auth_token =
  au_uid :: "jsstr option"
  au_token :: "(jsstr \<times> jsval) list"

definition token_field :: "auth_token option \<Rightarrow> string \<Rightarrow> jsval" where
  "token_field auth k = (case auth of None \<Rightarrow> JUndef | Some a \<Rightarrow> get_prop (JObj (au_token a)) (js k))"

definition hasBranchAccess :: "auth_token option \<Rightarrow> jsstr \<Rightarrow> bool" where
  "hasBranchAccess auth branchId =
    (if token_field auth ''role'' = JStr (js ''admin'') then True
     else case token_field auth ''branchIds'' of
         JArr bs \<Rightarrow> JStr (js ''ALL'') \<in> set bs \<or> JStr branchId \<in> set bs
       | _ \<Rightarrow> False)"

definition MODEL2_REQUESTER_ROLES :: "jsstr list" where
  "MODEL2_REQUESTER_ROLES = [js ''staff'']"

text \<open>\<open>Inl\<close> is the rejection \<^verbatim>\<open>unauthorized\<close>. The staff id claim is not checked to be a string.\<close>

definition checkAdjudicationAuthority :: "auth_token option \<Rightarrow> jsstr \<Rightarrow> bool \<Rightarrow> bool \<Rightarrow> unit + jsval" where
  "checkAdjudicationAuthority auth branchId freshnessVerified allowRequesterRoles =
    (if \<not> freshnessVerified then Inl ()
     else if \<not> hasBranchAccess auth branchId then Inl ()
     else let role = token_field auth ''role'';
        privileged = (role = JStr (js ''admin'') \<or> role = JStr (js ''manager''));
        requesterOk = (allowRequesterRoles \<and>
          (case role of JStr r \<Rightarrow> r \<in> set MODEL2_REQUESTER_ROLES | _ \<Rightarrow> False));
        staffId = token_field auth ''staffId'';
        managerUid = (if \<not> is_nullish staffId then staffId
          else case auth of Some a \<Rightarrow> (case au_uid a of Some u \<Rightarrow> JStr u | None \<Rightarrow> JNull) | None \<Rightarrow> JNull)
       in if \<not> privileged \<and> \<not> requesterOk then Inl ()
          else if \<not> js_truthy managerUid then Inl () else Inr managerUid)"

record lease_snapshot =
  le_leaseOwner :: "jsstr option"
  le_leaseExpiryMillis :: "ms option"

definition isLeaseLive :: "lease_snapshot \<Rightarrow> ms \<Rightarrow> bool" where
  "isLeaseLive lease now \<longleftrightarrow> le_leaseOwner lease \<noteq> None
     \<and> (case le_leaseExpiryMillis lease of Some e \<Rightarrow> e > now | None \<Rightarrow> False)"

section \<open>The adjudication decision\<close>

record case_view =
  cv_alertState :: alert_state
  cv_settlementState :: settlement_state

record alert_view =
  av_alertState :: alert_state
  av_reasonCode :: "alert_reason option"
  av_acknowledgedByActor :: "alert_actor option"

datatype adjudication_reject = RejectAlertNotOpen | RejectInvalidOutcomeTransition

definition decideAdjudicationTransition ::
  "case_view \<Rightarrow> alert_view \<Rightarrow> adjudication_outcome \<Rightarrow> jsstr
   \<Rightarrow> adjudication_reject + (alert_projection \<times> settlement_state)" where
  "decideAdjudicationTransition cv av requestedOutcome managerUid =
    (if cv_alertState cv \<noteq> av_alertState av then Inl RejectInvalidOutcomeTransition
     else if cv_alertState cv = AlertNone then Inl RejectAlertNotOpen
     else case av_reasonCode av of None \<Rightarrow> Inl RejectInvalidOutcomeTransition
     | Some reason \<Rightarrow>
       if requestedOutcome = Acknowledge then
         (if cv_alertState cv \<noteq> AlertOpen then Inl RejectInvalidOutcomeTransition
          else let p = \<lparr>ap_alertState = AlertAcknowledged, ap_reasonCode = Some reason,
              ap_acknowledgedByActor = Some (ManagerActor managerUid), ap_resolvedByActor = None\<rparr>
            in if \<not> isValidAlertProjection p then Inl RejectInvalidOutcomeTransition
               else Inr (p, cv_settlementState cv))
       else if cv_alertState cv \<noteq> AlertOpen \<and> cv_alertState cv \<noteq> AlertAcknowledged
         then Inl RejectInvalidOutcomeTransition
       else let p = computeManagerResolution managerUid reason (av_acknowledgedByActor av)
         in if \<not> isValidAlertProjection p then Inl RejectInvalidOutcomeTransition
            else Inr (p, if cv_settlementState cv = ManualReviewRequired then ManuallyResolved
                         else cv_settlementState cv))"

text \<open>The ledger document id; SHA-256 in hexadecimal is an argument.\<close>

definition commandLedgerId :: "(jsstr \<Rightarrow> jsstr) \<Rightarrow> jsstr \<Rightarrow> jsstr" where
  "commandLedgerId sha256Hex commandId = take 40 (sha256Hex commandId)"

definition buildManagerActor :: "jsstr \<Rightarrow> alert_actor" where
  "buildManagerActor managerUid = ManagerActor managerUid"

section \<open>The cursor model\<close>

lemma index_of_Some: "index_of x xs = Some i \<Longrightarrow> i < length xs \<and> xs ! i = x"
  by (induction xs arbitrary: i) (auto split: if_splits)

lemma index_of_distinct: "distinct xs \<Longrightarrow> i < length xs \<Longrightarrow> index_of (xs ! i) xs = Some i"
proof (induction xs arbitrary: i)
  case (Cons x xs)
  show ?case
  proof (cases i)
    case (Suc j)
    then have "xs ! j \<in> set xs" using Cons.prems(2) by simp
    then have "x \<noteq> xs ! j" using Cons.prems(1) by auto
    then show ?thesis using Cons Suc by simp
  qed simp
qed simp

lemma stepStream_cases:
  obtains (idle) "sr_processedCaseId (fst (stepStream order cur el cache bud process)) = None"
      "sr_cursor (fst (stepStream order cur el cache bud process)) = cur"
      "snd (stepStream order cur el cache bud process) = cache"
  | (consumed) k i outcome where "sr_processedCaseId (fst (stepStream order cur el cache bud process)) = Some k"
      "sr_cursor (fst (stepStream order cur el cache bud process)) = Some k"
      "bud" "el k" "i < length order" "order ! i = k" "indexAfterCursor order cur \<le> i"
      "\<forall>j. indexAfterCursor order cur \<le> j \<and> j < i \<longrightarrow> \<not> el (order ! j)"
      "sr_outcome (fst (stepStream order cur el cache bud process)) = Some outcome"
      "outcome = (case map_of cache k of Some out \<Rightarrow> out | None \<Rightarrow> process k)"
      "sr_fromCache (fst (stepStream order cur el cache bud process)) = (map_of cache k \<noteq> None)"
      "snd (stepStream order cur el cache bud process) =
         (if map_of cache k = None then map_set k (process k) cache else cache)"
proof (cases "bud \<and> dropWhile (\<lambda>c. \<not> el c) (drop (indexAfterCursor order cur) order) \<noteq> []")
  case False
  then consider "\<not> bud" | "dropWhile (\<lambda>c. \<not> el c) (drop (indexAfterCursor order cur) order) = []" by blast
  then show ?thesis
    by cases (rule idle; simp add: stepStream_def del: dropWhile_eq_Nil_conv)+
next
  case True
  let ?d = "drop (indexAfterCursor order cur) order"
  let ?t = "takeWhile (\<lambda>c. \<not> el c) ?d"
  obtain k rest where k: "dropWhile (\<lambda>c. \<not> el c) ?d = k # rest" using True by (metis list.exhaust)
  have el: "el k" using k by (simp add: dropWhile_eq_Cons_conv)
  have split: "?d = ?t @ k # rest" using takeWhile_dropWhile_id [of "\<lambda>c. \<not> el c" ?d] k by simp
  have len: "indexAfterCursor order cur \<le> length order"
  proof (rule ccontr)
    assume "\<not> ?thesis"
    then have "?d = []" by simp
    then show False using split by simp
  qed
  define i where "i = indexAfterCursor order cur + length ?t"
  have at: "order ! (indexAfterCursor order cur + j) = ?d ! j" for j
    using len by (simp add: nth_drop)
  have "length ?t < length ?d" by (metis split length_append less_add_same_cancel1 length_greater_0_conv list.discI)
  then have i: "i < length order" unfolding i_def by simp
  have oi: "order ! i = k" unfolding i_def at by (subst split) simp
  have skip: "\<forall>j. indexAfterCursor order cur \<le> j \<and> j < i \<longrightarrow> \<not> el (order ! j)"
  proof (intro allI impI)
    fix j assume j: "indexAfterCursor order cur \<le> j \<and> j < i"
    define m where "m = j - indexAfterCursor order cur"
    have m: "m < length ?t" "j = indexAfterCursor order cur + m" using j unfolding m_def i_def by auto
    then have "order ! j = ?t ! m" unfolding m(2) at by (subst split) (simp add: nth_append)
    then show "\<not> el (order ! j)" using nth_mem [OF m(1)] set_takeWhileD by metis
  qed
  have bud: "bud" using True by simp
  show ?thesis
    by (rule consumed [OF _ _ bud el i oi _ skip, of "case map_of cache k of Some out \<Rightarrow> out | None \<Rightarrow> process k"])
      (use bud k in \<open>auto simp: stepStream_def i_def split: option.splits\<close>)
qed

lemma indexAfterCursor_consumed:
  "distinct order \<Longrightarrow> i < length order \<Longrightarrow> indexAfterCursor order (Some (order ! i)) = Suc i"
  by (simp add: indexAfterCursor_def index_of_distinct)

text \<open>Every consumed step of a stream without repeated ids moves its position forward.\<close>

lemma stepStream_progress:
  assumes "distinct order" "sr_processedCaseId (fst (stepStream order cur el cache bud process)) \<noteq> None"
  shows "indexAfterCursor order cur < indexAfterCursor order (sr_cursor (fst (stepStream order cur el cache bud process)))
    \<and> indexAfterCursor order (sr_cursor (fst (stepStream order cur el cache bud process))) \<le> length order"
  by (rule stepStream_cases [of order cur el cache bud process])
    (use assms indexAfterCursor_consumed [of order] in auto)

lemma drainStream_enough:
  assumes "distinct order" "length order - indexAfterCursor order cur < fuel"
  shows "\<exists>c steps cache'. drainStream fuel order cur el cache process bud i = Some (c, steps, cache')
    \<and> length steps \<le> Suc (length order - indexAfterCursor order cur)"
  using assms
proof (induction fuel arbitrary: cur cache i)
  case (Suc fuel)
  obtain r cache' where r: "stepStream order cur (el i) cache (bud i) process = (r, cache')"
    by (cases "stepStream order cur (el i) cache (bud i) process")
  show ?case
  proof (cases "sr_processedCaseId r = None")
    case False
    then have p: "indexAfterCursor order cur < indexAfterCursor order (sr_cursor r)"
      "indexAfterCursor order (sr_cursor r) \<le> length order"
      using stepStream_progress [OF Suc.prems(1), of cur "el i" cache "bud i" process] r by auto
    then have "length order - indexAfterCursor order (sr_cursor r) < fuel" using Suc.prems(2) by linarith
    from Suc.IH [OF Suc.prems(1) this, of cache' "i + 1"] obtain c steps cache'' where
      "drainStream fuel order (sr_cursor r) el cache' process bud (i + 1) = Some (c, steps, cache'')"
      "length steps \<le> Suc (length order - indexAfterCursor order (sr_cursor r))" by blast
    then show ?thesis using r False p by (simp add: Let_def)
  qed (simp add: r Let_def)
qed simp

lemma filter_skip:
  assumes "a \<le> i" "i < length order" "el (order ! i)" "\<forall>j. a \<le> j \<and> j < i \<longrightarrow> \<not> el (order ! j)"
  shows "filter el (drop a order) = order ! i # filter el (drop (Suc i) order)"
proof -
  have "drop a order = take (i - a) (drop a order) @ drop i order"
    using assms(1) by (metis append_take_drop_id drop_drop le_add_diff_inverse2)
  moreover have "filter el (take (i - a) (drop a order)) = []"
    using assms(2,4) by (auto simp: filter_empty_conv in_set_conv_nth)
  moreover have "drop i order = order ! i # drop (Suc i) order"
    using assms(2) by (rule Cons_nth_drop_Suc [symmetric])
  ultimately show ?thesis using assms(3) by (metis append_Nil filter.simps(2) filter_append)
qed

lemma stepStream_idle_exhausted:
  "sr_processedCaseId (fst (stepStream order cur el cache True process)) = None \<Longrightarrow>
   filter el (drop (indexAfterCursor order cur) order) = []"
  by (auto simp: stepStream_def filter_empty_conv split: list.splits option.splits)

lemma drainStream_all:
  assumes "distinct order" "length order - indexAfterCursor order cur < fuel"
  shows "\<exists>c steps cache'. drainStream fuel order cur (\<lambda>_. el) cache process (\<lambda>_. True) i = Some (c, steps, cache')
    \<and> map sr_processedCaseId steps = map Some (filter el (drop (indexAfterCursor order cur) order)) @ [None]
    \<and> c = (if filter el (drop (indexAfterCursor order cur) order) = [] then cur
           else Some (last (filter el (drop (indexAfterCursor order cur) order))))"
  using assms
proof (induction fuel arbitrary: cur cache i)
  case (Suc fuel)
  let ?st = "stepStream order cur el cache True process"
  obtain r cache' where r: "?st = (r, cache')" by (cases ?st)
  show ?case
  proof (cases "sr_processedCaseId r")
    case None
    then have "filter el (drop (indexAfterCursor order cur) order) = []"
      using stepStream_idle_exhausted [of order cur el cache process] r by simp
    then show ?thesis using None by (simp add: r Let_def del: filter_empty_conv)
  next
    case (Some k)
    obtain m where m: "sr_cursor r = Some k" "el k" "m < length order" "order ! m = k"
      "indexAfterCursor order cur \<le> m" "\<forall>j. indexAfterCursor order cur \<le> j \<and> j < m \<longrightarrow> \<not> el (order ! j)"
      by (rule stepStream_cases [of order cur el cache True process]) (use r Some in auto)
    have next': "indexAfterCursor order (sr_cursor r) = Suc m"
      using indexAfterCursor_consumed [OF Suc.prems(1) m(3)] m by simp
    have flt: "filter el (drop (indexAfterCursor order cur) order) = k # filter el (drop (Suc m) order)"
      using filter_skip [OF m(5,3) _ m(6)] m(2,4) by simp
    have "length order - indexAfterCursor order (sr_cursor r) < fuel"
      using Suc.prems(2) m(3,5) unfolding next' by linarith
    from Suc.IH [OF Suc.prems(1) this, of cache' "i + 1"] obtain c steps cache'' where
      d: "drainStream fuel order (sr_cursor r) (\<lambda>_. el) cache' process (\<lambda>_. True) (i + 1) = Some (c, steps, cache'')"
        "map sr_processedCaseId steps = map Some (filter el (drop (Suc m) order)) @ [None]"
        "c = (if filter el (drop (Suc m) order) = [] then sr_cursor r else Some (last (filter el (drop (Suc m) order))))"
      unfolding next' by blast
    then show ?thesis using r Some m(1) unfolding flt by (simp add: Let_def)
  qed
qed simp

text \<open>An invocation interleaves steps of the two streams over one cache; the log records the calls
  of \<open>process\<close>.\<close>

datatype stream = PrimaryStream | RetryStream

record invocation =
  in_cursor :: "stream \<Rightarrow> cursor"
  in_cache :: result_cache
  in_log :: "case_id list"

definition initial_invocation :: "(stream \<Rightarrow> cursor) \<Rightarrow> invocation" where
  "initial_invocation curs = \<lparr>in_cursor = curs, in_cache = [], in_log = []\<rparr>"

definition invocation_step ::
  "(stream \<Rightarrow> case_id list) \<Rightarrow> (case_id \<Rightarrow> durable_outcome) \<Rightarrow> invocation
   \<Rightarrow> stream \<times> (case_id \<Rightarrow> bool) \<times> bool \<Rightarrow> invocation" where
  "invocation_step order process s e = (case e of (st, isEligible, budgetAvailable) \<Rightarrow>
    (let (r, cache') = stepStream (order st) (in_cursor s st) isEligible (in_cache s) budgetAvailable process
     in \<lparr>in_cursor = (in_cursor s)(st := sr_cursor r), in_cache = cache',
         in_log = (case sr_processedCaseId r of Some k \<Rightarrow> if sr_fromCache r then in_log s else in_log s @ [k]
                   | None \<Rightarrow> in_log s)\<rparr>))"

definition log_is_cache :: "invocation \<Rightarrow> bool" where
  "log_is_cache s \<longleftrightarrow> distinct (in_log s) \<and> set (in_log s) = dom (map_of (in_cache s))"

lemma invocation_step_log: "log_is_cache s \<Longrightarrow> log_is_cache (invocation_step order process s e)"
proof -
  assume inv: "log_is_cache s"
  obtain st el bud where e: "e = (st, el, bud)" by (cases e)
  let ?r = "stepStream (order st) (in_cursor s st) el (in_cache s) bud process"
  show ?thesis
    by (rule stepStream_cases [of "order st" "in_cursor s st" el "in_cache s" bud process])
      (use inv in \<open>auto simp: invocation_step_def e log_is_cache_def case_prod_unfold Let_def domIff split: if_splits\<close>)
qed

interpretation dedup: invariant_machine "invocation_step order process" log_is_cache for order process
  by unfold_locales (rule invocation_step_log)

lemma invocation_step_cursor:
  "in_cursor (invocation_step order process s e) st = in_cursor s st
   \<or> (st = fst e \<and> (\<exists>k. in_cursor (invocation_step order process s e) st = Some k
        \<and> k \<in> set (order st) \<and> fst (snd e) k))"
proof -
  obtain st' el bud where e: "e = (st', el, bud)" by (cases e)
  show ?thesis
    by (rule stepStream_cases [of "order st'" "in_cursor s st'" el "in_cache s" bud process])
      (auto simp: invocation_step_def e case_prod_unfold Let_def)
qed

section \<open>Adjudication as a machine\<close>

type_synonym adjudicated = "alert_projection \<times> settlement_state"

definition adjudicate :: "adjudicated \<Rightarrow> adjudication_outcome \<times> jsstr \<Rightarrow> adjudicated" where
  "adjudicate s e = (case s of (p, settlement) \<Rightarrow>
    (case decideAdjudicationTransition
        \<lparr>cv_alertState = ap_alertState p, cv_settlementState = settlement\<rparr>
        \<lparr>av_alertState = ap_alertState p, av_reasonCode = ap_reasonCode p,
         av_acknowledgedByActor = ap_acknowledgedByActor p\<rparr> (fst e) (snd e) of
       Inr s' \<Rightarrow> s' | Inl _ \<Rightarrow> s))"

definition adjudication_final :: "adjudicated \<Rightarrow> bool" where
  "adjudication_final s \<longleftrightarrow> ap_alertState (fst s) \<in> {AlertNone, AlertResolved}"

lemma adjudicate_final: "adjudication_final s \<Longrightarrow> adjudicate s e = s"
  by (cases s) (auto simp: adjudication_final_def adjudicate_def decideAdjudicationTransition_def
      split: option.splits)

interpretation adjudication: absorbing_machine adjudicate adjudication_final "\<lambda>_. False"
  by unfold_locales (rule adjudicate_final)

definition adjudicable :: "adjudicated \<Rightarrow> alert_reason \<Rightarrow> settlement_state \<Rightarrow> bool" where
  "adjudicable s reason settlement \<longleftrightarrow> isValidAlertProjection (fst s) \<and> ap_reasonCode (fst s) = Some reason
     \<and> (snd s = settlement \<or> settlement = ManualReviewRequired \<and> snd s = ManuallyResolved
          \<and> ap_alertState (fst s) = AlertResolved)"

lemma adjudicate_keeps: "adjudicable s r t \<Longrightarrow> adjudicable (adjudicate s e) r t"
  unfolding adjudicable_def adjudicate_def decideAdjudicationTransition_def computeManagerResolution_def
  by (cases s) (auto simp: isValidAlertProjection_def Let_def split: alert_state.splits)

interpretation adjudicating: invariant_machine adjudicate "\<lambda>s. adjudicable s r t" for r t
  by unfold_locales (rule adjudicate_keeps)

section \<open>Properties\<close>

text \<open>Every row of the verdict table yields a valid alert projection, and the retry exhaustion does
  too, provided a prior acknowledgement was a manager's. The error classification is present
  exactly for insufficient evidence and then is the alert's reason; only a match settles
  provisionally; and a match that supersedes an acknowledged alert keeps its acknowledger
  while the system, not a manager, resolves it.\<close>

theorem run_transitions_valid:
  assumes "\<And>prior. v = VMatch prior \<Longrightarrow> pa_alertState prior = AlertAcknowledged \<Longrightarrow>
      (\<exists>uid. pa_acknowledgedByActor prior = Some (ManagerActor uid))"
  defines "t \<equiv> computeRunTransition v"
  shows "isValidAlertProjection (rt_alert t)
    \<and> isValidAlertProjection (nt_alert computeRetryExhaustionTransition)
    \<and> (\<forall>c. rt_errorClassification t = Some c \<longleftrightarrow> v = VInsufficientEvidence c)
    \<and> (\<forall>c. rt_errorClassification t = Some c \<longrightarrow> ap_reasonCode (rt_alert t) = Some (OfClassification c))
    \<and> (rt_settlementState t = ProvisionalMatch \<longleftrightarrow> (\<exists>prior. v = VMatch prior))
    \<and> (\<forall>prior. v = VMatch prior \<longrightarrow> pa_alertState prior = AlertAcknowledged \<longrightarrow>
         ap_acknowledgedByActor (rt_alert t) = pa_acknowledgedByActor prior
         \<and> ap_resolvedByActor (rt_alert t) = Some SystemActor)"
proof (cases v)
  case (VMatch prior)
  then show ?thesis
    using assms(1) [of prior] unfolding t_def
    by (cases "pa_alertState prior")
      (auto simp: computeMatchTransition_def Let_def isValidAlertProjection_def ALERT_NONE_def
        computeRetryExhaustionTransition_def alertOpen_def)
qed (auto simp: t_def computeDiscrepancyTransition_def computeIdentityMismatchTransition_def
    computeInvalidPayloadTransition_def computeInsufficientEvidenceTransition_def
    isValidAlertProjection_def alertOpen_def computeRetryExhaustionTransition_def Let_def)

theorem run_transitions_valid_witness:
  "isValidAlertProjection (rt_alert (computeRunTransition
     (VMatch \<lparr>pa_alertState = AlertAcknowledged, pa_acknowledgedByActor = Some (ManagerActor (js ''m1''))\<rparr>)))"
  using run_transitions_valid [of "VMatch \<lparr>pa_alertState = AlertAcknowledged,
      pa_acknowledgedByActor = Some (ManagerActor (js ''m1''))\<rparr>"] by simp

text \<open>Along any sequence of manager adjudications of a valid alert: the projection stays valid, the
  reason code it was opened with never changes, the settlement changes only from manual
  review to manually resolved and only together with the resolution, and a resolved alert is
  never changed again.\<close>

theorem adjudication_run:
  fixes p r t
  assumes "isValidAlertProjection p" and "ap_reasonCode p = Some r"
  defines "s \<equiv> run adjudicate (p, t)"
  shows "isValidAlertProjection (fst (s es)) \<and> ap_reasonCode (fst (s es)) = Some r
    \<and> (snd (s es) = t \<or> t = ManualReviewRequired \<and> snd (s es) = ManuallyResolved
         \<and> ap_alertState (fst (s es)) = AlertResolved)
    \<and> (ap_alertState (fst (s es)) = AlertResolved \<longrightarrow> s (es @ fs) = s es)"
proof -
  have "adjudicable (s es) r t"
    unfolding s_def by (rule adjudicating.inv_run) (simp add: adjudicable_def assms)
  moreover have "s (es @ fs) = s es" if "ap_alertState (fst (s es)) = AlertResolved"
    using that unfolding s_def run_append
    by (intro adjudication.final_run) (simp_all add: adjudication_final_def)
  ultimately show ?thesis by (simp add: adjudicable_def)
qed

theorem adjudication_run_witness:
  "run adjudicate (alertOpen DrawerDiscrepancy, ManualReviewRequired)
     ([(Acknowledge, js ''a''), (Resolve, js ''b'')] @ [(Resolve, js ''c'')])
   = (\<lparr>ap_alertState = AlertResolved, ap_reasonCode = Some DrawerDiscrepancy,
       ap_acknowledgedByActor = Some (ManagerActor (js ''a'')),
       ap_resolvedByActor = Some (ManagerActor (js ''b''))\<rparr>, ManuallyResolved)"
proof -
  have v: "isValidAlertProjection (alertOpen DrawerDiscrepancy)" "ap_reasonCode (alertOpen DrawerDiscrepancy) = Some DrawerDiscrepancy"
    by (simp_all add: isValidAlertProjection_def alertOpen_def)
  have two: "run adjudicate (alertOpen DrawerDiscrepancy, ManualReviewRequired) [(Acknowledge, js ''a''), (Resolve, js ''b'')]
    = (\<lparr>ap_alertState = AlertResolved, ap_reasonCode = Some DrawerDiscrepancy,
       ap_acknowledgedByActor = Some (ManagerActor (js ''a'')),
       ap_resolvedByActor = Some (ManagerActor (js ''b''))\<rparr>, ManuallyResolved)"
    by (simp add: adjudicate_def decideAdjudicationTransition_def alertOpen_def Let_def
        computeManagerResolution_def isValidAlertProjection_def)
  show ?thesis
    using adjudication_run [OF v, of ManualReviewRequired "[(Acknowledge, js ''a''), (Resolve, js ''b'')]" "[(Resolve, js ''c'')]"]
    unfolding two by simp
qed

text \<open>The decision is granted exactly when the case and the alert agree, a reason is recorded, and the
  alert is open (for an acknowledgement) or open or acknowledged (for a resolution, where an
  earlier acknowledger must be a manager); otherwise it is rejected, as not open exactly
  when both sides say there is no alert.\<close>

theorem adjudication_decision_spec:
  "(\<exists>p s. decideAdjudicationTransition cv av out uid = Inr (p, s)) =
     (cv_alertState cv = av_alertState av \<and> av_reasonCode av \<noteq> None
      \<and> (if out = Acknowledge then cv_alertState cv = AlertOpen
         else cv_alertState cv \<in> {AlertOpen, AlertAcknowledged}
           \<and> av_acknowledgedByActor av \<noteq> Some SystemActor))
   \<and> (decideAdjudicationTransition cv av out uid = Inl RejectAlertNotOpen) =
     (cv_alertState cv = AlertNone \<and> av_alertState av = AlertNone)"
  by (cases out; cases "cv_alertState cv"; cases "av_reasonCode av"; cases "av_acknowledgedByActor av")
    (auto simp: decideAdjudicationTransition_def Let_def isValidAlertProjection_def
      computeManagerResolution_def split: alert_actor.splits elim: is_manager.elims)

text \<open>An accepted payload carries no \<^verbatim>\<open>pin\<close> property, whatever its value; its four identifiers are
  non-empty and already trimmed; its expected version is a non-negative integer, its outcome
  and reason are from the closed vocabularies and its note is within the bound.\<close>

theorem accepted_payload:
  assumes "validateAdjudicationPayload fmt req = Inr (Some v)"
  shows "\<not> hasPresentPin req
    \<and> list_all (\<lambda>s. s \<noteq> [] \<and> trim s = s) [vr_commandId v, vr_shiftId v, vr_branchId v, vr_approvalId v]
    \<and> isInteger (vr_expectedCaseVersion v) \<and> num_val (vr_expectedCaseVersion v) \<ge> 0
    \<and> req_field req ''requestedOutcome'' = JStr (js (if vr_requestedOutcome v = Acknowledge then ''acknowledge'' else ''resolve''))
    \<and> alert_reason_of (req_field req ''reasonCode'') = Some (vr_reasonCode v)
    \<and> (case vr_reasonNote v of None \<Rightarrow> True | Some n \<Rightarrow> length n \<le> MAX_REASON_NOTE_LENGTH)"
  using assms
  by (auto simp: validateAdjudicationPayload_def trimmed_field_def and_then_Inr_iff trim_idem version_ok_def
      outcome_of_def note_of_def js_lt_finite isInteger_def split: if_splits option.splits jsval.splits)

definition sample_request :: request where
  "sample_request = [(js ''commandId'', JStr (js ''c-1'')), (js ''shiftId'', JStr (js ''s-1'')),
     (js ''branchId'', JStr (js ''b-1'')), (js ''approvalId'', JStr (js ''a-1'')),
     (js ''expectedCaseVersion'', JNum (Fin 3)), (js ''requestedOutcome'', JStr (js ''resolve'')),
     (js ''reasonCode'', JStr (js ''drawer_discrepancy''))]"

theorem accepted_payload_witness:
  "\<exists>v. validateAdjudicationPayload (\<lambda>_. []) sample_request = Inr (Some v) \<and> \<not> hasPresentPin sample_request"
proof -
  have "\<exists>v. validateAdjudicationPayload (\<lambda>_. []) sample_request = Inr (Some v)"
    by (simp add: validateAdjudicationPayload_def trimmed_field_def req_field_def sample_request_def
        hasPresentPin_def version_ok_def outcome_of_def note_of_def alert_reason_of_def ALERT_REASON_CODES_def
        isInteger_def js_lt_finite trim_js is_ws_def unat_of_char)
  then show ?thesis using accepted_payload by blast
qed

text \<open>Authority is granted exactly to a fresh session with access to the branch, whose role is admin
  or manager (or staff where the second model admits requesters) and which carries a usable
  identity; the identity returned is the staff id claim, or the uid without one.\<close>

theorem authority_spec:
  "checkAdjudicationAuthority auth b fresh requesters = Inr m \<longleftrightarrow>
     fresh \<and> hasBranchAccess auth b \<and> js_truthy m
     \<and> (token_field auth ''role'' \<in> {JStr (js ''admin''), JStr (js ''manager'')}
        \<or> requesters \<and> token_field auth ''role'' = JStr (js ''staff''))
     \<and> m = (if is_nullish (token_field auth ''staffId'')
            then (case Option.bind auth au_uid of Some u \<Rightarrow> JStr u | None \<Rightarrow> JNull)
            else token_field auth ''staffId'')"
  by (auto simp: checkAdjudicationAuthority_def Let_def MODEL2_REQUESTER_ROLES_def
      split: if_splits option.splits jsval.splits)

text \<open>C32. Within one invocation, whatever the interleaving of the two streams, the live eligibility and
  the budget: \<open>process\<close> is called at most once per case, every later step that meets the case
  is served from the cache, and a stream's cursor changes only by its own step and only to a
  row of its own order that was eligible then.\<close>

theorem dedup_across_streams:
  fixes order process curs
  defines "s \<equiv> \<lambda>es. run (invocation_step order process) (initial_invocation curs) es"
  shows "distinct (in_log (s es))
    \<and> set (in_log (s es)) = dom (map_of (in_cache (s es)))
    \<and> (in_cursor (s (es @ [e])) st = in_cursor (s es) st
       \<or> st = fst e \<and> (\<exists>k. in_cursor (s (es @ [e])) st = Some k \<and> k \<in> set (order st) \<and> fst (snd e) k))"
proof -
  have "log_is_cache (s es)"
    unfolding s_def by (rule dedup.inv_run) (simp add: initial_invocation_def log_is_cache_def)
  then show ?thesis
    using invocation_step_cursor [of order process "s es" e st] by (simp add: s_def run_append log_is_cache_def)
qed

text \<open>Draining a stream of distinct ids with budget and a fixed query returns after at most one step
  per remaining row plus the final empty one: it consumes exactly the eligible rows after
  the cursor, in order, and leaves the cursor on the last of them.\<close>

theorem drain_consumes_all:
  assumes "distinct order"
  shows "\<exists>c steps cache'. drainStream (Suc (length order)) order cur (\<lambda>_. el) cache process (\<lambda>_. True) 0
      = Some (c, steps, cache')
    \<and> map sr_processedCaseId steps = map Some (filter el (drop (indexAfterCursor order cur) order)) @ [None]
    \<and> c = (if filter el (drop (indexAfterCursor order cur) order) = [] then cur
           else Some (last (filter el (drop (indexAfterCursor order cur) order))))"
  by (rule drainStream_all [OF assms]) linarith

theorem drain_consumes_all_witness:
  "\<exists>c steps cache'. drainStream 4 [js ''a'', js ''b'', js ''c''] None (\<lambda>_ k. k \<noteq> js ''b'') [] (\<lambda>_. Completed) (\<lambda>_. True) 0
      = Some (c, steps, cache') \<and> c = Some (js ''c'')"
  using drain_consumes_all [of "[js ''a'', js ''b'', js ''c'']" None "\<lambda>k. k \<noteq> js ''b''" "[]" "\<lambda>_. Completed"]
  by (auto simp: indexAfterCursor_def numeral_eq_Suc)

text \<open>With eligibility and budget that change at every step, the loop still returns, after at most one
  step per row after the cursor plus the last one.\<close>

theorem drain_terminates:
  assumes "distinct order"
  shows "\<exists>c steps cache'. drainStream (Suc (length order)) order cur el cache process bud 0 = Some (c, steps, cache')
    \<and> length steps \<le> Suc (length order - indexAfterCursor order cur)"
  by (rule drainStream_enough [OF assms]) linarith

theorem drain_terminates_witness:
  "\<exists>c steps cache'. drainStream 3 [js ''a'', js ''b''] None (\<lambda>i k. even i) [] (\<lambda>_. Completed) (\<lambda>i. i < 5) 0
      = Some (c, steps, cache')"
  using drain_terminates [of "[js ''a'', js ''b'']" None "\<lambda>i k. even i" "[]" "\<lambda>_. Completed" "\<lambda>i. i < 5"]
  by (auto simp: numeral_eq_Suc)

end
