(* ===== verification/PrivilegedVoidFlow.thy ===== *)
theory PrivilegedVoidFlow
  imports Prelude "HOL-Library.Sublist"
begin

text \<open>
  The privileged-void flow machine: \<^verbatim>\<open>src/lib/pos/privilegedVoid/privilegedVoidFlowMachine.ts\<close>
  and the active-row classification it consumes
  (\<^verbatim>\<open>privilegedVoidActiveRow.ts\<close>). One definition per exported transition, the step
  function over all of them, and the invariants: a flow never retargets, a manager change
  never keeps its intent id, nothing is captured without passing every gate in order, a
  wrong PIN is the only retryable denial.
\<close>

section \<open>Data\<close>

datatype action_id = VOID_PENDING_SALE | VOID_SETTLED_SALE

datatype d2_sync_status =
  PRIVILEGED_INTENT_QUEUED | SYNCING | SERVER_ACCEPTED | SERVER_REJECTED | ROW_MANUAL_ATTENTION

datatype review_status = NOT_REQUIRED | REQUIRED | RESOLVED

datatype server_verdict = ACCEPTED | REJECTED

record flow_identity =
  localIntentId :: jsstr
  actionId :: action_id
  targetOrderId :: jsstr
  targetOrderUtc7Date :: jsstr
  targetBranchId :: jsstr
  operatorStaffId :: jsstr
  managerStaffId :: "jsstr option"

record order_ref =
  o_actionId :: action_id
  o_targetOrderId :: jsstr
  o_targetOrderUtc7Date :: jsstr
  o_targetBranchId :: jsstr
  o_operatorStaffId :: jsstr

record live_context =
  l_branchId :: "jsstr option"
  l_operatorStaffId :: "jsstr option"
  l_authSessionActive :: bool
  l_selectedOrderId :: "jsstr option"
  l_selectedOrderBranchId :: "jsstr option"
  l_expectedActionId :: "action_id option"
  l_currentVoidEligible :: bool

text \<open>The fields of the durable evidence row that the flow and the precheck read.\<close>

record evidence_row =
  e_adjudicationId :: jsstr
  e_localIntentId :: jsstr
  e_actionId :: action_id
  e_targetOrderId :: jsstr
  e_targetOrderUtc7Date :: jsstr
  e_branchId :: jsstr
  e_approvingManagerStaffId :: jsstr
  e_syncStatus :: d2_sync_status
  e_manualReviewStatus :: review_status
  e_serverVerdict :: "server_verdict option"
  e_createdAtMs :: ms
  e_updatedAtMs :: ms

section \<open>Active-row precheck\<close>

datatype row_classification = active_open | terminal_accepted | terminal_rejected | manual_attention

record active_row =
  r_targetOrderId :: jsstr
  r_classification :: row_classification
  r_syncStatus :: d2_sync_status
  r_manualReviewStatus :: review_status
  r_serverVerdict :: "server_verdict option"
  r_updatedAtMs :: ms

datatype precheck_outcome =
  PC_integrity_fault
| PC_clear
| PC_active_open active_row
| PC_terminal_accepted active_row
| PC_terminal_rejected active_row
| PC_manual_attention active_row

fun classify :: "d2_sync_status \<Rightarrow> row_classification" where
  "classify PRIVILEGED_INTENT_QUEUED = active_open"
| "classify SYNCING = active_open"
| "classify SERVER_ACCEPTED = terminal_accepted"
| "classify ROW_MANUAL_ATTENTION = manual_attention"
| "classify SERVER_REJECTED = terminal_rejected"

definition toSafeSummary :: "evidence_row \<Rightarrow> active_row" where
  "toSafeSummary row = \<lparr>
     r_targetOrderId = e_targetOrderId row,
     r_classification = classify (e_syncStatus row),
     r_syncStatus = e_syncStatus row,
     r_manualReviewStatus = e_manualReviewStatus row,
     r_serverVerdict = e_serverVerdict row,
     r_updatedAtMs = e_updatedAtMs row\<rparr>"

text \<open>
  The durable read: \<open>None\<close> is an exception, otherwise the branch's readable rows and the
  number of unreadable ones.
\<close>

type_synonym branch_read = "(evidence_row list \<times> nat) option"

definition listActiveRowSummariesForBranch :: "branch_read \<Rightarrow> (active_row list \<times> nat) option" where
  "listActiveRowSummariesForBranch rd =
     map_option (\<lambda>(rows, unreadableCount). (map toSafeSummary rows, unreadableCount)) rd"

definition precheckActiveRowForTarget :: "branch_read \<Rightarrow> jsstr \<Rightarrow> precheck_outcome" where
  "precheckActiveRowForTarget rd target =
     (case listActiveRowSummariesForBranch rd of
        None \<Rightarrow> PC_integrity_fault
      | Some (rows, unreadableCount) \<Rightarrow>
          if unreadableCount > 0 then PC_integrity_fault
          else (case find (\<lambda>r. r_targetOrderId r = target) rows of
                  None \<Rightarrow> PC_clear
                | Some row \<Rightarrow>
                    (case r_classification row of
                       active_open \<Rightarrow> PC_active_open row
                     | terminal_accepted \<Rightarrow> PC_terminal_accepted row
                     | manual_attention \<Rightarrow> PC_manual_attention row
                     | terminal_rejected \<Rightarrow> PC_terminal_rejected row)))"

definition isBlockingActiveRowStatus :: "d2_sync_status \<Rightarrow> bool" where
  "isBlockingActiveRowStatus status \<longleftrightarrow>
     status \<in> {PRIVILEGED_INTENT_QUEUED, SYNCING, SERVER_ACCEPTED, ROW_MANUAL_ATTENTION}"

section \<open>Identity revalidation\<close>

definition revalidateIdentity :: "flow_identity \<Rightarrow> live_context \<Rightarrow> bool" where
  "revalidateIdentity i live =
    (if \<not> l_authSessionActive live then False
     else if \<not> truthy (l_branchId live) \<or> l_branchId live = Some (js ''ALL'') then False
     else if Some (targetBranchId i) \<noteq> l_branchId live then False
     else if \<not> truthy (l_operatorStaffId live) \<or> Some (operatorStaffId i) \<noteq> l_operatorStaffId live then False
     else if \<not> truthy (l_selectedOrderId live) \<or> Some (targetOrderId i) \<noteq> l_selectedOrderId live then False
     else if \<not> truthy (l_selectedOrderBranchId live)
             \<or> Some (targetBranchId i) \<noteq> l_selectedOrderBranchId live then False
     else if l_expectedActionId live = None \<or> Some (actionId i) \<noteq> l_expectedActionId live then False
     else if \<not> truthy (managerStaffId i) then False
     else if \<not> l_currentVoidEligible live then False
     else True)"

record captured_record =
  c_adjudicationId :: jsstr
  c_localIntentId :: jsstr
  c_actionId :: action_id
  c_targetOrderId :: jsstr
  c_targetOrderUtc7Date :: jsstr
  c_branchId :: jsstr
  c_approvingManagerStaffId :: jsstr
  c_syncStatus :: d2_sync_status
  c_manualReviewStatus :: review_status
  c_createdAtMs :: ms
  c_updatedAtMs :: ms

definition safeRecordSummary :: "evidence_row \<Rightarrow> captured_record" where
  "safeRecordSummary r = \<lparr>
     c_adjudicationId = e_adjudicationId r,
     c_localIntentId = e_localIntentId r,
     c_actionId = e_actionId r,
     c_targetOrderId = e_targetOrderId r,
     c_targetOrderUtc7Date = e_targetOrderUtc7Date r,
     c_branchId = e_branchId r,
     c_approvingManagerStaffId = e_approvingManagerStaffId r,
     c_syncStatus = e_syncStatus r,
     c_manualReviewStatus = e_manualReviewStatus r,
     c_createdAtMs = e_createdAtMs r,
     c_updatedAtMs = e_updatedAtMs r\<rparr>"

section \<open>Denial classification\<close>

datatype local_failure_reason =
  unavailable | durable_unavailable | integrity_conflict | stale_context
| denied_locked | denied_stale | denied_unverifiable | denied_unknown
| denied_staff_session | denied_oac_missing | denied_oac_stale
| provisioning_pin_rejected | provisioning_not_eligible | provisioning_device_not_ready
| provisioning_failed | provisioning_uncertain | provisioning_verifier_inconsistent

datatype denial_class =
  retry_same_intent | locked | stale | unverifiable | staff_session | oac_missing | oac_stale | unknown

definition classifyPinDenial :: "jsstr option \<Rightarrow> denial_class" where
  "classifyPinDenial errorCode =
    (if errorCode = Some (js ''DENIED_INVALID_PIN'') then retry_same_intent
     else if errorCode \<in> Some ` {js ''DENIED_LOCKED'', js ''TOO_MANY_ATTEMPTS''} then locked
     else if errorCode \<in> Some ` {js ''DENIED_STALE'', js ''CREDENTIAL_STALE''} then stale
     else if errorCode \<in> Some ` {js ''DENIED_UNVERIFIABLE'', js ''APPROVAL_UNAVAILABLE''} then unverifiable
     else if errorCode = Some (js ''DENIED_STAFF_SESSION'') then staff_session
     else if errorCode = Some (js ''DENIED_OAC_MISSING'') then oac_missing
     else if errorCode = Some (js ''DENIED_OAC_STALE'') then oac_stale
     else unknown)"

datatype projection_outcome =
  PO_projected evidence_row
| PO_already_projected evidence_row
| PO_duplicate_target
| PO_not_approved "jsstr option"
| PO_unavailable
| PO_integrity_conflict
| PO_durable_unavailable
| PO_uncertain

datatype provision_outcome =
  PV_provisioned | PV_offline | PV_pin_rejected | PV_not_eligible | PV_device_not_ready
| PV_failed | PV_uncertain

datatype oac_trigger = T_oac_missing | T_oac_stale

fun oacProvisioningTriggerFor :: "projection_outcome \<Rightarrow> oac_trigger option" where
  "oacProvisioningTriggerFor (PO_not_approved errorCode) =
     (case classifyPinDenial errorCode of
        oac_missing \<Rightarrow> Some T_oac_missing
      | oac_stale \<Rightarrow> Some T_oac_stale
      | _ \<Rightarrow> None)"
| "oacProvisioningTriggerFor _ = None"

section \<open>States and transitions\<close>

datatype flow_state =
  IDLE
| PRECHECK flow_identity
| VOID_REASON_ENTRY flow_identity jsstr jsstr
| MANAGER_SELECT flow_identity jsstr jsstr
| MANAGER_PIN_ENTRY flow_identity jsstr jsstr "jsstr option"
| PROJECTING flow_identity jsstr jsstr
| PROVISIONING_APPROVAL flow_identity jsstr jsstr oac_trigger
| CAPTURED_PENDING_ADJUDICATION flow_identity captured_record
| TERMINAL_SERVER_ACCEPTED flow_identity active_row
| TERMINAL_SERVER_REJECTED flow_identity active_row
| MANUAL_ATTENTION flow_identity active_row
| LOCAL_FAILURE flow_identity local_failure_reason
| LOCAL_UNCERTAIN flow_identity
| RECOVERED_ACTIVE flow_identity "active_row option"

definition initialPrivilegedVoidFlowState :: flow_state where
  "initialPrivilegedVoidFlowState = IDLE"

definition openPrivilegedVoidFlow :: "order_ref \<Rightarrow> (unit \<Rightarrow> jsstr) \<Rightarrow> flow_state" where
  "openPrivilegedVoidFlow ord mintLocalIntentId =
    (if o_targetBranchId ord = [] \<or> o_targetBranchId ord = js ''ALL'' then IDLE
     else if o_targetOrderId ord = [] \<or> o_operatorStaffId ord = [] \<or> o_targetOrderUtc7Date ord = [] then IDLE
     else PRECHECK \<lparr>
       localIntentId = mintLocalIntentId (),
       actionId = o_actionId ord,
       targetOrderId = o_targetOrderId ord,
       targetOrderUtc7Date = o_targetOrderUtc7Date ord,
       targetBranchId = o_targetBranchId ord,
       operatorStaffId = o_operatorStaffId ord,
       managerStaffId = None\<rparr>)"

datatype precheck_source = from_precheck | from_recovered | from_uncertain

fun precheck_source_of :: "flow_state \<Rightarrow> (precheck_source \<times> flow_identity) option" where
  "precheck_source_of (PRECHECK i) = Some (from_precheck, i)"
| "precheck_source_of (RECOVERED_ACTIVE i row) = Some (from_recovered, i)"
| "precheck_source_of (LOCAL_UNCERTAIN i) = Some (from_uncertain, i)"
| "precheck_source_of _ = None"

definition freshFlowFromUncertain :: "flow_identity \<Rightarrow> jsstr \<Rightarrow> flow_state" where
  "freshFlowFromUncertain i freshLocalIntentId =
     VOID_REASON_ENTRY (i\<lparr>localIntentId := freshLocalIntentId, managerStaffId := None\<rparr>) [] []"

definition applyActiveRowPrecheck :: "flow_state \<Rightarrow> precheck_outcome \<Rightarrow> jsstr \<Rightarrow> flow_state" where
  "applyActiveRowPrecheck state outcome freshLocalIntentId =
    (case precheck_source_of state of
       None \<Rightarrow> state
     | Some (src, i) \<Rightarrow>
        (case outcome of
           PC_integrity_fault \<Rightarrow> LOCAL_FAILURE i integrity_conflict
         | PC_clear \<Rightarrow>
             if src = from_uncertain then freshFlowFromUncertain i freshLocalIntentId
             else VOID_REASON_ENTRY i [] []
         | PC_active_open row \<Rightarrow> RECOVERED_ACTIVE i (Some row)
         | PC_terminal_accepted row \<Rightarrow> TERMINAL_SERVER_ACCEPTED i row
         | PC_manual_attention row \<Rightarrow> MANUAL_ATTENTION i row
         | PC_terminal_rejected row \<Rightarrow>
             if src = from_precheck then VOID_REASON_ENTRY i [] []
             else if src = from_uncertain then freshFlowFromUncertain i freshLocalIntentId
             else TERMINAL_SERVER_REJECTED i row))"

fun submitReason :: "flow_state \<Rightarrow> jsstr \<Rightarrow> jsstr \<Rightarrow> flow_state" where
  "submitReason (VOID_REASON_ENTRY i r0 n0) reason note =
     (if trim reason = [] then VOID_REASON_ENTRY i r0 n0
      else MANAGER_SELECT i (trim reason) (trim note))"
| "submitReason state _ _ = state"

datatype expected_status = at_MANAGER_SELECT | at_MANAGER_PIN_ENTRY

record choose_expected =
  x_expectedStatus :: expected_status
  x_expectedLocalIntentId :: jsstr
  x_expectedPriorManagerStaffId :: "jsstr option"

text \<open>The two states \<open>chooseManager\<close> acts in, with what it reads of them.\<close>

fun chooser_of :: "flow_state \<Rightarrow> (expected_status \<times> flow_identity \<times> jsstr \<times> jsstr) option" where
  "chooser_of (MANAGER_SELECT i r n) = Some (at_MANAGER_SELECT, i, r, n)"
| "chooser_of (MANAGER_PIN_ENTRY i r n e) = Some (at_MANAGER_PIN_ENTRY, i, r, n)"
| "chooser_of _ = None"

definition chooseManager ::
  "flow_state \<Rightarrow> jsstr \<Rightarrow> jsstr option \<Rightarrow> choose_expected \<Rightarrow> flow_state" where
  "chooseManager state manager newLocalIntentId expected =
    (if manager = [] then state
     else case chooser_of state of
       None \<Rightarrow> state
     | Some (status, i, reason, note) \<Rightarrow>
        if status \<noteq> x_expectedStatus expected then state
        else if localIntentId i \<noteq> x_expectedLocalIntentId expected then state
        else if managerStaffId i \<noteq> x_expectedPriorManagerStaffId expected then state
        else let isManagerChange = (managerStaffId i \<noteq> None \<and> managerStaffId i \<noteq> Some manager) in
          if status = at_MANAGER_PIN_ENTRY \<and> \<not> isManagerChange then state
          else if isManagerChange \<and> \<not> truthy newLocalIntentId then state
          else MANAGER_PIN_ENTRY
                 (i\<lparr>managerStaffId := Some manager,
                    localIntentId := if isManagerChange then the newLocalIntentId else localIntentId i\<rparr>)
                 reason note None)"

fun backToManagerSelect :: "flow_state \<Rightarrow> flow_state" where
  "backToManagerSelect (MANAGER_PIN_ENTRY i reason note e) = MANAGER_SELECT i reason note"
| "backToManagerSelect state = state"

fun beginProjecting :: "flow_state \<Rightarrow> live_context \<Rightarrow> flow_state" where
  "beginProjecting (MANAGER_PIN_ENTRY i reason note e) live =
     (if \<not> revalidateIdentity i live then LOCAL_FAILURE i stale_context
      else PROJECTING i reason note)"
| "beginProjecting state _ = state"

fun denial_reason :: "denial_class \<Rightarrow> local_failure_reason" where
  "denial_reason locked = denied_locked"
| "denial_reason stale = denied_stale"
| "denial_reason unverifiable = denied_unverifiable"
| "denial_reason staff_session = denied_staff_session"
| "denial_reason oac_missing = denied_oac_missing"
| "denial_reason oac_stale = denied_oac_stale"
| "denial_reason _ = denied_unknown"

fun applyProjectionOutcome :: "flow_state \<Rightarrow> projection_outcome \<Rightarrow> flow_state" where
  "applyProjectionOutcome (PROJECTING i reason note) outcome =
    (case outcome of
       PO_projected r \<Rightarrow> CAPTURED_PENDING_ADJUDICATION i (safeRecordSummary r)
     | PO_already_projected r \<Rightarrow> CAPTURED_PENDING_ADJUDICATION i (safeRecordSummary r)
     | PO_duplicate_target \<Rightarrow> RECOVERED_ACTIVE i None
     | PO_not_approved errorCode \<Rightarrow>
         (let denialClass = classifyPinDenial errorCode in
          if denialClass = retry_same_intent
          then MANAGER_PIN_ENTRY i reason note
                 (Some (case errorCode of None \<Rightarrow> js ''not_approved'' | Some c \<Rightarrow> c))
          else LOCAL_FAILURE i (denial_reason denialClass))
     | PO_unavailable \<Rightarrow> LOCAL_FAILURE i unavailable
     | PO_durable_unavailable \<Rightarrow> LOCAL_FAILURE i durable_unavailable
     | PO_integrity_conflict \<Rightarrow> LOCAL_FAILURE i integrity_conflict
     | PO_uncertain \<Rightarrow> LOCAL_UNCERTAIN i)"
| "applyProjectionOutcome state _ = state"

fun beginOacProvisioning :: "flow_state \<Rightarrow> projection_outcome \<Rightarrow> flow_state" where
  "beginOacProvisioning (PROJECTING i reason note) outcome =
     (case oacProvisioningTriggerFor outcome of
        None \<Rightarrow> PROJECTING i reason note
      | Some trigger \<Rightarrow> PROVISIONING_APPROVAL i reason note trigger)"
| "beginOacProvisioning state _ = state"

fun applyOacProvisioningOutcome :: "flow_state \<Rightarrow> provision_outcome \<Rightarrow> flow_state" where
  "applyOacProvisioningOutcome (PROVISIONING_APPROVAL i reason note trigger) outcome =
    (case outcome of
       PV_provisioned \<Rightarrow> PROJECTING i reason note
     | PV_offline \<Rightarrow>
         LOCAL_FAILURE i (if trigger = T_oac_stale then denied_oac_stale else denied_oac_missing)
     | PV_pin_rejected \<Rightarrow> LOCAL_FAILURE i provisioning_pin_rejected
     | PV_not_eligible \<Rightarrow> LOCAL_FAILURE i provisioning_not_eligible
     | PV_device_not_ready \<Rightarrow> LOCAL_FAILURE i provisioning_device_not_ready
     | PV_uncertain \<Rightarrow> LOCAL_FAILURE i provisioning_uncertain
     | PV_failed \<Rightarrow> LOCAL_FAILURE i provisioning_failed)"
| "applyOacProvisioningOutcome state _ = state"

fun applyPostProvisionProjectionOutcome :: "flow_state \<Rightarrow> projection_outcome \<Rightarrow> flow_state" where
  "applyPostProvisionProjectionOutcome (PROJECTING i reason note) outcome =
    (case outcome of
       PO_not_approved errorCode \<Rightarrow>
         if classifyPinDenial errorCode = retry_same_intent
         then LOCAL_FAILURE i provisioning_verifier_inconsistent
         else applyProjectionOutcome (PROJECTING i reason note) outcome
     | _ \<Rightarrow> applyProjectionOutcome (PROJECTING i reason note) outcome)"
| "applyPostProvisionProjectionOutcome state _ = state"

definition closePrivilegedVoidFlow :: flow_state where
  "closePrivilegedVoidFlow = IDLE"

section \<open>The machine\<close>

text \<open>The calls the hook makes, as events, and the step function over them.\<close>

datatype flow_event =
  EvOpen order_ref jsstr
| EvPrecheck precheck_outcome jsstr
| EvReason jsstr jsstr
| EvChoose jsstr "jsstr option" choose_expected
| EvBack
| EvProject live_context
| EvOutcome projection_outcome
| EvProvision projection_outcome
| EvProvisioned provision_outcome
| EvPostOutcome projection_outcome
| EvClose

fun flow_step :: "flow_state \<Rightarrow> flow_event \<Rightarrow> flow_state" where
  "flow_step s (EvOpen ord fresh) = openPrivilegedVoidFlow ord (\<lambda>_. fresh)"
| "flow_step s (EvPrecheck outcome fresh) = applyActiveRowPrecheck s outcome fresh"
| "flow_step s (EvReason reason note) = submitReason s reason note"
| "flow_step s (EvChoose manager new expected) = chooseManager s manager new expected"
| "flow_step s EvBack = backToManagerSelect s"
| "flow_step s (EvProject live) = beginProjecting s live"
| "flow_step s (EvOutcome outcome) = applyProjectionOutcome s outcome"
| "flow_step s (EvProvision outcome) = beginOacProvisioning s outcome"
| "flow_step s (EvProvisioned outcome) = applyOacProvisioningOutcome s outcome"
| "flow_step s (EvPostOutcome outcome) = applyPostProvisionProjectionOutcome s outcome"
| "flow_step s EvClose = closePrivilegedVoidFlow"

fun identity_of :: "flow_state \<Rightarrow> flow_identity option" where
  "identity_of IDLE = None"
| "identity_of (PRECHECK i) = Some i"
| "identity_of (VOID_REASON_ENTRY i _ _) = Some i"
| "identity_of (MANAGER_SELECT i _ _) = Some i"
| "identity_of (MANAGER_PIN_ENTRY i _ _ _) = Some i"
| "identity_of (PROJECTING i _ _) = Some i"
| "identity_of (PROVISIONING_APPROVAL i _ _ _) = Some i"
| "identity_of (CAPTURED_PENDING_ADJUDICATION i _) = Some i"
| "identity_of (TERMINAL_SERVER_ACCEPTED i _) = Some i"
| "identity_of (TERMINAL_SERVER_REJECTED i _) = Some i"
| "identity_of (MANUAL_ATTENTION i _) = Some i"
| "identity_of (LOCAL_FAILURE i _) = Some i"
| "identity_of (LOCAL_UNCERTAIN i) = Some i"
| "identity_of (RECOVERED_ACTIVE i _) = Some i"

text \<open>The definitions a transition proof unfolds, and the splits it needs.\<close>

lemmas flow_defs =
  openPrivilegedVoidFlow_def applyActiveRowPrecheck_def freshFlowFromUncertain_def
  chooseManager_def closePrivilegedVoidFlow_def Let_def

lemmas flow_splits =
  if_splits option.splits precheck_outcome.splits projection_outcome.splits
  provision_outcome.splits denial_class.splits

text \<open>What the precheck and the chooser do to a state, as case rules.\<close>

lemma precheck_source_Some:
  "precheck_source_of s = Some (src, i) \<Longrightarrow> identity_of s = Some i"
  by (cases s) auto

lemma chooser_Some:
  "chooser_of s = Some (st, i, r, n) \<Longrightarrow>
   (st = at_MANAGER_SELECT \<and> s = MANAGER_SELECT i r n)
   \<or> (st = at_MANAGER_PIN_ENTRY \<and> (\<exists>e. s = MANAGER_PIN_ENTRY i r n e))"
  by (cases s) auto

section \<open>Well-formed flows\<close>

definition wf_identity :: "flow_identity \<Rightarrow> bool" where
  "wf_identity i \<longleftrightarrow>
     targetBranchId i \<noteq> [] \<and> targetBranchId i \<noteq> js ''ALL'' \<and> targetOrderId i \<noteq> []
     \<and> targetOrderUtc7Date i \<noteq> [] \<and> operatorStaffId i \<noteq> [] \<and> managerStaffId i \<noteq> Some []"

definition wf_reason :: "jsstr \<Rightarrow> bool" where
  "wf_reason r \<longleftrightarrow> r \<noteq> [] \<and> trim r = r"

fun flow_inv :: "flow_state \<Rightarrow> bool" where
  "flow_inv (MANAGER_SELECT i r n) \<longleftrightarrow> wf_identity i \<and> wf_reason r"
| "flow_inv (MANAGER_PIN_ENTRY i r n e) \<longleftrightarrow> wf_identity i \<and> wf_reason r \<and> managerStaffId i \<noteq> None"
| "flow_inv (PROJECTING i r n) \<longleftrightarrow> wf_identity i \<and> wf_reason r \<and> managerStaffId i \<noteq> None"
| "flow_inv (PROVISIONING_APPROVAL i r n t) \<longleftrightarrow> wf_identity i \<and> wf_reason r \<and> managerStaffId i \<noteq> None"
| "flow_inv (CAPTURED_PENDING_ADJUDICATION i c) \<longleftrightarrow> wf_identity i \<and> managerStaffId i \<noteq> None"
| "flow_inv s \<longleftrightarrow> (\<forall>i. identity_of s = Some i \<longrightarrow> wf_identity i)"

lemma flow_inv_identity: "flow_inv s \<Longrightarrow> identity_of s = Some i \<Longrightarrow> wf_identity i"
  by (cases s) auto

lemma wf_identity_manager:
  "wf_identity (i\<lparr>managerStaffId := m, localIntentId := l\<rparr>) \<longleftrightarrow>
     wf_identity (i\<lparr>managerStaffId := None\<rparr>) \<and> m \<noteq> Some []"
  by (auto simp: wf_identity_def)

lemma flow_inv_open: "flow_inv (openPrivilegedVoidFlow ord mint)"
  by (simp add: openPrivilegedVoidFlow_def wf_identity_def)

lemma flow_inv_precheck:
  assumes "flow_inv s" shows "flow_inv (applyActiveRowPrecheck s outcome fresh)"
proof (cases "precheck_source_of s")
  case (Some p)
  obtain src i where p: "p = (src, i)" by (cases p)
  with Some assms have "wf_identity i"
    using precheck_source_Some flow_inv_identity by blast
  then show ?thesis
    using Some p
    by (auto simp: applyActiveRowPrecheck_def freshFlowFromUncertain_def wf_identity_def
        split: precheck_outcome.splits)
qed (use assms in \<open>simp add: applyActiveRowPrecheck_def\<close>)

lemma flow_inv_reason: "flow_inv s \<Longrightarrow> flow_inv (submitReason s reason note)"
  by (cases s) (auto simp: wf_reason_def trim_idem)

lemma chooseManager_cases [case_names same chosen]:
  obtains "chooseManager s m new x = s"
  | st i r n where "chooser_of s = Some (st, i, r, n)" "m \<noteq> []"
      "localIntentId i = x_expectedLocalIntentId x" "managerStaffId i = x_expectedPriorManagerStaffId x"
      "st = x_expectedStatus x"
      "managerStaffId i \<noteq> None \<and> managerStaffId i \<noteq> Some m \<longrightarrow> truthy new"
      "chooseManager s m new x = MANAGER_PIN_ENTRY
         (i\<lparr>managerStaffId := Some m, localIntentId :=
             if managerStaffId i \<noteq> None \<and> managerStaffId i \<noteq> Some m then the new else localIntentId i\<rparr>) r n None"
proof (cases "chooseManager s m new x = s")
  case changed: False
  then obtain st i r n where ch: "chooser_of s = Some (st, i, r, n)"
    by (cases "chooser_of s") (auto simp: chooseManager_def split: if_splits)
  let ?change = "managerStaffId i \<noteq> None \<and> managerStaffId i \<noteq> Some m"
  have g: "m \<noteq> []" "st = x_expectedStatus x" "localIntentId i = x_expectedLocalIntentId x"
      "managerStaffId i = x_expectedPriorManagerStaffId x"
    and c: "?change \<longrightarrow> truthy new" and p: "st = at_MANAGER_PIN_ENTRY \<Longrightarrow> ?change"
    using changed ch by (auto simp: chooseManager_def Let_def split: if_splits)
  have res: "chooseManager s m new x = MANAGER_PIN_ENTRY
      (i\<lparr>managerStaffId := Some m, localIntentId := if ?change then the new else localIntentId i\<rparr>) r n None"
  proof (cases ?change)
    case True
    with g c ch show ?thesis by (simp add: chooseManager_def Let_def)
  next
    case False
    with p have "st \<noteq> at_MANAGER_PIN_ENTRY" by blast
    with False g ch show ?thesis by (auto simp: chooseManager_def Let_def)
  qed
  show ?thesis by (rule that(2) [OF ch g(1) g(3) g(4) g(2) c res])
qed (rule that(1))

lemma flow_inv_choose:
  assumes "flow_inv s" shows "flow_inv (chooseManager s m new x)"
proof (cases rule: chooseManager_cases [of s m new x])
  case (chosen st i r n)
  then have "wf_identity i \<and> wf_reason r" using assms chooser_Some by fastforce
  then show ?thesis using chosen by (simp add: wf_identity_def)
qed (use assms in simp)

lemma flow_inv_back: "flow_inv s \<Longrightarrow> flow_inv (backToManagerSelect s)"
  by (cases s) auto

lemma flow_inv_project: "flow_inv s \<Longrightarrow> flow_inv (beginProjecting s live)"
  by (cases s) auto

lemma flow_inv_outcome: "flow_inv s \<Longrightarrow> flow_inv (applyProjectionOutcome s outcome)"
  by (cases s) (auto simp: Let_def split: projection_outcome.split)

lemma flow_inv_provision: "flow_inv s \<Longrightarrow> flow_inv (beginOacProvisioning s outcome)"
  by (cases s) (auto split: option.split)

lemma flow_inv_provisioned: "flow_inv s \<Longrightarrow> flow_inv (applyOacProvisioningOutcome s pv)"
  by (cases s) (auto split: provision_outcome.split)

lemma flow_inv_post: "flow_inv s \<Longrightarrow> flow_inv (applyPostProvisionProjectionOutcome s outcome)"
  by (cases s) (auto simp: Let_def split: projection_outcome.split)

lemmas flow_inv_ops =
  flow_inv_open flow_inv_precheck flow_inv_reason flow_inv_choose flow_inv_back flow_inv_project
  flow_inv_outcome flow_inv_provision flow_inv_provisioned flow_inv_post

interpretation flow: invariant_machine flow_step flow_inv
proof
  show "flow_inv (flow_step s e)" if "flow_inv s" for s e
    using that by (cases e) (auto intro: flow_inv_ops simp: closePrivilegedVoidFlow_def)
qed

section \<open>The target never changes inside a flow\<close>

definition target_of :: "flow_identity \<Rightarrow> action_id \<times> jsstr \<times> jsstr \<times> jsstr \<times> jsstr" where
  "target_of i = (actionId i, targetOrderId i, targetOrderUtc7Date i, targetBranchId i, operatorStaffId i)"

fun opens_or_closes :: "flow_event \<Rightarrow> bool" where
  "opens_or_closes (EvOpen _ _) = True"
| "opens_or_closes EvClose = True"
| "opens_or_closes _ = False"

lemma target_of_update [simp]:
  "target_of (i\<lparr>localIntentId := l\<rparr>) = target_of i"
  "target_of (i\<lparr>managerStaffId := m\<rparr>) = target_of i"
  by (simp_all add: target_of_def)

definition same_flow :: "flow_state \<Rightarrow> flow_state \<Rightarrow> bool" where
  "same_flow s t \<longleftrightarrow> map_option target_of (identity_of t) = map_option target_of (identity_of s)"

lemma same_flow_refl [simp]: "same_flow s s"
  by (simp add: same_flow_def)

lemma same_flow_precheck: "same_flow s (applyActiveRowPrecheck s outcome fresh)"
proof (cases "precheck_source_of s")
  case (Some p)
  obtain src i where "p = (src, i)" by (cases p)
  then show ?thesis
    using Some precheck_source_Some [of s src i]
    by (auto simp: applyActiveRowPrecheck_def freshFlowFromUncertain_def same_flow_def
        split: precheck_outcome.splits)
qed (simp add: applyActiveRowPrecheck_def)

lemma same_flow_choose: "same_flow s (chooseManager s m new x)"
proof (cases rule: chooseManager_cases [of s m new x])
  case (chosen st i r n)
  then have "identity_of s = Some i" using chooser_Some by fastforce
  then show ?thesis using chosen by (simp add: same_flow_def)
qed simp

lemma same_flow_ops:
  "same_flow s (submitReason s reason note)"
  "same_flow s (backToManagerSelect s)"
  "same_flow s (beginProjecting s live)"
  "same_flow s (applyProjectionOutcome s outcome)"
  "same_flow s (beginOacProvisioning s outcome)"
  "same_flow s (applyOacProvisioningOutcome s pv)"
  "same_flow s (applyPostProvisionProjectionOutcome s outcome)"
  by (cases s;
      auto simp: same_flow_def Let_def split: option.split projection_outcome.split provision_outcome.split)+

lemma same_flow_step: "\<not> opens_or_closes e \<Longrightarrow> same_flow s (flow_step s e)"
  by (cases e) (auto intro: same_flow_ops same_flow_precheck same_flow_choose)

lemma same_flow_run: "\<forall>e \<in> set es. \<not> opens_or_closes e \<Longrightarrow> same_flow s (run flow_step s es)"
proof (induction es arbitrary: s)
  case (Cons e es)
  then have "same_flow s (flow_step s e)" and "same_flow (flow_step s e) (run flow_step (flow_step s e) es)"
    by (auto intro: same_flow_step)
  then show ?case by (simp add: same_flow_def)
qed simp

text \<open>A flow never retargets: from the moment a flow is open, no sequence of prechecks,
  reasons, manager picks, projections or provisioning outcomes changes the action, order,
  order date, branch or operator it was opened for; only closing or reopening does.\<close>

theorem flow_never_retargets:
  assumes "identity_of s = Some i" and "\<forall>e \<in> set es. \<not> opens_or_closes e"
  shows "\<exists>j. identity_of (run flow_step s es) = Some j \<and> target_of j = target_of i"
  using same_flow_run [OF assms(2), of s] assms(1) by (auto simp: same_flow_def)

section \<open>One manager per intent id\<close>

text \<open>The ids a step may put into the state, and the pair a state binds.\<close>

fun minted :: "flow_event \<Rightarrow> jsstr list" where
  "minted (EvOpen _ fresh) = [fresh]"
| "minted (EvPrecheck _ fresh) = [fresh]"
| "minted (EvChoose _ (Some new) _) = [new]"
| "minted _ = []"

definition binding :: "flow_state \<Rightarrow> (jsstr \<times> jsstr) option" where
  "binding s = (case identity_of s of None \<Rightarrow> None
     | Some i \<Rightarrow> map_option (Pair (localIntentId i)) (managerStaffId i))"

definition pairing :: "(jsstr \<times> jsstr) set \<Rightarrow> jsstr set \<Rightarrow> flow_state \<Rightarrow> bool" where
  "pairing H U s \<longleftrightarrow>
     (\<forall>l m m'. (l, m) \<in> H \<longrightarrow> (l, m') \<in> H \<longrightarrow> m = m') \<and> fst ` H \<subseteq> U \<and>
     (\<forall>i. identity_of s = Some i \<longrightarrow> localIntentId i \<in> U \<and>
        (case managerStaffId i of None \<Rightarrow> localIntentId i \<notin> fst ` H | Some m \<Rightarrow> (localIntentId i, m) \<in> H))"

lemma pairing_same:
  "pairing H U s \<Longrightarrow> identity_of t = identity_of s \<Longrightarrow> U \<subseteq> U' \<Longrightarrow> pairing H U' t"
  unfolding pairing_def
  by (cases "identity_of s"; cases "managerStaffId (the (identity_of s))") auto

lemma pairing_unbound:
  assumes "pairing H U s" and "identity_of t = Some j" and "managerStaffId j = None"
    and "localIntentId j \<notin> U"
  shows "pairing H (insert (localIntentId j) U) t"
  using assms unfolding pairing_def by auto

lemma pairing_bound:
  assumes "pairing H U s" and "identity_of t = Some j" and "managerStaffId j = Some m"
    and "localIntentId j \<notin> fst ` H \<or> (localIntentId j, m) \<in> H"
    and "insert (localIntentId j) U \<subseteq> U'"
  shows "pairing (insert (localIntentId j, m) H) U' t"
  using assms unfolding pairing_def by (auto simp: image_iff)

text \<open>Every step but the three that mint keeps the identity or drops it.\<close>

lemma identity_kept:
  "identity_of (submitReason s reason note) = identity_of s"
  "identity_of (backToManagerSelect s) = identity_of s"
  "identity_of (beginProjecting s live) = identity_of s"
  "identity_of (applyProjectionOutcome s outcome) = identity_of s"
  "identity_of (beginOacProvisioning s outcome) = identity_of s"
  "identity_of (applyOacProvisioningOutcome s pv) = identity_of s"
  "identity_of (applyPostProvisionProjectionOutcome s outcome) = identity_of s"
  by (cases s; auto simp: Let_def split: option.split projection_outcome.split provision_outcome.split)+

lemma identity_precheck:
  "identity_of (applyActiveRowPrecheck s outcome fresh) = identity_of s \<or>
   (\<exists>j. identity_of (applyActiveRowPrecheck s outcome fresh) = Some j
      \<and> localIntentId j = fresh \<and> managerStaffId j = None)"
proof (cases "precheck_source_of s")
  case (Some p)
  obtain src i where "p = (src, i)" by (cases p)
  then show ?thesis
    using Some precheck_source_Some [of s src i]
    by (auto simp: applyActiveRowPrecheck_def freshFlowFromUncertain_def split: precheck_outcome.splits)
qed (simp add: applyActiveRowPrecheck_def)

lemma pairing_choose:
  assumes P: "pairing H U s" and fresh: "set (minted (EvChoose m new x)) \<inter> U = {}"
  shows "\<exists>H'. H \<subseteq> H' \<and> pairing H' (U \<union> set (minted (EvChoose m new x))) (chooseManager s m new x)"
proof (cases rule: chooseManager_cases [of s m new x])
  case same
  then show ?thesis using pairing_same [OF P refl, of "U \<union> set (minted (EvChoose m new x))"] by auto
next
  case (chosen st i r n)
  have id: "identity_of s = Some i" using chosen chooser_Some by fastforce
  let ?t = "chooseManager s m new x" and ?U = "U \<union> set (minted (EvChoose m new x))"
  obtain j where j: "identity_of ?t = Some j" "managerStaffId j = Some m"
    and l: "localIntentId j = (if managerStaffId i \<noteq> None \<and> managerStaffId i \<noteq> Some m then the new else localIntentId i)"
    using chosen by simp
  have "localIntentId j \<notin> fst ` H \<or> (localIntentId j, m) \<in> H"
  proof (cases "managerStaffId i \<noteq> None \<and> managerStaffId i \<noteq> Some m")
    case True
    then obtain k where "new = Some k" using chosen truthy_Some_iff by blast
    then show ?thesis using True l fresh P by (auto simp: pairing_def)
  next
    case False
    then show ?thesis using l id P by (auto simp: pairing_def split: option.splits)
  qed
  moreover have "insert (localIntentId j) U \<subseteq> ?U"
  proof (cases "managerStaffId i \<noteq> None \<and> managerStaffId i \<noteq> Some m")
    case True
    then obtain k where "new = Some k" using chosen truthy_Some_iff by blast
    then show ?thesis using True l by auto
  next
    case False
    then show ?thesis using l id P by (auto simp: pairing_def)
  qed
  ultimately have "pairing (insert (localIntentId j, m) H) ?U ?t"
    using pairing_bound [OF P j] by blast
  then show ?thesis by blast
qed

lemma pairing_step:
  assumes P: "pairing H U s" and fresh: "set (minted e) \<inter> U = {}"
  shows "\<exists>H'. H \<subseteq> H' \<and> pairing H' (U \<union> set (minted e)) (flow_step s e)"
proof (cases e)
  case (EvOpen ord l)
  show ?thesis
  proof (cases "identity_of (flow_step s e)")
    case None
    then show ?thesis using P EvOpen by (intro exI [of _ H]) (auto simp: pairing_def)
  next
    case (Some j)
    then have "managerStaffId j = None" "localIntentId j = l"
      using EvOpen by (auto simp: openPrivilegedVoidFlow_def split: if_splits)
    then show ?thesis using pairing_unbound [OF P Some] fresh EvOpen by (intro exI [of _ H]) auto
  qed
next
  case (EvPrecheck outcome l)
  show ?thesis
    using identity_precheck [of s outcome l]
  proof
    assume "identity_of (applyActiveRowPrecheck s outcome l) = identity_of s"
    from pairing_same [OF P this, of "insert l U"] show ?thesis
      using EvPrecheck by (intro exI [of _ H]) auto
  next
    assume "\<exists>j. identity_of (applyActiveRowPrecheck s outcome l) = Some j
      \<and> localIntentId j = l \<and> managerStaffId j = None"
    then show ?thesis using pairing_unbound [OF P] fresh EvPrecheck by (intro exI [of _ H]) auto
  qed
next
  case (EvChoose m new x)
  then show ?thesis using pairing_choose [OF P] fresh by simp
next
  case EvClose
  then show ?thesis using P by (intro exI [of _ H]) (auto simp: pairing_def closePrivilegedVoidFlow_def)
qed (use pairing_same [OF P] in \<open>intro exI [of _ H]; simp add: identity_kept\<close>)+

lemma pairing_binding: "pairing H U s \<Longrightarrow> binding s = Some p \<Longrightarrow> p \<in> H"
  by (auto simp: pairing_def binding_def split: option.splits)

lemma pairing_trace:
  assumes "pairing H U s" and "distinct (concat (map minted es))"
    and "set (concat (map minted es)) \<inter> U = {}"
  shows "\<exists>H'. H \<subseteq> H' \<and> (\<forall>l m m'. (l, m) \<in> H' \<longrightarrow> (l, m') \<in> H' \<longrightarrow> m = m')
     \<and> (\<forall>t \<in> set (trace flow_step s es). \<forall>p. binding t = Some p \<longrightarrow> p \<in> H')"
  using assms
proof (induction es arbitrary: H U s)
  case Nil
  then show ?case using pairing_binding [OF Nil.prems(1)]
    by (intro exI [of _ H]) (auto simp: pairing_def)
next
  case (Cons e es)
  have "set (minted e) \<inter> U = {}" using Cons.prems(3) by auto
  then obtain H1 where H1: "H \<subseteq> H1" "pairing H1 (U \<union> set (minted e)) (flow_step s e)"
    using pairing_step [OF Cons.prems(1)] by blast
  have "distinct (concat (map minted es))"
    and "set (concat (map minted es)) \<inter> (U \<union> set (minted e)) = {}"
    using Cons.prems(2,3) by auto
  from Cons.IH [OF H1(2) this] obtain H' where
    "H1 \<subseteq> H'" "\<forall>l m m'. (l, m) \<in> H' \<longrightarrow> (l, m') \<in> H' \<longrightarrow> m = m'"
    "\<forall>t \<in> set (trace flow_step (flow_step s e) es). \<forall>p. binding t = Some p \<longrightarrow> p \<in> H'"
    by blast
  then show ?case using H1(1) pairing_binding [OF Cons.prems(1)]
    by (intro exI [of _ H']) auto
qed

text \<open>C9. An intent id never changes manager: in every run from the idle state whose
  minted ids are distinct, two visited states that carry the same intent id and are both
  bound to a manager are bound to the same manager. This includes the path PIN entry for A,
  back, pick B, and stale callbacks that arrive late.\<close>

theorem intent_binds_one_manager:
  assumes "distinct (concat (map minted es))"
    and "s \<in> set (trace flow_step initialPrivilegedVoidFlowState es)"
    and "t \<in> set (trace flow_step initialPrivilegedVoidFlowState es)"
    and "binding s = Some (l, m)" and "binding t = Some (l, m')"
  shows "m = m'"
proof -
  have "pairing {} {} initialPrivilegedVoidFlowState"
    by (simp add: pairing_def initialPrivilegedVoidFlowState_def)
  from pairing_trace [OF this assms(1)] obtain H where
    H: "\<forall>l m m'. (l, m) \<in> H \<longrightarrow> (l, m') \<in> H \<longrightarrow> m = m'"
    and B: "\<forall>t \<in> set (trace flow_step initialPrivilegedVoidFlowState es). \<forall>p. binding t = Some p \<longrightarrow> p \<in> H"
    by blast
  from B assms(2-5) have "(l, m) \<in> H" and "(l, m') \<in> H" by blast+
  with H show ?thesis by blast
qed

section \<open>Capture, denial and provisioning\<close>







definition stages :: "(flow_event \<Rightarrow> bool) list \<Rightarrow> flow_event list \<Rightarrow> bool" where
  "stages Ps es \<longleftrightarrow> (\<exists>xs. subseq xs es \<and> list_all2 (\<lambda>P x. P x) Ps xs)"

lemma stages_Nil [simp]: "stages [] es"
  by (auto simp: stages_def)























text \<open>The projection gate, exactly: from PIN entry the flow enters projection if and only
  if the live session is active, the live branch is a concrete branch equal to the target
  branch and to the selected order's branch, and operator, order, action, manager binding and
  eligibility all agree; in every other case it fails locally with \<open>stale_context\<close> and keeps
  the captured identity.\<close>

theorem projection_gate:
  "beginProjecting (MANAGER_PIN_ENTRY i reason note e) live =
    (if l_authSessionActive live \<and> l_branchId live = Some (targetBranchId i)
        \<and> targetBranchId i \<noteq> [] \<and> targetBranchId i \<noteq> js ''ALL''
        \<and> l_operatorStaffId live = Some (operatorStaffId i) \<and> operatorStaffId i \<noteq> []
        \<and> l_selectedOrderId live = Some (targetOrderId i) \<and> targetOrderId i \<noteq> []
        \<and> l_selectedOrderBranchId live = Some (targetBranchId i)
        \<and> l_expectedActionId live = Some (actionId i)
        \<and> truthy (managerStaffId i) \<and> l_currentVoidEligible live
     then PROJECTING i reason note else LOCAL_FAILURE i stale_context)"
  by (auto simp: revalidateIdentity_def truthy_Some_iff)

text \<open>A wrong PIN is the only retryable denial: a projection outcome returns to PIN entry
  exactly when it is a denial with code \<open>DENIED_INVALID_PIN\<close>, and then identity (intent id and
  manager included), reason and note are the ones that were projecting.\<close>

theorem only_wrong_pin_reprompts:
  "applyProjectionOutcome (PROJECTING i reason note) outcome = MANAGER_PIN_ENTRY j r n e \<longleftrightarrow>
     outcome = PO_not_approved (Some (js ''DENIED_INVALID_PIN'')) \<and> j = i \<and> r = reason \<and> n = note
     \<and> e = Some (js ''DENIED_INVALID_PIN'')"
  by (cases outcome) (auto simp: classifyPinDenial_def Let_def)

lemma trigger_iff:
  "oacProvisioningTriggerFor outcome = Some t \<longleftrightarrow>
     (t = T_oac_missing \<and> outcome = PO_not_approved (Some (js ''DENIED_OAC_MISSING'')))
     \<or> (t = T_oac_stale \<and> outcome = PO_not_approved (Some (js ''DENIED_OAC_STALE'')))"
  by (cases outcome; cases t) (auto simp: classifyPinDenial_def)

text \<open>Just-in-time provisioning happens at most once per submit: it starts only on a
  missing or stale credential denial, and whatever the provisioning and the one automatic
  re-attestation return, the episode ends outside PIN entry, projection and provisioning.\<close>

theorem provisioning_episode_final:
  assumes "beginOacProvisioning (PROJECTING i reason note) first \<noteq> PROJECTING i reason note"
  shows "first \<in> {PO_not_approved (Some (js ''DENIED_OAC_MISSING'')), PO_not_approved (Some (js ''DENIED_OAC_STALE''))}
    \<and> (case applyPostProvisionProjectionOutcome
          (applyOacProvisioningOutcome (beginOacProvisioning (PROJECTING i reason note) first) pv) second of
        CAPTURED_PENDING_ADJUDICATION j r \<Rightarrow> j = i \<and> pv = PV_provisioned
      | RECOVERED_ACTIVE j row \<Rightarrow> j = i \<and> row = None
      | LOCAL_FAILURE j why \<Rightarrow> j = i
      | LOCAL_UNCERTAIN j \<Rightarrow> j = i
      | _ \<Rightarrow> False)"
proof -
  obtain t where t: "oacProvisioningTriggerFor first = Some t"
    using assms by (auto split: option.splits)
  then have b: "beginOacProvisioning (PROJECTING i reason note) first = PROVISIONING_APPROVAL i reason note t"
    by simp
  show ?thesis
    unfolding b using t
    by (cases pv; cases second) (auto simp: trigger_iff Let_def)
qed

section \<open>The precheck\<close>

lemma find_target:
  "find (\<lambda>r. r_targetOrderId r = target) (map toSafeSummary rows) =
     map_option toSafeSummary (find (\<lambda>r. e_targetOrderId r = target) rows)"
  by (induction rows) (auto simp: toSafeSummary_def)

lemma find_unique:
  "distinct (map f rows) \<Longrightarrow> find (\<lambda>r. f r = t) rows = Some r \<longleftrightarrow> r \<in> set rows \<and> f r = t"
  by (induction rows) (auto simp: image_iff)

lemma precheck_row:
  "precheckActiveRowForTarget (Some (rows, 0)) target =
     (case find (\<lambda>r. e_targetOrderId r = target) rows of None \<Rightarrow> PC_clear
      | Some r \<Rightarrow> (case e_syncStatus r of
           PRIVILEGED_INTENT_QUEUED \<Rightarrow> PC_active_open (toSafeSummary r)
         | SYNCING \<Rightarrow> PC_active_open (toSafeSummary r)
         | SERVER_ACCEPTED \<Rightarrow> PC_terminal_accepted (toSafeSummary r)
         | ROW_MANUAL_ATTENTION \<Rightarrow> PC_manual_attention (toSafeSummary r)
         | SERVER_REJECTED \<Rightarrow> PC_terminal_rejected (toSafeSummary r)))"
  unfolding precheckActiveRowForTarget_def listActiveRowSummariesForBranch_def
  by (simp add: find_target toSafeSummary_def split: option.split d2_sync_status.split)

lemma precheck_offers_iff:
  "applyActiveRowPrecheck (PRECHECK i) (precheckActiveRowForTarget (Some (rows, 0)) target) fresh
      = VOID_REASON_ENTRY i [] [] \<longleftrightarrow>
   (\<forall>r. find (\<lambda>r. e_targetOrderId r = target) rows = Some r \<longrightarrow> \<not> isBlockingActiveRowStatus (e_syncStatus r))"
  unfolding precheck_row
  by (auto simp: applyActiveRowPrecheck_def isBlockingActiveRowStatus_def
      split: option.split d2_sync_status.split)

text \<open>The precheck fails the whole branch closed and, when no target has two rows,
  answers for the target's row: a read error or any unreadable row is an integrity fault, and
  otherwise the flow is offered the approval controls exactly when the target has no row in
  one of the four blocking statuses.\<close>

theorem precheck_fail_closed:
  assumes "distinct (map e_targetOrderId rows)"
  shows "precheckActiveRowForTarget None target = PC_integrity_fault
    \<and> precheckActiveRowForTarget (Some (rows, Suc n)) target = PC_integrity_fault
    \<and> (applyActiveRowPrecheck (PRECHECK i) (precheckActiveRowForTarget (Some (rows, 0)) target) fresh
          = VOID_REASON_ENTRY i [] [] \<longleftrightarrow>
        (\<forall>r \<in> set rows. e_targetOrderId r = target \<longrightarrow> \<not> isBlockingActiveRowStatus (e_syncStatus r)))"
  using precheck_offers_iff [of i rows target fresh] find_unique [OF assms]
  by (auto simp: precheckActiveRowForTarget_def listActiveRowSummariesForBranch_def)

text \<open>With two rows for one target the precheck looks at the first only: a rejected row
  that enumerates before a queued one hides it, so a fresh flow is offered the approval
  controls although the target is blocked, and a flow that is reconciling the open row is
  shown the old rejection. Rejected rows never block a fresh attempt, so the two rows can
  coexist, and the enumeration order is that of the random row keys.\<close>

theorem precheck_rejected_row_hides_open_row:
  "\<exists>rows. (\<exists>r \<in> set rows. e_targetOrderId r = target \<and> isBlockingActiveRowStatus (e_syncStatus r))
     \<and> applyActiveRowPrecheck (PRECHECK i) (precheckActiveRowForTarget (Some (rows, 0)) target) fresh
         = VOID_REASON_ENTRY i [] []
     \<and> (\<exists>row. applyActiveRowPrecheck (RECOVERED_ACTIVE i None)
             (precheckActiveRowForTarget (Some (rows, 0)) target) fresh = TERMINAL_SERVER_REJECTED i row)"
proof -
  define old where "old = \<lparr>e_adjudicationId = js ''00'', e_localIntentId = js ''a'',
    e_actionId = VOID_SETTLED_SALE, e_targetOrderId = target, e_targetOrderUtc7Date = js ''2026-05-01'',
    e_branchId = js ''B1'', e_approvingManagerStaffId = js ''m1'', e_syncStatus = SERVER_REJECTED,
    e_manualReviewStatus = NOT_REQUIRED, e_serverVerdict = Some REJECTED, e_createdAtMs = 1, e_updatedAtMs = 2\<rparr>"
  define new where "new = old\<lparr>e_adjudicationId := js ''ff'', e_localIntentId := js ''b'',
    e_syncStatus := PRIVILEGED_INTENT_QUEUED, e_serverVerdict := None\<rparr>"
  show ?thesis
    by (rule exI [of _ "[old, new]"])
      (simp add: precheck_row old_def new_def applyActiveRowPrecheck_def isBlockingActiveRowStatus_def)
qed

section \<open>A concrete flow\<close>

definition demo_order :: order_ref where
  "demo_order = \<lparr>o_actionId = VOID_SETTLED_SALE, o_targetOrderId = js ''order-1'',
     o_targetOrderUtc7Date = js ''2026-05-01'', o_targetBranchId = js ''LDP-001'',
     o_operatorStaffId = js ''staff-1''\<rparr>"

definition demo_identity :: "jsstr option \<Rightarrow> flow_identity" where
  "demo_identity m = \<lparr>localIntentId = js ''i1'', actionId = VOID_SETTLED_SALE,
     targetOrderId = js ''order-1'', targetOrderUtc7Date = js ''2026-05-01'',
     targetBranchId = js ''LDP-001'', operatorStaffId = js ''staff-1'', managerStaffId = m\<rparr>"

definition demo_live :: live_context where
  "demo_live = \<lparr>l_branchId = Some (js ''LDP-001''), l_operatorStaffId = Some (js ''staff-1''),
     l_authSessionActive = True, l_selectedOrderId = Some (js ''order-1''),
     l_selectedOrderBranchId = Some (js ''LDP-001''), l_expectedActionId = Some VOID_SETTLED_SALE,
     l_currentVoidEligible = True\<rparr>"

definition demo_row :: evidence_row where
  "demo_row = \<lparr>e_adjudicationId = js ''00'', e_localIntentId = js ''i1'',
    e_actionId = VOID_SETTLED_SALE, e_targetOrderId = js ''order-1'',
    e_targetOrderUtc7Date = js ''2026-05-01'', e_branchId = js ''LDP-001'',
    e_approvingManagerStaffId = js ''manager-1'', e_syncStatus = PRIVILEGED_INTENT_QUEUED,
    e_manualReviewStatus = NOT_REQUIRED, e_serverVerdict = None, e_createdAtMs = 1, e_updatedAtMs = 1\<rparr>"

lemma trim_js_x: "trim (js ''x'') = js ''x''"
  by (simp add: trim_js is_ws_def)

definition demo_manager :: jsstr where
  "demo_manager = js ''manager-1''"

definition demo_pick :: flow_event where
  "demo_pick = EvChoose demo_manager None \<lparr>x_expectedStatus = at_MANAGER_SELECT,
     x_expectedLocalIntentId = js ''i1'', x_expectedPriorManagerStaffId = None\<rparr>"

definition demo_events :: "flow_event list" where
  "demo_events = [EvOpen demo_order (js ''i1''), EvPrecheck PC_clear (js ''i2''), EvReason (js ''x'') [],
     demo_pick, EvProject demo_live, EvOutcome (PO_projected demo_row)]"

lemma demo_steps:
  "flow_step IDLE (EvOpen demo_order (js ''i1'')) = PRECHECK (demo_identity None)"
  "flow_step (PRECHECK (demo_identity None)) (EvPrecheck PC_clear (js ''i2''))
     = VOID_REASON_ENTRY (demo_identity None) [] []"
  "flow_step (VOID_REASON_ENTRY (demo_identity None) [] []) (EvReason (js ''x'') [])
     = MANAGER_SELECT (demo_identity None) (js ''x'') []"
  "flow_step (MANAGER_SELECT (demo_identity None) (js ''x'') []) demo_pick
     = MANAGER_PIN_ENTRY (demo_identity (Some demo_manager)) (js ''x'') [] None"
  "flow_step (MANAGER_PIN_ENTRY (demo_identity (Some demo_manager)) (js ''x'') [] None) (EvProject demo_live)
     = PROJECTING (demo_identity (Some demo_manager)) (js ''x'') []"
  "flow_step (PROJECTING (demo_identity (Some demo_manager)) (js ''x'') []) (EvOutcome (PO_projected demo_row))
     = CAPTURED_PENDING_ADJUDICATION (demo_identity (Some demo_manager)) (safeRecordSummary demo_row)"
  by (simp_all add: demo_order_def demo_identity_def demo_live_def demo_manager_def demo_pick_def
      openPrivilegedVoidFlow_def applyActiveRowPrecheck_def
      chooseManager_def revalidateIdentity_def trim_js_x)

lemma demo_trace:
  "trace flow_step initialPrivilegedVoidFlowState demo_events =
    [IDLE, PRECHECK (demo_identity None), VOID_REASON_ENTRY (demo_identity None) [] [],
     MANAGER_SELECT (demo_identity None) (js ''x'') [],
     MANAGER_PIN_ENTRY (demo_identity (Some demo_manager)) (js ''x'') [] None,
     PROJECTING (demo_identity (Some demo_manager)) (js ''x'') [],
     CAPTURED_PENDING_ADJUDICATION (demo_identity (Some demo_manager)) (safeRecordSummary demo_row)]"
  by (simp add: demo_events_def initialPrivilegedVoidFlowState_def demo_steps del: flow_step.simps)

lemma demo_run:
  "run flow_step initialPrivilegedVoidFlowState demo_events =
     CAPTURED_PENDING_ADJUDICATION (demo_identity (Some demo_manager)) (safeRecordSummary demo_row)"
  by (simp add: demo_events_def initialPrivilegedVoidFlowState_def demo_steps del: flow_step.simps)

theorem flow_never_retargets_witness:
  "\<exists>j. identity_of (run flow_step (PRECHECK (demo_identity None)) (tl demo_events)) = Some j
     \<and> target_of j = target_of (demo_identity None)"
  by (rule flow_never_retargets [of _ "demo_identity None"]) (simp_all add: demo_events_def demo_pick_def)

text \<open>A flow that goes back from the PIN entry and picks another manager.\<close>

definition second_manager :: jsstr where
  "second_manager = js ''manager-2''"

definition switched_identity :: flow_identity where
  "switched_identity = (demo_identity (Some second_manager))\<lparr>localIntentId := js ''i3''\<rparr>"

definition demo_switch :: "flow_event list" where
  "demo_switch = [EvOpen demo_order (js ''i1''), EvPrecheck PC_clear (js ''i2''), EvReason (js ''x'') [], demo_pick, EvBack,
     EvChoose second_manager (Some (js ''i3'')) \<lparr>x_expectedStatus = at_MANAGER_SELECT,
       x_expectedLocalIntentId = js ''i1'', x_expectedPriorManagerStaffId = Some demo_manager\<rparr>]"

lemma demo_switch_trace:
  "trace flow_step initialPrivilegedVoidFlowState demo_switch =
    [IDLE, PRECHECK (demo_identity None), VOID_REASON_ENTRY (demo_identity None) [] [],
     MANAGER_SELECT (demo_identity None) (js ''x'') [],
     MANAGER_PIN_ENTRY (demo_identity (Some demo_manager)) (js ''x'') [] None,
     MANAGER_SELECT (demo_identity (Some demo_manager)) (js ''x'') [],
     MANAGER_PIN_ENTRY switched_identity (js ''x'') [] None]"
proof -
  have b: "flow_step (MANAGER_PIN_ENTRY (demo_identity (Some demo_manager)) (js ''x'') [] None) EvBack
    = MANAGER_SELECT (demo_identity (Some demo_manager)) (js ''x'') []" by simp
  have c: "flow_step (MANAGER_SELECT (demo_identity (Some demo_manager)) (js ''x'') [])
      (EvChoose second_manager (Some (js ''i3'')) \<lparr>x_expectedStatus = at_MANAGER_SELECT,
         x_expectedLocalIntentId = js ''i1'', x_expectedPriorManagerStaffId = Some demo_manager\<rparr>)
    = MANAGER_PIN_ENTRY switched_identity (js ''x'') [] None"
    by (simp add: chooseManager_def demo_identity_def switched_identity_def demo_manager_def second_manager_def)
  show ?thesis by (simp add: demo_switch_def initialPrivilegedVoidFlowState_def demo_steps b c del: flow_step.simps)
qed

lemma demo_bindings:
  "binding (MANAGER_PIN_ENTRY (demo_identity (Some demo_manager)) (js ''x'') [] None) = Some (js ''i1'', demo_manager)"
  "binding (MANAGER_PIN_ENTRY switched_identity (js ''x'') [] None) = Some (js ''i3'', second_manager)"
  by (simp_all add: binding_def demo_identity_def switched_identity_def)

theorem intent_binds_one_manager_witness:
  "demo_manager \<noteq> second_manager
   \<and> {m. Some (js ''i1'', m) \<in> binding ` set (trace flow_step initialPrivilegedVoidFlowState demo_switch)} = {demo_manager}
   \<and> {m. Some (js ''i3'', m) \<in> binding ` set (trace flow_step initialPrivilegedVoidFlowState demo_switch)} = {second_manager}"
proof -
  let ?t = "trace flow_step initialPrivilegedVoidFlowState demo_switch"
  have d: "distinct (concat (map minted demo_switch))" by (simp add: demo_switch_def demo_pick_def)
  have one: "{m. Some (l, m) \<in> binding ` set ?t} = {m0}" if "s \<in> set ?t" "binding s = Some (l, m0)" for s l m0
  proof -
    have "m = m0" if "u \<in> set ?t" "binding u = Some (l, m)" for u m
      using intent_binds_one_manager [OF d] that \<open>s \<in> set ?t\<close> \<open>binding s = Some (l, m0)\<close> by blast
    moreover have "Some (l, m0) \<in> binding ` set ?t" using that by force
    ultimately show ?thesis by (auto simp: image_iff)
  qed
  have "demo_manager \<noteq> second_manager" by (simp add: demo_manager_def second_manager_def)
  then show ?thesis using one [OF _ demo_bindings(1)] one [OF _ demo_bindings(2)] by (simp add: demo_switch_trace)
qed



theorem provisioning_episode_final_witness:
  "beginOacProvisioning (PROJECTING (demo_identity None) [] []) (PO_not_approved (Some (js ''DENIED_OAC_STALE'')))
     = PROVISIONING_APPROVAL (demo_identity None) [] [] T_oac_stale
   \<and> PO_not_approved (Some (js ''DENIED_OAC_STALE''))
       \<in> {PO_not_approved (Some (js ''DENIED_OAC_MISSING'')), PO_not_approved (Some (js ''DENIED_OAC_STALE''))}"
proof -
  have b: "beginOacProvisioning (PROJECTING (demo_identity None) [] [])
      (PO_not_approved (Some (js ''DENIED_OAC_STALE'')))
     = PROVISIONING_APPROVAL (demo_identity None) [] [] T_oac_stale"
    by (simp add: classifyPinDenial_def)
  then have "beginOacProvisioning (PROJECTING (demo_identity None) [] [])
      (PO_not_approved (Some (js ''DENIED_OAC_STALE''))) \<noteq> PROJECTING (demo_identity None) [] []"
    by simp
  from provisioning_episode_final [OF this, of PV_provisioned PO_duplicate_target] b show ?thesis by blast
qed

theorem precheck_fail_closed_witness:
  "precheckActiveRowForTarget None (js ''order-1'') = PC_integrity_fault
   \<and> applyActiveRowPrecheck (PRECHECK (demo_identity None))
       (precheckActiveRowForTarget (Some ([demo_row], 0)) (js ''order-1'')) (js ''i2'')
      \<noteq> VOID_REASON_ENTRY (demo_identity None) [] []"
proof -
  have "distinct (map e_targetOrderId [demo_row])" by simp
  from precheck_fail_closed [OF this, of "js ''order-1''" 0 "demo_identity None" "js ''i2''"]
  show ?thesis by (simp add: demo_row_def isBlockingActiveRowStatus_def)
qed

end
