(* ===== verification/JsText.thy ===== *)
theory JsText
  imports JsNumber
begin

text \<open>
  The text side of the standard library: decimal numerals (\<^verbatim>\<open>String(n)\<close>), \<^verbatim>\<open>padStart\<close>,
  \<^verbatim>\<open>Number(s)\<close>, \<^verbatim>\<open>lastIndexOf\<close> and \<^verbatim>\<open>split\<close> at a single code unit, and the collapse of
  white space. Shared by the key formats and parsers of the offline stores.
\<close>

section \<open>Numerals\<close>

definition is_digit :: "16 word \<Rightarrow> bool" where
  "is_digit c \<longleftrightarrow> 48 \<le> unat c \<and> unat c \<le> 57"

definition digit :: "nat \<Rightarrow> 16 word" where
  "digit d = of_nat (48 + d)"

definition digit_value :: "16 word \<Rightarrow> nat" where
  "digit_value c = unat c - 48"

fun decimal :: "nat \<Rightarrow> jsstr" where
  "decimal n = (if n < 10 then [digit n] else decimal (n div 10) @ [digit (n mod 10)])"

declare decimal.simps [simp del]

definition digits_value :: "jsstr \<Rightarrow> nat" where
  "digits_value s = foldl (\<lambda>a c. 10 * a + digit_value c) 0 s"

definition padStart :: "nat \<Rightarrow> 16 word \<Rightarrow> jsstr \<Rightarrow> jsstr" where
  "padStart k c s = replicate (k - length s) c @ s"

lemma digit_facts [simp]:
  assumes "d < 10"
  shows "is_digit (digit d)" "digit_value (digit d) = d"
proof -
  have "unat (of_nat (48 + d) :: 16 word) = 48 + d"
    using assms by (simp only: unat_of_nat) (simp add: take_bit_eq_mod)
  then show "is_digit (digit d)" "digit_value (digit d) = d"
    using assms by (simp_all add: is_digit_def digit_def digit_value_def)
qed

lemma decimal_nonempty [simp]: "decimal n \<noteq> []"
  by (subst decimal.simps) simp

lemma decimal_digits: "list_all is_digit (decimal n)"
proof (induction n rule: decimal.induct)
  case (1 n)
  then show ?case by (subst decimal.simps) simp
qed

lemma digits_value_snoc: "digits_value (s @ [c]) = 10 * digits_value s + digit_value c"
  by (simp add: digits_value_def)

lemma digits_value_decimal [simp]: "digits_value (decimal n) = n"
proof (induction n rule: decimal.induct)
  case (1 n)
  show ?case
  proof (cases "n < 10")
    case True
    then show ?thesis by (subst decimal.simps) (simp add: digits_value_def)
  next
    case False
    then have "digits_value (decimal (n div 10)) = n div 10" by (rule 1)
    with False show ?thesis by (subst decimal.simps) (simp add: digits_value_snoc)
  qed
qed

lemma decimal_inj: "decimal m = decimal n \<longleftrightarrow> m = n"
  by (metis digits_value_decimal)

lemma digits_value_zeros: "digits_value (replicate k (digit 0) @ s) = digits_value s"
  by (induction k) (simp_all add: digits_value_def)

lemma padStart_digits:
  "list_all is_digit s \<Longrightarrow> list_all is_digit (padStart k (digit 0) s)"
  by (auto simp: padStart_def list_all_iff)

lemma padStart_value [simp]: "digits_value (padStart k (digit 0) s) = digits_value s"
  by (simp add: padStart_def digits_value_zeros)

lemma padStart_nonempty [simp]: "s \<noteq> [] \<Longrightarrow> padStart k c s \<noteq> []"
  by (simp add: padStart_def)

section \<open>\<^verbatim>\<open>Number(s)\<close> of a string\<close>

text \<open>The value of a digit in a base up to 36.\<close>

definition radix_digit :: "nat \<Rightarrow> 16 word \<Rightarrow> nat option" where
  "radix_digit b c = (let u = unat c;
      v = (if 48 \<le> u \<and> u \<le> 57 then u - 48 else if 97 \<le> u \<and> u \<le> 122 then u - 87
           else if 65 \<le> u \<and> u \<le> 90 then u - 55 else b)
    in if v < b then Some v else None)"

definition radix_literal :: "nat \<Rightarrow> jsstr \<Rightarrow> jsnum" where
  "radix_literal b s =
    (if s = [] \<or> list_ex (\<lambda>c. radix_digit b c = None) s then NaN
     else fl (of_nat (foldl (\<lambda>a c. b * a + the (radix_digit b c)) 0 s)))"

text \<open>\<^verbatim>\<open>StrUnsignedDecimalLiteral\<close> without \<^verbatim>\<open>Infinity\<close>: its exact value.\<close>

definition exponent_part :: "jsstr \<Rightarrow> int option" where
  "exponent_part s = (case s of [] \<Rightarrow> Some 0
    | c # r \<Rightarrow> if unat c \<noteq> 101 \<and> unat c \<noteq> 69 then None else
        (let neg = (r \<noteq> [] \<and> unat (hd r) = 45); ds = (if r \<noteq> [] \<and> (unat (hd r) = 43 \<or> unat (hd r) = 45) then tl r else r)
         in if ds = [] \<or> \<not> list_all is_digit ds then None
            else Some (if neg then - int (digits_value ds) else int (digits_value ds))))"

definition decimal_literal :: "jsstr \<Rightarrow> rat option" where
  "decimal_literal s =
    (let ip = takeWhile is_digit s; r = dropWhile is_digit s;
         dot = (r \<noteq> [] \<and> unat (hd r) = 46);
         fp = (if dot then takeWhile is_digit (tl r) else []);
         r2 = (if dot then dropWhile is_digit (tl r) else r)
     in if ip = [] \<and> fp = [] then None
        else map_option (\<lambda>e. of_nat (digits_value (ip @ fp)) * 10 powi (e - int (length fp))) (exponent_part r2))"

definition js_Number :: "jsstr \<Rightarrow> jsnum" where
  "js_Number str =
    (let s = trim str; pre = map unat (take 2 s)
     in if s = [] then Fin 0
        else if pre = [48, 120] \<or> pre = [48, 88] then radix_literal 16 (drop 2 s)
        else if pre = [48, 111] \<or> pre = [48, 79] then radix_literal 8 (drop 2 s)
        else if pre = [48, 98] \<or> pre = [48, 66] then radix_literal 2 (drop 2 s)
        else (let neg = (unat (hd s) = 45); u = (if neg \<or> unat (hd s) = 43 then tl s else s)
              in if u = js ''Infinity'' then signed_inf neg
                 else (case decimal_literal u of None \<Rightarrow> NaN
                   | Some q \<Rightarrow> if neg then js_neg (fl q) else fl q)))"

lemma is_digit_not_ws: "is_digit c \<Longrightarrow> \<not> is_ws c"
  by (auto simp: is_digit_def is_ws_def Let_def)

lemma trim_digits: "list_all is_digit s \<Longrightarrow> trim s = s"
proof -
  assume d: "list_all is_digit s"
  then have "dropWhile is_ws s = s" "dropWhile is_ws (rev s) = rev s"
    by (auto simp: dropWhile_eq_self_iff is_digit_not_ws list_all_iff hd_rev)
  then show ?thesis by (simp add: trim_def)
qed

lemma js_Number_digits:
  assumes "list_all is_digit s" "s \<noteq> []"
  shows "js_Number s = fl (of_nat (digits_value s))"
proof -
  have all: "is_digit c" if "c \<in> set s" for c using assms(1) that by (simp add: list_all_iff)
  have no_radix: "map unat (take 2 s) \<noteq> [48, u]" if "u > 57" for u
  proof
    assume "map unat (take 2 s) = [48, u]"
    then have "u \<in> unat ` set (take 2 s)" by (metis list.set_intros(1,2) list.set_map)
    then obtain c where "c \<in> set s" "u = unat c" by (auto dest: in_set_takeD)
    then show False using that all [of c] by (simp add: is_digit_def)
  qed
  have hd: "unat (hd s) \<noteq> 45" "unat (hd s) \<noteq> 43"
    using all [OF hd_in_set [OF assms(2)]] by (auto simp: is_digit_def)
  have "list_all is_digit (js ''Infinity'') = False"
    by (simp add: js_def is_digit_def unat_of_char)
  then have inf: "s \<noteq> js ''Infinity''" using assms(1) by auto
  have t: "takeWhile is_digit s = s" "dropWhile is_digit s = []"
    using all by (auto simp: dropWhile_eq_Nil_conv)
  have "decimal_literal s = Some (of_nat (digits_value s))"
    unfolding decimal_literal_def Let_def t using assms(2) by (simp add: exponent_part_def)
  then show ?thesis
    using assms no_radix [of 120] no_radix [of 88] no_radix [of 111] no_radix [of 79]
      no_radix [of 98] no_radix [of 66] hd inf
    by (simp add: js_Number_def Let_def trim_digits)
qed

lemma fl_of_nat: "n < 2 ^ 53 \<Longrightarrow> fl (of_nat n) = Fin (of_nat n)"
  using fl_nat [of "int n"] by simp

lemma js_Number_decimal:
  "n < 2 ^ 53 \<Longrightarrow> js_Number (padStart k (digit 0) (decimal n)) = Fin (of_nat n)"
  by (simp add: js_Number_digits padStart_digits decimal_digits fl_of_nat)

section \<open>Searching and splitting at one code unit\<close>

text \<open>\<^verbatim>\<open>s.lastIndexOf(c)\<close>: the text before and after the last occurrence, if there is one.\<close>

definition split_last :: "16 word \<Rightarrow> jsstr \<Rightarrow> (jsstr \<times> jsstr) option" where
  "split_last c s = (if c \<in> set s
     then Some (rev (tl (dropWhile (\<lambda>x. x \<noteq> c) (rev s))), rev (takeWhile (\<lambda>x. x \<noteq> c) (rev s)))
     else None)"

text \<open>\<^verbatim>\<open>s.indexOf(c)\<close>, likewise for the first occurrence.\<close>

definition split_first :: "16 word \<Rightarrow> jsstr \<Rightarrow> (jsstr \<times> jsstr) option" where
  "split_first c s = (if c \<in> set s
     then Some (takeWhile (\<lambda>x. x \<noteq> c) s, tl (dropWhile (\<lambda>x. x \<noteq> c) s)) else None)"

text \<open>\<^verbatim>\<open>s.split(c)\<close>.\<close>

fun split_on :: "16 word \<Rightarrow> jsstr \<Rightarrow> jsstr list" where
  "split_on c [] = [[]]"
| "split_on c (x # s) = (if x = c then [] # split_on c s
     else (case split_on c s of [] \<Rightarrow> [[x]] | p # ps \<Rightarrow> (x # p) # ps))"

lemma split_last_append:
  assumes "c \<notin> set b"
  shows "split_last c (a @ c # b) = Some (a, b)"
proof -
  have t: "takeWhile (\<lambda>x. x \<noteq> c) (rev b @ c # rev a) = rev b"
    "dropWhile (\<lambda>x. x \<noteq> c) (rev b @ c # rev a) = c # rev a"
    using assms by (simp_all add: takeWhile_append dropWhile_append)
  show ?thesis by (simp add: split_last_def t)
qed

lemma split_last_Some:
  assumes "split_last c s = Some (a, b)"
  shows "s = a @ c # b" "c \<notin> set b"
proof -
  let ?t = "takeWhile (\<lambda>x. x \<noteq> c) (rev s)" and ?d = "dropWhile (\<lambda>x. x \<noteq> c) (rev s)"
  have c: "c \<in> set s" and ab: "a = rev (tl ?d)" "b = rev ?t"
    using assms by (auto simp: split_last_def split: if_splits)
  have "?d \<noteq> []" using c by (simp add: dropWhile_eq_Nil_conv)
  then have "?d = c # tl ?d" by (metis (mono_tags, lifting) hd_Cons_tl hd_dropWhile)
  then have "rev s = ?t @ c # tl ?d" by (metis takeWhile_dropWhile_id)
  then show "s = a @ c # b" unfolding ab
    by (metis append.assoc append_Cons append_Nil rev.simps(2) rev_append rev_rev_ident)
  show "c \<notin> set b" unfolding ab by (auto dest: set_takeWhileD)
qed

lemma split_first_append: "c \<notin> set a \<Longrightarrow> split_first c (a @ c # b) = Some (a, b)"
  by (simp add: split_first_def takeWhile_append dropWhile_append)

lemma split_on_nonempty [simp]: "split_on c s \<noteq> []"
  by (cases s) (auto split: list.splits)

lemma split_on_none: "c \<notin> set s \<Longrightarrow> split_on c s = [s]"
  by (induction s) auto

lemma split_on_append: "c \<notin> set a \<Longrightarrow> split_on c (a @ c # b) = a # split_on c b"
  by (induction a) auto

section \<open>White space\<close>

text \<open>\<^verbatim>\<open>s.replace(/\s+/g, ' ')\<close>.\<close>

fun collapse_ws :: "jsstr \<Rightarrow> jsstr" where
  "collapse_ws [] = []"
| "collapse_ws (c # s) = (if is_ws c
     then (if s \<noteq> [] \<and> is_ws (hd s) then collapse_ws s else 32 # collapse_ws s)
     else c # collapse_ws s)"

lemma length_collapse_ws: "length (collapse_ws s) \<le> length s"
  by (induction s) auto

end
