(* ===== verification/JsDoc.thy ===== *)
theory JsDoc
  imports JsText
begin

text \<open>
  Documents of the database as dynamic values: reading and writing fields, the field
  transforms of a write (increment, delete, server time), \<^verbatim>\<open>ToNumber\<close>, and the numeric
  built-ins \<^verbatim>\<open>Math.min\<close>, \<^verbatim>\<open>Math.max\<close> and \<^verbatim>\<open>parseInt\<close>.
\<close>

section \<open>Reading\<close>

definition doc_field :: "jsval \<Rightarrow> string \<Rightarrow> jsval" where
  "doc_field d k = get_prop d (js k)"

fun plain_object :: "jsval \<Rightarrow> bool" where
  "plain_object (JObj _) = True"
| "plain_object _ = False"

text \<open>\<^verbatim>\<open>k in d\<close>, or \<^verbatim>\<open>hasOwnProperty\<close>.\<close>

fun has_own :: "jsval \<Rightarrow> string \<Rightarrow> bool" where
  "has_own (JObj fs) k = (map_of fs (js k) \<noteq> None)"
| "has_own _ k = False"

fun is_array :: "jsval \<Rightarrow> bool" where
  "is_array (JArr _) = True"
| "is_array _ = False"

fun elements :: "jsval \<Rightarrow> jsval list" where
  "elements (JArr vs) = vs"
| "elements _ = []"

lemma is_array_iff: "is_array v \<longleftrightarrow> (\<exists>vs. v = JArr vs)"
  by (cases v) auto

fun fields_of :: "jsval \<Rightarrow> (jsstr, jsval) jsmap" where
  "fields_of (JObj fs) = fs"
| "fields_of _ = []"

text \<open>\<^verbatim>\<open>v ?? d\<close>\<close>

definition or_else :: "jsval \<Rightarrow> jsval \<Rightarrow> jsval" where
  "or_else v d = (if is_nullish v then d else v)"

lemma or_else_simps [simp]:
  "or_else JUndef d = d" "or_else JNull d = d" "or_else (JNum n) d = JNum n" "or_else (JStr s) d = JStr s"
  "or_else (JArr vs) d = JArr vs" "or_else (JObj fs) d = JObj fs" "or_else (JBool b) d = JBool b"
  by (simp_all add: or_else_def is_nullish_def)

fun is_finite_num :: "jsval \<Rightarrow> bool" where
  "is_finite_num (JNum n) = isFinite n"
| "is_finite_num _ = False"

lemma is_finite_num_iff: "is_finite_num v \<longleftrightarrow> (\<exists>n. v = JNum n \<and> isFinite n)"
  by (cases v) auto

text \<open>
  \<^verbatim>\<open>ToNumber\<close>, which every relational and arithmetic operator applies. A list or an object
  is never stored in a field the code does arithmetic on; it counts as \<^verbatim>\<open>NaN\<close> here.
\<close>

fun to_number :: "jsval \<Rightarrow> jsnum" where
  "to_number (JNum n) = n"
| "to_number JNull = Fin 0"
| "to_number (JBool b) = Fin (if b then 1 else 0)"
| "to_number (JStr s) = js_Number s"
| "to_number _ = NaN"

section \<open>Numeric built-ins\<close>

definition math_min :: "jsnum \<Rightarrow> jsnum \<Rightarrow> jsnum" where
  "math_min a b =
    (if a = NaN \<or> b = NaN then NaN
     else if js_lt a b \<or> (js_eq a b \<and> a = NegZero) then a else b)"

definition math_max :: "jsnum \<Rightarrow> jsnum \<Rightarrow> jsnum" where
  "math_max a b =
    (if a = NaN \<or> b = NaN then NaN
     else if js_lt b a \<or> (js_eq a b \<and> b = NegZero) then a else b)"

text \<open>\<^verbatim>\<open>Number.parseInt(s, 10)\<close>\<close>

definition js_parseInt :: "jsstr \<Rightarrow> jsnum" where
  "js_parseInt s =
    (let t = dropWhile is_ws s;
         neg = (t \<noteq> [] \<and> hd t = of_char (CHR ''-''));
         u = (if t \<noteq> [] \<and> (hd t = of_char (CHR ''-'') \<or> hd t = of_char (CHR ''+'')) then tl t else t);
         ds = takeWhile is_digit u
     in if ds = [] then NaN
        else let n = fl (of_nat (digits_value ds)) in if neg then js_neg n else n)"

section \<open>Integral numbers\<close>

text \<open>A double that is exactly the integer \<open>k\<close>. Arithmetic on such numbers is exact below \<open>2 ^ 53\<close>.\<close>

definition whole :: "int \<Rightarrow> jsnum" where
  "whole k = Fin (of_int k)"

definition exact_range :: "int \<Rightarrow> bool" where
  "exact_range k \<longleftrightarrow> \<bar>k\<bar> < 2 ^ 53"

lemma fl_whole:
  assumes "exact_range k"
  shows "fl (of_int k) = whole k"
proof (cases "0 \<le> k")
  case True
  then show ?thesis using assms fl_nat [of k] by (simp add: exact_range_def whole_def)
next
  case False
  define m where "m = - k"
  have m: "0 < m" "m < 2 ^ 53" using False assms by (auto simp: m_def exact_range_def)
  have "fl (of_int m) = Fin (of_int m)" using m by (intro fl_nat) auto
  then have "fl_val (of_int m) = of_int m"
    using m by (auto simp: fl_def fl_val_def Let_def split: if_splits)
  then have v: "fl_val (of_int k) = of_int k" using fl_val_minus [of "of_int m"] by (simp add: m_def)
  have "\<bar>of_int k :: rat\<bar> = of_int m" using m by (simp add: m_def)
  also have "\<dots> \<le> of_int (10 ^ 30)" using m by (simp only: of_int_le_iff) simp
  finally have "\<bar>of_int k :: rat\<bar> < 2 powi 1023" using small_lt_max [of "of_int k"] by simp
  also have "(2::rat) powi 1023 \<le> 2 powi 1024" by (rule powi_mono) simp
  finally have "\<bar>of_int k :: rat\<bar> < 2 powi 1024" .
  then show ?thesis using v False
    by (auto simp: fl_def fl_val_def whole_def Let_def split: if_splits)
qed

lemma isFinite_whole [simp]: "isFinite (whole k)" "num_val (whole k) = of_int k" "whole k \<noteq> NaN" "whole k \<noteq> NegZero"
  by (simp_all add: whole_def)

lemma whole_eq_iff [simp]: "whole a = whole b \<longleftrightarrow> a = b"
  by (simp add: whole_def)

lemma whole_compare [simp]:
  "js_lt (whole a) (whole b) \<longleftrightarrow> a < b" "js_le (whole a) (whole b) \<longleftrightarrow> a \<le> b"
  "js_eq (whole a) (whole b) \<longleftrightarrow> a = b"
  by (auto simp: js_lt_def js_le_def js_eq_def)

lemma whole_add [simp]: "exact_range (a + b) \<Longrightarrow> js_add (whole a) (whole b) = whole (a + b)"
  using fl_whole [of "a + b"] by (simp add: whole_def js_add_Fin)

lemma whole_sub [simp]: "exact_range (a - b) \<Longrightarrow> js_sub (whole a) (whole b) = whole (a - b)"
  using fl_whole [of "a - b"] by (simp add: whole_def js_sub_Fin)

lemma whole_add_neg [simp]: "exact_range (a - b) \<Longrightarrow> js_add (whole a) (js_neg (whole b)) = whole (a - b)"
  using whole_sub [of a b] by (simp add: js_sub_def)

lemma whole_min [simp]: "math_min (whole a) (whole b) = whole (min a b)"
  by (auto simp: math_min_def)

lemma whole_max [simp]: "math_max (whole a) (whole b) = whole (max a b)"
  by (auto simp: math_max_def)

lemma whole_lits: "Fin 0 = whole 0" "Fin 1 = whole 1"
  by (simp_all add: whole_def)

section \<open>Writing\<close>

text \<open>
  What a write does to one field: a value, \<^verbatim>\<open>FieldValue.increment(n)\<close> (on a field that is not a
  number it stores \<open>n\<close>) or \<^verbatim>\<open>FieldValue.delete()\<close>. \<^verbatim>\<open>serverTimestamp()\<close> writes the commit time,
  which is an argument of the operations.
\<close>

datatype field_write = Put jsval | Increment jsnum | DeleteField

definition incremented :: "jsval \<Rightarrow> jsnum \<Rightarrow> jsval" where
  "incremented v n = (case v of JNum m \<Rightarrow> JNum (js_add m n) | _ \<Rightarrow> JNum n)"

type_synonym patch = "(jsstr \<times> field_write) list"

definition write_field :: "(jsstr, jsval) jsmap \<Rightarrow> jsstr \<times> field_write \<Rightarrow> (jsstr, jsval) jsmap" where
  "write_field fs w = (case snd w of
     Put v \<Rightarrow> map_set (fst w) v fs
   | Increment n \<Rightarrow> map_set (fst w) (incremented (get_prop (JObj fs) (fst w)) n) fs
   | DeleteField \<Rightarrow> map_delete (fst w) fs)"

text \<open>\<^verbatim>\<open>set(..., { merge: true })\<close> and \<^verbatim>\<open>update\<close> on a document that exists.\<close>

definition merge_doc :: "jsval \<Rightarrow> patch \<Rightarrow> jsval" where
  "merge_doc d ws = JObj (foldl write_field (fields_of d) ws)"

text \<open>The library refuses a value that contains \<^verbatim>\<open>undefined\<close>.\<close>

fun has_undef :: "jsval \<Rightarrow> bool" where
  "has_undef JUndef = True"
| "has_undef (JArr vs) = list_ex has_undef vs"
| "has_undef (JObj fs) = list_ex (\<lambda>(k, v). has_undef v) fs"
| "has_undef _ = False"

definition writable :: "patch \<Rightarrow> bool" where
  "writable ws = list_all (\<lambda>(k, w). case w of Put v \<Rightarrow> \<not> has_undef v | _ \<Rightarrow> True) ws"

abbreviation fput :: "string \<Rightarrow> jsval \<Rightarrow> jsstr \<times> field_write" where
  "fput k v \<equiv> (js k, Put v)"

abbreviation fadd :: "string \<Rightarrow> jsnum \<Rightarrow> jsstr \<times> field_write" where
  "fadd k n \<equiv> (js k, Increment n)"

abbreviation fdel :: "string \<Rightarrow> jsstr \<times> field_write" where
  "fdel k \<equiv> (js k, DeleteField)"

text \<open>What reading a field after a merge gives: the last write to it decides.\<close>

lemma get_prop_fields: "get_prop (JObj (fields_of d)) k = get_prop d k"
  by (cases d) simp_all

lemma get_write_field:
  "get_prop (JObj (write_field fs w)) k =
    (if fst w = k then (case snd w of Put v \<Rightarrow> v | Increment n \<Rightarrow> incremented (get_prop (JObj fs) k) n
       | DeleteField \<Rightarrow> JUndef)
     else get_prop (JObj fs) k)"
  by (auto simp: write_field_def split: field_write.splits)

lemma get_foldl_write_other:
  "k \<notin> fst ` set ws \<Longrightarrow> get_prop (JObj (foldl write_field fs ws)) k = get_prop (JObj fs) k"
  by (induction ws arbitrary: fs) (auto simp: get_write_field simp del: get_prop.simps)

lemma merge_doc_other [simp]: "k \<notin> fst ` set ws \<Longrightarrow> get_prop (merge_doc d ws) k = get_prop d k"
  by (simp add: merge_doc_def get_foldl_write_other get_prop_fields del: get_prop.simps)

lemma merge_doc_append: "merge_doc d (ws @ vs) = merge_doc (merge_doc d ws) vs"
  by (simp add: merge_doc_def)

lemma merge_doc_Nil_get [simp]: "get_prop (merge_doc d []) k = get_prop d k"
  by simp

lemma merge_doc_Cons_get:
  "get_prop (merge_doc d (w # ws)) k = get_prop (merge_doc (merge_doc d [w]) ws) k"
  by (simp add: merge_doc_def)

lemma get_merge_one:
  "get_prop (merge_doc d [w]) k =
    (if fst w = k then (case snd w of Put v \<Rightarrow> v | Increment n \<Rightarrow> incremented (get_prop d k) n
       | DeleteField \<Rightarrow> JUndef)
     else get_prop d k)"
  by (simp add: merge_doc_def get_write_field get_prop_fields split: field_write.splits del: get_prop.simps)

text \<open>Field by field: the form in which the simplifier evaluates a merge.\<close>

fun read_patch :: "patch \<Rightarrow> jsstr \<Rightarrow> jsval \<Rightarrow> jsval" where
  "read_patch [] k v = v"
| "read_patch ((k', w) # ws) k v =
    read_patch ws k (if k' = k then (case w of Put u \<Rightarrow> u | Increment n \<Rightarrow> incremented v n | DeleteField \<Rightarrow> JUndef) else v)"

lemma get_merge: "get_prop (merge_doc d ws) k = read_patch ws k (get_prop d k)"
proof (induction ws arbitrary: d)
  case (Cons w ws)
  then show ?case
    using merge_doc_Cons_get [of d w ws k] Cons.IH [of "merge_doc d [w]"]
    by (cases w) (simp add: get_merge_one)
qed simp

lemma doc_field_merge: "doc_field (merge_doc d ws) k = read_patch ws (js k) (doc_field d k)"
  by (simp add: doc_field_def get_merge)

lemma merge_is_object [simp]: "merge_doc d ws = JObj fs \<longleftrightarrow> foldl write_field (fields_of d) ws = fs"
  by (simp add: merge_doc_def)

end
