(* ===== verification/PrivilegedAuthority.thy ===== *)
theory PrivilegedAuthority
  imports JsDoc
begin

text \<open>
  Who may act: \<^verbatim>\<open>functions/src/authorityFence.ts\<close> (the live freshness fence over the user
  document), \<^verbatim>\<open>privilegedActionAuthority.ts\<close> (the live role-permission matrix and the staged
  denial of a permission that is being removed), \<^verbatim>\<open>pinPolicy.ts\<close> (PIN shapes and credential
  classification) and the action registry's constants. Firestore documents are \<open>jsval\<close>; a
  read that fails is a value of its own.
\<close>

section \<open>Documents\<close>

text \<open>What a read of one document can give.\<close>

datatype read_result = ReadFails | Absent | Present jsval

text \<open>\<^verbatim>\<open>typeof v === 'number' && Number.isFinite(v) ? v : d\<close>\<close>

definition finite_or :: "jsnum \<Rightarrow> jsval \<Rightarrow> jsnum" where
  "finite_or d v = (case v of JNum n \<Rightarrow> if isFinite n then n else d | _ \<Rightarrow> d)"

section \<open>The freshness fence\<close>

record auth_like =
  al_uid :: "jsstr option"
  al_token :: jsval

datatype freshness_reason =
  Unauthenticated | MissingStaff | MissingUser | UserDisabled | UserDeleted | StaleSession

definition tokenStaffId :: "auth_like option \<Rightarrow> jsstr option" where
  "tokenStaffId auth = (case auth of None \<Rightarrow> None | Some a \<Rightarrow>
     (case doc_field (al_token a) ''staffId'' of
        JStr s \<Rightarrow> if trim s \<noteq> [] then Some (trim s) else None
      | _ \<Rightarrow> None))"

definition tokenAuthVersion :: "auth_like option \<Rightarrow> jsnum" where
  "tokenAuthVersion auth = (case auth of None \<Rightarrow> Fin (-1)
     | Some a \<Rightarrow> finite_or (Fin (-1)) (doc_field (al_token a) ''authVersion''))"

type_synonym users = "jsstr \<Rightarrow> jsval option"

definition evaluateFreshPrivilegedAuthority ::
  "users \<Rightarrow> auth_like option \<Rightarrow> freshness_reason + (jsstr \<times> jsnum)" where
  "evaluateFreshPrivilegedAuthority users auth =
    (if auth = None then Inl Unauthenticated
     else case tokenStaffId auth of None \<Rightarrow> Inl MissingStaff
     | Some staffId \<Rightarrow> (case users staffId of None \<Rightarrow> Inl MissingUser
       | Some user \<Rightarrow>
           if doc_field user ''isActive'' \<noteq> JBool True then Inl UserDisabled
           else if \<not> is_nullish (doc_field user ''deletedAt'') then Inl UserDeleted
           else let liveVersion = finite_or (Fin 0) (doc_field user ''authVersion'') in
             if \<not> js_eq liveVersion (tokenAuthVersion auth) then Inl StaleSession
             else Inr (staffId, liveVersion)))"

datatype https_error = HttpsUnauthenticated | HttpsPermissionDenied

definition assertFreshPrivilegedAuthority ::
  "users \<Rightarrow> auth_like option \<Rightarrow> https_error + (jsstr \<times> jsnum)" where
  "assertFreshPrivilegedAuthority users auth =
    (case evaluateFreshPrivilegedAuthority users auth of
       Inr r \<Rightarrow> Inr r
     | Inl reason \<Rightarrow> if reason = Unauthenticated \<or> reason = MissingStaff
         then Inl HttpsUnauthenticated else Inl HttpsPermissionDenied)"

section \<open>Live role permissions\<close>

datatype deny_reason =
  RoleAbsent | DocumentAbsent | DocumentUnreadable | MatrixMalformed | RoleKeyAbsent
  | RoleRowEmpty | RoleRowMalformed | PermissionAbsent | StagedDenyActive | StagedDenyUnreadable

datatype staged_state = Draining | Verifying | Converged | StagedCompleted

definition STAGED_STATES :: "(jsstr \<times> staged_state) list" where
  "STAGED_STATES = [(js ''DRAINING'', Draining), (js ''VERIFYING'', Verifying),
     (js ''CONVERGED'', Converged), (js ''COMPLETED'', StagedCompleted)]"

record staged_head =
  sh_roleId :: jsstr
  sh_state :: staged_state
  sh_changeId :: jsstr
  sh_deniedPermissions :: "jsstr list"

definition ACTIVE_STAGED_DENY_STATES :: "staged_state list" where
  "ACTIVE_STAGED_DENY_STATES = [Draining, Verifying, Converged]"

definition stagedDenyReader :: "staged_head option \<Rightarrow> jsstr \<Rightarrow> jsstr list" where
  "stagedDenyReader head expectedChangeId = (case head of None \<Rightarrow> []
     | Some h \<Rightarrow> if sh_changeId h \<noteq> expectedChangeId then []
         else if sh_state h \<notin> set ACTIVE_STAGED_DENY_STATES then []
         else sh_deniedPermissions h)"

text \<open>All strings, as a list; \<open>None\<close> otherwise.\<close>

fun strings_of :: "jsval list \<Rightarrow> jsstr list option" where
  "strings_of [] = Some []"
| "strings_of (JStr s # vs) = map_option (Cons s) (strings_of vs)"
| "strings_of (_ # vs) = None"

definition string_array :: "jsval \<Rightarrow> jsstr list option" where
  "string_array v = (case v of JArr vs \<Rightarrow> strings_of vs | _ \<Rightarrow> None)"

fun js_object :: "jsval \<Rightarrow> bool" where
  "js_object (JObj _) = True"
| "js_object (JArr _) = True"
| "js_object _ = False"

definition parseStagedRoleDenyHead :: "jsstr \<Rightarrow> jsval \<Rightarrow> staged_head option" where
  "parseStagedRoleDenyHead roleId d =
    (if \<not> js_object d then None
     else case doc_field d ''changeId'' of
       JStr changeId \<Rightarrow>
         if changeId = [] then None
         else (case doc_field d ''state'' of
             JStr st \<Rightarrow> (case map_of STAGED_STATES st of None \<Rightarrow> None
               | Some state \<Rightarrow> (case string_array (doc_field d ''deniedPermissions'') of None \<Rightarrow> None
                   | Some ps \<Rightarrow> Some \<lparr>sh_roleId = roleId, sh_state = state, sh_changeId = changeId,
                       sh_deniedPermissions = ps\<rparr>))
           | _ \<Rightarrow> None)
     | _ \<Rightarrow> None)"

text \<open>\<open>Inl\<close> stands for every throw of the reader: a failed read or a head that does not parse.\<close>

definition firestoreStagedRoleDenyHeadReader :: "(jsstr \<Rightarrow> read_result) \<Rightarrow> jsstr \<Rightarrow> unit + staged_head option" where
  "firestoreStagedRoleDenyHeadReader heads roleId = (case heads roleId of
      ReadFails \<Rightarrow> Inl ()
    | Absent \<Rightarrow> Inr None
    | Present d \<Rightarrow> (case parseStagedRoleDenyHead roleId d of None \<Rightarrow> Inl () | Some h \<Rightarrow> Inr (Some h)))"

definition decideLiveRolePermission ::
  "jsstr option \<Rightarrow> jsstr \<Rightarrow> jsval option \<Rightarrow> staged_head option \<Rightarrow> deny_reason + unit" where
  "decideLiveRolePermission role permission snapshot head =
    (case role of None \<Rightarrow> Inl RoleAbsent | Some r \<Rightarrow>
     if r = [] then Inl RoleAbsent
     else case snapshot of None \<Rightarrow> Inl DocumentAbsent | Some d \<Rightarrow>
     if \<not> plain_object d then Inl MatrixMalformed
     else case doc_field d ''rolePermissions'' of
       JObj matrix \<Rightarrow>
         (case map_of matrix r of None \<Rightarrow> Inl RoleKeyAbsent
          | Some row \<Rightarrow>
            if row = JArr [] then Inl RoleRowEmpty
            else (case string_array row of None \<Rightarrow> Inl RoleRowMalformed
              | Some ps \<Rightarrow>
                if permission \<notin> set ps then Inl PermissionAbsent
                else if (case head of None \<Rightarrow> False
                    | Some h \<Rightarrow> sh_roleId h = r \<and> permission \<in> set (stagedDenyReader head (sh_changeId h)))
                  then Inl StagedDenyActive
                else Inr ()))
     | _ \<Rightarrow> Inl MatrixMalformed)"

definition resolveLivePrivilegedPermission ::
  "read_result \<Rightarrow> (jsstr \<Rightarrow> read_result) \<Rightarrow> jsstr option \<Rightarrow> jsstr \<Rightarrow> deny_reason + unit" where
  "resolveLivePrivilegedPermission matrixDoc heads role permission =
    (case role of None \<Rightarrow> Inl RoleAbsent | Some r \<Rightarrow>
     if r = [] then Inl RoleAbsent
     else if matrixDoc = ReadFails then Inl DocumentUnreadable
     else case firestoreStagedRoleDenyHeadReader heads r of
         Inl _ \<Rightarrow> Inl StagedDenyUnreadable
       | Inr head \<Rightarrow> decideLiveRolePermission role permission
           (case matrixDoc of Present d \<Rightarrow> Some d | _ \<Rightarrow> None) head)"

definition PRIVILEGED_REQUESTER_PERMISSION :: jsstr where "PRIVILEGED_REQUESTER_PERMISSION = js ''pos_sale''"
definition PRIVILEGED_APPROVER_PERMISSION :: jsstr where "PRIVILEGED_APPROVER_PERMISSION = js ''pos_void''"
definition SALE_RETURN_REQUESTER_PERMISSION :: jsstr where "SALE_RETURN_REQUESTER_PERMISSION = js ''pos_sale''"
definition SALE_RETURN_APPROVER_PERMISSION :: jsstr where "SALE_RETURN_APPROVER_PERMISSION = js ''pos_return''"

definition holds :: "deny_reason + unit \<Rightarrow> bool" where
  "holds d \<longleftrightarrow> d = Inr ()"

definition liveRoleHoldsPosVoid :: "read_result \<Rightarrow> (jsstr \<Rightarrow> read_result) \<Rightarrow> jsstr option \<Rightarrow> bool" where
  "liveRoleHoldsPosVoid m h role = holds (resolveLivePrivilegedPermission m h role PRIVILEGED_APPROVER_PERMISSION)"

definition liveRoleHoldsVoidRequesterPermission :: "read_result \<Rightarrow> (jsstr \<Rightarrow> read_result) \<Rightarrow> jsstr option \<Rightarrow> bool" where
  "liveRoleHoldsVoidRequesterPermission m h role = holds (resolveLivePrivilegedPermission m h role PRIVILEGED_REQUESTER_PERMISSION)"

definition liveRoleHoldsPosReturn :: "read_result \<Rightarrow> (jsstr \<Rightarrow> read_result) \<Rightarrow> jsstr option \<Rightarrow> bool" where
  "liveRoleHoldsPosReturn m h role = holds (resolveLivePrivilegedPermission m h role SALE_RETURN_APPROVER_PERMISSION)"

definition liveRoleHoldsReturnRequesterPermission :: "read_result \<Rightarrow> (jsstr \<Rightarrow> read_result) \<Rightarrow> jsstr option \<Rightarrow> bool" where
  "liveRoleHoldsReturnRequesterPermission m h role = holds (resolveLivePrivilegedPermission m h role SALE_RETURN_REQUESTER_PERMISSION)"

section \<open>PIN policy\<close>

definition isTargetPinWellFormed :: "jsstr \<Rightarrow> bool" where
  "isTargetPinWellFormed pin \<longleftrightarrow> length pin = 6 \<and> list_all is_digit pin"

definition isWellFormedPin :: "jsstr \<Rightarrow> bool" where
  "isWellFormedPin pin = isTargetPinWellFormed pin"

definition isLegacyPin4Shape :: "jsstr \<Rightarrow> bool" where
  "isLegacyPin4Shape pin \<longleftrightarrow> length pin = 4 \<and> list_all is_digit pin"

definition isLiveManagerApprovalPinCompareEligible :: "jsstr \<Rightarrow> bool" where
  "isLiveManagerApprovalPinCompareEligible pin = isLegacyPin4Shape pin"

datatype pin_shape = PIN6 | PIN4 | InvalidPin

definition classifyPresentedPin :: "jsstr \<Rightarrow> pin_shape" where
  "classifyPresentedPin pin = (if isTargetPinWellFormed pin then PIN6
     else if isLegacyPin4Shape pin then PIN4 else InvalidPin)"

datatype pin_classification =
  LegacyPin4RequiresRotation | RotatedAuthoritativePin6 | InvalidOrDisabled
  | UndeterminedPendingRotationPacket

definition derivePinMigrationState :: "jsstr option \<Rightarrow> bool \<Rightarrow> jsstr option \<Rightarrow> pin_classification" where
  "derivePinMigrationState persisted disabled presentedPin =
    (if disabled then InvalidOrDisabled
     else if persisted = Some (js ''backfilled_not_trusted'')
          \<or> persisted = Some (js ''readers_cut_over_rotation_required'') then LegacyPin4RequiresRotation
     else if persisted \<noteq> Some (js ''rotated_authoritative'') then InvalidOrDisabled
     else case presentedPin of None \<Rightarrow> UndeterminedPendingRotationPacket
     | Some pin \<Rightarrow> if pin = [] then UndeterminedPendingRotationPacket
         else (case classifyPresentedPin pin of PIN6 \<Rightarrow> RotatedAuthoritativePin6
           | PIN4 \<Rightarrow> LegacyPin4RequiresRotation | InvalidPin \<Rightarrow> InvalidOrDisabled))"

definition canProvisionOac :: "pin_classification \<Rightarrow> bool" where
  "canProvisionOac c \<longleftrightarrow> c = RotatedAuthoritativePin6"

definition canProvisionOacForAuthoritativeCredential :: "jsstr option \<Rightarrow> bool \<Rightarrow> jsstr option \<Rightarrow> bool" where
  "canProvisionOacForAuthoritativeCredential persisted disabled presentedPin =
    (if disabled then False
     else if persisted \<noteq> Some (js ''rotated_authoritative'') then False
     else case presentedPin of None \<Rightarrow> False
     | Some pin \<Rightarrow> if pin = [] then False
         else (let shape = classifyPresentedPin pin in shape = PIN6 \<or> shape = PIN4))"

definition isTargetPolicyCompliant :: "pin_classification \<Rightarrow> bool" where
  "isTargetPolicyCompliant c \<longleftrightarrow> c = RotatedAuthoritativePin6"

section \<open>Properties\<close>

text \<open>The fence admits a session exactly when its staff claim names an existing user that is active
  and not deleted and whose live authority version, 0 where the document has none, equals the
  claimed one.\<close>

theorem freshness_spec:
  "evaluateFreshPrivilegedAuthority users auth = Inr (staffId, version) \<longleftrightarrow>
     tokenStaffId auth = Some staffId
     \<and> (\<exists>user. users staffId = Some user
          \<and> doc_field user ''isActive'' = JBool True \<and> is_nullish (doc_field user ''deletedAt'')
          \<and> version = finite_or (Fin 0) (doc_field user ''authVersion'')
          \<and> js_eq version (tokenAuthVersion auth))"
  by (auto simp: evaluateFreshPrivilegedAuthority_def Let_def tokenStaffId_def split: option.splits if_splits)

text \<open>A privileged permission is granted only on evidence: the matrix document was read and holds, for
  the role, an array of strings with the permission; and the staged-denial head was read and
  is absent, or names a denial that has completed or does not cover the permission. Every
  failed read, absence or malformation denies.\<close>

theorem live_permission_spec:
  "resolveLivePrivilegedPermission m heads role permission = Inr () \<longleftrightarrow>
     (\<exists>r d matrix row ps. role = Some r \<and> r \<noteq> [] \<and> m = Present d
       \<and> doc_field d ''rolePermissions'' = JObj matrix \<and> map_of matrix r = Some row
       \<and> string_array row = Some ps \<and> permission \<in> set ps
       \<and> (heads r = Absent
          \<or> (\<exists>doc h. heads r = Present doc \<and> parseStagedRoleDenyHead r doc = Some h
               \<and> (sh_state h = StagedCompleted \<or> permission \<notin> set (sh_deniedPermissions h)))))"
  (is "?L = ?R")
proof
  have roleId: "parseStagedRoleDenyHead r doc = Some h \<Longrightarrow> sh_roleId h = r" for r doc h
    by (auto simp: parseStagedRoleDenyHead_def split: if_splits jsval.splits option.splits)
  have active: "sh_state h \<notin> set ACTIVE_STAGED_DENY_STATES \<longleftrightarrow> sh_state h = StagedCompleted" for h
    by (cases "sh_state h") (simp_all add: ACTIVE_STAGED_DENY_STATES_def)
  have plain: "doc_field d k = JObj m \<Longrightarrow> plain_object d" for d k m
    by (cases d) (simp_all add: doc_field_def)
  have empty: "string_array (JArr []) = Some []" by (simp add: string_array_def)
  show "?L \<Longrightarrow> ?R"
    unfolding resolveLivePrivilegedPermission_def firestoreStagedRoleDenyHeadReader_def
      decideLiveRolePermission_def stagedDenyReader_def
    by (auto simp: active roleId split: option.splits if_splits read_result.splits jsval.splits)
  show "?R \<Longrightarrow> ?L"
    unfolding resolveLivePrivilegedPermission_def firestoreStagedRoleDenyHeadReader_def
      decideLiveRolePermission_def stagedDenyReader_def
    by (auto simp: active roleId empty plain split: option.splits if_splits)
qed

theorem live_permission_spec_witness:
  "resolveLivePrivilegedPermission
     (Present (JObj [(js ''rolePermissions'', JObj [(js ''manager'', JArr [JStr (js ''pos_void'')])])]))
     (\<lambda>_. Absent) (Some (js ''manager'')) (js ''pos_void'') = Inr ()"
  unfolding live_permission_spec by (simp add: doc_field_def string_array_def)

end
