(* ===== verification/ManagerApproval.thy ===== *)
theory ManagerApproval
  imports PrivilegedAuthority
begin

text \<open>
  PIN step-up approval by a manager: \<^verbatim>\<open>functions/src/requestManagerApprovalCore.ts\<close>
  (validation, lockout arithmetic, binding, mint outcome, approval document) and the handler
  \<^verbatim>\<open>performRequestManagerApproval\<close> of \<^verbatim>\<open>requestManagerApproval.ts\<close> over the collections it
  reads and writes. Arguments of the model: SHA-256 in hexadecimal, the decimal rendering of
  numbers, bcrypt's compare and the clock reading. One call runs alone: the
  interleaving of concurrent calls between their transactions is not modelled.
\<close>

section \<open>Actions, audiences, models\<close>

datatype protected_action =
  ShiftCloseAcknowledge | ShiftCloseResolve | VoidPendingSale | VoidSettledSale | SaleReturn

datatype audience = AudienceShiftClose | AudiencePrivilegedVoid | AudienceSaleReturn

datatype security_model = Reauth | Delegated

fun action_name :: "protected_action \<Rightarrow> jsstr" where
  "action_name ShiftCloseAcknowledge = js ''shift_close_alert_acknowledge''"
| "action_name ShiftCloseResolve = js ''shift_close_alert_resolve''"
| "action_name VoidPendingSale = js ''VOID_PENDING_SALE''"
| "action_name VoidSettledSale = js ''VOID_SETTLED_SALE''"
| "action_name SaleReturn = js ''SALE_RETURN''"

fun audience_name :: "audience \<Rightarrow> jsstr" where
  "audience_name AudienceShiftClose = js ''resolveShiftCloseAlert''"
| "audience_name AudiencePrivilegedVoid = js ''privilegedVoid''"
| "audience_name AudienceSaleReturn = js ''saleReturn''"

fun model_name :: "security_model \<Rightarrow> jsstr" where
  "model_name Reauth = js ''reauth''"
| "model_name Delegated = js ''delegated''"

definition SHIFT_CLOSE_PROTECTED_ACTIONS :: "protected_action list" where
  "SHIFT_CLOSE_PROTECTED_ACTIONS = [ShiftCloseAcknowledge, ShiftCloseResolve]"

definition PRIVILEGED_ACTION_IDS :: "protected_action list" where
  "PRIVILEGED_ACTION_IDS = [VoidPendingSale, VoidSettledSale]"

definition PROTECTED_ACTIONS :: "protected_action list" where
  "PROTECTED_ACTIONS = SHIFT_CLOSE_PROTECTED_ACTIONS @ PRIVILEGED_ACTION_IDS @ [SaleReturn]"

definition APPROVAL_SCHEMA_VERSION :: int where "APPROVAL_SCHEMA_VERSION = 1"
definition APPROVAL_TTL_MS :: ms where "APPROVAL_TTL_MS = 120000"
definition LOCKOUT_THRESHOLD :: int where "LOCKOUT_THRESHOLD = 5"
definition LOCKOUT_WINDOW_MS :: ms where "LOCKOUT_WINDOW_MS = 900000"

definition isModel2RequesterRole :: "jsstr option \<Rightarrow> bool" where
  "isModel2RequesterRole role \<longleftrightarrow> role = Some (js ''staff'')"

definition isModel2ApproverRole :: "jsstr option \<Rightarrow> bool" where
  "isModel2ApproverRole role \<longleftrightarrow> role = Some (js ''manager'') \<or> role = Some (js ''admin'')"

definition requesterBranchEligible :: "jsstr list \<Rightarrow> jsstr \<Rightarrow> bool" where
  "requesterBranchEligible liveBranchIds branchId \<longleftrightarrow> branchId \<in> set liveBranchIds"

definition approverBranchEligible :: "jsstr option \<Rightarrow> jsstr list \<Rightarrow> jsstr \<Rightarrow> bool" where
  "approverBranchEligible role liveBranchIds branchId =
    (if role = Some (js ''manager'') then branchId \<in> set liveBranchIds
     else if role = Some (js ''admin'') then js ''ALL'' \<in> set liveBranchIds \<or> branchId \<in> set liveBranchIds
     else False)"

definition action_of :: "jsval \<Rightarrow> protected_action option" where
  "action_of v = (case v of JStr s \<Rightarrow> List.find (\<lambda>a. action_name a = s) PROTECTED_ACTIONS | _ \<Rightarrow> None)"

definition isPrivilegedActionId :: "protected_action \<Rightarrow> bool" where
  "isPrivilegedActionId a \<longleftrightarrow> a \<in> set PRIVILEGED_ACTION_IDS"

definition isSaleReturnActionId :: "protected_action \<Rightarrow> bool" where
  "isSaleReturnActionId a \<longleftrightarrow> a = SaleReturn"

definition audienceForProtectedAction :: "protected_action \<Rightarrow> audience option" where
  "audienceForProtectedAction a =
    (if isPrivilegedActionId a then Some AudiencePrivilegedVoid
     else if isSaleReturnActionId a then Some AudienceSaleReturn
     else if a \<in> set SHIFT_CLOSE_PROTECTED_ACTIONS then Some AudienceShiftClose
     else None)"

section \<open>Request validation\<close>

record approval_request =
  rq_commandId :: jsstr
  rq_protectedAction :: protected_action
  rq_targetEntityId :: jsstr
  rq_branchId :: jsstr
  rq_pin :: jsstr
  rq_securityModel :: security_model
  rq_approverStaffId :: "jsstr option"

definition trimmed :: "(jsnum \<Rightarrow> jsstr) \<Rightarrow> jsval \<Rightarrow> js_error + jsstr" where
  "trimmed fmt v = and_then (js_String fmt v) (\<lambda>s. Inr (trim s))"

definition model_of :: "jsval \<Rightarrow> security_model option" where
  "model_of v = (if v = JUndef \<or> v = JNull \<or> v = JStr [] then Some Reauth
     else if v = JStr (model_name Reauth) then Some Reauth
     else if v = JStr (model_name Delegated) then Some Delegated else None)"

text \<open>\<open>Inr None\<close> is the refusal \<^verbatim>\<open>invalid_target\<close>; \<open>Inl\<close> a conversion that throws.\<close>

definition validateManagerApprovalRequest ::
  "(jsnum \<Rightarrow> jsstr) \<Rightarrow> jsval \<Rightarrow> js_error + approval_request option" where
  "validateManagerApprovalRequest fmt req =
    and_then (trimmed fmt (doc_field req ''commandId'')) (\<lambda>commandId.
    and_then (trimmed fmt (doc_field req ''targetEntityId'')) (\<lambda>targetEntityId.
    and_then (trimmed fmt (doc_field req ''branchId'')) (\<lambda>branchId.
      let pin = (case doc_field req ''pin'' of JStr p \<Rightarrow> p | _ \<Rightarrow> []) in
      if commandId = [] then Inr None
      else case action_of (doc_field req ''protectedAction'') of None \<Rightarrow> Inr None
      | Some action \<Rightarrow>
        if targetEntityId = [] then Inr None
        else if branchId = [] \<or> branchId = js ''ALL'' then Inr None
        else if audienceForProtectedAction action = None then Inr None
        else (case model_of (doc_field req ''securityModel'') of None \<Rightarrow> Inr None
          | Some Reauth \<Rightarrow> Inr (Some \<lparr>rq_commandId = commandId, rq_protectedAction = action,
              rq_targetEntityId = targetEntityId, rq_branchId = branchId, rq_pin = pin,
              rq_securityModel = Reauth, rq_approverStaffId = None\<rparr>)
          | Some Delegated \<Rightarrow> and_then (trimmed fmt (doc_field req ''approverStaffId'')) (\<lambda>approver.
              if approver = [] then Inr None
              else Inr (Some \<lparr>rq_commandId = commandId, rq_protectedAction = action,
                rq_targetEntityId = targetEntityId, rq_branchId = branchId, rq_pin = pin,
                rq_securityModel = Delegated, rq_approverStaffId = Some approver\<rparr>))))))"

section \<open>Lockout arithmetic\<close>

record attempt_view =
  at_consecutiveFailures :: int
  at_firstFailureAtMillis :: "ms option"
  at_lockedUntilMillis :: "ms option"

record attempt_state = attempt_view +
  at_lastFailureAtMillis :: "ms option"

definition isLockoutActive :: "ms option \<Rightarrow> ms \<Rightarrow> bool" where
  "isLockoutActive lockedUntil now = (case lockedUntil of None \<Rightarrow> False | Some l \<Rightarrow> l > now)"

definition nextFailureAttemptState :: "attempt_view option \<Rightarrow> ms \<Rightarrow> attempt_state" where
  "nextFailureAttemptState current now =
    (let windowExpired = (case current of None \<Rightarrow> True
           | Some c \<Rightarrow> (case at_firstFailureAtMillis c of None \<Rightarrow> True | Some f \<Rightarrow> now - f > LOCKOUT_WINDOW_MS));
         failures = (if windowExpired then 1 else at_consecutiveFailures (the current) + 1);
         firstAt = (if windowExpired then Some now else at_firstFailureAtMillis (the current));
         priorLock = (if windowExpired then None else at_lockedUntilMillis (the current));
         lockedUntil = (if failures \<ge> LOCKOUT_THRESHOLD then Some (now + LOCKOUT_WINDOW_MS) else priorLock)
     in \<lparr>at_consecutiveFailures = failures, at_firstFailureAtMillis = firstAt,
         at_lockedUntilMillis = lockedUntil, at_lastFailureAtMillis = Some now\<rparr>)"

definition resetAttemptState :: attempt_state where
  "resetAttemptState = \<lparr>at_consecutiveFailures = 0, at_firstFailureAtMillis = None,
     at_lockedUntilMillis = None, at_lastFailureAtMillis = None\<rparr>"

definition shouldApplyAttemptReset :: "attempt_view option \<Rightarrow> attempt_view option \<Rightarrow> bool" where
  "shouldApplyAttemptReset observed latest =
    (let count = (\<lambda>v. case v of None \<Rightarrow> 0 | Some a \<Rightarrow> at_consecutiveFailures a);
         lock = (\<lambda>v. Option.bind v at_lockedUntilMillis)
     in if count latest > count observed then False
        else case lock latest of None \<Rightarrow> True
          | Some l \<Rightarrow> \<not> l > (case lock observed of None \<Rightarrow> 0 | Some ol \<Rightarrow> ol))"

section \<open>Binding and mint outcome\<close>

record binding_expected =
  be_audience :: audience
  be_protectedAction :: protected_action
  be_targetEntityId :: jsstr
  be_branchId :: jsstr
  be_commandId :: jsstr
  be_staffId :: jsstr
  be_authVersion :: jsnum
  be_approverStaffId :: "jsstr option"
  be_approverAuthVersion :: "jsnum option"

record approval_view =
  ar_audience :: jsval
  ar_protectedAction :: jsval
  ar_targetEntityId :: jsval
  ar_branchId :: jsval
  ar_commandId :: jsval
  ar_requesterStaffId :: jsval
  ar_approverStaffId :: jsval
  ar_executorStaffId :: jsval
  ar_securityModel :: jsval
  ar_authVersionAtIssue :: jsval
  ar_credentialVersionAtIssue :: jsval
  ar_consumedAt :: jsval
  ar_expiresAtMillis :: "ms option"
  ar_approverAuthVersionAtIssue :: jsval

text \<open>\<^verbatim>\<open>===\<close> between values read from a document: objects are never identical.\<close>

fun strict_eq :: "jsval \<Rightarrow> jsval \<Rightarrow> bool" where
  "strict_eq (JNum a) (JNum b) = js_eq a b"
| "strict_eq (JObj _) _ = False"
| "strict_eq (JArr _) _ = False"
| "strict_eq v w = (v = w)"

definition checkApprovalBinding :: "approval_view \<Rightarrow> binding_expected \<Rightarrow> bool" where
  "checkApprovalBinding r e =
    (if ar_securityModel r = JStr (model_name Reauth) then
       ar_audience r = JStr (audience_name (be_audience e))
       \<and> ar_protectedAction r = JStr (action_name (be_protectedAction e))
       \<and> ar_targetEntityId r = JStr (be_targetEntityId e)
       \<and> ar_branchId r = JStr (be_branchId e)
       \<and> ar_commandId r = JStr (be_commandId e)
       \<and> ar_requesterStaffId r = JStr (be_staffId e)
       \<and> ar_approverStaffId r = JStr (be_staffId e)
       \<and> ar_executorStaffId r = JStr (be_staffId e)
       \<and> strict_eq (ar_requesterStaffId r) (ar_approverStaffId r)
       \<and> strict_eq (ar_approverStaffId r) (ar_executorStaffId r)
       \<and> strict_eq (ar_authVersionAtIssue r) (JNum (be_authVersion e))
     else if ar_securityModel r = JStr (model_name Delegated) then
       ar_audience r = JStr (audience_name (be_audience e))
       \<and> ar_protectedAction r = JStr (action_name (be_protectedAction e))
       \<and> ar_targetEntityId r = JStr (be_targetEntityId e)
       \<and> ar_branchId r = JStr (be_branchId e)
       \<and> ar_commandId r = JStr (be_commandId e)
       \<and> ar_requesterStaffId r = JStr (be_staffId e)
       \<and> is_str (ar_approverStaffId r) \<and> ar_approverStaffId r \<noteq> JStr []
       \<and> ar_executorStaffId r = JStr (be_staffId e)
       \<and> \<not> strict_eq (ar_requesterStaffId r) (ar_approverStaffId r)
       \<and> strict_eq (ar_executorStaffId r) (ar_requesterStaffId r)
       \<and> strict_eq (ar_authVersionAtIssue r) (JNum (be_authVersion e))
       \<and> (case be_approverStaffId e of None \<Rightarrow> True | Some s \<Rightarrow> ar_approverStaffId r = JStr s)
       \<and> (case be_approverAuthVersion e of None \<Rightarrow> True
          | Some v \<Rightarrow> strict_eq (ar_approverAuthVersionAtIssue r) (JNum v))
     else False)"

datatype mint_outcome =
  NewMint | Idempotent | MintInvalidCredentials | MintReplayed | MintExpired | MintInvalidTarget

definition selectMintOutcome ::
  "bool \<Rightarrow> approval_view option \<Rightarrow> binding_expected \<Rightarrow> ms \<Rightarrow> mint_outcome" where
  "selectMintOutcome compareOk rec expected now =
    (if \<not> compareOk then MintInvalidCredentials
     else case rec of None \<Rightarrow> NewMint
     | Some r \<Rightarrow>
       if \<not> checkApprovalBinding r expected then MintInvalidTarget
       else if \<not> is_nullish (ar_consumedAt r) then MintReplayed
       else (case ar_expiresAtMillis r of None \<Rightarrow> MintExpired
         | Some x \<Rightarrow> if x \<le> now then MintExpired else Idempotent))"

record approval_params =
  bp_commandId :: jsstr
  bp_protectedAction :: protected_action
  bp_targetEntityId :: jsstr
  bp_branchId :: jsstr
  bp_staffId :: jsstr
  bp_approverRole :: jsstr
  bp_authVersionAtIssue :: jsnum
  bp_credentialVersionAtIssue :: jsnum
  bp_securityModel :: "security_model option"
  bp_approverStaffId :: "jsstr option"
  bp_approverAuthVersionAtIssue :: "jsnum option"

record approval_fields =
  af_schemaVersion :: int
  af_audience :: audience
  af_protectedAction :: protected_action
  af_targetEntityId :: jsstr
  af_branchId :: jsstr
  af_commandId :: jsstr
  af_requesterStaffId :: jsstr
  af_approverStaffId :: jsstr
  af_executorStaffId :: jsstr
  af_approverRole :: jsstr
  af_securityModel :: security_model
  af_authVersionAtIssue :: jsnum
  af_credentialVersionAtIssue :: jsnum
  af_approverAuthVersionAtIssue :: "jsnum option"

text \<open>\<open>None\<close> is the exception \<^verbatim>\<open>unregistered_protected_action\<close>.\<close>

definition buildApprovalDocument :: "approval_params \<Rightarrow> approval_fields option" where
  "buildApprovalDocument ps =
    (let model = (case bp_securityModel ps of None \<Rightarrow> Reauth | Some m \<Rightarrow> m);
         approver = (if model = Delegated
           then (case bp_approverStaffId ps of None \<Rightarrow> [] | Some s \<Rightarrow> s) else bp_staffId ps)
     in case audienceForProtectedAction (bp_protectedAction ps) of None \<Rightarrow> None
     | Some aud \<Rightarrow> Some \<lparr>af_schemaVersion = APPROVAL_SCHEMA_VERSION, af_audience = aud,
         af_protectedAction = bp_protectedAction ps, af_targetEntityId = bp_targetEntityId ps,
         af_branchId = bp_branchId ps, af_commandId = bp_commandId ps,
         af_requesterStaffId = bp_staffId ps, af_approverStaffId = approver,
         af_executorStaffId = bp_staffId ps, af_approverRole = bp_approverRole ps,
         af_securityModel = model, af_authVersionAtIssue = bp_authVersionAtIssue ps,
         af_credentialVersionAtIssue = bp_credentialVersionAtIssue ps,
         af_approverAuthVersionAtIssue =
           (if model = Delegated then Some (case bp_approverAuthVersionAtIssue ps of None \<Rightarrow> Fin 0 | Some v \<Rightarrow> v)
            else None)\<rparr>)"

definition approvalDocHasPinAdjacentField :: "(jsstr \<times> jsval) list \<Rightarrow> bool" where
  "approvalDocHasPinAdjacentField d \<longleftrightarrow>
    list_ex (\<lambda>k. map_of d k \<noteq> None) [js ''pin'', js ''pinHash'', js ''partialPin'', js ''pinDigest'', js ''pinPrefix'']"

definition deriveApprovalId :: "(jsstr \<Rightarrow> jsstr) \<Rightarrow> jsstr \<Rightarrow> jsstr" where
  "deriveApprovalId sha256Hex commandId = take 40 (sha256Hex (js ''managerApproval:v1:'' @ commandId))"

definition deriveAttemptScopeKey :: "(jsstr \<Rightarrow> jsstr) \<Rightarrow> jsstr \<Rightarrow> jsstr \<Rightarrow> jsstr" where
  "deriveAttemptScopeKey sha256Hex branchId staffId =
    take 40 (sha256Hex (js ''managerApprovalAttempts:v1:'' @ branchId @ js ''|'' @ staffId))"

section \<open>The handler\<close>

record audit_event =
  ae_eventType :: string
  ae_category :: string
  ae_staffId :: jsstr
  ae_branchId :: jsstr
  ae_commandId :: jsstr
  ae_createdAtMillis :: ms

record approval_db =
  db_users :: users
  db_credentials :: "jsstr \<Rightarrow> jsval option"
  db_rolePermissions :: read_result
  db_stagedHeads :: "jsstr \<Rightarrow> read_result"
  db_attempts :: "(jsstr, attempt_state) jsmap"
  db_approvals :: "(jsstr, approval_view) jsmap"
  db_audits :: "(jsstr, audit_event) jsmap"

text \<open>What the runtime supplies: SHA-256, number rendering, bcrypt's compare, the dummy hash, the time.\<close>

record approval_env =
  en_sha256Hex :: "jsstr \<Rightarrow> jsstr"
  en_fmt :: "jsnum \<Rightarrow> jsstr"
  en_comparePin :: "jsstr \<Rightarrow> jsstr \<Rightarrow> bool"
  en_dummyPinHash :: jsstr
  en_nowMillis :: ms

datatype approval_error =
  InvalidCredentials | NotAuthorized | BranchMismatch | InvalidTarget | Locked
  | ExpiredApproval | ReplayedApproval | SelfApprovalNotPermitted | ApproverNotEligible

datatype approval_response = Granted jsstr ms | Refused approval_error

definition attemptView :: "approval_db \<Rightarrow> jsstr \<Rightarrow> attempt_view option" where
  "attemptView db key = map_option attempt_view.truncate (map_of (db_attempts db) key)"

definition commitAttemptFailure :: "jsstr \<Rightarrow> ms \<Rightarrow> approval_db \<Rightarrow> approval_db" where
  "commitAttemptFailure key now db =
    db\<lparr>db_attempts := map_set key (nextFailureAttemptState (attemptView db key) now) (db_attempts db)\<rparr>"

definition commitAttemptResetIfCurrent :: "jsstr \<Rightarrow> attempt_view option \<Rightarrow> approval_db \<Rightarrow> approval_db" where
  "commitAttemptResetIfCurrent key observed db =
    (if \<not> shouldApplyAttemptReset observed (attemptView db key) then db
     else db\<lparr>db_attempts := map_set key resetAttemptState (db_attempts db)\<rparr>)"

definition writeAudit :: "approval_env \<Rightarrow> string \<Rightarrow> string \<Rightarrow> jsstr \<Rightarrow> jsstr \<Rightarrow> jsstr \<Rightarrow> approval_db \<Rightarrow> approval_db" where
  "writeAudit en eventType category staffId branchId commandId db =
    (let auditId = deriveApprovalId (en_sha256Hex en)
           (js eventType @ js '':'' @ commandId @ js '':'' @ en_fmt en (Fin (of_int (en_nowMillis en))) @ js '':'' @ staffId)
     in db\<lparr>db_audits := map_set auditId \<lparr>ae_eventType = eventType, ae_category = category,
          ae_staffId = staffId, ae_branchId = branchId, ae_commandId = commandId,
          ae_createdAtMillis = en_nowMillis en\<rparr> (db_audits db)\<rparr>)"

definition liveRole :: "jsval \<Rightarrow> jsstr option" where
  "liveRole user = (case doc_field user ''role'' of JStr r \<Rightarrow> Some r | _ \<Rightarrow> None)"

definition liveBranchIds :: "jsval \<Rightarrow> jsstr list" where
  "liveBranchIds user = (case doc_field user ''branchIds'' of
      JArr vs \<Rightarrow> concat (map (\<lambda>v. case v of JStr s \<Rightarrow> [s] | _ \<Rightarrow> []) vs) | _ \<Rightarrow> [])"

definition hasLiveBranchAccess :: "jsstr list \<Rightarrow> jsstr \<Rightarrow> bool" where
  "hasLiveBranchAccess branchIds branchId \<longleftrightarrow> js ''ALL'' \<in> set branchIds \<or> branchId \<in> set branchIds"

definition tokenHasPermission :: "auth_like option \<Rightarrow> jsstr \<Rightarrow> bool" where
  "tokenHasPermission auth perm = (case auth of None \<Rightarrow> False
     | Some a \<Rightarrow> (case doc_field (al_token a) ''permissions'' of JArr vs \<Rightarrow> JStr perm \<in> set vs | _ \<Rightarrow> False))"

record credential =
  cr_pinHash :: jsstr
  cr_credentialVersion :: jsnum
  cr_credentialState :: jsstr
  cr_disabled :: bool

definition isCredentialState :: "jsval \<Rightarrow> bool" where
  "isCredentialState v \<longleftrightarrow> v = JStr (js ''backfilled_not_trusted'')
     \<or> v = JStr (js ''readers_cut_over_rotation_required'') \<or> v = JStr (js ''rotated_authoritative'')"

definition readUserCredential :: "approval_db \<Rightarrow> jsstr \<Rightarrow> credential option" where
  "readUserCredential db userId = (case db_credentials db userId of None \<Rightarrow> None
     | Some d \<Rightarrow> (case doc_field d ''pinHash'' of
         JStr h \<Rightarrow> if h = [] then None else Some
           \<lparr>cr_pinHash = h,
            cr_credentialVersion = (case doc_field d ''credentialVersion'' of JNum n \<Rightarrow> n | _ \<Rightarrow> Fin 0),
            cr_credentialState = (case doc_field d ''credentialState'' of
               JStr s \<Rightarrow> if isCredentialState (JStr s) then s else js ''backfilled_not_trusted''
             | _ \<Rightarrow> js ''backfilled_not_trusted''),
            cr_disabled = (doc_field d ''disabled'' = JBool True)\<rparr>
       | _ \<Rightarrow> None))"

definition isUsableForLogin :: "credential option \<Rightarrow> bool" where
  "isUsableForLogin cred = (case cred of None \<Rightarrow> False | Some c \<Rightarrow> \<not> cr_disabled c \<and> cr_pinHash c \<noteq> [])"

definition shouldUseRealPinCompare :: "bool \<Rightarrow> bool \<Rightarrow> bool \<Rightarrow> jsstr option \<Rightarrow> jsstr \<Rightarrow> bool" where
  "shouldUseRealPinCompare credentialExists usableForLogin disabled credentialState pin \<longleftrightarrow>
    credentialExists \<and> usableForLogin \<and> \<not> disabled
    \<and> credentialState = Some (js ''rotated_authoritative'')
    \<and> isLiveManagerApprovalPinCompareEligible pin"

text \<open>The requester checks M4' to M5 and the sale permissions: \<open>Some\<close> is the code refused with.\<close>

definition requester_refusal :: "approval_db \<Rightarrow> auth_like option \<Rightarrow> approval_request \<Rightarrow> jsval \<Rightarrow> approval_error option" where
  "requester_refusal db auth v user =
    (let delegated = (rq_securityModel v = Delegated);
         voidAction = isPrivilegedActionId (rq_protectedAction v);
         returnAction = isSaleReturnActionId (rq_protectedAction v);
         saleLinked = (voidAction \<or> returnAction);
         role = liveRole user; branchIds = liveBranchIds user;
         requesterRoleOk = (if saleLinked
            then role = Some (js ''admin'') \<or> role = Some (js ''manager'') \<or> role = Some (js ''staff'')
            else if delegated then isModel2RequesterRole role
            else role = Some (js ''admin'') \<or> role = Some (js ''manager''));
         requesterBranchOk = (if saleLinked
            then (if role = Some (js ''admin'') then hasLiveBranchAccess branchIds (rq_branchId v)
                  else requesterBranchEligible branchIds (rq_branchId v))
            else if delegated then requesterBranchEligible branchIds (rq_branchId v)
            else hasLiveBranchAccess branchIds (rq_branchId v))
     in if \<not> requesterRoleOk then Some NotAuthorized
        else if \<not> requesterBranchOk then Some BranchMismatch
        else if voidAction \<and> \<not> tokenHasPermission auth PRIVILEGED_REQUESTER_PERMISSION then Some NotAuthorized
        else if returnAction \<and> \<not> tokenHasPermission auth SALE_RETURN_REQUESTER_PERMISSION then Some NotAuthorized
        else if voidAction \<and> \<not> liveRoleHoldsVoidRequesterPermission (db_rolePermissions db) (db_stagedHeads db) role
          then Some NotAuthorized
        else if returnAction \<and> \<not> liveRoleHoldsReturnRequesterPermission (db_rolePermissions db) (db_stagedHeads db) role
          then Some NotAuthorized
        else None)"

text \<open>The named approver of the delegated model: eligible with role and authority version, or refused.\<close>

definition approver_check :: "approval_db \<Rightarrow> approval_request \<Rightarrow> jsstr \<Rightarrow> (jsstr \<times> jsnum) option" where
  "approver_check db v approverId = (case db_users db approverId of None \<Rightarrow> None
     | Some approver \<Rightarrow>
       let approverRole = liveRole approver in
       if \<not> (doc_field approver ''isActive'' = JBool True \<and> is_nullish (doc_field approver ''deletedAt'')
              \<and> isModel2ApproverRole approverRole
              \<and> approverBranchEligible approverRole (liveBranchIds approver) (rq_branchId v)) then None
       else if isPrivilegedActionId (rq_protectedAction v)
            \<and> \<not> liveRoleHoldsPosVoid (db_rolePermissions db) (db_stagedHeads db) approverRole then None
       else if isSaleReturnActionId (rq_protectedAction v)
            \<and> \<not> liveRoleHoldsPosReturn (db_rolePermissions db) (db_stagedHeads db) approverRole then None
       else Some (the approverRole, finite_or (Fin 0) (doc_field approver ''authVersion'')))"

definition view_of_fields :: "approval_fields \<Rightarrow> ms \<Rightarrow> approval_view" where
  "view_of_fields f expiresAt =
    \<lparr>ar_audience = JStr (audience_name (af_audience f)),
     ar_protectedAction = JStr (action_name (af_protectedAction f)),
     ar_targetEntityId = JStr (af_targetEntityId f), ar_branchId = JStr (af_branchId f),
     ar_commandId = JStr (af_commandId f), ar_requesterStaffId = JStr (af_requesterStaffId f),
     ar_approverStaffId = JStr (af_approverStaffId f), ar_executorStaffId = JStr (af_executorStaffId f),
     ar_securityModel = JStr (model_name (af_securityModel f)),
     ar_authVersionAtIssue = JNum (af_authVersionAtIssue f),
     ar_credentialVersionAtIssue = JNum (af_credentialVersionAtIssue f),
     ar_consumedAt = JNull, ar_expiresAtMillis = Some expiresAt,
     ar_approverAuthVersionAtIssue = (case af_approverAuthVersionAtIssue f of None \<Rightarrow> JUndef | Some n \<Rightarrow> JNum n)\<rparr>"

text \<open>M10: one transaction; \<open>None\<close> is the exception of the document builder.\<close>

definition mint_transaction ::
  "approval_env \<Rightarrow> jsstr \<Rightarrow> jsstr \<Rightarrow> approval_params \<Rightarrow> attempt_view option \<Rightarrow> approval_db \<Rightarrow> approval_db option" where
  "mint_transaction en approvalId key ps observed db =
    (case buildApprovalDocument ps of None \<Rightarrow> None | Some doc \<Rightarrow>
      let now = en_nowMillis en;
          auditId = deriveApprovalId (en_sha256Hex en)
            (js ''manager_approval_granted:new:'' @ bp_commandId ps @ js '':'' @ en_fmt en (Fin (of_int now)) @ js '':'' @ bp_staffId ps);
          db1 = (if map_of (db_approvals db) approvalId = None
             then db\<lparr>db_approvals := map_set approvalId (view_of_fields doc (now + APPROVAL_TTL_MS)) (db_approvals db)\<rparr>
             else db);
          db2 = commitAttemptResetIfCurrent key observed db1
      in Some (if map_of (db_audits db2) auditId = None
        then db2\<lparr>db_audits := map_set auditId \<lparr>ae_eventType = ''manager_approval_granted'', ae_category = ''granted'',
            ae_staffId = bp_staffId ps, ae_branchId = bp_branchId ps, ae_commandId = bp_commandId ps,
            ae_createdAtMillis = now\<rparr> (db_audits db2)\<rparr>
        else db2))"

text \<open>From the lockout check on (M6 to M10): the approver, the one PIN compare, the expected binding,
  and the outcome.\<close>

definition stage_approver :: "approval_db \<Rightarrow> jsstr option \<Rightarrow> approval_request \<Rightarrow> (jsstr \<times> jsnum) option" where
  "stage_approver db role v =
    (if rq_securityModel v = Delegated then approver_check db v (the (rq_approverStaffId v))
     else Some (case role of Some r \<Rightarrow> r | None \<Rightarrow> [], Fin 0))"

definition subject_of :: "approval_request \<Rightarrow> jsstr \<Rightarrow> jsstr" where
  "subject_of v staffId = (if rq_securityModel v = Delegated then the (rq_approverStaffId v) else staffId)"

definition stage_compare :: "approval_env \<Rightarrow> approval_db \<Rightarrow> jsstr \<Rightarrow> jsstr \<Rightarrow> bool" where
  "stage_compare en db subject pin =
    (let cred = readUserCredential db subject;
         useReal = shouldUseRealPinCompare (cred \<noteq> None) (isUsableForLogin cred)
           (case cred of Some c \<Rightarrow> cr_disabled c | None \<Rightarrow> False) (map_option cr_credentialState cred) pin
     in en_comparePin en pin (if useReal then cr_pinHash (the cred) else en_dummyPinHash en))"

definition stage_expected :: "jsstr \<Rightarrow> jsnum \<Rightarrow> jsnum \<Rightarrow> approval_request \<Rightarrow> audience \<Rightarrow> binding_expected" where
  "stage_expected staffId version approverVersion v aud =
    \<lparr>be_audience = aud, be_protectedAction = rq_protectedAction v,
     be_targetEntityId = rq_targetEntityId v, be_branchId = rq_branchId v,
     be_commandId = rq_commandId v, be_staffId = staffId, be_authVersion = version,
     be_approverStaffId = (if rq_securityModel v = Delegated then rq_approverStaffId v else None),
     be_approverAuthVersion = (if rq_securityModel v = Delegated then Some approverVersion else None)\<rparr>"

definition stage_params ::
  "approval_db \<Rightarrow> jsstr \<Rightarrow> jsnum \<Rightarrow> jsstr \<Rightarrow> jsnum \<Rightarrow> approval_request \<Rightarrow> approval_params" where
  "stage_params db staffId version approverRole approverVersion v =
    \<lparr>bp_commandId = rq_commandId v, bp_protectedAction = rq_protectedAction v,
     bp_targetEntityId = rq_targetEntityId v, bp_branchId = rq_branchId v, bp_staffId = staffId,
     bp_approverRole = approverRole, bp_authVersionAtIssue = version,
     bp_credentialVersionAtIssue = (case readUserCredential db (subject_of v staffId) of
        Some c \<Rightarrow> cr_credentialVersion c | None \<Rightarrow> Fin 0),
     bp_securityModel = (if rq_securityModel v = Delegated then Some Delegated else None),
     bp_approverStaffId = (if rq_securityModel v = Delegated then rq_approverStaffId v else None),
     bp_approverAuthVersionAtIssue = (if rq_securityModel v = Delegated then Some approverVersion else None)\<rparr>"

definition credential_stage ::
  "approval_env \<Rightarrow> jsstr \<Rightarrow> jsnum \<Rightarrow> jsstr option \<Rightarrow> approval_request \<Rightarrow> approval_db
   \<Rightarrow> (approval_response \<times> approval_db) option" where
  "credential_stage en staffId version role v db =
    (let now = en_nowMillis en;
         key = deriveAttemptScopeKey (en_sha256Hex en) (rq_branchId v) staffId;
         observed = attemptView db key;
         audit = (\<lambda>t c d. writeAudit en t c staffId (rq_branchId v) (rq_commandId v) d);
         approvalId = deriveApprovalId (en_sha256Hex en) (rq_commandId v);
         rec = map_of (db_approvals db) approvalId;
         expiresAt = now + APPROVAL_TTL_MS
     in if isLockoutActive (Option.bind observed at_lockedUntilMillis) now
        then Some (Refused Locked, audit ''manager_approval_failed'' ''locked'' db)
        else case stage_approver db role v of
          None \<Rightarrow> Some (Refused ApproverNotEligible,
            audit ''manager_approval_failed'' ''authorization'' (commitAttemptFailure key now db))
        | Some (approverRole, approverVersion) \<Rightarrow>
          (case audienceForProtectedAction (rq_protectedAction v) of
             None \<Rightarrow> Some (Refused InvalidTarget, db)
           | Some aud \<Rightarrow>
             (case selectMintOutcome (stage_compare en db (subject_of v staffId) (rq_pin v)) rec
                  (stage_expected staffId version approverVersion v aud) now of
                MintInvalidCredentials \<Rightarrow> Some (Refused InvalidCredentials,
                  audit ''manager_approval_failed'' ''credential'' (commitAttemptFailure key now db))
              | MintReplayed \<Rightarrow> Some (Refused ReplayedApproval,
                  audit ''manager_approval_denied_replayed'' ''denied_replayed'' (commitAttemptResetIfCurrent key observed db))
              | MintExpired \<Rightarrow> Some (Refused ExpiredApproval,
                  audit ''manager_approval_denied_expired'' ''denied_expired'' (commitAttemptResetIfCurrent key observed db))
              | MintInvalidTarget \<Rightarrow> Some (Refused InvalidTarget,
                  audit ''manager_approval_denied_binding_mismatch'' ''denied_binding_mismatch''
                    (commitAttemptResetIfCurrent key observed db))
              | Idempotent \<Rightarrow> Some (Granted approvalId
                    (case Option.bind rec ar_expiresAtMillis of Some x \<Rightarrow> x | None \<Rightarrow> expiresAt),
                  audit ''manager_approval_granted'' ''granted'' (commitAttemptResetIfCurrent key observed db))
              | NewMint \<Rightarrow> map_option (\<lambda>db'. (Granted approvalId expiresAt, db'))
                  (mint_transaction en approvalId key
                    (stage_params db staffId version approverRole approverVersion v) observed db))))"

text \<open>\<open>Inl\<close> is an exception, which the callable turns into the error \<^verbatim>\<open>internal\<close>.\<close>

definition performRequestManagerApproval ::
  "approval_env \<Rightarrow> jsval \<Rightarrow> auth_like option \<Rightarrow> approval_db \<Rightarrow> unit + (approval_response \<times> approval_db)" where
  "performRequestManagerApproval en req auth db =
    (if auth = None then Inr (Refused NotAuthorized, db)
     else case evaluateFreshPrivilegedAuthority (db_users db) auth of
       Inl _ \<Rightarrow> Inr (Refused NotAuthorized, db)
     | Inr (staffId, liveAuthVersion) \<Rightarrow>
       (case validateManagerApprovalRequest (en_fmt en) req of
          Inl _ \<Rightarrow> Inl ()
        | Inr None \<Rightarrow> Inr (Refused InvalidTarget, db)
        | Inr (Some v) \<Rightarrow>
          let delegated = (rq_securityModel v = Delegated);
              saleLinked = (isPrivilegedActionId (rq_protectedAction v) \<or> isSaleReturnActionId (rq_protectedAction v))
          in if delegated \<and> rq_approverStaffId v = Some staffId then Inr (Refused SelfApprovalNotPermitted, db)
             else if saleLinked \<and> \<not> delegated then Inr (Refused SelfApprovalNotPermitted, db)
             else case db_users db staffId of None \<Rightarrow> Inr (Refused NotAuthorized, db)
             | Some user \<Rightarrow>
               (case requester_refusal db auth v user of
                  Some code \<Rightarrow> Inr (Refused code,
                    writeAudit en ''manager_approval_failed'' ''authorization'' staffId (rq_branchId v) (rq_commandId v)
                      (commitAttemptFailure (deriveAttemptScopeKey (en_sha256Hex en) (rq_branchId v) staffId)
                        (en_nowMillis en) db))
                | None \<Rightarrow> (case credential_stage en staffId liveAuthVersion (liveRole user) v db of
                    Some r \<Rightarrow> Inr r | None \<Rightarrow> Inl ()))))"

section \<open>What each step touches\<close>

text \<open>The handler writes attempts, approvals and audits only; the rest of the database is static.\<close>

definition same_static :: "approval_db \<Rightarrow> approval_db \<Rightarrow> bool" where
  "same_static a b \<longleftrightarrow> db_users a = db_users b \<and> db_credentials a = db_credentials b
     \<and> db_rolePermissions a = db_rolePermissions b \<and> db_stagedHeads a = db_stagedHeads b"

lemma writeAudit_fields [simp]:
  "db_attempts (writeAudit en t c s b m db) = db_attempts db"
  "db_approvals (writeAudit en t c s b m db) = db_approvals db"
  "db_users (writeAudit en t c s b m db) = db_users db"
  "db_credentials (writeAudit en t c s b m db) = db_credentials db"
  "db_rolePermissions (writeAudit en t c s b m db) = db_rolePermissions db"
  "db_stagedHeads (writeAudit en t c s b m db) = db_stagedHeads db"
  by (simp_all add: writeAudit_def Let_def)

lemma commit_fields [simp]:
  "db_approvals (commitAttemptFailure k now db) = db_approvals db"
  "db_users (commitAttemptFailure k now db) = db_users db"
  "db_credentials (commitAttemptFailure k now db) = db_credentials db"
  "db_rolePermissions (commitAttemptFailure k now db) = db_rolePermissions db"
  "db_stagedHeads (commitAttemptFailure k now db) = db_stagedHeads db"
  "db_approvals (commitAttemptResetIfCurrent k ob db) = db_approvals db"
  "db_users (commitAttemptResetIfCurrent k ob db) = db_users db"
  "db_credentials (commitAttemptResetIfCurrent k ob db) = db_credentials db"
  "db_rolePermissions (commitAttemptResetIfCurrent k ob db) = db_rolePermissions db"
  "db_stagedHeads (commitAttemptResetIfCurrent k ob db) = db_stagedHeads db"
  by (simp_all add: commitAttemptFailure_def commitAttemptResetIfCurrent_def)

lemma reset_own_view: "shouldApplyAttemptReset ob ob"
  by (auto simp: shouldApplyAttemptReset_def Let_def split: option.splits)

lemma attemptView_cong: "db_attempts a = db_attempts b \<Longrightarrow> attemptView a k = attemptView b k"
  by (simp add: attemptView_def)

lemma reset_view:
  "attemptView db k = ob \<Longrightarrow> attemptView (commitAttemptResetIfCurrent k ob db) k = Some (attempt_view.truncate resetAttemptState)"
  by (simp add: commitAttemptResetIfCurrent_def reset_own_view attemptView_def)

lemma mint_transaction_result:
  assumes "mint_transaction en aid key ps ob db = Some db'" "attemptView db key = ob"
  shows "same_static db db'"
    "attemptView db' key = Some (attempt_view.truncate resetAttemptState)"
    "\<exists>fs. buildApprovalDocument ps = Some fs \<and> db_approvals db' =
      (if map_of (db_approvals db) aid = None
       then map_set aid (view_of_fields fs (en_nowMillis en + APPROVAL_TTL_MS)) (db_approvals db)
       else db_approvals db)"
proof -
  obtain fs where fs: "buildApprovalDocument ps = Some fs"
    using assms(1) by (auto simp: mint_transaction_def split: option.splits)
  define db1 where "db1 = (if map_of (db_approvals db) aid = None
    then db\<lparr>db_approvals := map_set aid (view_of_fields fs (en_nowMillis en + APPROVAL_TTL_MS)) (db_approvals db)\<rparr>
    else db)"
  define db2 where "db2 = commitAttemptResetIfCurrent key ob db1"
  have db': "db_attempts db' = db_attempts db2" "db_approvals db' = db_approvals db2" "same_static db2 db'"
    using assms(1) fs by (auto simp: mint_transaction_def Let_def db1_def db2_def same_static_def split: if_splits)
  have v1: "attemptView db1 key = ob" using assms(2) by (simp add: db1_def attemptView_def)
  show "same_static db db'" using db'(3) by (simp add: db2_def same_static_def db1_def split: if_splits)
  show "attemptView db' key = Some (attempt_view.truncate resetAttemptState)"
    using reset_view [OF v1] attemptView_cong [OF db'(1)] by (simp add: db2_def)
  show "\<exists>fs. buildApprovalDocument ps = Some fs \<and> db_approvals db' =
      (if map_of (db_approvals db) aid = None
       then map_set aid (view_of_fields fs (en_nowMillis en + APPROVAL_TTL_MS)) (db_approvals db)
       else db_approvals db)"
    using fs by (simp add: db'(2) db2_def db1_def)
qed

lemma static_checks:
  assumes "same_static a b"
  shows "requester_refusal a auth v user = requester_refusal b auth v user"
    "approver_check a v x = approver_check b v x" "readUserCredential a x = readUserCredential b x"
    "db_users a = db_users b"
proof -
  have e: "db_users a = db_users b" "db_credentials a = db_credentials b"
    "db_rolePermissions a = db_rolePermissions b" "db_stagedHeads a = db_stagedHeads b"
    using assms by (simp_all add: same_static_def)
  show "requester_refusal a auth v user = requester_refusal b auth v user"
    unfolding requester_refusal_def e ..
  show "approver_check a v x = approver_check b v x" unfolding approver_check_def e ..
  show "readUserCredential a x = readUserCredential b x" unfolding readUserCredential_def e ..
  show "db_users a = db_users b" by (rule e)
qed

definition pin_proved :: "approval_env \<Rightarrow> approval_db \<Rightarrow> jsstr \<Rightarrow> jsstr \<Rightarrow> bool" where
  "pin_proved en db subject pin \<longleftrightarrow>
    (\<exists>c. readUserCredential db subject = Some c \<and> \<not> cr_disabled c
       \<and> cr_credentialState c = js ''rotated_authoritative'' \<and> isLegacyPin4Shape pin
       \<and> en_comparePin en pin (cr_pinHash c))"

lemma audience_total: "\<exists>aud. audienceForProtectedAction a = Some aud"
  by (cases a) (simp_all add: audienceForProtectedAction_def isPrivilegedActionId_def PRIVILEGED_ACTION_IDS_def
      isSaleReturnActionId_def SHIFT_CLOSE_PROTECTED_ACTIONS_def)

lemma stage_compare_proved:
  assumes "\<And>p. \<not> en_comparePin en p (en_dummyPinHash en)"
  shows "stage_compare en db subject pin \<longleftrightarrow> pin_proved en db subject pin"
proof -
  have "cr_pinHash c \<noteq> []" if "readUserCredential db subject = Some c" for c
    using that by (auto simp: readUserCredential_def split: option.splits jsval.splits if_splits)
  then show ?thesis
    using assms
    by (auto simp: stage_compare_def pin_proved_def shouldUseRealPinCompare_def isUsableForLogin_def
        isLiveManagerApprovalPinCompareEligible_def Let_def split: option.splits)
qed

lemma credential_stage_granted:
  assumes "credential_stage en staffId version role v db = Some (Granted aid x, db')"
  obtains approverRole approverVersion aud key where
    "key = deriveAttemptScopeKey (en_sha256Hex en) (rq_branchId v) staffId"
    "\<not> isLockoutActive (Option.bind (attemptView db key) at_lockedUntilMillis) (en_nowMillis en)"
    "stage_approver db role v = Some (approverRole, approverVersion)"
    "audienceForProtectedAction (rq_protectedAction v) = Some aud"
    "stage_compare en db (subject_of v staffId) (rq_pin v)"
    "aid = deriveApprovalId (en_sha256Hex en) (rq_commandId v)"
    "same_static db db'" "attemptView db' key = Some (attempt_view.truncate resetAttemptState)"
    "(\<exists>r. map_of (db_approvals db) aid = Some r
        \<and> checkApprovalBinding r (stage_expected staffId version approverVersion v aud)
        \<and> is_nullish (ar_consumedAt r) \<and> ar_expiresAtMillis r = Some x \<and> x > en_nowMillis en
        \<and> db_approvals db' = db_approvals db)
     \<or> (map_of (db_approvals db) aid = None \<and> x = en_nowMillis en + APPROVAL_TTL_MS
        \<and> (\<exists>fs. db_approvals db' = map_set aid (view_of_fields fs x) (db_approvals db)
           \<and> buildApprovalDocument (stage_params db staffId version approverRole approverVersion v) = Some fs))"
proof -
  define key where "key = deriveAttemptScopeKey (en_sha256Hex en) (rq_branchId v) staffId"
  note st = assms(1)[unfolded credential_stage_def Let_def, folded key_def]
  have notlocked: "\<not> isLockoutActive (Option.bind (attemptView db key) at_lockedUntilMillis) (en_nowMillis en)"
    using st by (auto split: if_splits)
  obtain ar av where ap: "stage_approver db role v = Some (ar, av)"
    using st notlocked by (auto split: option.splits)
  obtain aud where aud: "audienceForProtectedAction (rq_protectedAction v) = Some aud"
    using audience_total by blast
  let ?e = "stage_expected staffId version av v aud"
  let ?cmp = "stage_compare en db (subject_of v staffId) (rq_pin v)"
  let ?aid = "deriveApprovalId (en_sha256Hex en) (rq_commandId v)"
  note st' = st[unfolded if_not_P [OF notlocked] ap aud option.case prod.case]
  have cmp: "?cmp" and aid: "aid = ?aid"
    using st' by (auto simp: selectMintOutcome_def split: mint_outcome.splits option.splits if_splits)
  show thesis
  proof (cases "map_of (db_approvals db) ?aid")
    case (Some r)
    then have "selectMintOutcome ?cmp (map_of (db_approvals db) ?aid) ?e (en_nowMillis en) = Idempotent"
      using st' cmp by (auto simp: selectMintOutcome_def split: mint_outcome.splits option.splits if_splits)
    then have i: "checkApprovalBinding r ?e" "is_nullish (ar_consumedAt r)"
      "\<exists>y. ar_expiresAtMillis r = Some y \<and> y > en_nowMillis en"
      using Some cmp by (auto simp: selectMintOutcome_def split: option.splits if_splits)
    then obtain y where y: "ar_expiresAtMillis r = Some y" "y > en_nowMillis en" by blast
    have r: "x = y" "db' = writeAudit en ''manager_approval_granted'' ''granted'' staffId (rq_branchId v) (rq_commandId v)
        (commitAttemptResetIfCurrent key (attemptView db key) db)"
      using st' Some cmp i y by (simp_all add: selectMintOutcome_def)
    show thesis
      using that [OF key_def notlocked ap aud cmp aid] Some i y r(1) aid
        reset_view [of db key "attemptView db key"]
      unfolding r(2) by (simp add: same_static_def attemptView_cong [of "writeAudit _ _ _ _ _ _ _"])
  next
    case None
    then obtain "mint_transaction en ?aid key (stage_params db staffId version ar av v) (attemptView db key) db = Some db'"
      and x: "x = en_nowMillis en + APPROVAL_TTL_MS"
      using st' cmp by (auto simp: selectMintOutcome_def)
    from mint_transaction_result [OF this(1) refl] None x
    show thesis using that [OF key_def notlocked ap aud cmp aid] aid by auto
  qed
qed

lemma perform_granted:
  assumes "performRequestManagerApproval en req auth db = Inr (Granted aid x, db')"
  obtains staffId version v user where
    "auth \<noteq> None" "evaluateFreshPrivilegedAuthority (db_users db) auth = Inr (staffId, version)"
    "validateManagerApprovalRequest (en_fmt en) req = Inr (Some v)"
    "\<not> (rq_securityModel v = Delegated \<and> rq_approverStaffId v = Some staffId)"
    "isPrivilegedActionId (rq_protectedAction v) \<or> isSaleReturnActionId (rq_protectedAction v) \<Longrightarrow> rq_securityModel v = Delegated"
    "db_users db staffId = Some user" "requester_refusal db auth v user = None"
    "credential_stage en staffId version (liveRole user) v db = Some (Granted aid x, db')"
  using assms unfolding performRequestManagerApproval_def Let_def
  by (auto split: if_splits sum.splits option.splits prod.splits)

lemma validated_request:
  assumes "validateManagerApprovalRequest fmt req = Inr (Some v)"
  shows "rq_securityModel v = Delegated \<longleftrightarrow> rq_approverStaffId v \<noteq> None"
    "rq_approverStaffId v \<noteq> Some []" "rq_commandId v \<noteq> []"
  using assms unfolding validateManagerApprovalRequest_def
  by (auto simp: and_then_Inr_iff Let_def split: if_splits option.splits security_model.splits)

lemma fresh_version_finite:
  "evaluateFreshPrivilegedAuthority users auth = Inr (s, version) \<Longrightarrow> js_eq version version"
  by (auto simp: evaluateFreshPrivilegedAuthority_def Let_def finite_or_def js_eq_def
      split: option.splits if_splits jsval.splits)

lemma stage_approver_finite: "stage_approver db role v = Some (r, av) \<Longrightarrow> js_eq av av"
  by (auto simp: stage_approver_def approver_check_def finite_or_def Let_def js_eq_def
      split: option.splits if_splits jsval.splits)

lemma action_name_inj: "action_name a = action_name b \<Longrightarrow> a = b"
  by (cases a; cases b) simp_all

lemma audience_name_inj: "audience_name a = audience_name b \<Longrightarrow> a = b"
  by (cases a; cases b) simp_all

text \<open>The document a mint builds satisfies the binding the mint expected.\<close>

lemma minted_binding:
  assumes "buildApprovalDocument (stage_params db staffId version ar av v) = Some fs"
    and "audienceForProtectedAction (rq_protectedAction v) = Some aud"
    and "js_eq version version" "js_eq av av"
    and "rq_securityModel v = Delegated \<longleftrightarrow> rq_approverStaffId v \<noteq> None"
    and "rq_approverStaffId v \<noteq> Some []" "rq_approverStaffId v \<noteq> Some staffId"
  shows "checkApprovalBinding (view_of_fields fs x) (stage_expected staffId version av v aud)"
  using assms
  by (cases "rq_securityModel v")
    (auto simp: buildApprovalDocument_def stage_params_def stage_expected_def view_of_fields_def
      checkApprovalBinding_def Let_def)

section \<open>Lockout as a machine\<close>

definition fail_at :: "attempt_view option \<Rightarrow> ms \<Rightarrow> attempt_view option" where
  "fail_at s t = Some (attempt_view.truncate (nextFailureAttemptState s t))"

lemma fail_at_simps:
  "fail_at None t = Some \<lparr>at_consecutiveFailures = 1, at_firstFailureAtMillis = Some t,
     at_lockedUntilMillis = None\<rparr>"
  "at_firstFailureAtMillis c = Some f \<Longrightarrow> t - f \<le> LOCKOUT_WINDOW_MS \<Longrightarrow>
   fail_at (Some c) t = Some \<lparr>at_consecutiveFailures = at_consecutiveFailures c + 1,
     at_firstFailureAtMillis = Some f,
     at_lockedUntilMillis = (if at_consecutiveFailures c + 1 \<ge> LOCKOUT_THRESHOLD
        then Some (t + LOCKOUT_WINDOW_MS) else at_lockedUntilMillis c)\<rparr>"
  by (simp_all add: fail_at_def nextFailureAttemptState_def Let_def attempt_view.truncate_def LOCKOUT_THRESHOLD_def)

lemma fail_run:
  assumes "list_all (\<lambda>t. t - f \<le> LOCKOUT_WINDOW_MS) ts"
  shows "foldl fail_at (Some \<lparr>at_consecutiveFailures = n, at_firstFailureAtMillis = Some f,
      at_lockedUntilMillis = l\<rparr>) ts
    = Some \<lparr>at_consecutiveFailures = n + int (length ts), at_firstFailureAtMillis = Some f,
        at_lockedUntilMillis = (if ts \<noteq> [] \<and> n + int (length ts) \<ge> LOCKOUT_THRESHOLD
          then Some (last ts + LOCKOUT_WINDOW_MS) else l)\<rparr>"
  using assms
proof (induction ts arbitrary: n l)
  case (Cons t ts)
  then show ?case by (auto simp: fail_at_simps)
qed simp

section \<open>Properties\<close>

text \<open>C11. An approval is granted only on proof. If no PIN matches the fixed dummy hash: the session is
  fresh, the request valid, the requester not locked and passing every requester check, and
  the presented four-digit PIN matches the stored hash of an enabled, rotated credential,
  that of the requester for re-authentication, and for the delegated model that of a
  different, eligible approver. Sale-linked actions are granted only in the delegated model.\<close>

theorem grant_needs_proof:
  assumes "\<And>p. \<not> en_comparePin en p (en_dummyPinHash en)"
    and "performRequestManagerApproval en req auth db = Inr (Granted aid x, db')"
  shows "\<exists>staffId version v user.
    evaluateFreshPrivilegedAuthority (db_users db) auth = Inr (staffId, version)
    \<and> validateManagerApprovalRequest (en_fmt en) req = Inr (Some v)
    \<and> db_users db staffId = Some user \<and> requester_refusal db auth v user = None
    \<and> \<not> isLockoutActive (Option.bind (attemptView db
          (deriveAttemptScopeKey (en_sha256Hex en) (rq_branchId v) staffId)) at_lockedUntilMillis) (en_nowMillis en)
    \<and> pin_proved en db (subject_of v staffId) (rq_pin v)
    \<and> (if rq_securityModel v = Delegated
       then subject_of v staffId \<noteq> staffId \<and> approver_check db v (subject_of v staffId) \<noteq> None
       else subject_of v staffId = staffId
         \<and> \<not> isPrivilegedActionId (rq_protectedAction v) \<and> \<not> isSaleReturnActionId (rq_protectedAction v))"
proof -
  from perform_granted [OF assms(2)] obtain staffId version v user where p:
    "evaluateFreshPrivilegedAuthority (db_users db) auth = Inr (staffId, version)"
    "validateManagerApprovalRequest (en_fmt en) req = Inr (Some v)"
    "\<not> (rq_securityModel v = Delegated \<and> rq_approverStaffId v = Some staffId)"
    "isPrivilegedActionId (rq_protectedAction v) \<or> isSaleReturnActionId (rq_protectedAction v) \<Longrightarrow> rq_securityModel v = Delegated"
    "db_users db staffId = Some user" "requester_refusal db auth v user = None"
    "credential_stage en staffId version (liveRole user) v db = Some (Granted aid x, db')" by metis
  from credential_stage_granted [OF p(7)] obtain ar av where c:
    "\<not> isLockoutActive (Option.bind (attemptView db
        (deriveAttemptScopeKey (en_sha256Hex en) (rq_branchId v) staffId)) at_lockedUntilMillis) (en_nowMillis en)"
    "stage_approver db (liveRole user) v = Some (ar, av)"
    "stage_compare en db (subject_of v staffId) (rq_pin v)" by metis
  have proved: "pin_proved en db (subject_of v staffId) (rq_pin v)"
    using c(3) stage_compare_proved [OF assms(1)] by simp
  show ?thesis
  proof (intro exI conjI)
    show "if rq_securityModel v = Delegated
       then subject_of v staffId \<noteq> staffId \<and> approver_check db v (subject_of v staffId) \<noteq> None
       else subject_of v staffId = staffId
         \<and> \<not> isPrivilegedActionId (rq_protectedAction v) \<and> \<not> isSaleReturnActionId (rq_protectedAction v)"
      using p(3,4) c(2) validated_request [OF p(2)] by (auto simp: subject_of_def stage_approver_def)
  qed (use p c(1) proved in simp_all)
qed

text \<open>C38. A repeated request is idempotent: after a grant, the same request with the same session and a
  still matching PIN, before the approval expires, is granted the same approval with the same
  expiry, and changes neither the approvals nor the attempt counter.\<close>

theorem grant_idempotent:
  assumes "performRequestManagerApproval en req auth db = Inr (Granted aid x, db')"
    and "en_nowMillis en \<le> now'" and "now' < x"
  shows "\<exists>db''. performRequestManagerApproval (en\<lparr>en_nowMillis := now'\<rparr>) req auth db' = Inr (Granted aid x, db'')
    \<and> db_approvals db'' = db_approvals db'"
proof -
  from perform_granted [OF assms(1)] obtain staffId version v user where p:
    "auth \<noteq> None" "evaluateFreshPrivilegedAuthority (db_users db) auth = Inr (staffId, version)"
    "validateManagerApprovalRequest (en_fmt en) req = Inr (Some v)"
    "\<not> (rq_securityModel v = Delegated \<and> rq_approverStaffId v = Some staffId)"
    "isPrivilegedActionId (rq_protectedAction v) \<or> isSaleReturnActionId (rq_protectedAction v) \<Longrightarrow> rq_securityModel v = Delegated"
    "db_users db staffId = Some user" "requester_refusal db auth v user = None"
    "credential_stage en staffId version (liveRole user) v db = Some (Granted aid x, db')" by metis
  from credential_stage_granted [OF p(8)] obtain ar av aud key where c:
    "key = deriveAttemptScopeKey (en_sha256Hex en) (rq_branchId v) staffId"
    "stage_approver db (liveRole user) v = Some (ar, av)"
    "audienceForProtectedAction (rq_protectedAction v) = Some aud"
    "stage_compare en db (subject_of v staffId) (rq_pin v)"
    "aid = deriveApprovalId (en_sha256Hex en) (rq_commandId v)"
    "same_static db db'" "attemptView db' key = Some (attempt_view.truncate resetAttemptState)"
    "(\<exists>r. map_of (db_approvals db) aid = Some r
        \<and> checkApprovalBinding r (stage_expected staffId version av v aud)
        \<and> is_nullish (ar_consumedAt r) \<and> ar_expiresAtMillis r = Some x \<and> x > en_nowMillis en
        \<and> db_approvals db' = db_approvals db)
     \<or> (map_of (db_approvals db) aid = None \<and> x = en_nowMillis en + APPROVAL_TTL_MS
        \<and> (\<exists>fs. db_approvals db' = map_set aid (view_of_fields fs x) (db_approvals db)
           \<and> buildApprovalDocument (stage_params db staffId version ar av v) = Some fs))" by metis
  let ?en = "en\<lparr>en_nowMillis := now'\<rparr>" and ?e = "stage_expected staffId version av v aud"
  have stored: "\<exists>r. map_of (db_approvals db') aid = Some r \<and> checkApprovalBinding r ?e
      \<and> is_nullish (ar_consumedAt r) \<and> ar_expiresAtMillis r = Some x"
  proof -
    have b: "checkApprovalBinding (view_of_fields fs x) ?e"
      if "buildApprovalDocument (stage_params db staffId version ar av v) = Some fs" for fs
      using validated_request [OF p(3)] p(4)
      by (intro minted_binding [OF that c(3) fresh_version_finite [OF p(2)] stage_approver_finite [OF c(2)]]) auto
    have "is_nullish (ar_consumedAt (view_of_fields fs x))" "ar_expiresAtMillis (view_of_fields fs x) = Some x" for fs
      by (simp_all add: view_of_fields_def is_nullish_def)
    with c(8) b show ?thesis by fastforce
  qed
  then obtain r where r: "map_of (db_approvals db') aid = Some r" "checkApprovalBinding r ?e"
    "is_nullish (ar_consumedAt r)" "ar_expiresAtMillis r = Some x" by blast
  have unlocked: "\<not> isLockoutActive (Option.bind (attemptView db' key) at_lockedUntilMillis) now'"
    by (simp add: c(7) isLockoutActive_def resetAttemptState_def attempt_view.truncate_def)
  have ap: "stage_approver db' (liveRole user) v = Some (ar, av)"
    using c(2) static_checks(2) [OF c(6)] by (simp add: stage_approver_def split: if_splits)
  have cmp: "stage_compare ?en db' (subject_of v staffId) (rq_pin v)"
    using c(4) static_checks(3) [OF c(6)] by (simp add: stage_compare_def Let_def split: if_splits)
  have "selectMintOutcome True (Some r) ?e now' = Idempotent"
    using r assms(3) by (simp add: selectMintOutcome_def)
  then have "credential_stage ?en staffId version (liveRole user) v db' =
    Some (Granted aid x, writeAudit ?en ''manager_approval_granted'' ''granted'' staffId (rq_branchId v) (rq_commandId v)
      (commitAttemptResetIfCurrent key (attemptView db' key) db'))"
    using unlocked ap cmp r(1,4) c(3,5) by (simp add: credential_stage_def Let_def c(1) [symmetric])
  moreover have "requester_refusal db' auth v user = None" "db_users db' = db_users db"
    using p(7) static_checks(1,4) [OF c(6)] by simp_all
  ultimately have "performRequestManagerApproval ?en req auth db' = Inr (Granted aid x,
    writeAudit ?en ''manager_approval_granted'' ''granted'' staffId (rq_branchId v) (rq_commandId v)
      (commitAttemptResetIfCurrent key (attemptView db' key) db'))"
    using p by (auto simp: performRequestManagerApproval_def Let_def)
  then show ?thesis by simp
qed

text \<open>No call changes or removes an existing approval: whatever the outcome, every approval
  document that exists is kept as it is, and at most the one derived from the request's own
  command is added.\<close>

theorem approvals_append_only:
  assumes "performRequestManagerApproval en req auth db = Inr (resp, db')"
  shows "db_approvals db' = db_approvals db
    \<or> (\<exists>k r. db_approvals db' = map_set k r (db_approvals db) \<and> map_of (db_approvals db) k = None
         \<and> (\<exists>x. resp = Granted k x))"
proof -
  have stage: "db_approvals d' = db_approvals db
      \<or> (\<exists>k r. db_approvals d' = map_set k r (db_approvals db) \<and> map_of (db_approvals db) k = None
           \<and> (\<exists>x. rs = Granted k x))"
    if st: "credential_stage en staffId version role v db = Some (rs, d')" for staffId version role v rs d'
  proof (cases rs)
    case (Granted aid x)
    show ?thesis
      by (rule credential_stage_granted [OF st[unfolded Granted]]) (use Granted in blast)
  next
    case (Refused e)
    then show ?thesis
      using st unfolding credential_stage_def Let_def
      by (auto split: if_splits option.splits prod.splits mint_outcome.splits)
  qed
  show ?thesis
    using assms unfolding performRequestManagerApproval_def Let_def
    by (auto split: if_splits sum.splits option.splits prod.splits dest!: stage)
qed

text \<open>C31. One approval document binds one expectation: if it satisfies the binding for two, they agree
  on audience, action, target, branch, command and staff member. Under re-authentication the
  approver is that staff member; in the delegated model it is another one.\<close>

theorem binding_unique:
  assumes "checkApprovalBinding r e" and "checkApprovalBinding r e'"
  shows "be_audience e = be_audience e' \<and> be_protectedAction e = be_protectedAction e'
    \<and> be_targetEntityId e = be_targetEntityId e' \<and> be_branchId e = be_branchId e'
    \<and> be_commandId e = be_commandId e' \<and> be_staffId e = be_staffId e'
    \<and> ar_executorStaffId r = JStr (be_staffId e)
    \<and> (if ar_securityModel r = JStr (model_name Reauth) then ar_approverStaffId r = JStr (be_staffId e)
       else ar_approverStaffId r \<noteq> JStr (be_staffId e) \<and> is_str (ar_approverStaffId r))"
  using assms unfolding checkApprovalBinding_def
  by (auto dest: action_name_inj audience_name_inj split: if_splits)

text \<open>Five or more failures within one window of the first lock the scope for a full window after the
  latest one, however they are spaced; fewer leave it unlocked.\<close>

theorem lockout_after_threshold:
  assumes "list_all (\<lambda>t. t - f \<le> LOCKOUT_WINDOW_MS) ts"
  shows "Option.bind (foldl fail_at None (f # ts)) at_lockedUntilMillis =
    (if length (f # ts) \<ge> 5 then Some (last (f # ts) + LOCKOUT_WINDOW_MS) else None)"
  using fail_run [OF assms, of 1 None] by (auto simp: fail_at_simps LOCKOUT_THRESHOLD_def)

text \<open>A lock can be lost before it ends. Authorization failures are recorded without looking at the
  lock; when one arrives after the window of the first failure has passed, the recorded state
  has no lock, although the previous one was locked at that very moment.\<close>

theorem lock_lost_early:
  assumes "auth \<noteq> None" and "evaluateFreshPrivilegedAuthority (db_users db) auth = Inr (staffId, version)"
    and "validateManagerApprovalRequest (en_fmt en) req = Inr (Some v)"
    and "\<not> (rq_securityModel v = Delegated \<and> rq_approverStaffId v = Some staffId)"
    and "isPrivilegedActionId (rq_protectedAction v) \<or> isSaleReturnActionId (rq_protectedAction v) \<Longrightarrow> rq_securityModel v = Delegated"
    and "db_users db staffId = Some user" and "requester_refusal db auth v user = Some code"
    and "attemptView db key = Some c" and "key = deriveAttemptScopeKey (en_sha256Hex en) (rq_branchId v) staffId"
    and "at_firstFailureAtMillis c = Some f" and "en_nowMillis en - f > LOCKOUT_WINDOW_MS"
    and "isLockoutActive (at_lockedUntilMillis c) (en_nowMillis en)"
  shows "\<exists>db' c'. performRequestManagerApproval en req auth db = Inr (Refused code, db')
    \<and> attemptView db' key = Some c' \<and> \<not> isLockoutActive (at_lockedUntilMillis c') (en_nowMillis en)"
proof -
  let ?db = "writeAudit en ''manager_approval_failed'' ''authorization'' staffId (rq_branchId v) (rq_commandId v)
    (commitAttemptFailure key (en_nowMillis en) db)"
  have "performRequestManagerApproval en req auth db = Inr (Refused code, ?db)"
    using assms by (auto simp: performRequestManagerApproval_def Let_def)
  moreover have "attemptView ?db key =
      Some (attempt_view.truncate (nextFailureAttemptState (Some c) (en_nowMillis en)))"
    using assms(8) by (auto simp: attemptView_def commitAttemptFailure_def)
  moreover have "at_lockedUntilMillis (attempt_view.truncate (nextFailureAttemptState (Some c) (en_nowMillis en))) = None"
    using assms(10,11) by (simp add: nextFailureAttemptState_def Let_def attempt_view.truncate_def LOCKOUT_THRESHOLD_def)
  ultimately show ?thesis by (auto simp: isLockoutActive_def)
qed

section \<open>A worked database\<close>

definition sample_user :: "string \<Rightarrow> jsval" where
  "sample_user role = JObj [(js ''role'', JStr (js role)), (js ''isActive'', JBool True),
     (js ''branchIds'', JArr [JStr (js ''B1'')]), (js ''authVersion'', JNum (Fin 1))]"

definition sample_db :: approval_db where
  "sample_db = \<lparr>db_users = (\<lambda>s. if s = js ''m1'' then Some (sample_user ''manager'')
       else if s = js ''s1'' then Some (sample_user ''staff'') else None),
     db_credentials = (\<lambda>s. if s = js ''m1'' then Some (JObj [(js ''pinHash'', JStr (js ''H'')),
       (js ''credentialState'', JStr (js ''rotated_authoritative''))]) else None),
     db_rolePermissions = Absent, db_stagedHeads = (\<lambda>_. Absent),
     db_attempts = [], db_approvals = [], db_audits = []\<rparr>"

definition sample_env :: approval_env where
  "sample_env = \<lparr>en_sha256Hex = (\<lambda>s. s), en_fmt = (\<lambda>_. []),
     en_comparePin = (\<lambda>p h. p = js ''1234'' \<and> h = js ''H''), en_dummyPinHash = js ''D'', en_nowMillis = 0\<rparr>"

definition sample_auth :: "string \<Rightarrow> auth_like option" where
  "sample_auth staff = Some \<lparr>al_uid = None, al_token = JObj [(js ''staffId'', JStr (js staff)), (js ''authVersion'', JNum (Fin 1))]\<rparr>"

definition sample_approval_request :: jsval where
  "sample_approval_request = JObj [(js ''commandId'', JStr (js ''c1'')),
     (js ''protectedAction'', JStr (js ''shift_close_alert_resolve'')),
     (js ''targetEntityId'', JStr (js ''shift1'')), (js ''branchId'', JStr (js ''B1'')), (js ''pin'', JStr (js ''1234''))]"

lemmas sample_defs = sample_db_def sample_env_def sample_auth_def sample_user_def sample_approval_request_def

lemma sample_validated:
  "validateManagerApprovalRequest (en_fmt e) sample_approval_request = Inr (Some
    \<lparr>rq_commandId = js ''c1'', rq_protectedAction = ShiftCloseResolve, rq_targetEntityId = js ''shift1'',
     rq_branchId = js ''B1'', rq_pin = js ''1234'', rq_securityModel = Reauth, rq_approverStaffId = None\<rparr>)"
  by (simp add: sample_approval_request_def validateManagerApprovalRequest_def trimmed_def doc_field_def
      action_of_def PROTECTED_ACTIONS_def SHIFT_CLOSE_PROTECTED_ACTIONS_def audienceForProtectedAction_def
      isPrivilegedActionId_def PRIVILEGED_ACTION_IDS_def isSaleReturnActionId_def model_of_def
      trim_js is_ws_def unat_of_char)

lemma sample_fresh:
  "evaluateFreshPrivilegedAuthority (db_users sample_db) (sample_auth ''m1'') = Inr (js ''m1'', Fin 1)"
  "evaluateFreshPrivilegedAuthority (db_users sample_db) (sample_auth ''s1'') = Inr (js ''s1'', Fin 1)"
  by (simp_all add: sample_defs evaluateFreshPrivilegedAuthority_def tokenStaffId_def tokenAuthVersion_def
      doc_field_def is_nullish_def finite_or_def js_eq_def trim_js is_ws_def unat_of_char)

definition sample_request :: approval_request where
 "sample_request = \<lparr>rq_commandId = js ''c1'', rq_protectedAction = ShiftCloseResolve, rq_targetEntityId = js ''shift1'',
     rq_branchId = js ''B1'', rq_pin = js ''1234'', rq_securityModel = Reauth, rq_approverStaffId = None\<rparr>"

lemma sample_stage:
  "\<exists>db'. credential_stage sample_env (js ''m1'') (Fin 1) (Some (js ''manager'')) sample_request sample_db = Some (Granted (deriveApprovalId (\<lambda>s. s) (js ''c1'')) 120000, db')"
proof -
  have cmp: "stage_compare sample_env sample_db (js ''m1'') (js ''1234'')"
    by (simp add: stage_compare_def sample_defs readUserCredential_def doc_field_def isCredentialState_def
      shouldUseRealPinCompare_def isUsableForLogin_def isLiveManagerApprovalPinCompareEligible_def isLegacyPin4Shape_def is_digit_def unat_of_char js_def)
  show ?thesis
    using cmp
    by (auto simp: credential_stage_def sample_request_def subject_of_def stage_approver_def attemptView_def isLockoutActive_def
       sample_db_def audienceForProtectedAction_def isPrivilegedActionId_def PRIVILEGED_ACTION_IDS_def isSaleReturnActionId_def
       SHIFT_CLOSE_PROTECTED_ACTIONS_def selectMintOutcome_def mint_transaction_def buildApprovalDocument_def stage_params_def
       Let_def APPROVAL_TTL_MS_def sample_env_def)
qed

lemma sample_refusals:
  "requester_refusal sample_db (sample_auth ''m1'') sample_request (sample_user ''manager'') = None"
  "requester_refusal (sample_db\<lparr>db_attempts := a\<rparr>) (sample_auth ''s1'') sample_request (sample_user ''staff'') = Some NotAuthorized"
  by (simp_all add: requester_refusal_def sample_request_def sample_user_def liveRole_def liveBranchIds_def doc_field_def
    isPrivilegedActionId_def PRIVILEGED_ACTION_IDS_def isSaleReturnActionId_def hasLiveBranchAccess_def)

lemma sample_granted:
  "\<exists>db'. performRequestManagerApproval sample_env sample_approval_request (sample_auth ''m1'') sample_db
    = Inr (Granted (deriveApprovalId (\<lambda>s. s) (js ''c1'')) 120000, db')"
proof -
  have "db_users sample_db (js ''m1'') = Some (sample_user ''manager'')" "liveRole (sample_user ''manager'') = Some (js ''manager'')"
    "sample_auth ''m1'' \<noteq> None"
    by (simp_all add: sample_defs liveRole_def doc_field_def)
  then show ?thesis
    using sample_stage sample_refusals(1) sample_fresh sample_validated [of sample_env]
    by (auto simp: performRequestManagerApproval_def sample_request_def Let_def isPrivilegedActionId_def PRIVILEGED_ACTION_IDS_def isSaleReturnActionId_def)
qed

theorem grant_needs_proof_witness: "pin_proved sample_env sample_db (js ''m1'') (js ''1234'')"
proof -
  have "\<not> en_comparePin sample_env p (en_dummyPinHash sample_env)" for p by (simp add: sample_env_def)
  moreover obtain db' where g: "performRequestManagerApproval sample_env sample_approval_request (sample_auth ''m1'') sample_db
    = Inr (Granted (deriveApprovalId (\<lambda>s. s) (js ''c1'')) 120000, db')" using sample_granted by blast
  ultimately show ?thesis
    using grant_needs_proof [OF _ g] sample_fresh(1) sample_validated [of sample_env]
    by (auto simp: subject_of_def)
qed

theorem grant_idempotent_witness:
  "\<exists>db' db''. performRequestManagerApproval sample_env sample_approval_request (sample_auth ''m1'') sample_db
      = Inr (Granted (deriveApprovalId (\<lambda>s. s) (js ''c1'')) 120000, db')
    \<and> performRequestManagerApproval (sample_env\<lparr>en_nowMillis := 5\<rparr>) sample_approval_request (sample_auth ''m1'') db'
      = Inr (Granted (deriveApprovalId (\<lambda>s. s) (js ''c1'')) 120000, db'')"
proof -
  obtain db' where g: "performRequestManagerApproval sample_env sample_approval_request (sample_auth ''m1'') sample_db
    = Inr (Granted (deriveApprovalId (\<lambda>s. s) (js ''c1'')) 120000, db')" using sample_granted by blast
  show ?thesis using g grant_idempotent [OF g, of 5] by (auto simp: sample_env_def)
qed

theorem approvals_append_only_witness:
  "\<exists>db' k r. performRequestManagerApproval sample_env sample_approval_request (sample_auth ''m1'') sample_db
      = Inr (Granted (deriveApprovalId (\<lambda>s. s) (js ''c1'')) 120000, db')
    \<and> (db_approvals db' = [] \<or> db_approvals db' = map_set k r [])"
proof -
  obtain db' where g: "performRequestManagerApproval sample_env sample_approval_request (sample_auth ''m1'') sample_db
    = Inr (Granted (deriveApprovalId (\<lambda>s. s) (js ''c1'')) 120000, db')" using sample_granted by blast
  show ?thesis using g approvals_append_only [OF g] by (fastforce simp: sample_db_def)
qed

definition sample_expected :: binding_expected where
  "sample_expected = stage_expected (js ''m1'') (Fin 1) (Fin 0) sample_request AudienceShiftClose"

definition sample_approval :: approval_view where
  "sample_approval = view_of_fields (the (buildApprovalDocument
     (stage_params sample_db (js ''m1'') (Fin 1) (js ''manager'') (Fin 0) sample_request))) 120000"

theorem binding_unique_witness:
  "checkApprovalBinding sample_approval sample_expected \<and> ar_approverStaffId sample_approval = JStr (js ''m1'')"
proof -
  have b: "checkApprovalBinding sample_approval sample_expected"
    by (simp add: sample_approval_def sample_expected_def sample_request_def stage_expected_def stage_params_def
        buildApprovalDocument_def view_of_fields_def checkApprovalBinding_def audienceForProtectedAction_def
        isPrivilegedActionId_def PRIVILEGED_ACTION_IDS_def isSaleReturnActionId_def SHIFT_CLOSE_PROTECTED_ACTIONS_def
        js_eq_def)
  have m: "ar_securityModel sample_approval = JStr (model_name Reauth)" "be_staffId sample_expected = js ''m1''"
    by (simp_all add: sample_approval_def sample_expected_def sample_request_def stage_expected_def stage_params_def
        buildApprovalDocument_def view_of_fields_def audienceForProtectedAction_def
        isPrivilegedActionId_def PRIVILEGED_ACTION_IDS_def isSaleReturnActionId_def SHIFT_CLOSE_PROTECTED_ACTIONS_def)
  show ?thesis using binding_unique [OF b b] b m by simp
qed

theorem lockout_after_threshold_witness:
  "Option.bind (foldl fail_at None [0, 1, 2, 3, 4]) at_lockedUntilMillis = Some 900004"
  using lockout_after_threshold [of 0 "[1, 2, 3, 4]"] by (simp add: LOCKOUT_WINDOW_MS_def)

definition locked_db :: approval_db where
  "locked_db = sample_db\<lparr>db_attempts := [(deriveAttemptScopeKey (\<lambda>s. s) (js ''B1'') (js ''s1''),
     \<lparr>at_consecutiveFailures = 5, at_firstFailureAtMillis = Some 0, at_lockedUntilMillis = Some 1799990,
      at_lastFailureAtMillis = Some 899990\<rparr>)]\<rparr>"

text \<open>Five failures within the first fifteen minutes; the sixth comes a millisecond after them.\<close>

theorem lock_lost_early_witness:
  "\<exists>db' c'. performRequestManagerApproval (sample_env\<lparr>en_nowMillis := 900001\<rparr>) sample_approval_request
      (sample_auth ''s1'') locked_db = Inr (Refused NotAuthorized, db')
    \<and> attemptView db' (deriveAttemptScopeKey (\<lambda>s. s) (js ''B1'') (js ''s1'')) = Some c'
    \<and> \<not> isLockoutActive (at_lockedUntilMillis c') 900001"
proof -
  let ?en = "sample_env\<lparr>en_nowMillis := 900001\<rparr>"
  have users: "db_users locked_db = db_users sample_db" by (simp add: locked_db_def)
  have "\<exists>db' c'. performRequestManagerApproval ?en sample_approval_request (sample_auth ''s1'') locked_db = Inr (Refused NotAuthorized, db')
    \<and> attemptView db' (deriveAttemptScopeKey (en_sha256Hex ?en) (rq_branchId sample_request) (js ''s1'')) = Some c'
    \<and> \<not> isLockoutActive (at_lockedUntilMillis c') (en_nowMillis ?en)"
  proof (rule lock_lost_early [where f = 0 and c = "\<lparr>at_consecutiveFailures = 5, at_firstFailureAtMillis = Some 0,
      at_lockedUntilMillis = Some 1799990\<rparr>", OF _ _ _ _ _ _ _ _ refl])
    show "evaluateFreshPrivilegedAuthority (db_users locked_db) (sample_auth ''s1'') = Inr (js ''s1'', Fin 1)"
      using sample_fresh(2) users by simp
    show "validateManagerApprovalRequest (en_fmt ?en) sample_approval_request = Inr (Some sample_request)"
      using sample_validated [of ?en] by (simp add: sample_request_def)
    show "requester_refusal locked_db (sample_auth ''s1'') sample_request (sample_user ''staff'') = Some NotAuthorized"
      unfolding locked_db_def by (rule sample_refusals)
    show "db_users locked_db (js ''s1'') = Some (sample_user ''staff'')" by (simp add: locked_db_def sample_db_def)
  qed (simp_all add: sample_auth_def sample_request_def locked_db_def attemptView_def attempt_view.truncate_def
      sample_env_def LOCKOUT_WINDOW_MS_def isLockoutActive_def isPrivilegedActionId_def PRIVILEGED_ACTION_IDS_def
      isSaleReturnActionId_def)
  then show ?thesis by (simp add: sample_env_def sample_request_def)
qed

end
