(* ===== verification/SaleIntentJournal.thy ===== *)
theory SaleIntentJournal
  imports JsText
begin

text \<open>
  The sale intent journal of a terminal, the sidecar that remembers every sale until the
  server has settled it: \<^verbatim>\<open>saleIntentJournalTypes.ts\<close>, \<^verbatim>\<open>saleIntentJournalLogic.ts\<close>
  (status matrix, event keys, redaction, patches, prune plan), \<^verbatim>\<open>saleIntentJournal.ts\<close> (the
  API over a transactional store) and the store contract of \<^verbatim>\<open>saleIntentJournalStore.ts\<close>.
  An ISO timestamp is represented by the instant it denotes. Counters are exact
  naturals (the code's doubles are exact below \<open>2 ^ 53\<close>). \<^verbatim>\<open>localeCompare\<close> is an
  argument. A transaction can fail when the store is opened or when it commits.
\<close>

section \<open>Types\<close>

datatype journal_status =
  JQueued | JFlushedToCache | JRejectedByRules | JServerAcknowledged | JSettledObserved
  | JExceptionObserved | JOrphaned | JManualReview | JSuperseded

datatype journal_event_type =
  EvEnqueued | EvFlushedToCache | EvServerAcknowledged | EvRejectedByRules | EvSettledObserved
  | EvExceptionObserved | EvOrphaned | EvManualReview | EvSuperseded | EvPayloadStripped | EvPrunedNotice

datatype payload_policy = PolicyFull | PolicyMetadataOnly | PolicyRedacted

datatype conflict_state = DocExists

type_synonym iso_time = ms

text \<open>The parts of an order that redaction touches; the rest is carried along as one value.\<close>

record sale_payment =
  sp_body :: jsval
  sp_ref :: "jsstr option"

record customer_snap =
  cs_name :: jsstr
  cs_phone :: jsstr
  cs_taxId :: "jsstr option"

record sale_order =
  so_id :: jsstr
  so_billId :: jsstr
  so_branchId :: jsstr
  so_deviceId :: jsstr
  so_shiftId :: jsstr
  so_staffId :: jsstr
  so_staffName :: jsstr
  so_customerSnap :: "customer_snap option"
  so_payments :: "sale_payment list"
  so_total :: jsnum
  so_note :: jsstr
  so_clientCreatedAt :: ms
  so_rest :: jsval

record sale_intent =
  si_asyncOrderId :: jsstr
  si_localQueueId :: jsstr
  si_idempotencyKey :: jsstr
  si_billId :: jsstr
  si_branchId :: jsstr
  si_deviceId :: jsstr
  si_shiftId :: jsstr
  si_staffId :: jsstr
  si_createdAtLocal :: ms
  si_createdAtIso :: iso_time
  si_status :: journal_status
  si_payloadVersion :: nat
  si_salePayload :: "sale_order option"
  si_payloadStrippedAt :: "iso_time option"
  si_totalAmount :: jsnum
  si_retryCount :: nat
  si_lastAttemptAt :: "iso_time option"
  si_lastErrorCode :: "jsstr option"
  si_lastErrorMessage :: "jsstr option"
  si_rejectedAt :: "iso_time option"
  si_serverAcknowledgedAt :: "iso_time option"
  si_settledObservedAt :: "iso_time option"
  si_manualReviewReason :: "jsstr option"
  si_conflictState :: "conflict_state option"
  si_supersededBy :: "jsstr option"
  si_nextEventSeq :: nat
  si_updatedAtLocal :: iso_time

datatype detail = SNull | SBool bool | SNum jsnum | SStr jsstr

record sale_event =
  ev_asyncOrderId :: jsstr
  ev_eventSeq :: nat
  ev_timestamp :: iso_time
  ev_eventType :: journal_event_type
  ev_details :: "(jsstr \<times> detail) list option"

record prune_outcome =
  po_scanned :: nat
  po_strippedPayloads :: nat
  po_deletedEntries :: nat

record journal_meta =
  jm_schemaVersion :: nat
  jm_deviceId :: "jsstr option"
  jm_lastPruneAt :: "iso_time option"
  jm_lastPruneOutcome :: "prune_outcome option"

record prune_options =
  pp_maxAgeDays :: "int option"
  pp_maxEntries :: "int option"

text \<open>An optional nullable field: \<open>None\<close> is absent, \<open>Some None\<close> is \<^verbatim>\<open>null\<close>.\<close>

record transition_metadata =
  tm_lastErrorCode :: "jsstr option option"
  tm_lastErrorMessage :: "jsstr option option"
  tm_conflictState :: "conflict_state option option"
  tm_supersededBy :: "jsstr option option"
  tm_manualReviewReason :: "jsstr option option"
  tm_incrementRetry :: bool

definition no_metadata :: transition_metadata where
  "no_metadata = \<lparr>tm_lastErrorCode = None, tm_lastErrorMessage = None, tm_conflictState = None,
     tm_supersededBy = None, tm_manualReviewReason = None, tm_incrementRetry = False\<rparr>"

datatype journal_error =
  JUnavailable | JQuota | JNotFound | JDuplicate
  | JIllegalTransition journal_status journal_status | JInvalidInput | JTxFailed jsstr

definition SALE_INTENT_PAYLOAD_VERSION :: nat where "SALE_INTENT_PAYLOAD_VERSION = 1"
definition SALE_INTENT_JOURNAL_DB_VERSION :: nat where "SALE_INTENT_JOURNAL_DB_VERSION = 1"
definition DEFAULT_PRUNE_MAX_AGE_DAYS :: int where "DEFAULT_PRUNE_MAX_AGE_DAYS = 14"
definition DEFAULT_PRUNE_MAX_ENTRIES :: int where "DEFAULT_PRUNE_MAX_ENTRIES = 500"
definition ERROR_MESSAGE_MAX :: nat where "ERROR_MESSAGE_MAX = 300"

section \<open>The status matrix\<close>

fun ALLOWED_TRANSITIONS :: "journal_status \<Rightarrow> journal_status list" where
  "ALLOWED_TRANSITIONS JQueued =
    [JFlushedToCache, JServerAcknowledged, JRejectedByRules, JOrphaned, JManualReview]"
| "ALLOWED_TRANSITIONS JFlushedToCache =
    [JServerAcknowledged, JRejectedByRules, JSettledObserved, JExceptionObserved, JOrphaned, JManualReview]"
| "ALLOWED_TRANSITIONS JServerAcknowledged = [JSettledObserved, JExceptionObserved, JManualReview]"
| "ALLOWED_TRANSITIONS JSettledObserved = []"
| "ALLOWED_TRANSITIONS JExceptionObserved = [JSettledObserved, JManualReview]"
| "ALLOWED_TRANSITIONS JRejectedByRules = [JManualReview, JSuperseded]"
| "ALLOWED_TRANSITIONS JOrphaned = [JSettledObserved, JManualReview, JSuperseded]"
| "ALLOWED_TRANSITIONS JManualReview = [JSettledObserved, JSuperseded]"
| "ALLOWED_TRANSITIONS JSuperseded = []"

definition RESOLVED_TERMINAL_STATUSES :: "journal_status list" where
  "RESOLVED_TERMINAL_STATUSES = [JSettledObserved, JSuperseded]"

definition PROTECTED_PRUNE_STATUSES :: "journal_status list" where
  "PROTECTED_PRUNE_STATUSES = [JQueued, JFlushedToCache, JServerAcknowledged, JRejectedByRules,
     JOrphaned, JManualReview, JExceptionObserved]"

definition PAYLOAD_STRIP_STATUSES :: "journal_status list" where
  "PAYLOAD_STRIP_STATUSES = [JSettledObserved, JSuperseded]"

definition isTransitionAllowed :: "journal_status \<Rightarrow> journal_status \<Rightarrow> bool" where
  "isTransitionAllowed from to = (if to = JQueued then False else to \<in> set (ALLOWED_TRANSITIONS from))"

fun eventTypeForStatus :: "journal_status \<Rightarrow> journal_event_type" where
  "eventTypeForStatus JQueued = EvEnqueued"
| "eventTypeForStatus JFlushedToCache = EvFlushedToCache"
| "eventTypeForStatus JServerAcknowledged = EvServerAcknowledged"
| "eventTypeForStatus JRejectedByRules = EvRejectedByRules"
| "eventTypeForStatus JSettledObserved = EvSettledObserved"
| "eventTypeForStatus JExceptionObserved = EvExceptionObserved"
| "eventTypeForStatus JOrphaned = EvOrphaned"
| "eventTypeForStatus JManualReview = EvManualReview"
| "eventTypeForStatus JSuperseded = EvSuperseded"

definition isResolvedTerminalStatus :: "journal_status \<Rightarrow> bool" where
  "isResolvedTerminalStatus s \<longleftrightarrow> s \<in> set RESOLVED_TERMINAL_STATUSES"

definition isProtectedPruneStatus :: "journal_status \<Rightarrow> bool" where
  "isProtectedPruneStatus s \<longleftrightarrow> s \<in> set PROTECTED_PRUNE_STATUSES"

definition shouldStripPayloadOnTransition :: "journal_status \<Rightarrow> bool" where
  "shouldStripPayloadOnTransition s \<longleftrightarrow> s \<in> set PAYLOAD_STRIP_STATUSES"

section \<open>Event keys\<close>

definition formatSaleIntentEventKey :: "jsstr \<Rightarrow> nat \<Rightarrow> jsstr" where
  "formatSaleIntentEventKey asyncOrderId eventSeq =
    asyncOrderId @ js ''#'' @ padStart 6 (digit 0) (decimal eventSeq)"

text \<open>\<open>idx <= 0\<close>: no separator, or nothing before it.\<close>

definition parseSaleIntentEventKey :: "jsstr \<Rightarrow> (jsstr \<times> jsnum) option" where
  "parseSaleIntentEventKey key = (case split_last 35 key of None \<Rightarrow> None
     | Some (asyncOrderId, rest) \<Rightarrow>
         if asyncOrderId = [] then None
         else if \<not> isFinite (js_Number rest) then None
         else Some (asyncOrderId, js_Number rest))"

lemma hash_unit: "js ''#'' = [35]"
proof -
  have "unat (of_char (CHR ''#'') :: 16 word) = unat (35 :: 16 word)"
    by (simp only: unat_of_char) simp
  then show ?thesis by (simp add: js_def)
qed

lemma not_digit_hash: "\<not> is_digit 35"
  by (simp add: is_digit_def)

lemma split_event_key:
  "split_last 35 (formatSaleIntentEventKey i n) = Some (i, padStart 6 (digit 0) (decimal n))"
proof -
  have "(35 :: 16 word) \<notin> set (padStart 6 (digit 0) (decimal n))"
    using padStart_digits [OF decimal_digits] not_digit_hash by (auto simp: list_all_iff)
  then show ?thesis by (simp add: formatSaleIntentEventKey_def hash_unit split_last_append)
qed

lemma event_key_inj:
  "formatSaleIntentEventKey i m = formatSaleIntentEventKey j n \<longleftrightarrow> i = j \<and> m = n"
proof
  assume eq: "formatSaleIntentEventKey i m = formatSaleIntentEventKey j n"
  have "Some (i, padStart 6 (digit 0) (decimal m)) = Some (j, padStart 6 (digit 0) (decimal n))"
    using split_event_key [of i m] split_event_key [of j n] eq by simp
  then show "i = j \<and> m = n" by (metis Pair_inject option.inject padStart_value digits_value_decimal)
qed simp

section \<open>Sanitised text\<close>

datatype thrown =
  ThrownError jsstr "jsstr option option"
  | ThrownString jsstr
  | ThrownObject "jsstr option option"
  | ThrownOther

fun error_text :: "thrown \<Rightarrow> jsstr" where
  "error_text (ThrownError m _) = m"
| "error_text (ThrownString s) = s"
| "error_text (ThrownObject _) = []"
| "error_text ThrownOther = []"

definition sanitizeSaleIntentErrorMessage :: "thrown \<Rightarrow> jsstr" where
  "sanitizeSaleIntentErrorMessage input =
    (let oneLine = trim (collapse_ws (error_text input))
     in if oneLine = [] then js ''unknown error''
        else if length oneLine \<le> ERROR_MESSAGE_MAX then oneLine
        else take (ERROR_MESSAGE_MAX - 1) oneLine @ [8230])"

datatype detail_input =
  RawNull | RawBool bool | RawNum jsnum | RawStr jsstr | RawError jsstr | RawObject | RawUndefined

fun sanitizeEventDetailPrimitive :: "detail_input \<Rightarrow> detail option" where
  "sanitizeEventDetailPrimitive RawNull = Some SNull"
| "sanitizeEventDetailPrimitive (RawBool b) = Some (SBool b)"
| "sanitizeEventDetailPrimitive (RawNum n) =
    Some (if isFinite n then SNum n else SStr (js ''[non-primitive]''))"
| "sanitizeEventDetailPrimitive (RawStr s) = Some (SStr (sanitizeSaleIntentErrorMessage (ThrownString s)))"
| "sanitizeEventDetailPrimitive (RawError m) = Some (SStr (sanitizeSaleIntentErrorMessage (ThrownString m)))"
| "sanitizeEventDetailPrimitive RawObject = Some (SStr (js ''[non-primitive]''))"
| "sanitizeEventDetailPrimitive RawUndefined = None"

definition sanitizeSaleIntentEventDetails ::
  "(jsstr \<times> detail_input) list option \<Rightarrow> (jsstr \<times> detail) list option" where
  "sanitizeSaleIntentEventDetails input = (case input of None \<Rightarrow> None
     | Some kvs \<Rightarrow>
       (let out = List.map_filter (\<lambda>(k, v). map_option (Pair k) (sanitizeEventDetailPrimitive v)) kvs
        in if out = [] then None else Some out))"

section \<open>Entries\<close>

text \<open>The JSON clone is the identity on the values represented here.\<close>

definition cloneSalePayload :: "sale_order \<Rightarrow> sale_order" where
  "cloneSalePayload order = order"

definition REDACTED :: jsstr where
  "REDACTED = js ''[redacted]''"

definition redactSalePayload :: "sale_order \<Rightarrow> sale_order" where
  "redactSalePayload order = (let cloned = cloneSalePayload order in
     cloned\<lparr>so_staffName := REDACTED,
       so_customerSnap := map_option (\<lambda>_. \<lparr>cs_name = REDACTED, cs_phone = REDACTED, cs_taxId = None\<rparr>)
         (so_customerSnap cloned),
       so_note := (if so_note cloned \<noteq> [] then REDACTED else []),
       so_payments := map (\<lambda>p. p\<lparr>sp_ref := (if truthy (sp_ref p) then Some REDACTED else sp_ref p)\<rparr>)
         (so_payments cloned)\<rparr>)"

fun resolvePayloadForPolicy :: "sale_order \<Rightarrow> payload_policy \<Rightarrow> sale_order option" where
  "resolvePayloadForPolicy order PolicyMetadataOnly = None"
| "resolvePayloadForPolicy order PolicyRedacted = Some (redactSalePayload order)"
| "resolvePayloadForPolicy order PolicyFull = Some (cloneSalePayload order)"

text \<open>\<open>None\<close> is the exception of \<^verbatim>\<open>assertAliasEquality\<close>.\<close>

definition aliasesForAsyncOrderId :: "jsstr \<Rightarrow> (jsstr \<times> jsstr \<times> jsstr) option" where
  "aliasesForAsyncOrderId i = (if i = [] then None else Some (i, i, i))"

definition buildSaleIntentEntry :: "sale_order \<Rightarrow> payload_policy option \<Rightarrow> clock \<Rightarrow> (sale_intent \<times> clock) option" where
  "buildSaleIntentEntry order policyOpt c =
    (let policy = (case policyOpt of None \<Rightarrow> PolicyFull | Some p \<Rightarrow> p)
     in case aliasesForAsyncOrderId (so_id order) of None \<Rightarrow> None
     | Some (a, q, k) \<Rightarrow> let (stamp, c1) = tick c in Some
        (\<lparr>si_asyncOrderId = a, si_localQueueId = q, si_idempotencyKey = k,
          si_billId = so_billId order, si_branchId = so_branchId order, si_deviceId = so_deviceId order,
          si_shiftId = so_shiftId order, si_staffId = so_staffId order,
          si_createdAtLocal = so_clientCreatedAt order, si_createdAtIso = stamp, si_status = JQueued,
          si_payloadVersion = SALE_INTENT_PAYLOAD_VERSION,
          si_salePayload = resolvePayloadForPolicy order policy, si_payloadStrippedAt = None,
          si_totalAmount = so_total order, si_retryCount = 0, si_lastAttemptAt = None,
          si_lastErrorCode = None, si_lastErrorMessage = None, si_rejectedAt = None,
          si_serverAcknowledgedAt = None, si_settledObservedAt = None, si_manualReviewReason = None,
          si_conflictState = None, si_supersededBy = None, si_nextEventSeq = 1, si_updatedAtLocal = stamp\<rparr>, c1))"

definition stripEntryPayload :: "sale_intent \<Rightarrow> clock \<Rightarrow> sale_intent \<times> clock" where
  "stripEntryPayload e c = (let (stamp, c1) = tick c in
     (e\<lparr>si_salePayload := None, si_payloadStrippedAt := Some stamp, si_updatedAtLocal := stamp\<rparr>, c1))"

text \<open>\<^verbatim>\<open>if (x !== undefined) next.f = x\<close>, and \<^verbatim>\<open>if (!next.f) next.f = stamp\<close>.\<close>

definition override :: "'a option \<Rightarrow> 'a \<Rightarrow> 'a" where
  "override u old = (case u of None \<Rightarrow> old | Some x \<Rightarrow> x)"

definition once :: "'a option \<Rightarrow> 'a \<Rightarrow> 'a option" where
  "once old x = (case old of None \<Rightarrow> Some x | Some y \<Rightarrow> Some y)"

definition patch_fields :: "sale_intent \<Rightarrow> journal_status \<Rightarrow> transition_metadata \<Rightarrow> iso_time \<Rightarrow> sale_intent" where
  "patch_fields e to m stamp = e\<lparr>si_status := to, si_updatedAtLocal := stamp, si_lastAttemptAt := Some stamp,
     si_retryCount := (if tm_incrementRetry m then si_retryCount e + 1 else si_retryCount e),
     si_lastErrorCode := override (tm_lastErrorCode m) (si_lastErrorCode e),
     si_lastErrorMessage := override
       (map_option (map_option (\<lambda>s. sanitizeSaleIntentErrorMessage (ThrownString s))) (tm_lastErrorMessage m))
       (si_lastErrorMessage e),
     si_conflictState := override (tm_conflictState m) (si_conflictState e),
     si_supersededBy := override (tm_supersededBy m) (si_supersededBy e),
     si_manualReviewReason := override (tm_manualReviewReason m) (si_manualReviewReason e),
     si_rejectedAt := (if to = JRejectedByRules then once (si_rejectedAt e) stamp else si_rejectedAt e),
     si_serverAcknowledgedAt := (if to = JServerAcknowledged then once (si_serverAcknowledgedAt e) stamp
       else si_serverAcknowledgedAt e),
     si_settledObservedAt := (if to = JSettledObserved then once (si_settledObservedAt e) stamp
       else si_settledObservedAt e)\<rparr>"

definition applyTransitionPatch ::
  "sale_intent \<Rightarrow> journal_status \<Rightarrow> transition_metadata \<Rightarrow> clock \<Rightarrow> sale_intent \<times> clock" where
  "applyTransitionPatch e to m c =
    (let (stamp, c1) = tick c; next' = patch_fields e to m stamp
     in if shouldStripPayloadOnTransition to \<and> si_salePayload next' \<noteq> None
        then stripEntryPayload next' c1 else (next', c1))"

section \<open>The prune plan\<close>

definition age_order :: "(jsstr \<Rightarrow> jsstr \<Rightarrow> int) \<Rightarrow> sale_intent \<Rightarrow> sale_intent \<Rightarrow> int" where
  "age_order localeCompare = cmp_then (cmp_on si_createdAtLocal cmp_sub) (cmp_on si_asyncOrderId localeCompare)"

text \<open>The overflow loop: entries not yet listed are listed until \<open>overflow\<close> are.\<close>

fun overflow_loop :: "int \<Rightarrow> int \<Rightarrow> jsstr list \<Rightarrow> jsstr list \<Rightarrow> jsstr list" where
  "overflow_loop overflow removed deleteIds [] = deleteIds"
| "overflow_loop overflow removed deleteIds (i # is) =
    (if removed \<ge> overflow then deleteIds
     else if i \<notin> set deleteIds then overflow_loop overflow (removed + 1) (deleteIds @ [i]) is
     else overflow_loop overflow removed deleteIds is)"

definition selectPrunePlan ::
  "(jsstr \<Rightarrow> jsstr \<Rightarrow> int) \<Rightarrow> sale_intent list \<Rightarrow> prune_options \<Rightarrow> ms \<Rightarrow> jsstr list \<times> jsstr list" where
  "selectPrunePlan localeCompare entries options nowMs =
    (let maxAgeDays = (case pp_maxAgeDays options of None \<Rightarrow> DEFAULT_PRUNE_MAX_AGE_DAYS | Some d \<Rightarrow> d);
         maxEntries = (case pp_maxEntries options of None \<Rightarrow> DEFAULT_PRUNE_MAX_ENTRIES | Some k \<Rightarrow> k);
         cutoffMs = nowMs - maxAgeDays * 24 * 60 * 60 * 1000;
         stripIds = map si_asyncOrderId
           (filter (\<lambda>e. isResolvedTerminalStatus (si_status e) \<and> si_salePayload e \<noteq> None) entries);
         aged = map si_asyncOrderId
           (filter (\<lambda>e. isResolvedTerminalStatus (si_status e) \<and> si_createdAtLocal e < cutoffMs) entries);
         prunable = sort_by (age_order localeCompare)
           (filter (\<lambda>e. isResolvedTerminalStatus (si_status e)) entries);
         deleteIds = (if int (length entries) > maxEntries
           then overflow_loop (int (length entries) - maxEntries) 0 aged (map si_asyncOrderId prunable)
           else aged)
     in (remdups stripIds, remdups deleteIds))"

section \<open>The transactional store\<close>

record journal_db =
  jd_intents :: "(jsstr, sale_intent) jsmap"
  jd_events :: "(jsstr, sale_event) jsmap"
  jd_meta :: "journal_meta option"

definition empty_journal :: journal_db where
  "empty_journal = \<lparr>jd_intents = [], jd_events = [], jd_meta = None\<rparr>"

text \<open>How the storage layer behaves for one transaction.\<close>

datatype io = IoOk | OpenFails journal_error | CommitFails journal_error

type_synonym 'v body = "journal_db \<Rightarrow> journal_error + ('v \<times> journal_db)"

definition transact :: "io \<Rightarrow> 'v body \<Rightarrow> journal_db \<Rightarrow> (journal_error + 'v) \<times> journal_db" where
  "transact io body db = (case io of
     OpenFails e \<Rightarrow> (Inl e, db)
   | _ \<Rightarrow> (case body db of
       Inl e \<Rightarrow> (Inl e, db)
     | Inr (v, db') \<Rightarrow> (case io of CommitFails e \<Rightarrow> (Inl e, db) | _ \<Rightarrow> (Inr v, db'))))"

text \<open>What the API relies on: a transaction applies its body's state or nothing.\<close>

locale transactional =
  fixes transact :: "'io \<Rightarrow> ('s \<Rightarrow> 'e + ('v \<times> 's)) \<Rightarrow> 's \<Rightarrow> ('e + 'v) \<times> 's"
  assumes all_or_nothing: "snd (transact i b s) = s \<or> (\<exists>v. b s = Inr (v, snd (transact i b s)) \<and> fst (transact i b s) = Inr v)"
    and failure_rolls_back: "fst (transact i b s) = Inl e \<Longrightarrow> snd (transact i b s) = s"
    and success_commits: "fst (transact i b s) = Inr v \<Longrightarrow> b s = Inr (v, snd (transact i b s))"
begin

lemma preserves:
  assumes "P s" and "\<And>v s'. b s = Inr (v, s') \<Longrightarrow> P s'"
  shows "P (snd (transact i b s))"
  using all_or_nothing [of i b s] assms by auto

lemma relates:
  assumes "R s s" and "\<And>v s'. b s = Inr (v, s') \<Longrightarrow> R s s'"
  shows "R s (snd (transact i b s))"
  using preserves [of "R s"] assms by blast

end

interpretation store: transactional transact
  by unfold_locales (auto simp: transact_def split: io.splits sum.splits prod.splits)

section \<open>The journal API\<close>

definition appendEvent ::
  "sale_intent \<Rightarrow> journal_event_type \<Rightarrow> (jsstr \<times> detail_input) list option \<Rightarrow> clock
   \<Rightarrow> (sale_intent \<times> sale_event \<times> jsstr) \<times> clock" where
  "appendEvent e t details c =
    (let eventSeq = si_nextEventSeq e; (timestamp, c1) = tick c;
         event = \<lparr>ev_asyncOrderId = si_asyncOrderId e, ev_eventSeq = eventSeq, ev_timestamp = timestamp,
           ev_eventType = t, ev_details = sanitizeSaleIntentEventDetails details\<rparr>
     in ((e\<lparr>si_nextEventSeq := eventSeq + 1, si_updatedAtLocal := timestamp\<rparr>, event,
          formatSaleIntentEventKey (si_asyncOrderId e) eventSeq), c1))"

text \<open>The two puts every write ends with.\<close>

definition put_entry :: "jsstr \<Rightarrow> sale_intent \<Rightarrow> jsstr \<Rightarrow> sale_event \<Rightarrow> journal_db \<Rightarrow> journal_db" where
  "put_entry i e k ev db = db\<lparr>jd_intents := map_set i e (jd_intents db), jd_events := map_set k ev (jd_events db)\<rparr>"

definition append_and_put ::
  "jsstr \<Rightarrow> sale_intent \<Rightarrow> journal_event_type \<Rightarrow> (jsstr \<times> detail_input) list option \<Rightarrow> clock
   \<Rightarrow> journal_db \<Rightarrow> (sale_intent \<times> sale_event) \<times> journal_db" where
  "append_and_put i e t details c db = (let ((e', ev, k), c1) = appendEvent e t details c in ((e', ev), put_entry i e' k ev db))"

definition transitionStatus ::
  "io \<Rightarrow> clock \<Rightarrow> jsstr \<Rightarrow> journal_status \<Rightarrow> transition_metadata \<Rightarrow> journal_db
   \<Rightarrow> (journal_error + sale_intent) \<times> journal_db" where
  "transitionStatus io c i next' m = transact io (\<lambda>db.
     case map_of (jd_intents db) i of None \<Rightarrow> Inl JNotFound
     | Some existing \<Rightarrow>
       if \<not> isTransitionAllowed (si_status existing) next'
       then Inl (JIllegalTransition (si_status existing) next')
       else (let (patched, c1) = applyTransitionPatch existing next' m c;
                 ((e, ev), db') = append_and_put i patched (eventTypeForStatus next') None c1 db
             in Inr (e, db')))"

definition enqueueSaleIntent ::
  "io \<Rightarrow> clock \<Rightarrow> sale_order \<Rightarrow> payload_policy option \<Rightarrow> journal_db \<Rightarrow> (journal_error + sale_intent) \<times> journal_db" where
  "enqueueSaleIntent io c order policy db =
    (case buildSaleIntentEntry order policy c of
       None \<Rightarrow> (Inl (JTxFailed (js ''asyncOrderId is required'')), db)
     | Some (entry, c1) \<Rightarrow> transact io (\<lambda>db.
         if map_of (jd_intents db) (si_asyncOrderId entry) \<noteq> None then Inl JDuplicate
         else (let ((e, ev), db') = append_and_put (si_asyncOrderId entry) entry EvEnqueued None c1 db
               in Inr (e, db'))) db)"

definition recordSaleIntentEvent ::
  "io \<Rightarrow> clock \<Rightarrow> jsstr \<Rightarrow> journal_event_type \<Rightarrow> (jsstr \<times> detail_input) list option \<Rightarrow> journal_db
   \<Rightarrow> (journal_error + sale_event) \<times> journal_db" where
  "recordSaleIntentEvent io c i t details = transact io (\<lambda>db.
     case map_of (jd_intents db) i of None \<Rightarrow> Inl JNotFound
     | Some existing \<Rightarrow> (let ((e, ev), db') = append_and_put i existing t details c db in Inr (ev, db')))"

definition getSaleIntent :: "io \<Rightarrow> jsstr \<Rightarrow> journal_db \<Rightarrow> (journal_error + sale_intent option) \<times> journal_db" where
  "getSaleIntent io i = transact io (\<lambda>db. Inr (map_of (jd_intents db) i, db))"

definition listSaleIntentsByStatus ::
  "(jsstr \<Rightarrow> jsstr \<Rightarrow> int) \<Rightarrow> io \<Rightarrow> journal_status list \<Rightarrow> journal_db
   \<Rightarrow> (journal_error + sale_intent list) \<times> journal_db" where
  "listSaleIntentsByStatus localeCompare io statuses = transact io (\<lambda>db.
     Inr (sort_by (age_order localeCompare)
       (filter (\<lambda>e. si_status e \<in> set statuses) (map_vals (jd_intents db))), db))"

definition listSaleIntentEvents :: "io \<Rightarrow> jsstr \<Rightarrow> journal_db \<Rightarrow> (journal_error + sale_event list) \<times> journal_db" where
  "listSaleIntentEvents io i = transact io (\<lambda>db.
     Inr (sort_by (cmp_on (\<lambda>ev. int (ev_eventSeq ev)) cmp_sub)
       (filter (\<lambda>ev. ev_asyncOrderId ev = i) (map_vals (jd_events db))), db))"

definition markFlushedToCache where
  "markFlushedToCache io c i = transitionStatus io c i JFlushedToCache no_metadata"

definition markServerAcknowledged where
  "markServerAcknowledged io c i m = transitionStatus io c i JServerAcknowledged m"

fun thrown_code :: "thrown \<Rightarrow> jsstr option" where
  "thrown_code (ThrownError _ (Some code)) = Some (case code of None \<Rightarrow> [] | Some s \<Rightarrow> s)"
| "thrown_code (ThrownObject (Some code)) = Some (case code of None \<Rightarrow> [] | Some s \<Rightarrow> s)"
| "thrown_code _ = None"

definition markRejectedByRules where
  "markRejectedByRules io c i err m = transitionStatus io c i JRejectedByRules
     (m\<lparr>tm_lastErrorMessage := Some (Some (sanitizeSaleIntentErrorMessage err)),
        tm_lastErrorCode := Some (case tm_lastErrorCode m of Some (Some s) \<Rightarrow> Some s | _ \<Rightarrow> thrown_code err)\<rparr>)"

definition markManualReview where
  "markManualReview io c i reason = transitionStatus io c i JManualReview
     (no_metadata\<lparr>tm_manualReviewReason := Some (Some reason)\<rparr>)"

subsection \<open>Pruning\<close>

definition strip_one :: "io \<Rightarrow> clock \<Rightarrow> jsstr \<Rightarrow> journal_db \<Rightarrow> (journal_error + unit) \<times> journal_db" where
  "strip_one io c i = transact io (\<lambda>db.
     case map_of (jd_intents db) i of None \<Rightarrow> Inr ((), db)
     | Some existing \<Rightarrow> if si_salePayload existing = None then Inr ((), db)
       else (let (stripped, c1) = stripEntryPayload existing c;
                 ((e, ev), db') = append_and_put i stripped EvPayloadStripped None c1 db
             in Inr ((), db')))"

definition delete_one :: "io \<Rightarrow> jsstr \<Rightarrow> journal_db \<Rightarrow> (journal_error + unit) \<times> journal_db" where
  "delete_one io i = transact io (\<lambda>db.
     let keys = map (\<lambda>ev. formatSaleIntentEventKey (ev_asyncOrderId ev) (ev_eventSeq ev))
           (filter (\<lambda>ev. ev_asyncOrderId ev = i) (map_vals (jd_events db)))
     in Inr ((), db\<lparr>jd_events := foldl (\<lambda>m k. map_delete k m) (jd_events db) keys,
                  jd_intents := map_delete i (jd_intents db)\<rparr>))"

text \<open>The loops stop at the first transaction that fails; the ones before it stay committed.\<close>

datatype prune_work = StripPayload jsstr | DeleteEntry jsstr

fun prune_one :: "io \<Rightarrow> clock \<Rightarrow> prune_work \<Rightarrow> journal_db \<Rightarrow> (journal_error + unit) \<times> journal_db" where
  "prune_one io c (StripPayload i) = strip_one io c i"
| "prune_one io c (DeleteEntry i) = delete_one io i"

fun prune_loop :: "(nat \<Rightarrow> io \<times> clock) \<Rightarrow> prune_work list \<Rightarrow> journal_db \<Rightarrow> journal_error option \<times> journal_db" where
  "prune_loop env [] db = (None, db)"
| "prune_loop env (w # ws) db =
    (case prune_one (fst (env (length ws))) (snd (env (length ws))) w db of
       (Inl e, db') \<Rightarrow> (Some e, db') | (Inr _, db') \<Rightarrow> prune_loop env ws db')"

definition defaultMeta :: journal_meta where
  "defaultMeta = \<lparr>jm_schemaVersion = SALE_INTENT_JOURNAL_DB_VERSION, jm_deviceId = None,
     jm_lastPruneAt = None, jm_lastPruneOutcome = None\<rparr>"

definition update_meta ::
  "io \<Rightarrow> (journal_meta \<Rightarrow> journal_meta) \<Rightarrow> journal_db \<Rightarrow> (journal_error + journal_meta) \<times> journal_db" where
  "update_meta io f = transact io (\<lambda>db.
     let next' = f (case jd_meta db of None \<Rightarrow> defaultMeta | Some m \<Rightarrow> m)
     in Inr (next', db\<lparr>jd_meta := Some next'\<rparr>))"

definition pruneSaleIntents ::
  "(jsstr \<Rightarrow> jsstr \<Rightarrow> int) \<Rightarrow> io \<Rightarrow> (nat \<Rightarrow> io \<times> clock) \<Rightarrow> io \<Rightarrow> prune_options \<Rightarrow> ms \<Rightarrow> iso_time \<Rightarrow> journal_db
   \<Rightarrow> (journal_error + prune_outcome) \<times> journal_db" where
  "pruneSaleIntents localeCompare ioRead env ioMeta options nowMs doneAt db =
    (case transact ioRead (\<lambda>db. Inr (map_vals (jd_intents db), db)) db of
       (Inl e, db0) \<Rightarrow> (Inl e, db0)
     | (Inr entries, db0) \<Rightarrow>
       (let (stripIds, deleteIds) = selectPrunePlan localeCompare entries options nowMs;
            outcome = \<lparr>po_scanned = length entries, po_strippedPayloads = length stripIds,
              po_deletedEntries = length deleteIds\<rparr>
        in case prune_loop env (map StripPayload stripIds @ map DeleteEntry deleteIds) db0 of
             (Some e, db1) \<Rightarrow> (Inl e, db1)
           | (None, db1) \<Rightarrow>
             (case update_meta ioMeta (\<lambda>m. m\<lparr>jm_lastPruneAt := Some doneAt, jm_lastPruneOutcome := Some outcome\<rparr>) db1 of
                (Inl e, db2) \<Rightarrow> (Inl e, db2) | (Inr _, db2) \<Rightarrow> (Inr outcome, db2))))"

definition getJournalMeta :: "io \<Rightarrow> journal_db \<Rightarrow> (journal_error + journal_meta option) \<times> journal_db" where
  "getJournalMeta io = transact io (\<lambda>db. Inr (jd_meta db, db))"

text \<open>A partial meta is the override of the fields it has.\<close>

definition setJournalMeta :: "io \<Rightarrow> (journal_meta \<Rightarrow> journal_meta) \<Rightarrow> journal_db \<Rightarrow> (journal_error + journal_meta) \<times> journal_db" where
  "setJournalMeta io patch = update_meta io patch"

section \<open>The stored state\<close>

definition event_key :: "sale_event \<Rightarrow> jsstr" where
  "event_key ev = formatSaleIntentEventKey (ev_asyncOrderId ev) (ev_eventSeq ev)"

text \<open>What holds of every stored entry: the three ids agree, the observation times of the
  status it has are set, and a resolved entry keeps no payload.\<close>

definition entry_ok :: "sale_intent \<Rightarrow> bool" where
  "entry_ok e \<longleftrightarrow> si_asyncOrderId e \<noteq> [] \<and> si_localQueueId e = si_asyncOrderId e
     \<and> si_idempotencyKey e = si_asyncOrderId e
     \<and> (si_status e = JServerAcknowledged \<longrightarrow> si_serverAcknowledgedAt e \<noteq> None)
     \<and> (si_status e = JRejectedByRules \<longrightarrow> si_rejectedAt e \<noteq> None)
     \<and> (si_status e = JSettledObserved \<longrightarrow> si_settledObservedAt e \<noteq> None)
     \<and> (isResolvedTerminalStatus (si_status e) \<longrightarrow> si_salePayload e = None)"

text \<open>The events of an entry are numbered from 1 without a gap, under their own keys.\<close>

definition journal_wf :: "journal_db \<Rightarrow> bool" where
  "journal_wf db \<longleftrightarrow> map_wf (jd_intents db) \<and> map_wf (jd_events db)
     \<and> (\<forall>i e. map_of (jd_intents db) i = Some e \<longrightarrow> si_asyncOrderId e = i \<and> entry_ok e \<and> 1 < si_nextEventSeq e)
     \<and> (\<forall>k ev. map_of (jd_events db) k = Some ev \<longrightarrow> k = event_key ev)
     \<and> (\<forall>i n. map_of (jd_events db) (formatSaleIntentEventKey i n) \<noteq> None \<longleftrightarrow>
          (\<exists>e. map_of (jd_intents db) i = Some e \<and> 1 \<le> n \<and> n < si_nextEventSeq e))"

lemma journal_wfD:
  assumes "journal_wf db"
  shows "map_wf (jd_intents db)" "map_wf (jd_events db)"
    "map_of (jd_intents db) i = Some e \<Longrightarrow> si_asyncOrderId e = i"
    "map_of (jd_intents db) i = Some e \<Longrightarrow> entry_ok e"
    "map_of (jd_intents db) i = Some e \<Longrightarrow> 1 < si_nextEventSeq e"
    "map_of (jd_events db) k = Some ev \<Longrightarrow> k = event_key ev"
    "map_of (jd_events db) (formatSaleIntentEventKey i n) \<noteq> None \<longleftrightarrow>
       (\<exists>e. map_of (jd_intents db) i = Some e \<and> 1 \<le> n \<and> n < si_nextEventSeq e)"
  using assms unfolding journal_wf_def by blast+

lemma empty_journal_wf: "journal_wf empty_journal"
  by (simp add: journal_wf_def empty_journal_def)

lemma append_and_put_simps:
  "append_and_put i e t d c db = ((e', ev), db') \<Longrightarrow>
    e' = e\<lparr>si_nextEventSeq := si_nextEventSeq e + 1, si_updatedAtLocal := c 0\<rparr>
    \<and> ev = \<lparr>ev_asyncOrderId = si_asyncOrderId e, ev_eventSeq = si_nextEventSeq e, ev_timestamp = c 0,
        ev_eventType = t, ev_details = sanitizeSaleIntentEventDetails d\<rparr>
    \<and> db' = db\<lparr>jd_intents := map_set i e' (jd_intents db), jd_events := map_set (event_key ev) ev (jd_events db)\<rparr>"
  by (auto simp: append_and_put_def appendEvent_def put_entry_def event_key_def tick_def Let_def)

text \<open>An append is for the stored entry, or for a new one that starts at 1.\<close>

definition next_seq :: "journal_db \<Rightarrow> jsstr \<Rightarrow> nat" where
  "next_seq db i = (case map_of (jd_intents db) i of None \<Rightarrow> 1 | Some e \<Rightarrow> si_nextEventSeq e)"

lemma next_seq_pos: "journal_wf db \<Longrightarrow> 1 \<le> next_seq db i"
  using journal_wfD(5) [of db i] by (fastforce simp: next_seq_def split: option.splits)

lemma append_wf:
  assumes wf: "journal_wf db" and a: "append_and_put i e t d c db = ((e', ev), db')"
    and e: "si_asyncOrderId e = i" "entry_ok e" "si_nextEventSeq e = next_seq db i"
  shows "journal_wf db'"
proof -
  note ap = append_and_put_simps [OF a]
  have pos: "1 \<le> si_nextEventSeq e" using next_seq_pos [OF wf] e(3) by simp
  have key: "event_key ev = formatSaleIntentEventKey i (si_nextEventSeq e)"
    using ap e(1) by (simp add: event_key_def)
  have i': "jd_intents db' = map_set i e' (jd_intents db)"
    and v': "jd_events db' = map_set (event_key ev) ev (jd_events db)" using ap by simp_all
  have ok: "entry_ok e'" "si_asyncOrderId e' = i" "si_nextEventSeq e' = si_nextEventSeq e + 1"
    using ap e by (simp_all add: entry_ok_def)
  show ?thesis unfolding journal_wf_def
  proof (intro conjI allI impI)
    show "map_wf (jd_intents db')" "map_wf (jd_events db')"
      using journal_wfD(1,2) [OF wf] by (simp_all add: i' v')
    show "si_asyncOrderId x = j" "entry_ok x" "1 < si_nextEventSeq x" if "map_of (jd_intents db') j = Some x" for j x
      using that journal_wfD(3-5) [OF wf] ok pos by (auto simp: i' split: if_splits)
    show "k = event_key x" if "map_of (jd_events db') k = Some x" for k x
      using that journal_wfD(6) [OF wf] by (auto simp: v' split: if_splits)
    show "map_of (jd_events db') (formatSaleIntentEventKey j n) \<noteq> None \<longleftrightarrow>
       (\<exists>e. map_of (jd_intents db') j = Some e \<and> 1 \<le> n \<and> n < si_nextEventSeq e)" for j n
    proof (cases "j = i")
      case False
      then show ?thesis using journal_wfD(7) [OF wf, of j n] by (simp add: i' v' key event_key_inj)
    next
      case True
      have old: "map_of (jd_events db) (formatSaleIntentEventKey i n) \<noteq> None \<longleftrightarrow> 1 \<le> n \<and> n < si_nextEventSeq e"
        using journal_wfD(7) [OF wf, of i n] e(3) by (auto simp: next_seq_def split: option.splits)
      then show ?thesis using True pos ok(3) by (auto simp: i' v' key event_key_inj)
    qed
  qed
qed

subsection \<open>Every operation keeps the stored state well formed\<close>

lemma transact_wf:
  "journal_wf db \<Longrightarrow> (\<And>v s'. body db = Inr (v, s') \<Longrightarrow> journal_wf s') \<Longrightarrow> journal_wf (snd (transact io body db))"
  by (rule store.preserves)

lemma patch_fields_ok:
  "si_asyncOrderId (patch_fields e to m t) = si_asyncOrderId e"
  "si_localQueueId (patch_fields e to m t) = si_localQueueId e"
  "si_idempotencyKey (patch_fields e to m t) = si_idempotencyKey e"
  "si_nextEventSeq (patch_fields e to m t) = si_nextEventSeq e"
  "si_salePayload (patch_fields e to m t) = si_salePayload e"
  "si_status (patch_fields e to m t) = to"
  "to = JServerAcknowledged \<Longrightarrow> si_serverAcknowledgedAt (patch_fields e to m t) \<noteq> None"
  "to = JRejectedByRules \<Longrightarrow> si_rejectedAt (patch_fields e to m t) \<noteq> None"
  "to = JSettledObserved \<Longrightarrow> si_settledObservedAt (patch_fields e to m t) \<noteq> None"
  by (simp_all add: patch_fields_def once_def split: option.split)

lemma strip_statuses: "shouldStripPayloadOnTransition s \<longleftrightarrow> isResolvedTerminalStatus s"
  by (simp add: shouldStripPayloadOnTransition_def isResolvedTerminalStatus_def
      PAYLOAD_STRIP_STATUSES_def RESOLVED_TERMINAL_STATUSES_def)

lemma patch_ok:
  assumes "entry_ok e" "applyTransitionPatch e to m c = (e', c')"
  shows "entry_ok e'" "si_asyncOrderId e' = si_asyncOrderId e" "si_nextEventSeq e' = si_nextEventSeq e" "si_status e' = to"
proof -
  let ?p = "patch_fields e to m (c 0)"
  have "e' = ?p \<and> (isResolvedTerminalStatus to \<longrightarrow> si_salePayload ?p = None)
    \<or> (\<exists>t. e' = ?p\<lparr>si_salePayload := None, si_payloadStrippedAt := Some t, si_updatedAtLocal := t\<rparr>)"
    using assms(2) unfolding applyTransitionPatch_def stripEntryPayload_def tick_def Let_def strip_statuses
    by (auto split: if_splits)
  then show "entry_ok e'" "si_asyncOrderId e' = si_asyncOrderId e" "si_nextEventSeq e' = si_nextEventSeq e" "si_status e' = to"
    using assms(1) patch_fields_ok [where e = e and to = to and m = m and t = "c 0"] by (auto simp: entry_ok_def)
qed

lemma strip_ok:
  assumes "entry_ok e" "stripEntryPayload e c = (e', c')"
  shows "entry_ok e'" "si_asyncOrderId e' = si_asyncOrderId e" "si_nextEventSeq e' = si_nextEventSeq e" "si_status e' = si_status e"
  using assms by (auto simp: stripEntryPayload_def tick_def entry_ok_def)

lemma built_entry:
  assumes "buildSaleIntentEntry order p c = Some (e, c')"
  shows "entry_ok e" "si_nextEventSeq e = 1" "si_status e = JQueued" "si_asyncOrderId e = so_id order"
  using assms by (auto simp: buildSaleIntentEntry_def aliasesForAsyncOrderId_def tick_def entry_ok_def Let_def
      isResolvedTerminalStatus_def RESOLVED_TERMINAL_STATUSES_def split: if_splits)

lemma transition_wf: "journal_wf db \<Longrightarrow> journal_wf (snd (transitionStatus io c i to m db))"
  unfolding transitionStatus_def
proof (rule transact_wf, assumption)
  fix v s' assume wf: "journal_wf db"
  assume "(case map_of (jd_intents db) i of None \<Rightarrow> Inl JNotFound
     | Some existing \<Rightarrow> if \<not> isTransitionAllowed (si_status existing) to then Inl (JIllegalTransition (si_status existing) to)
       else (let (patched, c1) = applyTransitionPatch existing to m c;
                 ((e, ev), db') = append_and_put i patched (eventTypeForStatus to) None c1 db in Inr (e, db'))) = Inr (v, s')"
  then obtain x p c1 ev where x: "map_of (jd_intents db) i = Some x" "isTransitionAllowed (si_status x) to"
    and p: "applyTransitionPatch x to m c = (p, c1)"
    and a: "append_and_put i p (eventTypeForStatus to) None c1 db = ((v, ev), s')"
    by (auto simp: Let_def split: option.splits if_splits prod.splits)
  show "journal_wf s'"
    using patch_ok [OF journal_wfD(4) [OF wf x(1)] p] journal_wfD(3) [OF wf x(1)] x(1)
    by (intro append_wf [OF wf a]) (simp_all add: next_seq_def)
qed

lemma enqueue_wf: "journal_wf db \<Longrightarrow> journal_wf (snd (enqueueSaleIntent io c order p db))"
proof (cases "buildSaleIntentEntry order p c")
  case (Some r)
  obtain x c1 where r: "r = (x, c1)" by (cases r)
  assume wf: "journal_wf db"
  note b = built_entry [OF Some[unfolded r]]
  have keep: "journal_wf s'" if new: "map_of (jd_intents db) (si_asyncOrderId x) = None"
    and a: "append_and_put (si_asyncOrderId x) x EvEnqueued None c1 db = ((v, ev), s')" for v ev s'
    using b new by (intro append_wf [OF wf a]) (simp_all add: next_seq_def)
  show ?thesis
    unfolding enqueueSaleIntent_def Some r option.case prod.case
    by (rule transact_wf [OF wf]) (auto split: if_splits prod.splits intro: keep)
qed (simp add: enqueueSaleIntent_def)

lemma record_wf: "journal_wf db \<Longrightarrow> journal_wf (snd (recordSaleIntentEvent io c i t d db))"
proof -
  assume wf: "journal_wf db"
  have keep: "journal_wf s'" if x: "map_of (jd_intents db) i = Some x"
    and a: "append_and_put i x t d c db = ((e, ev), s')" for x e ev s'
    using x journal_wfD(3,4) [OF wf x] by (intro append_wf [OF wf a]) (simp_all add: next_seq_def)
  show ?thesis unfolding recordSaleIntentEvent_def
    by (rule transact_wf [OF wf]) (auto split: option.splits prod.splits intro: keep)
qed

lemma strip_one_wf: "journal_wf db \<Longrightarrow> journal_wf (snd (strip_one io c i db))"
proof -
  assume wf: "journal_wf db"
  have keep: "journal_wf s'" if x: "map_of (jd_intents db) i = Some x" and st: "stripEntryPayload x c = (y, c1)"
    and a: "append_and_put i y EvPayloadStripped None c1 db = ((e, ev), s')" for x y c1 e ev s'
    using x journal_wfD(3) [OF wf x] strip_ok [OF journal_wfD(4) [OF wf x] st]
    by (intro append_wf [OF wf a]) (simp_all add: next_seq_def)
  show ?thesis unfolding strip_one_def
    by (rule transact_wf [OF wf]) (use wf in \<open>auto split: option.splits prod.splits if_splits intro: keep\<close>)
qed

text \<open>Deleting an entry removes it and exactly the events under its keys.\<close>

lemma delete_one_result:
  assumes wf: "journal_wf db"
  shows "snd (delete_one io i db) = db
    \<or> (jd_meta (snd (delete_one io i db)) = jd_meta db
       \<and> map_of (jd_intents (snd (delete_one io i db))) = (map_of (jd_intents db))(i := None)
       \<and> (\<forall>j n. map_of (jd_events (snd (delete_one io i db))) (formatSaleIntentEventKey j n) =
            (if j = i then None else map_of (jd_events db) (formatSaleIntentEventKey j n)))
       \<and> (\<forall>k. map_of (jd_events (snd (delete_one io i db))) k \<in> {None, map_of (jd_events db) k})
       \<and> map_wf (jd_events (snd (delete_one io i db))) \<and> map_wf (jd_intents (snd (delete_one io i db))))"
proof -
  define keys where "keys = map event_key (filter (\<lambda>ev. ev_asyncOrderId ev = i) (map_vals (jd_events db)))"
  define db' where "db' = db\<lparr>jd_events := foldl (\<lambda>m k. map_delete k m) (jd_events db) keys,
    jd_intents := map_delete i (jd_intents db)\<rparr>"
  note ev = journal_wfD(2) [OF wf] and int = journal_wfD(1) [OF wf]
  have del: "map_of (jd_events db') k = (if k \<in> set keys then None else map_of (jd_events db) k)" for k
    using js_store.lookup_foldl_del [OF ev, of keys k] by (simp add: db'_def)
  have "formatSaleIntentEventKey j n \<in> set keys \<longleftrightarrow>
      j = i \<and> map_of (jd_events db) (formatSaleIntentEventKey j n) \<noteq> None" for j n
  proof
    assume "formatSaleIntentEventKey j n \<in> set keys"
    then obtain ev where e: "ev \<in> set (map_vals (jd_events db))" "ev_asyncOrderId ev = i"
      "event_key ev = formatSaleIntentEventKey j n" by (auto simp: keys_def)
    from e(1) obtain k where "map_of (jd_events db) k = Some ev" unfolding map_wf_vals [OF ev] by blast
    then have "map_of (jd_events db) (formatSaleIntentEventKey j n) = Some ev"
      using journal_wfD(6) [OF wf] e(3) by simp
    then show "j = i \<and> map_of (jd_events db) (formatSaleIntentEventKey j n) \<noteq> None"
      using e(2,3) by (simp add: event_key_def event_key_inj)
  next
    assume "j = i \<and> map_of (jd_events db) (formatSaleIntentEventKey j n) \<noteq> None"
    then obtain ev where e: "j = i" "map_of (jd_events db) (formatSaleIntentEventKey j n) = Some ev" by blast
    then have k: "event_key ev = formatSaleIntentEventKey j n" using journal_wfD(6) [OF wf] by simp
    then have "ev_asyncOrderId ev = i" using e(1) by (simp add: event_key_def event_key_inj)
    moreover have "ev \<in> set (map_vals (jd_events db))" using e(2) unfolding map_wf_vals [OF \<open>map_wf (jd_events db)\<close>] by blast
    ultimately show "formatSaleIntentEventKey j n \<in> set keys" using k by (force simp: keys_def)
  qed
  with del have keyed: "map_of (jd_events db') (formatSaleIntentEventKey j n) =
      (if j = i then None else map_of (jd_events db) (formatSaleIntentEventKey j n))" for j n by auto
  have "snd (delete_one io i db) = db \<or> snd (delete_one io i db) = db'"
    unfolding delete_one_def db'_def keys_def event_key_def
    by (rule store.relates) (auto simp: Let_def)
  then show ?thesis
  proof
    assume e: "snd (delete_one io i db) = db'"
    show ?thesis unfolding e
      using keyed del js_store.wf_foldl_del [OF ev, of keys] int by (simp add: db'_def)
  qed simp
qed

lemma delete_one_wf: "journal_wf db \<Longrightarrow> journal_wf (snd (delete_one io i db))"
proof -
  assume wf: "journal_wf db"
  let ?db = "snd (delete_one io i db)"
  from delete_one_result [OF wf, of io i] show ?thesis
  proof
    assume r: "jd_meta ?db = jd_meta db
       \<and> map_of (jd_intents ?db) = (map_of (jd_intents db))(i := None)
       \<and> (\<forall>j n. map_of (jd_events ?db) (formatSaleIntentEventKey j n) =
            (if j = i then None else map_of (jd_events db) (formatSaleIntentEventKey j n)))
       \<and> (\<forall>k. map_of (jd_events ?db) k \<in> {None, map_of (jd_events db) k})
       \<and> map_wf (jd_events ?db) \<and> map_wf (jd_intents ?db)"
    have ev: "k = event_key ev" if "map_of (jd_events ?db) k = Some ev" for k ev
    proof -
      have "map_of (jd_events ?db) k \<in> {None, map_of (jd_events db) k}" using r by blast
      then show ?thesis using that journal_wfD(6) [OF wf, of k ev] by simp
    qed
    show ?thesis unfolding journal_wf_def
      using r ev journal_wfD(3-5) [OF wf] journal_wfD(7) [OF wf] by (auto split: if_splits)
  qed (use wf in simp)
qed

lemma update_meta_entries:
  "jd_intents (snd (update_meta io f db)) = jd_intents db" "jd_events (snd (update_meta io f db)) = jd_events db"
  by (auto simp: update_meta_def transact_def Let_def split: io.splits)

lemma update_meta_wf: "journal_wf db \<Longrightarrow> journal_wf (snd (update_meta io f db))"
  by (simp add: journal_wf_def update_meta_entries)

lemma prune_one_wf: "journal_wf db \<Longrightarrow> journal_wf (snd (prune_one io c w db))"
  by (cases w) (simp_all add: strip_one_wf delete_one_wf)

text \<open>What one step of the loop preserves, the loop does.\<close>

lemma prune_loop_preserves:
  assumes "\<And>w io c db. w \<in> set ws \<Longrightarrow> P db \<Longrightarrow> P (snd (prune_one io c w db))" and "P db"
  shows "P (snd (prune_loop env ws db))"
  using assms
proof (induction ws arbitrary: db)
  case (Cons w ws)
  obtain r db' where o: "prune_one (fst (env (length ws))) (snd (env (length ws))) w db = (r, db')" by fastforce
  have "P (snd (prune_one (fst (env (length ws))) (snd (env (length ws))) w db))" using Cons.prems by simp
  then have "P db'" using o by simp
  then show ?case using Cons o by (cases r) auto
qed simp

text \<open>Pruning is a read, the loop over its plan, and an update of the meta record.\<close>

definition planned_work :: "(jsstr \<Rightarrow> jsstr \<Rightarrow> int) \<Rightarrow> prune_options \<Rightarrow> ms \<Rightarrow> journal_db \<Rightarrow> prune_work list" where
  "planned_work lc opts now db = (let (p, q) = selectPrunePlan lc (map_vals (jd_intents db)) opts now
     in map StripPayload p @ map DeleteEntry q)"

lemma prune_preserves:
  assumes start: "P db"
    and work: "\<And>w io c d. w \<in> set (planned_work lc opts now db) \<Longrightarrow> P d \<Longrightarrow> P (snd (prune_one io c w d))"
    and meta: "\<And>io f d. P d \<Longrightarrow> P (snd (update_meta io f d))"
  shows "P (snd (pruneSaleIntents lc ioRead env ioMeta opts now doneAt db))"
proof -
  let ?rd = "transact ioRead (\<lambda>db. Inr (map_vals (jd_intents db), db)) db"
  have rd: "?rd = (Inr (map_vals (jd_intents db)), db) \<or> (\<exists>e. ?rd = (Inl e, db))"
    by (auto simp: transact_def split: io.splits)
  obtain p q where plan: "selectPrunePlan lc (map_vals (jd_intents db)) opts now = (p, q)" by fastforce
  from rd show ?thesis
  proof
    assume r: "?rd = (Inr (map_vals (jd_intents db)), db)"
    obtain x db1 where l: "prune_loop env (map StripPayload p @ map DeleteEntry q) db = (x, db1)" by fastforce
    have "P (snd (prune_loop env (map StripPayload p @ map DeleteEntry q) db))"
      using work by (intro prune_loop_preserves [where P = P] start) (simp add: planned_work_def plan)
    then have db1: "P db1" using l by simp
    show ?thesis
    proof (cases x)
      case (Some e)
      then show ?thesis using db1 by (simp add: pruneSaleIntents_def r plan l)
    next
      case None
      let ?f = "\<lambda>m. m\<lparr>jm_lastPruneAt := Some doneAt, jm_lastPruneOutcome := Some
        \<lparr>po_scanned = length (map_vals (jd_intents db)), po_strippedPayloads = length p, po_deletedEntries = length q\<rparr>\<rparr>"
      obtain y db2 where m: "update_meta ioMeta ?f db1 = (y, db2)" by fastforce
      then have "P db2" using meta [OF db1, of ioMeta ?f] by simp
      then show ?thesis using None m by (cases y) (simp_all add: pruneSaleIntents_def r plan l Let_def)
    qed
  qed (use start in \<open>auto simp: pruneSaleIntents_def\<close>)
qed

lemma prune_wf: "journal_wf db \<Longrightarrow> journal_wf (snd (pruneSaleIntents lc ioRead env ioMeta opts now doneAt db))"
  by (rule prune_preserves [where P = journal_wf]) (simp_all add: prune_one_wf update_meta_wf)

section \<open>The prune plan deletes resolved entries only\<close>

lemma overflow_loop_take:
  "distinct is \<Longrightarrow> removed \<le> overflow \<Longrightarrow> overflow_loop overflow removed ds is
    = ds @ take (nat (overflow - removed)) (filter (\<lambda>i. i \<notin> set ds) is)"
proof (induction "is" arbitrary: removed ds)
  case (Cons i "is")
  show ?case
  proof (cases "removed < overflow \<and> i \<notin> set ds")
    case True
    have f: "filter (\<lambda>j. j \<notin> set (ds @ [i])) is = filter (\<lambda>j. j \<notin> set ds) is"
      using Cons.prems(1) by (auto intro: filter_cong)
    have n: "nat (overflow - removed) = Suc (nat (overflow - (removed + 1)))"
      using True Suc_nat_eq_nat_zadd1 [of "overflow - (removed + 1)"] by simp
    show ?thesis using True Cons.prems f n by (simp add: Cons.IH)
  next
    case False
    then show ?thesis using Cons by auto
  qed
qed simp

lemma overflow_loop_done: "removed \<ge> overflow \<Longrightarrow> overflow_loop overflow removed ds is = ds"
  by (cases "is") simp_all

text \<open>The plan in closed form, for entries with distinct ids.\<close>

definition prunable_ids :: "(jsstr \<Rightarrow> jsstr \<Rightarrow> int) \<Rightarrow> sale_intent list \<Rightarrow> jsstr list" where
  "prunable_ids lc es = map si_asyncOrderId (sort_by (age_order lc)
     (filter (\<lambda>e. isResolvedTerminalStatus (si_status e)) es))"

definition aged_ids :: "sale_intent list \<Rightarrow> ms \<Rightarrow> jsstr list" where
  "aged_ids es cutoff = map si_asyncOrderId
     (filter (\<lambda>e. isResolvedTerminalStatus (si_status e) \<and> si_createdAtLocal e < cutoff) es)"

definition max_entries :: "prune_options \<Rightarrow> int" where
  "max_entries opts = (case pp_maxEntries opts of None \<Rightarrow> DEFAULT_PRUNE_MAX_ENTRIES | Some k \<Rightarrow> k)"

definition cutoff_of :: "prune_options \<Rightarrow> ms \<Rightarrow> ms" where
  "cutoff_of opts now = now - (case pp_maxAgeDays opts of None \<Rightarrow> DEFAULT_PRUNE_MAX_AGE_DAYS | Some d \<Rightarrow> d) * 86400000"

lemma distinct_prunable: "distinct (map si_asyncOrderId es) \<Longrightarrow> distinct (prunable_ids lc es)"
proof -
  assume d: "distinct (map si_asyncOrderId es)"
  have "mset (prunable_ids lc es) = mset (map si_asyncOrderId (filter (\<lambda>e. isResolvedTerminalStatus (si_status e)) es))"
    by (simp add: prunable_ids_def)
  moreover have "distinct (map si_asyncOrderId (filter (\<lambda>e. isResolvedTerminalStatus (si_status e)) es))"
    using d by (rule distinct_map_filter)
  ultimately show ?thesis using mset_eq_imp_distinct_iff by blast
qed

lemma prune_plan_closed:
  assumes "distinct (map si_asyncOrderId es)"
  shows "snd (selectPrunePlan lc es opts now) = aged_ids es (cutoff_of opts now)
    @ take (nat (int (length es) - max_entries opts))
        (filter (\<lambda>i. i \<notin> set (aged_ids es (cutoff_of opts now))) (prunable_ids lc es))"
    (is "_ = ?r")
proof -
  let ?aged = "aged_ids es (cutoff_of opts now)"
  have d: "distinct ?aged" unfolding aged_ids_def using assms by (rule distinct_map_filter)
  have dp: "distinct (prunable_ids lc es)" using assms by (rule distinct_prunable)
  have r: "distinct ?r" using d dp by (auto dest: in_set_takeD)
  have "snd (selectPrunePlan lc es opts now) = remdups
      (if int (length es) > max_entries opts
       then overflow_loop (int (length es) - max_entries opts) 0 ?aged (prunable_ids lc es) else ?aged)"
    by (simp add: selectPrunePlan_def Let_def aged_ids_def cutoff_of_def max_entries_def prunable_ids_def mult.assoc)
  also have "(if int (length es) > max_entries opts
       then overflow_loop (int (length es) - max_entries opts) 0 ?aged (prunable_ids lc es) else ?aged) = ?r"
    using overflow_loop_take [OF dp, of 0 "int (length es) - max_entries opts" ?aged] by simp
  finally show ?thesis using r by (simp add: distinct_remdups_id)
qed

lemma plan_ids:
  assumes "i \<in> set (fst (selectPrunePlan lc es opts now)) \<or> i \<in> set (snd (selectPrunePlan lc es opts now))"
  shows "\<exists>e \<in> set es. si_asyncOrderId e = i \<and> isResolvedTerminalStatus (si_status e)"
proof -
  have loop: "set (overflow_loop ov r ds is) \<subseteq> set ds \<union> set is" for ov r ds "is"
  proof (induction "is" arbitrary: r ds)
    case (Cons i "is")
    show ?case using Cons.IH [of "r + 1" "ds @ [i]"] Cons.IH [of r ds] by auto
  qed simp
  show ?thesis
    using assms unfolding selectPrunePlan_def Let_def
    by (auto split: if_splits dest!: subsetD [OF loop])
qed

section \<open>The journal as a machine\<close>

datatype journal_call =
  CallEnqueue io clock sale_order "payload_policy option"
  | CallTransition io clock jsstr journal_status transition_metadata
  | CallRecord io clock jsstr journal_event_type "(jsstr \<times> detail_input) list option"
  | CallPrune io "nat \<Rightarrow> io \<times> clock" io prune_options ms iso_time
  | CallSetMeta io "journal_meta \<Rightarrow> journal_meta"

fun journal_step :: "(jsstr \<Rightarrow> jsstr \<Rightarrow> int) \<Rightarrow> journal_db \<Rightarrow> journal_call \<Rightarrow> journal_db" where
  "journal_step lc db (CallEnqueue io c order p) = snd (enqueueSaleIntent io c order p db)"
| "journal_step lc db (CallTransition io c i to m) = snd (transitionStatus io c i to m db)"
| "journal_step lc db (CallRecord io c i t d) = snd (recordSaleIntentEvent io c i t d db)"
| "journal_step lc db (CallPrune ioRead env ioMeta opts now doneAt) =
     snd (pruneSaleIntents lc ioRead env ioMeta opts now doneAt db)"
| "journal_step lc db (CallSetMeta io patch) = snd (setJournalMeta io patch db)"

lemma journal_step_wf: "journal_wf db \<Longrightarrow> journal_wf (journal_step lc db call)"
  by (cases call) (simp_all add: enqueue_wf transition_wf record_wf prune_wf setJournalMeta_def update_meta_wf)

interpretation journal: invariant_machine "journal_step lc" journal_wf for lc
  by unfold_locales (rule journal_step_wf)

definition status_at :: "journal_db \<Rightarrow> jsstr \<Rightarrow> journal_status option" where
  "status_at db i = map_option si_status (map_of (jd_intents db) i)"

lemma append_status:
  "append_and_put i e t d c db = ((e', ev), db') \<Longrightarrow> status_at db' j = (if j = i then Some (si_status e) else status_at db j)"
  using append_and_put_simps [of i e t d c db e' ev db'] by (auto simp: status_at_def)

lemma transition_status:
  "status_at (snd (transitionStatus io c i to m db)) j = status_at db j
   \<or> (j = i \<and> (\<exists>s. status_at db i = Some s \<and> isTransitionAllowed s to)
        \<and> status_at (snd (transitionStatus io c i to m db)) i = Some to
        \<and> (\<exists>v. fst (transitionStatus io c i to m db) = Inr v))"
proof -
  let ?b = "\<lambda>db. case map_of (jd_intents db) i of None \<Rightarrow> Inl JNotFound
     | Some existing \<Rightarrow> if \<not> isTransitionAllowed (si_status existing) to then Inl (JIllegalTransition (si_status existing) to)
       else (let (patched, c1) = applyTransitionPatch existing to m c;
                 ((e, ev), db') = append_and_put i patched (eventTypeForStatus to) None c1 db in Inr (e, db'))"
  show ?thesis
  proof (cases "snd (transact io ?b db) = db")
    case False
    then obtain v where v: "?b db = Inr (v, snd (transact io ?b db))" "fst (transact io ?b db) = Inr v"
      using store.all_or_nothing [of io ?b db] by blast
    then obtain x p c1 ev where x: "map_of (jd_intents db) i = Some x" "isTransitionAllowed (si_status x) to"
      and p: "applyTransitionPatch x to m c = (p, c1)"
      and a: "append_and_put i p (eventTypeForStatus to) None c1 db = ((v, ev), snd (transact io ?b db))"
      by (auto simp: Let_def split: option.splits if_splits prod.splits)
    have "si_status p = to" using p by (auto simp: applyTransitionPatch_def stripEntryPayload_def tick_def Let_def patch_fields_ok split: if_splits)
    then show ?thesis using append_status [OF a, of j] x v(2) unfolding transitionStatus_def
      by (auto simp: status_at_def)
  qed (simp add: transitionStatus_def)
qed

lemma enqueue_status:
  "status_at (snd (enqueueSaleIntent io c order p db)) j = status_at db j
   \<or> (j = so_id order \<and> status_at db j = None \<and> status_at (snd (enqueueSaleIntent io c order p db)) j = Some JQueued)"
proof (cases "buildSaleIntentEntry order p c")
  case (Some r)
  obtain x c1 where r: "r = (x, c1)" by (cases r)
  note b = built_entry [OF Some[unfolded r]]
  show ?thesis
    unfolding enqueueSaleIntent_def Some r option.case prod.case
  proof (rule store.preserves)
    fix v s'
    assume "(if map_of (jd_intents db) (si_asyncOrderId x) \<noteq> None then Inl JDuplicate
         else (let ((e, ev), db') = append_and_put (si_asyncOrderId x) x EvEnqueued None c1 db in Inr (e, db'))) = Inr (v, s')"
    then obtain ev where n: "map_of (jd_intents db) (si_asyncOrderId x) = None"
      and a: "append_and_put (si_asyncOrderId x) x EvEnqueued None c1 db = ((v, ev), s')"
      by (auto split: if_splits prod.splits)
    show "status_at s' j = status_at db j \<or> (j = so_id order \<and> status_at db j = None \<and> status_at s' j = Some JQueued)"
      using append_status [OF a, of j] b n by (auto simp: status_at_def)
  qed simp
qed (simp add: enqueueSaleIntent_def)

lemma record_status: "status_at (snd (recordSaleIntentEvent io c i t d db)) j = status_at db j"
proof -
  have keep: "status_at s' j = status_at db j"
    if "map_of (jd_intents db) i = Some x" "append_and_put i x t d c db = ((e, ev), s')" for x e ev s'
    using append_status [OF that(2), of j] that(1) by (auto simp: status_at_def)
  show ?thesis unfolding recordSaleIntentEvent_def
    by (rule store.preserves) (auto split: option.splits prod.splits intro: keep)
qed

lemma strip_one_status: "status_at (snd (strip_one io c i db)) j = status_at db j"
proof -
  have keep: "status_at s' j = status_at db j"
    if x: "map_of (jd_intents db) i = Some x" and st: "stripEntryPayload x c = (y, c1)"
    and a: "append_and_put i y EvPayloadStripped None c1 db = ((e, ev), s')" for x y c1 e ev s'
    using append_status [OF a, of j] x st by (auto simp: status_at_def stripEntryPayload_def tick_def)
  show ?thesis unfolding strip_one_def
    by (rule store.preserves) (auto split: option.splits prod.splits if_splits intro: keep)
qed

lemma delete_one_status:
  "journal_wf db \<Longrightarrow> status_at (snd (delete_one io i db)) j \<in> {status_at db j, (if j = i then None else status_at db j)}"
  using delete_one_result [of db io i] by (auto simp: status_at_def)

text \<open>Pruning forgets resolved entries only, whatever transactions fail.\<close>

lemma prune_status:
  assumes wf: "journal_wf db"
  shows "status_at (snd (pruneSaleIntents lc ioRead env ioMeta opts now doneAt db)) i = status_at db i
    \<or> (\<exists>s. status_at db i = Some s \<and> isResolvedTerminalStatus s
         \<and> status_at (snd (pruneSaleIntents lc ioRead env ioMeta opts now doneAt db)) i = None)"
proof -
  let ?P = "\<lambda>d. journal_wf d \<and> (\<forall>i. status_at d i = status_at db i
      \<or> (\<exists>s. status_at db i = Some s \<and> isResolvedTerminalStatus s \<and> status_at d i = None))"
  have "?P (snd (pruneSaleIntents lc ioRead env ioMeta opts now doneAt db))"
  proof (rule prune_preserves [where P = ?P])
    fix w io c d
    assume w: "w \<in> set (planned_work lc opts now db)" and P: "?P d"
    show "?P (snd (prune_one io c w d))"
    proof (cases w)
      case (StripPayload j)
      then show ?thesis using P by (simp add: strip_one_status strip_one_wf)
    next
      case (DeleteEntry j)
      then have "j \<in> set (snd (selectPrunePlan lc (map_vals (jd_intents db)) opts now))"
        using w by (auto simp: planned_work_def case_prod_unfold Let_def)
      then obtain e where e: "e \<in> set (map_vals (jd_intents db))" "si_asyncOrderId e = j" "isResolvedTerminalStatus (si_status e)"
        using plan_ids by blast
      then have "map_of (jd_intents db) j = Some e"
        using map_wf_vals [OF journal_wfD(1) [OF wf], of e] journal_wfD(3) [OF wf] by blast
      then have "status_at db j = Some (si_status e)" by (simp add: status_at_def)
      then show ?thesis using P e(3) DeleteEntry delete_one_status [of d io j]
        by (auto simp: delete_one_wf split: if_splits) (metis option.discI)+
    qed
  next
    show "?P (snd (update_meta io f d))" if "?P d" for io f d
      using that by (simp add: update_meta_wf status_at_def update_meta_entries)
  qed (use wf in simp)
  then show ?thesis by blast
qed

text \<open>The change one call makes to one sale.\<close>

definition status_move :: "journal_status option \<Rightarrow> journal_status option \<Rightarrow> bool" where
  "status_move a b \<longleftrightarrow> a = b \<or> (a = None \<and> b = Some JQueued)
     \<or> (\<exists>s t. a = Some s \<and> b = Some t \<and> isTransitionAllowed s t)
     \<or> (\<exists>s. a = Some s \<and> isResolvedTerminalStatus s \<and> b = None)"

lemma journal_step_move:
  assumes wf: "journal_wf db"
  shows "status_move (status_at db i) (status_at (journal_step lc db call) i)"
proof (cases call)
  case (CallEnqueue io c order p)
  then show ?thesis using enqueue_status [of io c order p db i] by (auto simp: status_move_def)
next
  case (CallTransition io c j to m)
  then show ?thesis using transition_status [of io c j to m db i] by (auto simp: status_move_def)
next
  case (CallRecord io c j t d)
  then show ?thesis by (simp add: status_move_def record_status)
next
  case (CallPrune ioRead env ioMeta opts now doneAt)
  then show ?thesis using prune_status [OF wf, of lc ioRead env ioMeta opts now doneAt i]
    by (auto simp: status_move_def)
next
  case (CallSetMeta io patch)
  then show ?thesis by (simp add: status_move_def setJournalMeta_def status_at_def update_meta_entries)
qed

lemma terminal_stays: "isResolvedTerminalStatus s \<Longrightarrow> \<not> isTransitionAllowed s t"
  by (auto simp: isResolvedTerminalStatus_def RESOLVED_TERMINAL_STATUSES_def isTransitionAllowed_def)

text \<open>The matrix has no cycle: each transition lowers the rank.\<close>

fun status_rank :: "journal_status \<Rightarrow> nat" where
  "status_rank JQueued = 5"
| "status_rank JFlushedToCache = 4"
| "status_rank JServerAcknowledged = 3"
| "status_rank JExceptionObserved = 2"
| "status_rank JRejectedByRules = 2"
| "status_rank JOrphaned = 2"
| "status_rank JManualReview = 1"
| "status_rank JSettledObserved = 0"
| "status_rank JSuperseded = 0"

lemma transition_rank: "isTransitionAllowed s t \<Longrightarrow> status_rank t < status_rank s"
  by (cases s; cases t) (simp_all add: isTransitionAllowed_def)

lemma status_rank_le: "status_rank s \<le> 5"
  by (cases s) simp_all

text \<open>The transitions of one sale that a sequence of calls gets accepted.\<close>

fun accepted_one :: "journal_db \<Rightarrow> jsstr \<Rightarrow> journal_call \<Rightarrow> nat" where
  "accepted_one db i (CallTransition io c j to m) =
    (if j = i \<and> \<not> isl (fst (transitionStatus io c j to m db)) then 1 else 0)"
| "accepted_one db i _ = 0"

fun accepted :: "(jsstr \<Rightarrow> jsstr \<Rightarrow> int) \<Rightarrow> journal_db \<Rightarrow> jsstr \<Rightarrow> journal_call list \<Rightarrow> nat" where
  "accepted lc db i [] = 0"
| "accepted lc db i (call # calls) = accepted_one db i call + accepted lc (journal_step lc db call) i calls"

fun enqueues :: "jsstr \<Rightarrow> journal_call \<Rightarrow> bool" where
  "enqueues i (CallEnqueue io c order p) = (so_id order = i)"
| "enqueues i _ = False"

definition rank_at :: "journal_db \<Rightarrow> jsstr \<Rightarrow> nat" where
  "rank_at db i = (case status_at db i of None \<Rightarrow> 0 | Some s \<Rightarrow> status_rank s)"

lemma transition_accepted:
  assumes "fst (transitionStatus io c i to m db) = Inr v"
  shows "\<exists>s. status_at db i = Some s \<and> isTransitionAllowed s to \<and> status_at (snd (transitionStatus io c i to m db)) i = Some to"
proof -
  let ?b = "\<lambda>db. case map_of (jd_intents db) i of None \<Rightarrow> Inl JNotFound
     | Some existing \<Rightarrow> if \<not> isTransitionAllowed (si_status existing) to then Inl (JIllegalTransition (si_status existing) to)
       else (let (patched, c1) = applyTransitionPatch existing to m c;
                 ((e, ev), db') = append_and_put i patched (eventTypeForStatus to) None c1 db in Inr (e, db'))"
  have "?b db = Inr (v, snd (transact io ?b db))"
    using store.success_commits [of io ?b db v] assms by (simp add: transitionStatus_def)
  then obtain x p c1 ev where x: "map_of (jd_intents db) i = Some x" "isTransitionAllowed (si_status x) to"
    and p: "applyTransitionPatch x to m c = (p, c1)"
    and a: "append_and_put i p (eventTypeForStatus to) None c1 db = ((v, ev), snd (transact io ?b db))"
    by (auto simp: Let_def split: option.splits if_splits prod.splits)
  have "si_status p = to" using p by (auto simp: applyTransitionPatch_def stripEntryPayload_def tick_def Let_def patch_fields_ok split: if_splits)
  then show ?thesis using append_status [OF a, of i] x unfolding transitionStatus_def
    by (auto simp: status_at_def)
qed

lemma accepted_one_rank:
  assumes wf: "journal_wf db" and "\<not> enqueues i call"
  shows "accepted_one db i call + rank_at (journal_step lc db call) i \<le> rank_at db i"
proof (cases "accepted_one db i call = 0")
  case True
  show ?thesis
  proof (cases call)
    case (CallEnqueue io c order p)
    then show ?thesis using enqueue_status [of io c order p db i] assms(2) by (auto simp: rank_at_def)
  next
    case (CallTransition io c j to m)
    then show ?thesis using True transition_status [of io c j to m db i] by (auto simp: rank_at_def)
  next
    case (CallRecord io c j t d)
    then show ?thesis by (simp add: rank_at_def record_status)
  next
    case (CallPrune ioRead env ioMeta opts now doneAt)
    then show ?thesis using prune_status [OF wf, of lc ioRead env ioMeta opts now doneAt i]
      by (auto simp: rank_at_def)
  next
    case (CallSetMeta io patch)
    then show ?thesis by (simp add: rank_at_def setJournalMeta_def status_at_def update_meta_entries)
  qed
next
  case False
  then obtain io c to m where call: "call = CallTransition io c i to m"
    and acc: "\<not> isl (fst (transitionStatus io c i to m db))"
    by (cases call) (auto split: if_splits)
  then obtain v where "fst (transitionStatus io c i to m db) = Inr v" by (auto simp: isl_def) (metis sumE)
  from transition_accepted [OF this] obtain s where "status_at db i = Some s" "isTransitionAllowed s to"
    "status_at (snd (transitionStatus io c i to m db)) i = Some to" by blast
  then show ?thesis using call acc transition_rank [of s to] by (simp add: rank_at_def)
qed

lemma accepted_rank:
  "journal_wf db \<Longrightarrow> list_all (\<lambda>call. \<not> enqueues i call) calls \<Longrightarrow>
   accepted lc db i calls + rank_at (run (journal_step lc) db calls) i \<le> rank_at db i"
proof (induction calls arbitrary: db)
  case (Cons call calls)
  then have "accepted lc (journal_step lc db call) i calls + rank_at (run (journal_step lc) (journal_step lc db call) calls) i
    \<le> rank_at (journal_step lc db call) i" by (simp add: journal_step_wf)
  moreover have "accepted_one db i call + rank_at (journal_step lc db call) i \<le> rank_at db i"
    using Cons.prems by (intro accepted_one_rank) simp_all
  ultimately show ?case by simp
qed simp

lemma status_runs:
  assumes "journal_wf db" "status_at db i = Some s"
  shows "(\<exists>t \<in> set (trace (journal_step lc) db calls). \<exists>r. status_at t i = Some r \<and> isResolvedTerminalStatus r)
    \<or> (\<exists>r. status_at (run (journal_step lc) db calls) i = Some r \<and> isTransitionAllowed\<^sup>*\<^sup>* s r)"
  using assms
proof (induction calls arbitrary: db s)
  case (Cons call calls)
  let ?db = "journal_step lc db call"
  show ?case
  proof (cases "isResolvedTerminalStatus s")
    case False
    have "status_move (Some s) (status_at ?db i)"
      using journal_step_move [OF Cons.prems(1), of i lc call] Cons.prems(2) by simp
    then obtain t where t: "status_at ?db i = Some t" "s = t \<or> isTransitionAllowed s t"
      using False by (cases "status_at ?db i") (auto simp: status_move_def)
    from Cons.IH [OF journal_step_wf [OF Cons.prems(1)] t(1)] show ?thesis
    proof
      assume "\<exists>r. status_at (run (journal_step lc) ?db calls) i = Some r \<and> isTransitionAllowed\<^sup>*\<^sup>* t r"
      then show ?thesis using t(2) by (auto intro: converse_rtranclp_into_rtranclp)
    qed auto
  qed (use Cons.prems in auto)
qed auto

section \<open>The event log\<close>

interpretation seq_order: comparator "cmp_on (\<lambda>ev :: sale_event. int (ev_eventSeq ev)) cmp_sub"
  by (rule comparator_on) unfold_locales

lemma events_of_entry:
  assumes wf: "journal_wf db"
  shows "mset (map ev_eventSeq (filter (\<lambda>ev. ev_asyncOrderId ev = i) (map_vals (jd_events db)))) = mset [1..<next_seq db i]"
proof -
  note ev = journal_wfD(2) [OF wf]
  let ?l = "filter (\<lambda>(k, ev). ev_asyncOrderId ev = i) (jd_events db)"
  have keyed: "k = event_key v" if "(k, v) \<in> set (jd_events db)" for k v
    using that ev journal_wfD(6) [OF wf, of k v] by (simp add: map_wf_def)
  have l: "map ev_eventSeq (filter (\<lambda>ev. ev_asyncOrderId ev = i) (map_vals (jd_events db))) = map (\<lambda>(k, ev). ev_eventSeq ev) ?l"
    by (simp add: map_vals_def filter_map comp_def case_prod_unfold)
  have "distinct ?l" using ev by (simp add: map_wf_def distinct_map)
  moreover have "inj_on (\<lambda>(k, ev). ev_eventSeq ev) (set ?l)"
  proof (rule inj_onI)
    fix x y assume xy: "x \<in> set ?l" "y \<in> set ?l" "(\<lambda>(k, ev). ev_eventSeq ev) x = (\<lambda>(k, ev). ev_eventSeq ev) y"
    obtain k v k' v' where [simp]: "x = (k, v)" "y = (k', v')" by (cases x; cases y)
    have "k = event_key v" "k' = event_key v'" using keyed xy by auto
    then have "k = k'" using xy by (simp add: event_key_def)
    then show "x = y" using xy ev eq_key_imp_eq_value [of "jd_events db" k v v'] by (simp add: map_wf_def)
  qed
  ultimately have d: "distinct (map (\<lambda>(k, ev). ev_eventSeq ev) ?l)" by (simp add: distinct_map)
  have "n \<in> set (map (\<lambda>(k, ev). ev_eventSeq ev) ?l) \<longleftrightarrow> n \<in> {1..<next_seq db i}" for n
  proof -
    have "n \<in> set (map (\<lambda>(k, ev). ev_eventSeq ev) ?l) \<longleftrightarrow> map_of (jd_events db) (formatSaleIntentEventKey i n) \<noteq> None"
    proof
      assume "n \<in> set (map (\<lambda>(k, ev). ev_eventSeq ev) ?l)"
      then obtain k v where kv: "(k, v) \<in> set (jd_events db)" "ev_asyncOrderId v = i" "ev_eventSeq v = n" by auto
      then have "k = formatSaleIntentEventKey i n" using keyed [OF kv(1)] by (simp add: event_key_def)
      then show "map_of (jd_events db) (formatSaleIntentEventKey i n) \<noteq> None"
        using kv(1) by (metis map_of_eq_None_iff fst_conv image_eqI)
    next
      assume "map_of (jd_events db) (formatSaleIntentEventKey i n) \<noteq> None"
      then obtain v where v: "map_of (jd_events db) (formatSaleIntentEventKey i n) = Some v" by blast
      then have "ev_asyncOrderId v = i \<and> ev_eventSeq v = n"
        using journal_wfD(6) [OF wf v] by (simp add: event_key_def event_key_inj)
      then show "n \<in> set (map (\<lambda>(k, ev). ev_eventSeq ev) ?l)" using map_of_SomeD [OF v] by force
    qed
    then show ?thesis using journal_wfD(7) [OF wf, of i n] by (auto simp: next_seq_def split: option.splits)
  qed
  then have "set (map (\<lambda>(k, ev). ev_eventSeq ev) ?l) = {1..<next_seq db i}" by (rule set_eqI)
  then have "set (map (\<lambda>(k, ev). ev_eventSeq ev) ?l) = set [1..<next_seq db i]" by simp
  then show ?thesis unfolding l using set_eq_iff_mset_eq_distinct [OF d distinct_upt] by blast
qed

lemma listed_events:
  assumes wf: "journal_wf db"
  shows "map ev_eventSeq (sort_by (cmp_on (\<lambda>ev. int (ev_eventSeq ev)) cmp_sub)
      (filter (\<lambda>ev. ev_asyncOrderId ev = i) (map_vals (jd_events db)))) = [1..<next_seq db i]"
proof -
  let ?cmp = "cmp_on (\<lambda>ev :: sale_event. int (ev_eventSeq ev)) cmp_sub"
  let ?s = "sort_by ?cmp (filter (\<lambda>ev. ev_asyncOrderId ev = i) (map_vals (jd_events db)))"
  have "sorted_wrt (\<lambda>a b. ?cmp a b \<le> 0) ?s" by (rule seq_order.sorted_sort_by)
  then have "sorted (map ev_eventSeq ?s)" by (simp add: sorted_wrt_map cmp_on_def cmp_sub_def)
  moreover have m: "mset (map ev_eventSeq ?s) = mset [1..<next_seq db i]"
    using events_of_entry [OF wf, of i] by simp
  ultimately show ?thesis by (metis properties_for_sort sorted_sort_id sorted_upt)
qed

lemma transition_IoOk:
  assumes "status_at db i = Some s" "isTransitionAllowed s to"
  shows "\<not> isl (fst (transitionStatus IoOk c i to m db))" "status_at (snd (transitionStatus IoOk c i to m db)) i = Some to"
proof -
  obtain x where x: "map_of (jd_intents db) i = Some x" "si_status x = s" using assms(1) by (auto simp: status_at_def)
  obtain p c1 where p: "applyTransitionPatch x to m c = (p, c1)" by fastforce
  obtain e ev db' where a: "append_and_put i p (eventTypeForStatus to) None c1 db = ((e, ev), db')" by (metis prod.collapse)
  have r: "transitionStatus IoOk c i to m db = (Inr e, db')"
    using x p a assms(2) by (simp add: transitionStatus_def transact_def)
  then show "\<not> isl (fst (transitionStatus IoOk c i to m db))" by simp
  from transition_accepted [of IoOk c i to m db e] r
  show "status_at (snd (transitionStatus IoOk c i to m db)) i = Some to" by auto
qed

lemma enqueue_IoOk:
  assumes "status_at db (so_id order) = None" "so_id order \<noteq> []"
  shows "status_at (snd (enqueueSaleIntent IoOk c order p db)) (so_id order) = Some JQueued"
proof -
  obtain x c1 where x: "buildSaleIntentEntry order p c = Some (x, c1)"
    using assms(2) by (auto simp: buildSaleIntentEntry_def aliasesForAsyncOrderId_def Let_def tick_def)
  note b = built_entry [OF x]
  obtain e ev db' where a: "append_and_put (si_asyncOrderId x) x EvEnqueued None c1 db = ((e, ev), db')" by (metis prod.collapse)
  have "enqueueSaleIntent IoOk c order p db = (Inr e, db')"
    using x b a assms(1) by (simp add: enqueueSaleIntent_def transact_def status_at_def)
  then show ?thesis using append_status [OF a, of "so_id order"] b by simp
qed

section \<open>Properties\<close>

text \<open>C35. Event keys: formatting and parsing round-trip for every non-empty order id and every
  sequence number a double counts exactly, and two events never share a key, even when
  order ids contain the separator.\<close>

theorem event_key_roundtrip:
  "(i \<noteq> [] \<longrightarrow> n < 2 ^ 53 \<longrightarrow> parseSaleIntentEventKey (formatSaleIntentEventKey i n) = Some (i, Fin (of_nat n)))
   \<and> (formatSaleIntentEventKey i n = formatSaleIntentEventKey j m \<longleftrightarrow> i = j \<and> n = m)"
  by (simp add: parseSaleIntentEventKey_def split_event_key js_Number_decimal event_key_inj)

theorem event_key_roundtrip_witness:
  "parseSaleIntentEventKey (formatSaleIntentEventKey (js ''POS1#7'') 12) = Some (js ''POS1#7'', Fin 12)"
  using event_key_roundtrip [of "js ''POS1#7''" 12] by simp

text \<open>C3. No sale is lost: in any run of the journal's operations, with whatever transactions
  failing, a sale that is in the journal either is still there, at a status reachable from
  its old one in the matrix, or had been resolved (settled or superseded) before it was
  pruned.\<close>

theorem no_sale_lost:
  assumes "db = run (journal_step lc) empty_journal before" and "status_at db i = Some s"
  shows "(\<exists>r. status_at (run (journal_step lc) db calls) i = Some r \<and> isTransitionAllowed\<^sup>*\<^sup>* s r)
    \<or> (\<exists>t \<in> set (trace (journal_step lc) db calls). \<exists>r. status_at t i = Some r \<and> isResolvedTerminalStatus r)"
  using status_runs [OF journal.inv_run [OF empty_journal_wf, of lc before] assms(2)[unfolded assms(1)]]
  unfolding assms(1) by blast

text \<open>Every sale reaches its end: whatever is called and whatever fails, at most five status
  transitions of one sale are accepted until it is enqueued again, because the status
  matrix has no cycle.\<close>

theorem transitions_bounded:
  assumes "list_all (\<lambda>call. \<not> enqueues i call) calls"
  shows "accepted lc (run (journal_step lc) empty_journal before) i calls \<le> 5"
proof -
  let ?db = "run (journal_step lc) empty_journal before"
  have "accepted lc ?db i calls + rank_at (run (journal_step lc) ?db calls) i \<le> rank_at ?db i"
    by (rule accepted_rank [OF journal.inv_run [OF empty_journal_wf] assms])
  moreover have "rank_at ?db i \<le> 5" by (auto simp: rank_at_def status_rank_le split: option.split)
  ultimately show ?thesis by linarith
qed

text \<open>The event log of a sale has no gap and no duplicate: after any run, what
  \<^verbatim>\<open>listSaleIntentEvents\<close> returns is numbered 1, 2, 3 and so on, up to one less than the
  entry's next sequence number, and is empty for a sale that is not in the journal.\<close>

theorem event_log_gapless:
  "\<exists>evs. fst (listSaleIntentEvents IoOk i (run (journal_step lc) empty_journal calls)) = Inr evs
    \<and> map ev_eventSeq evs = [1 ..< next_seq (run (journal_step lc) empty_journal calls) i]"
  using listed_events [OF journal.inv_run [OF empty_journal_wf, of lc calls], of i]
  by (simp add: listSaleIntentEvents_def transact_def)

text \<open>C40. Every stored entry is well typed, after any run: its key and its three ids are one
  non-empty string, the time of the observation its status names is set, and a resolved
  sale holds no payload.\<close>

theorem stored_entries_typed:
  assumes "map_of (jd_intents (run (journal_step lc) empty_journal calls)) i = Some e"
  shows "i \<noteq> [] \<and> si_asyncOrderId e = i \<and> si_localQueueId e = i \<and> si_idempotencyKey e = i
    \<and> (si_status e = JServerAcknowledged \<longrightarrow> si_serverAcknowledgedAt e \<noteq> None)
    \<and> (si_status e = JRejectedByRules \<longrightarrow> si_rejectedAt e \<noteq> None)
    \<and> (si_status e = JSettledObserved \<longrightarrow> si_settledObservedAt e \<noteq> None)
    \<and> (si_status e \<in> {JSettledObserved, JSuperseded} \<longrightarrow> si_salePayload e = None)"
  using journal_wfD(3,4) [OF journal.inv_run [OF empty_journal_wf] assms]
  by (auto simp: entry_ok_def isResolvedTerminalStatus_def RESOLVED_TERMINAL_STATUSES_def)

text \<open>Over the entry limit, pruning deletes too much: the entries deleted for their age do not
  count towards the overflow, so as many younger resolved entries are deleted as the
  journal was over the limit, on top of the aged ones.\<close>

theorem prune_overshoots:
  assumes "distinct (map si_asyncOrderId es)" and "int (length es) > max_entries opts"
    and "int (length (prunable_ids lc es)) - int (length (aged_ids es (cutoff_of opts now)))
         \<ge> int (length es) - max_entries opts"
  shows "int (length (snd (selectPrunePlan lc es opts now)))
    = int (length (aged_ids es (cutoff_of opts now))) + (int (length es) - max_entries opts)"
proof -
  let ?aged = "aged_ids es (cutoff_of opts now)" and ?p = "prunable_ids lc es"
  have d: "distinct ?p" "distinct ?aged"
    using distinct_prunable [OF assms(1)] assms(1) by (simp_all add: aged_ids_def distinct_map_filter)
  have sub: "set ?aged \<subseteq> set ?p" by (auto simp: aged_ids_def prunable_ids_def)
  have "length (filter (\<lambda>i. i \<notin> set ?aged) ?p) = card (set ?p - set ?aged)"
    using d(1) by (subst distinct_card [symmetric]) (auto intro: arg_cong [of _ _ card])
  also have "\<dots> = length ?p - length ?aged"
    using d sub by (simp add: card_Diff_subset distinct_card)
  finally have "length (filter (\<lambda>i. i \<notin> set ?aged) ?p) \<ge> nat (int (length es) - max_entries opts)"
    using assms(3) by linarith
  then show ?thesis using assms(2) by (simp add: prune_plan_closed [OF assms(1)] min_def)
qed

text \<open>Recorded messages are bounded single lines: never empty, at most 300 code units, and
  without any white space but plain blanks.\<close>

theorem sanitized_message_bounds:
  "sanitizeSaleIntentErrorMessage err \<noteq> [] \<and> length (sanitizeSaleIntentErrorMessage err) \<le> 300
   \<and> (\<forall>c \<in> set (sanitizeSaleIntentErrorMessage err). is_ws c \<longrightarrow> c = 32)"
proof -
  have ws: "c = 32" if "c \<in> set (collapse_ws s)" "is_ws c" for c s
    using that by (induction s) (auto split: if_splits)
  have "c = 32" if "c \<in> set (trim (collapse_ws s))" "is_ws c" for c s
    using that ws set_trim by blast
  moreover have "\<not> is_ws (8230 :: 16 word)" by (simp add: is_ws_def Let_def)
  moreover have "\<forall>c \<in> set (js ''unknown error''). is_ws c \<longrightarrow> c = 32"
    by (simp add: js_def is_ws_def Let_def unat_of_char)
  ultimately show ?thesis
    by (auto simp: sanitizeSaleIntentErrorMessage_def Let_def ERROR_MESSAGE_MAX_def dest: in_set_takeD)
qed

section \<open>A worked journal\<close>

definition demo_order :: sale_order where
  "demo_order = \<lparr>so_id = js ''S1'', so_billId = js ''B-1'', so_branchId = js ''HQ'', so_deviceId = js ''POS1'',
     so_shiftId = js ''sh'', so_staffId = js ''u1'', so_staffName = js ''Nok'', so_customerSnap = None,
     so_payments = [], so_total = Fin 120, so_note = [], so_clientCreatedAt = 5, so_rest = JObj []\<rparr>"

definition no_collation :: "jsstr \<Rightarrow> jsstr \<Rightarrow> int" where
  "no_collation a b = 0"

definition demo_calls :: "journal_status list \<Rightarrow> journal_call list" where
  "demo_calls = map (\<lambda>s. CallTransition IoOk (\<lambda>_. 0) (js ''S1'') s no_metadata)"

definition demo_journal :: journal_db where
  "demo_journal = run (journal_step no_collation) empty_journal [CallEnqueue IoOk (\<lambda>_. 0) demo_order None]"

lemma demo_queued: "status_at demo_journal (js ''S1'') = Some JQueued"
  using enqueue_IoOk [of empty_journal demo_order "\<lambda>_. 0" None]
  by (simp add: demo_journal_def status_at_def empty_journal_def demo_order_def)

lemma demo_journal_run:
  "status_at db (js ''S1'') = Some s \<Longrightarrow> isTransitionAllowed s t \<Longrightarrow>
   accepted no_collation db (js ''S1'') (demo_calls (t # ts))
     = 1 + accepted no_collation (journal_step no_collation db (CallTransition IoOk (\<lambda>_. 0) (js ''S1'') t no_metadata))
         (js ''S1'') (demo_calls ts)
   \<and> status_at (journal_step no_collation db (CallTransition IoOk (\<lambda>_. 0) (js ''S1'') t no_metadata)) (js ''S1'') = Some t"
  using transition_IoOk [of db "js ''S1''" s t "\<lambda>_. 0" no_metadata] by (simp add: demo_calls_def)

theorem no_sale_lost_witness:
  "(\<exists>r. status_at (run (journal_step no_collation) demo_journal (demo_calls [JFlushedToCache])) (js ''S1'') = Some r
      \<and> isTransitionAllowed\<^sup>*\<^sup>* JQueued r)
   \<or> (\<exists>t \<in> set (trace (journal_step no_collation) demo_journal (demo_calls [JFlushedToCache])).
        \<exists>r. status_at t (js ''S1'') = Some r \<and> isResolvedTerminalStatus r)"
  by (rule no_sale_lost [OF demo_journal_def demo_queued])

theorem transitions_bounded_witness:
  "accepted no_collation demo_journal (js ''S1'')
     (demo_calls [JFlushedToCache, JServerAcknowledged, JExceptionObserved, JManualReview, JSettledObserved]) = 5"
proof -
  let ?ss = "[JFlushedToCache, JServerAcknowledged, JExceptionObserved, JManualReview, JSettledObserved]"
  have "accepted no_collation demo_journal (js ''S1'') (demo_calls ?ss) \<le> 5"
    unfolding demo_journal_def by (rule transitions_bounded) (simp add: demo_calls_def)
  moreover have "accepted no_collation demo_journal (js ''S1'') (demo_calls ?ss) \<ge> 5"
  proof -
    note d = demo_journal_run [THEN conjunct1] and n = demo_journal_run [THEN conjunct2]
    note s1 = n [OF demo_queued, of JFlushedToCache]
    note s2 = n [OF s1, of JServerAcknowledged]
    note s3 = n [OF s2, of JExceptionObserved]
    note s4 = n [OF s3, of JManualReview]
    show ?thesis
      using d [OF demo_queued, of JFlushedToCache] d [OF s1, of JServerAcknowledged] d [OF s2, of JExceptionObserved]
        d [OF s3, of JManualReview] d [OF s4, of JSettledObserved "[]"]
      by (simp add: isTransitionAllowed_def)
  qed
  ultimately show ?thesis by linarith
qed

theorem stored_entries_typed_witness:
  "\<exists>e. map_of (jd_intents demo_journal) (js ''S1'') = Some e \<and> si_localQueueId e = js ''S1''"
proof -
  obtain e where e: "map_of (jd_intents demo_journal) (js ''S1'') = Some e"
    using demo_queued by (auto simp: status_at_def)
  show ?thesis using e stored_entries_typed [OF e[unfolded demo_journal_def]] by blast
qed

definition demo_intent :: "string \<Rightarrow> ms \<Rightarrow> journal_status \<Rightarrow> sale_intent" where
  "demo_intent i created s = (fst (the (buildSaleIntentEntry (demo_order\<lparr>so_id := js i, so_clientCreatedAt := created\<rparr>)
     (Some PolicyMetadataOnly) (\<lambda>_. created))))\<lparr>si_status := s\<rparr>"

lemma demo_intent_simps [simp]:
  "i \<noteq> [] \<Longrightarrow> si_asyncOrderId (demo_intent i created s) = js i"
  "i \<noteq> [] \<Longrightarrow> si_createdAtLocal (demo_intent i created s) = created"
  "si_status (demo_intent i created s) = s"
  by (simp_all add: demo_intent_def buildSaleIntentEntry_def aliasesForAsyncOrderId_def tick_def Let_def demo_order_def)

text \<open>A limit of two, three entries, one of them expired: two are deleted although one would do.\<close>

theorem prune_overshoots_witness:
  "length (snd (selectPrunePlan no_collation
     [demo_intent ''old'' 0 JSettledObserved, demo_intent ''new'' 2000000000 JSettledObserved,
      demo_intent ''open'' 2000000000 JQueued]
     \<lparr>pp_maxAgeDays = None, pp_maxEntries = Some 2\<rparr> 2000000000)) = 2"
proof -
  let ?es = "[demo_intent ''old'' 0 JSettledObserved, demo_intent ''new'' 2000000000 JSettledObserved,
      demo_intent ''open'' 2000000000 JQueued]"
  let ?o = "\<lparr>pp_maxAgeDays = None, pp_maxEntries = Some 2\<rparr>"
  have a: "length (aged_ids ?es (cutoff_of ?o 2000000000)) = 1"
    by (simp add: aged_ids_def cutoff_of_def DEFAULT_PRUNE_MAX_AGE_DAYS_def isResolvedTerminalStatus_def RESOLVED_TERMINAL_STATUSES_def)
  have p: "length (prunable_ids no_collation ?es) = 2"
    by (simp add: prunable_ids_def isResolvedTerminalStatus_def RESOLVED_TERMINAL_STATUSES_def)
  show ?thesis
    using prune_overshoots [of ?es ?o no_collation 2000000000] a p by (simp add: max_entries_def)
qed

theorem sanitized_message_bounds_witness:
  "length (sanitizeSaleIntentErrorMessage (ThrownString (replicate 1000 65))) \<le> 300"
  using sanitized_message_bounds [of "ThrownString (replicate 1000 65)"] by blast

end
