(* ===== verification/SaleIntentSweep.thy ===== *)
theory SaleIntentSweep
  imports SaleIntentJournal
begin

text \<open>
  The clients of the sale intent journal: the observer around the order write
  (\<^verbatim>\<open>saleIntentObserver.ts\<close>), the sweep that confirms stale sales against the server
  (\<^verbatim>\<open>saleIntentSweepLogic.ts\<close>, \<^verbatim>\<open>saleIntentSweep.ts\<close>), the gates of its boot wiring
  (\<^verbatim>\<open>saleIntentSweepBoot.ts\<close>) and the read-only selectors of the terminal's screens
  (\<^verbatim>\<open>saleIntentUiSelectors.ts\<close>). The server lookup is an argument.
\<close>

section \<open>Sweep logic\<close>

definition SWEEP_CANDIDATE_STATUSES :: "journal_status list" where
  "SWEEP_CANDIDATE_STATUSES = [JQueued, JFlushedToCache, JExceptionObserved]"

definition SWEEP_REPORT_ONLY_STATUSES :: "journal_status list" where
  "SWEEP_REPORT_ONLY_STATUSES = [JRejectedByRules, JManualReview]"

definition SWEEP_STALE_THRESHOLD_MS :: ms where "SWEEP_STALE_THRESHOLD_MS = 10 * 60 * 1000"
definition SWEEP_DEFAULT_BATCH_LIMIT :: int where "SWEEP_DEFAULT_BATCH_LIMIT = 50"

definition isSweepCandidateStatus :: "journal_status \<Rightarrow> bool" where
  "isSweepCandidateStatus s \<longleftrightarrow> s \<in> set SWEEP_CANDIDATE_STATUSES"

definition isSweepReportOnlyStatus :: "journal_status \<Rightarrow> bool" where
  "isSweepReportOnlyStatus s \<longleftrightarrow> s \<in> set SWEEP_REPORT_ONLY_STATUSES"

definition isEntryStale :: "sale_intent \<Rightarrow> ms \<Rightarrow> ms \<Rightarrow> bool" where
  "isEntryStale e nowMs thresholdMs \<longleftrightarrow> nowMs - si_updatedAtLocal e \<ge> thresholdMs"

datatype sweep_classification = SkipStatus | SkipFresh | LookupRequired

definition classifyEntryForSweep :: "sale_intent \<Rightarrow> ms \<Rightarrow> ms \<Rightarrow> sweep_classification" where
  "classifyEntryForSweep e nowMs thresholdMs =
    (if \<not> isSweepCandidateStatus (si_status e) then SkipStatus
     else if \<not> isEntryStale e nowMs thresholdMs then SkipFresh
     else LookupRequired)"

definition selectSweepCandidates ::
  "(jsstr \<Rightarrow> jsstr \<Rightarrow> int) \<Rightarrow> sale_intent list \<Rightarrow> ms \<Rightarrow> ms option \<Rightarrow> int option \<Rightarrow> sale_intent list" where
  "selectSweepCandidates localeCompare entries nowMs threshold batch =
    (let thresholdMs = (case threshold of None \<Rightarrow> SWEEP_STALE_THRESHOLD_MS | Some t \<Rightarrow> t);
         batchLimit = (case batch of None \<Rightarrow> SWEEP_DEFAULT_BATCH_LIMIT | Some b \<Rightarrow> b);
         eligible = sort_by (age_order localeCompare)
           (filter (\<lambda>e. classifyEntryForSweep e nowMs thresholdMs = LookupRequired) entries)
     in take (nat (max 0 batchLimit)) eligible)"

datatype lookup_outcome = LookupExists | LookupMissing | LookupError jsstr

datatype sweep_decision =
  AcknowledgeServerExists | ExceptionObservedServerExists | MissingAmbiguous | LookupErrorNoTransition

definition decideSweepAction :: "sale_intent \<Rightarrow> lookup_outcome \<Rightarrow> sweep_decision" where
  "decideSweepAction e outcome = (case outcome of
     LookupError r \<Rightarrow> LookupErrorNoTransition
   | LookupMissing \<Rightarrow> MissingAmbiguous
   | LookupExists \<Rightarrow> if si_status e = JExceptionObserved then ExceptionObservedServerExists
       else AcknowledgeServerExists)"

fun code_of :: "thrown \<Rightarrow> jsstr option option" where
  "code_of (ThrownError _ c) = c"
| "code_of (ThrownObject c) = c"
| "code_of _ = None"

definition extractErrorCode :: "thrown \<Rightarrow> jsstr" where
  "extractErrorCode err = (case code_of err of
     Some (Some code) \<Rightarrow> if code \<noteq> [] then code else js ''unknown'' | _ \<Rightarrow> js ''unknown'')"

definition KNOWN_LOOKUP_ERROR_REASONS :: "jsstr list" where
  "KNOWN_LOOKUP_ERROR_REASONS = [js ''permission-denied'', js ''unauthenticated'', js ''unavailable'']"

definition normalizeLookupError :: "thrown \<Rightarrow> lookup_outcome" where
  "normalizeLookupError err = (let code = extractErrorCode err in
     LookupError (if code \<in> set KNOWN_LOOKUP_ERROR_REASONS then code else js ''unknown''))"

record report_counts =
  rc_rejectedByRules :: nat
  rc_manualReview :: nat

definition countReportOnlyEntries :: "sale_intent list \<Rightarrow> report_counts" where
  "countReportOnlyEntries es =
    \<lparr>rc_rejectedByRules = length (filter (\<lambda>e. si_status e = JRejectedByRules) es),
     rc_manualReview = length (filter (\<lambda>e. si_status e = JManualReview) es)\<rparr>"

section \<open>The sweep\<close>

record sweep_outcome =
  sw_scanned :: nat
  sw_candidatesConsidered :: nat
  sw_acknowledged :: nat
  sw_ambiguousMissing :: nat
  sw_ambiguousLookupError :: nat
  sw_exceptionObservedServerExists :: nat
  sw_reportOnly :: report_counts
  sw_failedOpen :: bool

definition emptyOutcome :: sweep_outcome where
  "emptyOutcome = \<lparr>sw_scanned = 0, sw_candidatesConsidered = 0, sw_acknowledged = 0, sw_ambiguousMissing = 0,
     sw_ambiguousLookupError = 0, sw_exceptionObservedServerExists = 0,
     sw_reportOnly = \<lparr>rc_rejectedByRules = 0, rc_manualReview = 0\<rparr>, sw_failedOpen = False\<rparr>"

text \<open>The lookup returns whether the order exists, or throws.\<close>

type_synonym lookup = "jsstr \<Rightarrow> thrown + bool"

definition safeLookup :: "lookup \<Rightarrow> jsstr \<Rightarrow> lookup_outcome" where
  "safeLookup look i = (case look i of
     Inr True \<Rightarrow> LookupExists | Inr False \<Rightarrow> LookupMissing | Inl err \<Rightarrow> normalizeLookupError err)"

fun applySweepDecision ::
  "io \<Rightarrow> clock \<Rightarrow> sale_intent \<Rightarrow> sweep_decision \<Rightarrow> sweep_outcome \<Rightarrow> journal_db \<Rightarrow> sweep_outcome \<times> journal_db" where
  "applySweepDecision io c e AcknowledgeServerExists oc db =
    (case markServerAcknowledged io c (si_asyncOrderId e) no_metadata db of
       (Inr _, db') \<Rightarrow> (oc\<lparr>sw_acknowledged := sw_acknowledged oc + 1\<rparr>, db')
     | (Inl _, db') \<Rightarrow> (oc, db'))"
| "applySweepDecision io c e ExceptionObservedServerExists oc db =
    (oc\<lparr>sw_exceptionObservedServerExists := sw_exceptionObservedServerExists oc + 1\<rparr>,
     snd (recordSaleIntentEvent io c (si_asyncOrderId e) EvExceptionObserved
       (Some [(js ''phase'', RawStr (js ''sweep'')), (js ''outcome'', RawStr (js ''server_exists_no_transition''))]) db))"
| "applySweepDecision io c e MissingAmbiguous oc db = (oc\<lparr>sw_ambiguousMissing := sw_ambiguousMissing oc + 1\<rparr>, db)"
| "applySweepDecision io c e LookupErrorNoTransition oc db =
    (oc\<lparr>sw_ambiguousLookupError := sw_ambiguousLookupError oc + 1\<rparr>, db)"

fun sweep_loop ::
  "lookup \<Rightarrow> (nat \<Rightarrow> io \<times> clock) \<Rightarrow> sale_intent list \<Rightarrow> sweep_outcome \<Rightarrow> journal_db \<Rightarrow> sweep_outcome \<times> journal_db" where
  "sweep_loop look env [] oc db = (oc, db)"
| "sweep_loop look env (e # es) oc db =
    (let decision = decideSweepAction e (safeLookup look (si_asyncOrderId e));
         (oc', db') = applySweepDecision (fst (env (length es))) (snd (env (length es))) e decision oc db
     in sweep_loop look env es oc' db')"

definition readReportOnlyCounts :: "(jsstr \<Rightarrow> jsstr \<Rightarrow> int) \<Rightarrow> io \<Rightarrow> journal_db \<Rightarrow> report_counts" where
  "readReportOnlyCounts lc io db =
    (case fst (listSaleIntentsByStatus lc io SWEEP_REPORT_ONLY_STATUSES db) of
       Inr es \<Rightarrow> countReportOnlyEntries es
     | Inl _ \<Rightarrow> \<lparr>rc_rejectedByRules = 0, rc_manualReview = 0\<rparr>)"

definition runSaleIntentSweep ::
  "(jsstr \<Rightarrow> jsstr \<Rightarrow> int) \<Rightarrow> lookup \<Rightarrow> io \<Rightarrow> io \<Rightarrow> (nat \<Rightarrow> io \<times> clock) \<Rightarrow> ms \<Rightarrow> ms option \<Rightarrow> int option
   \<Rightarrow> journal_db \<Rightarrow> sweep_outcome \<times> journal_db" where
  "runSaleIntentSweep lc look ioList ioReport env nowMs threshold batch db =
    (case fst (listSaleIntentsByStatus lc ioList SWEEP_CANDIDATE_STATUSES db) of
       Inl _ \<Rightarrow> (emptyOutcome\<lparr>sw_failedOpen := True\<rparr>, db)
     | Inr entries \<Rightarrow>
       (let candidates = selectSweepCandidates lc entries nowMs threshold batch
        in sweep_loop look env candidates
             (emptyOutcome\<lparr>sw_scanned := length entries, sw_reportOnly := readReportOnlyCounts lc ioReport db,
                sw_candidatesConsidered := length candidates\<rparr>) db))"

section \<open>Boot gates\<close>

text \<open>The synchronous gates of \<^verbatim>\<open>maybeStartSaleIntentSweepBoot\<close>, the once-per-tab guard its timer
  consumes, and the gates of the work itself; \<open>None\<close> is a silent skip.\<close>

record sweep_boot_context =
  bc_session :: bool
  bc_branchId :: "jsstr option"
  bc_firebaseUser :: bool

definition boot_scheduled :: "sweep_boot_context \<Rightarrow> bool option \<Rightarrow> bool \<Rightarrow> bool" where
  "boot_scheduled ctx onLine bootAttemptConsumed \<longleftrightarrow>
    bc_session ctx \<and> truthy (bc_branchId ctx) \<and> bc_branchId ctx \<noteq> Some (js ''ALL'')
    \<and> bc_firebaseUser ctx \<and> onLine \<noteq> Some False \<and> \<not> bootAttemptConsumed"

text \<open>The timer callback: what the guard is afterwards and whether the work starts.\<close>

definition boot_timer_fires :: "bool \<Rightarrow> bool \<times> bool" where
  "boot_timer_fires bootAttemptConsumed = (if bootAttemptConsumed then (True, False) else (True, True))"

text \<open>The claims read: a throw, or the claim \<^verbatim>\<open>staffId\<close> if present.\<close>

definition runGatedSweep :: "bool \<Rightarrow> sweep_boot_context \<Rightarrow> unit + jsval \<Rightarrow> bool" where
  "runGatedSweep lookupAvailable ctx claims \<longleftrightarrow>
    lookupAvailable \<and> bc_firebaseUser ctx
    \<and> (case claims of Inl _ \<Rightarrow> False | Inr staffId \<Rightarrow> \<not> is_nullish staffId)"

datatype web_locks = NoWebLocks | LockThrows | LockHeldElsewhere | LockGranted

definition runWithSingleFlight :: "web_locks \<Rightarrow> bool \<Rightarrow> sweep_boot_context \<Rightarrow> unit + jsval \<Rightarrow> bool" where
  "runWithSingleFlight locks lookupAvailable ctx claims = (case locks of
     NoWebLocks \<Rightarrow> runGatedSweep lookupAvailable ctx claims
   | LockGranted \<Rightarrow> runGatedSweep lookupAvailable ctx claims
   | LockThrows \<Rightarrow> False | LockHeldElsewhere \<Rightarrow> False)"

section \<open>The observer\<close>

text \<open>The journal calls after the write settles, in order; \<open>Inl\<close> is a rejected write. Each call
  has its own transaction outcome and clock.\<close>

definition observe_prepare :: "(nat \<Rightarrow> io \<times> clock) \<Rightarrow> sale_order \<Rightarrow> journal_db \<Rightarrow> journal_db" where
  "observe_prepare env order db =
    (let db1 = snd (enqueueSaleIntent (fst (env 0)) (snd (env 0)) order (Some PolicyRedacted) db)
     in snd (markFlushedToCache (fst (env 1)) (snd (env 1)) (so_id order) db1))"

definition observe :: "(nat \<Rightarrow> io \<times> clock) \<Rightarrow> sale_order \<Rightarrow> thrown + unit \<Rightarrow> journal_db \<Rightarrow> journal_db" where
  "observe env order settled db =
    (let db1 = observe_prepare env order db; i = so_id order
     in case settled of
          Inr _ \<Rightarrow> snd (markServerAcknowledged (fst (env 2)) (snd (env 2)) i no_metadata db1)
        | Inl err \<Rightarrow>
          if extractErrorCode err = js ''permission-denied''
          then snd (markRejectedByRules (fst (env 2)) (snd (env 2)) i err no_metadata db1)
          else (let db2 = snd (transitionStatus (fst (env 2)) (snd (env 2)) i JExceptionObserved no_metadata db1)
                in snd (recordSaleIntentEvent (fst (env 3)) (snd (env 3)) i EvExceptionObserved
                  (Some [(js ''phase'', RawStr (js ''observe'')), (js ''errorCode'', RawStr (extractErrorCode err))]) db2)))"

section \<open>Selectors of the screens\<close>

definition DEVICE_PENDING_STATUSES :: "journal_status list" where
  "DEVICE_PENDING_STATUSES = [JQueued, JFlushedToCache, JServerAcknowledged]"

definition DEVICE_ATTENTION_STATUSES :: "journal_status list" where
  "DEVICE_ATTENTION_STATUSES = [JRejectedByRules, JOrphaned, JManualReview]"

definition OLD_PENDING_AGE_MS :: ms where "OLD_PENDING_AGE_MS = 10 * 60 * 1000"

record pending_summary =
  ps_count :: nat
  ps_oldestAgeMs :: "ms option"
  ps_isStale :: bool

definition selectDevicePendingSummary :: "sale_intent list \<Rightarrow> jsstr \<Rightarrow> ms \<Rightarrow> pending_summary" where
  "selectDevicePendingSummary entries deviceId nowMs =
    (let mine = filter (\<lambda>e. si_deviceId e = deviceId \<and> si_status e \<in> set DEVICE_PENDING_STATUSES) entries
     in if mine = [] then \<lparr>ps_count = 0, ps_oldestAgeMs = None, ps_isStale = False\<rparr>
        else (let oldestCreatedAt = foldr min (map si_createdAtLocal (tl mine)) (si_createdAtLocal (hd mine));
                  oldestAgeMs = max 0 (nowMs - oldestCreatedAt)
              in \<lparr>ps_count = length mine, ps_oldestAgeMs = Some oldestAgeMs,
                  ps_isStale = (oldestAgeMs \<ge> OLD_PENDING_AGE_MS)\<rparr>))"

text \<open>The fixed Thai texts are named by what they say.\<close>

datatype attention_reason = OwnText jsstr | NoServerConfirmation | RejectedByServer | NeedsManualCheck

definition reasonForEntry :: "sale_intent \<Rightarrow> attention_reason" where
  "reasonForEntry e =
    (if si_status e = JManualReview \<and> truthy (si_manualReviewReason e) then OwnText (the (si_manualReviewReason e))
     else if truthy (si_lastErrorMessage e) then OwnText (the (si_lastErrorMessage e))
     else if si_status e = JOrphaned then NoServerConfirmation
     else if si_status e = JRejectedByRules then RejectedByServer
     else NeedsManualCheck)"

record attention_row =
  at_asyncOrderId :: jsstr
  at_billId :: jsstr
  at_createdAtIso :: iso_time
  at_totalAmount :: jsnum
  at_status :: journal_status
  at_reason :: attention_reason

definition selectDeviceAttentionRows ::
  "(jsstr \<Rightarrow> jsstr \<Rightarrow> int) \<Rightarrow> sale_intent list \<Rightarrow> jsstr \<Rightarrow> attention_row list" where
  "selectDeviceAttentionRows lc entries deviceId =
    map (\<lambda>e. \<lparr>at_asyncOrderId = si_asyncOrderId e,
        at_billId = (if si_billId e \<noteq> [] then si_billId e else si_asyncOrderId e),
        at_createdAtIso = si_createdAtIso e, at_totalAmount = si_totalAmount e,
        at_status = si_status e, at_reason = reasonForEntry e\<rparr>)
      (sort_by (age_order lc)
        (filter (\<lambda>e. si_deviceId e = deviceId \<and> si_status e \<in> set DEVICE_ATTENTION_STATUSES) entries))"

definition readDeviceSaleIntentEntries :: "(jsstr \<Rightarrow> jsstr \<Rightarrow> int) \<Rightarrow> io \<Rightarrow> journal_db \<Rightarrow> sale_intent list" where
  "readDeviceSaleIntentEntries lc io db =
    (case fst (listSaleIntentsByStatus lc io (DEVICE_PENDING_STATUSES @ DEVICE_ATTENTION_STATUSES) db) of
       Inr es \<Rightarrow> es | Inl _ \<Rightarrow> [])"

section \<open>What a sweep changes\<close>

definition confirmable :: "journal_status option \<Rightarrow> bool" where
  "confirmable s \<longleftrightarrow> s = Some JQueued \<or> s = Some JFlushedToCache"

lemma acknowledge_allowed: "isTransitionAllowed s JServerAcknowledged \<longleftrightarrow> confirmable (Some s)"
  by (cases s) (simp_all add: isTransitionAllowed_def confirmable_def)

lemma acknowledge_status:
  "status_at (snd (markServerAcknowledged io c i m db)) j = status_at db j
   \<or> (j = i \<and> confirmable (status_at db i) \<and> status_at (snd (markServerAcknowledged io c i m db)) i = Some JServerAcknowledged)"
  using transition_status [of io c i JServerAcknowledged m db j]
  by (auto simp: markServerAcknowledged_def acknowledge_allowed)

lemma decide_acknowledge:
  "decideSweepAction e (safeLookup look i) = AcknowledgeServerExists \<longleftrightarrow>
   look i = Inr True \<and> si_status e \<noteq> JExceptionObserved"
  by (auto simp: decideSweepAction_def safeLookup_def normalizeLookupError_def Let_def split: sum.splits bool.splits)

lemma apply_status:
  "status_at (snd (applySweepDecision io c e d oc db)) j = status_at db j
   \<or> (d = AcknowledgeServerExists \<and> j = si_asyncOrderId e \<and> confirmable (status_at db j)
      \<and> status_at (snd (applySweepDecision io c e d oc db)) j = Some JServerAcknowledged)"
proof (cases d)
  case AcknowledgeServerExists
  have "snd (applySweepDecision io c e d oc db) = snd (markServerAcknowledged io c (si_asyncOrderId e) no_metadata db)"
    using AcknowledgeServerExists by (simp split: sum.splits prod.splits)
  then show ?thesis using acknowledge_status [of io c "si_asyncOrderId e" no_metadata db j] AcknowledgeServerExists by auto
qed (simp_all add: record_status)

lemma sweep_loop_status:
  "status_at (snd (sweep_loop look env es oc db)) j = status_at db j
   \<or> (look j = Inr True \<and> confirmable (status_at db j) \<and> (\<exists>e \<in> set es. si_asyncOrderId e = j)
      \<and> status_at (snd (sweep_loop look env es oc db)) j = Some JServerAcknowledged)"
proof (induction es arbitrary: oc db)
  case (Cons e es)
  let ?d = "decideSweepAction e (safeLookup look (si_asyncOrderId e))"
  obtain oc' db' where a: "applySweepDecision (fst (env (length es))) (snd (env (length es))) e ?d oc db = (oc', db')"
    by fastforce
  from apply_status [of "fst (env (length es))" "snd (env (length es))" e ?d oc db j] a
  have "status_at db' j = status_at db j
    \<or> (look j = Inr True \<and> j = si_asyncOrderId e \<and> confirmable (status_at db j) \<and> status_at db' j = Some JServerAcknowledged)"
    by (auto simp: decide_acknowledge)
  moreover have "\<not> confirmable (Some JServerAcknowledged)" by (simp add: confirmable_def)
  ultimately show ?case using Cons.IH [of oc' db'] a by (auto simp: Let_def)
qed simp

lemma sweep_loop_acknowledges:
  assumes "\<And>n. fst (env n) = IoOk" and "e \<in> set es" "si_asyncOrderId e = j" "si_status e \<noteq> JExceptionObserved"
    and "look j = Inr True" and "confirmable (status_at db j)"
  shows "status_at (snd (sweep_loop look env es oc db)) j = Some JServerAcknowledged"
  using assms(2,6)
proof (induction es arbitrary: oc db)
  case (Cons x es)
  let ?d = "decideSweepAction x (safeLookup look (si_asyncOrderId x))"
  obtain oc' db' where a: "applySweepDecision (fst (env (length es))) (snd (env (length es))) x ?d oc db = (oc', db')"
    by fastforce
  have step: "snd (sweep_loop look env (x # es) oc db) = snd (sweep_loop look env es oc' db')" using a by (simp add: Let_def)
  have st: "status_at db' j = status_at db j \<or> status_at db' j = Some JServerAcknowledged"
    using apply_status [of "fst (env (length es))" "snd (env (length es))" x ?d oc db j] a by auto
  show ?case
  proof (cases "status_at db' j = Some JServerAcknowledged")
    case True
    then show ?thesis unfolding step using sweep_loop_status [of look env es oc' db' j] by (auto simp: confirmable_def)
  next
    case False
    then have same: "status_at db' j = status_at db j" using st by blast
    have "x \<noteq> e"
    proof
      assume [simp]: "x = e"
      have d: "?d = AcknowledgeServerExists" using assms(3-5) by (simp add: decide_acknowledge)
      obtain s where s: "status_at db j = Some s" "isTransitionAllowed s JServerAcknowledged"
        using Cons.prems(2) by (auto simp: confirmable_def acknowledge_allowed)
      have "snd (applySweepDecision IoOk c e AcknowledgeServerExists oc db)
          = snd (markServerAcknowledged IoOk c (si_asyncOrderId e) no_metadata db)" for c
        by (simp split: sum.splits prod.splits)
      then have "status_at db' j = Some JServerAcknowledged"
        using a d assms(1,3) transition_IoOk(2) [OF s, of "snd (env (length es))" no_metadata]
        by (metis \<open>x = e\<close> markServerAcknowledged_def snd_conv)
      then show False using False by simp
    qed
    then show ?thesis unfolding step using Cons same by auto
  qed
qed simp

lemma sweep_loop_idle:
  assumes "\<forall>e \<in> set es. look (si_asyncOrderId e) \<noteq> Inr True"
  shows "snd (sweep_loop look env es oc db) = db"
  using assms
proof (induction es arbitrary: oc db)
  case (Cons e es)
  have "safeLookup look (si_asyncOrderId e) \<noteq> LookupExists"
    using Cons.prems by (auto simp: safeLookup_def normalizeLookupError_def Let_def split: sum.splits bool.splits)
  then have "decideSweepAction e (safeLookup look (si_asyncOrderId e)) \<in> {MissingAmbiguous, LookupErrorNoTransition}"
    by (cases "safeLookup look (si_asyncOrderId e)") (simp_all add: decideSweepAction_def)
  then show ?case using Cons by (auto simp: Let_def)
qed simp

text \<open>The entries a sweep lists and those it looks up.\<close>

definition sweep_list :: "(jsstr \<Rightarrow> jsstr \<Rightarrow> int) \<Rightarrow> journal_db \<Rightarrow> sale_intent list" where
  "sweep_list lc db = sort_by (age_order lc) (filter (\<lambda>e. si_status e \<in> set SWEEP_CANDIDATE_STATUSES) (map_vals (jd_intents db)))"

lemma sweep_db:
  "snd (runSaleIntentSweep lc look ioList ioReport env now th batch db) =
    (if ioList = IoOk
     then snd (sweep_loop look env (selectSweepCandidates lc (sweep_list lc db) now th batch)
       (emptyOutcome\<lparr>sw_scanned := length (sweep_list lc db), sw_reportOnly := readReportOnlyCounts lc ioReport db,
          sw_candidatesConsidered := length (selectSweepCandidates lc (sweep_list lc db) now th batch)\<rparr>) db)
     else db)"
  by (cases ioList) (simp_all add: runSaleIntentSweep_def listSaleIntentsByStatus_def transact_def sweep_list_def Let_def)

definition or_default :: "'a \<Rightarrow> 'a option \<Rightarrow> 'a" where
  "or_default d x = (case x of None \<Rightarrow> d | Some y \<Rightarrow> y)"

text \<open>The entries old enough for a lookup.\<close>

definition stale_entries :: "journal_db \<Rightarrow> ms \<Rightarrow> ms option \<Rightarrow> sale_intent list" where
  "stale_entries db now th = filter (\<lambda>e. isSweepCandidateStatus (si_status e)
     \<and> isEntryStale e now (or_default SWEEP_STALE_THRESHOLD_MS th)) (map_vals (jd_intents db))"

lemma filter_sort_length: "length (filter P (sort_by cmp xs)) = length (filter P xs)"
  by (metis mset_filter mset_sort_by size_mset)

lemma candidates_all:
  assumes "int (length (stale_entries db now th)) \<le> or_default SWEEP_DEFAULT_BATCH_LIMIT batch"
  shows "set (selectSweepCandidates lc (sweep_list lc db) now th batch) = set (stale_entries db now th)"
proof -
  let ?p = "\<lambda>e. classifyEntryForSweep e now (or_default SWEEP_STALE_THRESHOLD_MS th) = LookupRequired"
  have p: "?p e \<longleftrightarrow> isSweepCandidateStatus (si_status e) \<and> isEntryStale e now (or_default SWEEP_STALE_THRESHOLD_MS th)" for e
    by (simp add: classifyEntryForSweep_def)
  have "length (filter ?p (sweep_list lc db)) \<le> length (stale_entries db now th)"
    by (simp add: sweep_list_def filter_sort_length stale_entries_def p isSweepCandidateStatus_def conj_commute)
  then have "selectSweepCandidates lc (sweep_list lc db) now th batch = sort_by (age_order lc) (filter ?p (sweep_list lc db))"
    using assms by (simp add: selectSweepCandidates_def or_default_def Let_def)
  then show ?thesis by (auto simp: sweep_list_def stale_entries_def p isSweepCandidateStatus_def)
qed

section \<open>Properties\<close>

text \<open>C34. The sweep never guesses: whatever lookups fail and whatever transactions fail, it changes
  the status of a sale only from queued or flushed to acknowledged, and only when the
  server answered that the order exists.\<close>

theorem sweep_never_guesses:
  "status_at (snd (runSaleIntentSweep lc look ioList ioReport env now th batch db)) j = status_at db j
   \<or> (look j = Inr True \<and> (status_at db j = Some JQueued \<or> status_at db j = Some JFlushedToCache)
      \<and> status_at (snd (runSaleIntentSweep lc look ioList ioReport env now th batch db)) j = Some JServerAcknowledged)"
  (is "?same \<or> ?confirmed")
proof (cases "ioList = IoOk")
  case True
  show ?thesis unfolding sweep_db if_P [OF True]
    using sweep_loop_status [of look env "selectSweepCandidates lc (sweep_list lc db) now th batch" _ db j]
    unfolding confirmable_def by blast
qed (simp add: sweep_db)

text \<open>C15. A sweep makes progress: if no transaction fails and no more entries are stale than the batch
  holds, every stale queued or flushed sale that the server has is acknowledged by the
  next sweep.\<close>

theorem sweep_acknowledges:
  assumes "db = run (journal_step lc') empty_journal calls"
    and "map_of (jd_intents db) j = Some e" and "si_status e = JQueued \<or> si_status e = JFlushedToCache"
    and "isEntryStale e now (or_default SWEEP_STALE_THRESHOLD_MS th)" and "look j = Inr True"
    and "int (length (stale_entries db now th)) \<le> or_default SWEEP_DEFAULT_BATCH_LIMIT batch"
    and "\<And>n. fst (env n) = IoOk"
  shows "status_at (snd (runSaleIntentSweep lc look IoOk ioReport env now th batch db)) j = Some JServerAcknowledged"
proof -
  have wf: "journal_wf db" unfolding assms(1) by (rule journal.inv_run [OF empty_journal_wf])
  have "e \<in> set (stale_entries db now th)"
    using assms(2-4) map_wf_vals [OF journal_wfD(1) [OF wf], of e]
    by (auto simp: stale_entries_def isSweepCandidateStatus_def SWEEP_CANDIDATE_STATUSES_def)
  then have "e \<in> set (selectSweepCandidates lc (sweep_list lc db) now th batch)"
    unfolding candidates_all [OF assms(6)] .
  then show ?thesis
    unfolding sweep_db using assms(2,3) journal_wfD(3) [OF wf assms(2)]
    by (simp, intro sweep_loop_acknowledges [OF assms(7)]) (auto simp: assms(5) status_at_def confirmable_def)
qed

text \<open>The sweep can starve: a sale the server has not answered for keeps its place at the head of
  the batch. If every entry is stale and the server confirms none of the oldest ones that
  fill the batch, no number of later sweeps changes anything, although the server may
  have orders for all the entries behind them.\<close>

theorem sweep_starves:
  assumes "\<forall>e \<in> set (sweep_list lc db). isEntryStale e now (or_default SWEEP_STALE_THRESHOLD_MS th)"
    and "\<forall>e \<in> set (take (nat (max 0 (or_default SWEEP_DEFAULT_BATCH_LIMIT batch)))
           (sort_by (age_order lc) (sweep_list lc db))). look (si_asyncOrderId e) \<noteq> Inr True"
    and "list_all (\<lambda>t. now \<le> t) later"
  shows "foldl (\<lambda>d t. snd (runSaleIntentSweep lc look IoOk ioReport env t th batch d)) db later = db"
proof -
  have once: "snd (runSaleIntentSweep lc look IoOk ioReport env t th batch db) = db" if t: "now \<le> t" for t
  proof -
    have "isEntryStale e t (or_default SWEEP_STALE_THRESHOLD_MS th)" if "e \<in> set (sweep_list lc db)" for e
      using assms(1) that t by (fastforce simp: isEntryStale_def)
    then have "filter (\<lambda>e. classifyEntryForSweep e t (or_default SWEEP_STALE_THRESHOLD_MS th) = LookupRequired) (sweep_list lc db)
        = sweep_list lc db"
      by (auto simp: filter_id_conv classifyEntryForSweep_def sweep_list_def isSweepCandidateStatus_def)
    then have "selectSweepCandidates lc (sweep_list lc db) t th batch
        = take (nat (max 0 (or_default SWEEP_DEFAULT_BATCH_LIMIT batch))) (sort_by (age_order lc) (sweep_list lc db))"
      by (simp add: selectSweepCandidates_def or_default_def Let_def)
    then show ?thesis using assms(2) by (simp add: sweep_db sweep_loop_idle)
  qed
  show ?thesis using assms(3) by (induction later) (simp_all add: once)
qed

text \<open>The observer records what became of the order write: for a new order and without storage
  faults the sale ends acknowledged, rejected by the rules exactly on a permission error,
  or with an observed exception.\<close>

theorem observer_outcome:
  assumes "status_at db (so_id order) = None" and "so_id order \<noteq> []" and "\<And>n. fst (env n) = IoOk"
  shows "status_at (observe env order settled db) (so_id order) = Some (case settled of
     Inr _ \<Rightarrow> JServerAcknowledged
   | Inl err \<Rightarrow> if extractErrorCode err = js ''permission-denied'' then JRejectedByRules else JExceptionObserved)"
proof -
  let ?i = "so_id order"
  note q = enqueue_IoOk [OF assms(1,2), of "snd (env 0)" "Some PolicyRedacted"]
  have f: "status_at (observe_prepare env order db) ?i = Some JFlushedToCache"
    unfolding observe_prepare_def Let_def markFlushedToCache_def assms(3)
    by (rule transition_IoOk(2) [OF q]) (simp add: isTransitionAllowed_def)
  have to: "status_at (snd (transitionStatus (fst (env 2)) c ?i t m (observe_prepare env order db))) ?i = Some t"
    if "t \<in> {JServerAcknowledged, JRejectedByRules, JExceptionObserved}" for t c m
    unfolding assms(3) using that by (intro transition_IoOk(2) [OF f]) (auto simp: isTransitionAllowed_def)
  show ?thesis
    by (auto simp: observe_def Let_def to record_status markServerAcknowledged_def markRejectedByRules_def split: sum.splits)
qed

section \<open>Worked sweeps\<close>

definition demo_intent_at :: "string \<Rightarrow> ms \<Rightarrow> journal_call" where
  "demo_intent_at i created = CallEnqueue IoOk (\<lambda>_. 0) (demo_order\<lparr>so_id := js i, so_clientCreatedAt := created\<rparr>) None"

definition demo_pair :: journal_db where
  "demo_pair = run (journal_step no_collation) empty_journal [demo_intent_at ''S1'' 5, demo_intent_at ''S2'' 6]"

lemmas enqueue_evals = enqueueSaleIntent_def buildSaleIntentEntry_def aliasesForAsyncOrderId_def tick_def Let_def
  transact_def append_and_put_def appendEvent_def put_entry_def empty_journal_def demo_order_def

lemma demo_pair_intents:
  "\<exists>a b. jd_intents demo_pair = [(js ''S1'', a), (js ''S2'', b)]
     \<and> si_asyncOrderId a = js ''S1'' \<and> si_status a = JQueued \<and> si_updatedAtLocal a = 0 \<and> si_createdAtLocal a = 5
     \<and> si_asyncOrderId b = js ''S2'' \<and> si_status b = JQueued \<and> si_updatedAtLocal b = 0 \<and> si_createdAtLocal b = 6"
  by (simp add: demo_pair_def demo_intent_at_def enqueue_evals)

definition only_S2 :: lookup where
  "only_S2 i = Inr (i = js ''S2'')"

theorem sweep_acknowledges_witness:
  "status_at (snd (runSaleIntentSweep no_collation only_S2 IoOk IoOk (\<lambda>_. (IoOk, \<lambda>_. 0)) 600000 None None demo_pair))
     (js ''S2'') = Some JServerAcknowledged"
proof -
  obtain a b where ab: "jd_intents demo_pair = [(js ''S1'', a), (js ''S2'', b)]" "si_status b = JQueued" "si_updatedAtLocal b = 0"
    using demo_pair_intents by blast
  have "length (stale_entries demo_pair 600000 None) \<le> 2"
    unfolding stale_entries_def ab map_vals_def by (rule order_trans [OF length_filter_le]) simp
  then show ?thesis
    by (intro sweep_acknowledges [OF demo_pair_def, of _ b])
      (simp_all add: ab only_S2_def isEntryStale_def or_default_def SWEEP_STALE_THRESHOLD_MS_def SWEEP_DEFAULT_BATCH_LIMIT_def)
qed

text \<open>A batch of one: the older order is missing on the server, the younger one is there.\<close>

theorem sweep_starves_witness:
  "foldl (\<lambda>d t. snd (runSaleIntentSweep no_collation only_S2 IoOk IoOk (\<lambda>_. (IoOk, \<lambda>_. 0)) t None (Some 1) d))
     demo_pair [600000, 1200000, 1800000] = demo_pair"
proof -
  obtain a b where ab: "jd_intents demo_pair = [(js ''S1'', a), (js ''S2'', b)]"
    "si_asyncOrderId a = js ''S1''" "si_status a = JQueued" "si_updatedAtLocal a = 0" "si_createdAtLocal a = 5"
    "si_asyncOrderId b = js ''S2''" "si_status b = JQueued" "si_updatedAtLocal b = 0" "si_createdAtLocal b = 6"
    using demo_pair_intents by blast
  have l: "sweep_list no_collation demo_pair = [a, b]"
    by (simp add: sweep_list_def ab map_vals_def SWEEP_CANDIDATE_STATUSES_def age_order_def cmp_then_def cmp_on_def cmp_sub_def)
  have "sort_by (age_order no_collation) [a, b] = [a, b]"
    by (simp add: ab age_order_def cmp_then_def cmp_on_def cmp_sub_def)
  then show ?thesis
    by (intro sweep_starves [where now = 600000])
      (simp_all add: l ab only_S2_def isEntryStale_def or_default_def SWEEP_STALE_THRESHOLD_MS_def)
qed

theorem observer_outcome_witness:
  "status_at (observe (\<lambda>_. (IoOk, \<lambda>_. 0)) demo_order (Inr ()) empty_journal) (js ''S1'') = Some JServerAcknowledged"
  using observer_outcome [of empty_journal demo_order "\<lambda>_. (IoOk, \<lambda>_. 0)" "Inr ()"]
  by (simp add: status_at_def empty_journal_def demo_order_def)

end
