(* ===== verification/CanonicalSale.thy ===== *)
theory CanonicalSale
  imports JsDoc
begin

text \<open>
  \<^verbatim>\<open>functions/src/canonicalSaleSource.ts\<close>: the validator that the two writers of canonical
  sales (the reconciler and the repair sweep) run over a sale document before they read it.
  A verdict is \<open>Inr ()\<close> or the offending field with a reason.
\<close>

section \<open>Verdicts\<close>

datatype source_reason =
  SrMissing | SrNotFinite | SrNotArray | SrEmpty | SrInvalidStatus | SrInvalidClientCreatedAt
  | SrInvalidLine | SrInvalidPayment | SrPaymentsRequired | SrNegativeBillDiscount

fun reason_name :: "source_reason \<Rightarrow> string" where
  "reason_name SrMissing = ''missing''"
| "reason_name SrNotFinite = ''not_finite''"
| "reason_name SrNotArray = ''not_array''"
| "reason_name SrEmpty = ''empty''"
| "reason_name SrInvalidStatus = ''invalid_status''"
| "reason_name SrInvalidClientCreatedAt = ''invalid_clientCreatedAt''"
| "reason_name SrInvalidLine = ''invalid_line''"
| "reason_name SrInvalidPayment = ''invalid_payment''"
| "reason_name SrPaymentsRequired = ''payments_required''"
| "reason_name SrNegativeBillDiscount = ''negative_bill_discount''"

type_synonym source_fault = "jsstr \<times> source_reason"
type_synonym source_verdict = "source_fault + unit"

definition invalid :: "jsstr \<Rightarrow> source_reason \<Rightarrow> source_fault + 'a" where
  "invalid field reason = Inl (field, reason)"

definition CANONICAL_PAYMENT_METHODS :: "jsstr list" where
  "CANONICAL_PAYMENT_METHODS = [js ''cash'', js ''qr'', js ''kbank'', js ''card'', js ''credit'']"

definition CANONICAL_SOURCE_STATUSES :: "jsstr list" where
  "CANONICAL_SOURCE_STATUSES = [js ''completed'', js ''pending_payment'']"

definition optNum :: "string \<Rightarrow> jsval \<Rightarrow> bool" where
  "optNum k order \<longleftrightarrow> \<not> has_own order k \<or> is_finite_num (doc_field order k)"

definition reqNum :: "string \<Rightarrow> jsval \<Rightarrow> bool" where
  "reqNum k order \<longleftrightarrow> has_own order k \<and> is_finite_num (doc_field order k)"

section \<open>The quantity of a line\<close>

definition positive_num :: "jsval \<Rightarrow> bool" where
  "positive_num v \<longleftrightarrow> js_lt (Fin 0) (to_number v)"

definition resolveLineQtyBase :: "jsval \<Rightarrow> jsstr \<Rightarrow> source_fault + jsnum" where
  "resolveLineQtyBase line prefix =
    (if has_own line ''qtyBase'' then
       (if \<not> is_finite_num (doc_field line ''qtyBase'') then invalid (prefix @ js ''.qtyBase'') SrNotFinite
        else if \<not> positive_num (doc_field line ''qtyBase'') then invalid (prefix @ js ''.qtyBase'') SrInvalidLine
        else Inr (to_number (doc_field line ''qtyBase'')))
     else if \<not> has_own line ''qty'' then invalid (prefix @ js ''.qty'') SrMissing
     else if \<not> is_finite_num (doc_field line ''qty'') then invalid (prefix @ js ''.qty'') SrNotFinite
     else if \<not> positive_num (doc_field line ''qty'') then invalid (prefix @ js ''.qty'') SrInvalidLine
     else if \<not> has_own line ''unitFactor'' then invalid (prefix @ js ''.unitFactor'') SrMissing
     else if \<not> is_finite_num (doc_field line ''unitFactor'') then invalid (prefix @ js ''.unitFactor'') SrNotFinite
     else if \<not> positive_num (doc_field line ''unitFactor'') then invalid (prefix @ js ''.unitFactor'') SrInvalidLine
     else let product = js_mul (to_number (doc_field line ''qty'')) (to_number (doc_field line ''unitFactor'')) in
       if \<not> isFinite product \<or> \<not> js_lt (Fin 0) product then invalid (prefix @ js ''.qtyBase'') SrInvalidLine
       else Inr product)"

section \<open>Lines and payments\<close>

definition indexed :: "string \<Rightarrow> nat \<Rightarrow> jsstr" where
  "indexed name i = js name @ js ''['' @ decimal i @ js '']''"

definition validateLine :: "jsval \<Rightarrow> nat \<Rightarrow> source_verdict" where
  "validateLine line index =
    (let field = indexed ''lines'' index in
     if \<not> plain_object line then invalid field SrInvalidLine
     else and_then (resolveLineQtyBase line field) (\<lambda>_.
       if has_own line ''originalPrice'' \<and> \<not> is_finite_num (doc_field line ''originalPrice'')
       then invalid (field @ js ''.originalPrice'') SrNotFinite
       else if \<not> has_own line ''originalPrice'' \<and> \<not> reqNum ''unitPrice'' line
       then invalid (field @ js ''.originalPrice'') SrMissing
       else if has_own line ''fifoCost'' \<and> \<not> is_finite_num (doc_field line ''fifoCost'')
       then invalid (field @ js ''.fifoCost'') SrNotFinite
       else if has_own line ''lotRefs'' \<and> \<not> is_array (doc_field line ''lotRefs'')
       then invalid (field @ js ''.lotRefs'') SrNotArray
       else Inr ()))"

definition validatePayment :: "jsval \<Rightarrow> nat \<Rightarrow> source_verdict" where
  "validatePayment pay index =
    (let field = indexed ''payments'' index in
     if \<not> plain_object pay then invalid field SrInvalidPayment
     else if \<not> is_finite_num (doc_field pay ''amount'') then invalid (field @ js ''.amount'') SrNotFinite
     else if \<not> (case doc_field pay ''method'' of JStr m \<Rightarrow> m \<in> set CANONICAL_PAYMENT_METHODS | _ \<Rightarrow> False)
     then invalid (field @ js ''.method'') SrInvalidPayment
     else if has_own pay ''ref'' \<and> \<not> (is_str (doc_field pay ''ref'') \<or> doc_field pay ''ref'' = JNull)
     then invalid (field @ js ''.ref'') SrInvalidPayment
     else Inr ())"

text \<open>The loops over lines and payments stop at the first fault.\<close>

fun validate_each :: "(jsval \<Rightarrow> nat \<Rightarrow> source_verdict) \<Rightarrow> nat \<Rightarrow> jsval list \<Rightarrow> source_verdict" where
  "validate_each f i [] = Inr ()"
| "validate_each f i (v # vs) = and_then (f v i) (\<lambda>_. validate_each f (Suc i) vs)"

section \<open>The sale\<close>

fun required_numbers :: "string list \<Rightarrow> jsval \<Rightarrow> source_verdict" where
  "required_numbers [] order = Inr ()"
| "required_numbers (k # ks) order =
    (if \<not> has_own order k then invalid (js k) SrMissing
     else if \<not> is_finite_num (doc_field order k) then invalid (js k) SrNotFinite
     else required_numbers ks order)"

fun optional_numbers :: "string list \<Rightarrow> jsval \<Rightarrow> source_verdict" where
  "optional_numbers [] order = Inr ()"
| "optional_numbers (k # ks) order =
    (if \<not> optNum k order then invalid (js k) SrNotFinite else optional_numbers ks order)"

definition validate_status :: "jsval \<Rightarrow> source_verdict" where
  "validate_status order =
    (if \<not> (case doc_field order ''status'' of JStr s \<Rightarrow> s \<in> set CANONICAL_SOURCE_STATUSES | _ \<Rightarrow> False)
     then invalid (js ''status'') SrInvalidStatus else Inr ())"

definition validate_time :: "jsval \<Rightarrow> source_verdict" where
  "validate_time order =
    (if \<not> is_finite_num (doc_field order ''clientCreatedAt'') \<or> \<not> positive_num (doc_field order ''clientCreatedAt'')
     then invalid (js ''clientCreatedAt'') SrInvalidClientCreatedAt else Inr ())"

definition validate_lines :: "jsval \<Rightarrow> source_verdict" where
  "validate_lines order =
    (if \<not> is_array (doc_field order ''lines'') then invalid (js ''lines'') SrNotArray
     else if elements (doc_field order ''lines'') = [] then invalid (js ''lines'') SrEmpty
     else validate_each validateLine 0 (elements (doc_field order ''lines'')))"

definition validate_payments :: "jsval \<Rightarrow> source_verdict" where
  "validate_payments order =
    (let paidAmt = to_number (doc_field order ''paidAmt'') in
     if \<not> has_own order ''payments'' then
       (if \<not> js_eq paidAmt (Fin 0) then invalid (js ''payments'') SrPaymentsRequired else Inr ())
     else if \<not> is_array (doc_field order ''payments'') then invalid (js ''payments'') SrNotArray
     else if js_lt (Fin 0) paidAmt \<and> elements (doc_field order ''payments'') = []
     then invalid (js ''payments'') SrPaymentsRequired
     else validate_each validatePayment 0 (elements (doc_field order ''payments'')))"

definition validateCanonicalSaleSource :: "jsval \<Rightarrow> source_verdict" where
  "validateCanonicalSaleSource order =
    and_then (required_numbers [''total'', ''subtotal'', ''paidAmt''] order) (\<lambda>_.
    and_then (optional_numbers [''discountAmt'', ''billDiscount'', ''fee'', ''changeAmt'', ''creditAmt'', ''cogs'', ''profit''] order) (\<lambda>_.
    and_then (if has_own order ''billDiscount'' \<and> js_lt (to_number (doc_field order ''billDiscount'')) (Fin 0)
              then invalid (js ''billDiscount'') SrNegativeBillDiscount else Inr ()) (\<lambda>_.
    and_then (validate_status order) (\<lambda>_.
    and_then (validate_time order) (\<lambda>_.
    and_then (validate_lines order) (\<lambda>_. validate_payments order))))))"

fun qty_bases :: "nat \<Rightarrow> jsval list \<Rightarrow> source_fault + jsnum list" where
  "qty_bases i [] = Inr []"
| "qty_bases i (l # ls) =
    and_then (resolveLineQtyBase l (indexed ''lines'' i)) (\<lambda>q.
    and_then (qty_bases (Suc i) ls) (\<lambda>qs. Inr (q # qs)))"

definition requireEffectiveQtyBases :: "jsval \<Rightarrow> source_fault + jsnum list" where
  "requireEffectiveQtyBases order =
    and_then (validateCanonicalSaleSource order) (\<lambda>_. qty_bases 0 (elements (doc_field order ''lines'')))"

section \<open>What an accepted sale has\<close>

lemma invalid_neq [simp]: "invalid f r \<noteq> Inr x" "Inr x \<noteq> invalid f r"
  by (simp_all add: invalid_def)

lemma resolve_prefix:
  "(\<exists>e. resolveLineQtyBase l p = Inl e) \<longleftrightarrow> (\<exists>e. resolveLineQtyBase l q = Inl e)"
  by (auto simp: resolveLineQtyBase_def Let_def invalid_def)

lemma resolve_Inr_prefix: "resolveLineQtyBase l p = Inr n \<Longrightarrow> resolveLineQtyBase l q = Inr n"
  by (auto simp: resolveLineQtyBase_def Let_def split: if_splits)

lemma resolve_positive: "resolveLineQtyBase l p = Inr n \<Longrightarrow> isFinite n \<and> js_lt (Fin 0) n"
  by (auto simp: resolveLineQtyBase_def positive_num_def is_finite_num_iff Let_def split: if_splits)

lemma validate_each_ok: "validate_each f i vs = Inr () \<longleftrightarrow> (\<forall>j < length vs. f (vs ! j) (i + j) = Inr ())"
proof (induction vs arbitrary: i)
  case (Cons v vs)
  have "(\<forall>j < length (v # vs). f ((v # vs) ! j) (i + j) = Inr ())
    \<longleftrightarrow> f v i = Inr () \<and> (\<forall>j < length vs. f (vs ! j) (Suc i + j) = Inr ())"
    by (auto simp: less_Suc_eq_0_disj nth_Cons split: nat.splits)
  then show ?case using Cons by (auto simp: and_then_Inr_iff)
qed simp

lemma validated_line: "validateLine l i = Inr () \<Longrightarrow> plain_object l \<and> (\<exists>q. resolveLineQtyBase l p = Inr q)"
  by (auto simp: validateLine_def Let_def and_then_Inr_iff split: if_splits dest: resolve_Inr_prefix)

lemma required_numbers_ok:
  "required_numbers ks order = Inr () \<longleftrightarrow> (\<forall>k \<in> set ks. reqNum k order)"
  by (induction ks) (auto simp: reqNum_def)

lemma optional_numbers_ok:
  "optional_numbers ks order = Inr () \<longleftrightarrow> (\<forall>k \<in> set ks. optNum k order)"
  by (induction ks) auto

lemma validated_sale:
  assumes "validateCanonicalSaleSource order = Inr ()"
  shows "\<And>k. k \<in> {''total'', ''subtotal'', ''paidAmt''} \<Longrightarrow> is_finite_num (doc_field order k)"
    and "optNum ''creditAmt'' order"
    and "is_finite_num (doc_field order ''clientCreatedAt'')"
    and "positive_num (doc_field order ''clientCreatedAt'')"
    and "is_array (doc_field order ''lines'')"
    and "elements (doc_field order ''lines'') \<noteq> []"
    and "\<And>l p. l \<in> set (elements (doc_field order ''lines'')) \<Longrightarrow> plain_object l \<and> (\<exists>q. resolveLineQtyBase l p = Inr q)"
  using assms unfolding validateCanonicalSaleSource_def and_then_Inr_iff
  by (auto simp: required_numbers_ok optional_numbers_ok reqNum_def validate_time_def validate_lines_def
      validate_each_ok in_set_conv_nth split: if_splits dest!: validated_line)

text \<open>An accepted sale has a quantity for every line, so the second pass of the code never fails.\<close>

lemma requireEffectiveQtyBases_total:
  assumes "validateCanonicalSaleSource order = Inr ()"
  shows "\<exists>qs. requireEffectiveQtyBases order = Inr qs \<and> length qs = length (elements (doc_field order ''lines''))
     \<and> (\<forall>q \<in> set qs. isFinite q \<and> js_lt (Fin 0) q)"
proof -
  have "\<exists>qs. qty_bases i ls = Inr qs \<and> length qs = length ls \<and> (\<forall>q \<in> set qs. isFinite q \<and> js_lt (Fin 0) q)"
    if "\<forall>l \<in> set ls. \<forall>p. \<exists>q. resolveLineQtyBase l p = Inr q" for ls i
    using that
  proof (induction ls arbitrary: i)
    case (Cons l ls)
    obtain q where "resolveLineQtyBase l (indexed ''lines'' i) = Inr q" using Cons.prems by (meson list.set_intros(1))
    moreover obtain qs where "qty_bases (Suc i) ls = Inr qs" "length qs = length ls"
      "\<forall>q \<in> set qs. isFinite q \<and> js_lt (Fin 0) q" using Cons by force
    ultimately show ?case using resolve_positive by auto
  qed simp
  then show ?thesis
    using assms validated_sale(7) [OF assms] by (simp add: requireEffectiveQtyBases_def)
qed

end
