(* ===== verification/FifoLots.thy ===== *)
theory FifoLots
  imports JsDoc
begin

text \<open>
  The inventory planners of the server: \<^verbatim>\<open>functions/src/fifo.ts\<close> (cutting lots oldest first and
  merging cuts), \<^verbatim>\<open>resolveOversellCost\<close> of \<^verbatim>\<open>reconcileOrder.ts\<close> and \<^verbatim>\<open>voidReversal.ts\<close> (the deltas
  that undo a settled sale). All are pure functions over doubles; the second half relates them
  to integer arithmetic for whole quantities.
\<close>

section \<open>Cutting lots\<close>

record lot_ref =
  lr_lotId :: jsstr
  lr_qty :: jsnum
  lr_cost :: jsnum

text \<open>A document reference is its path.\<close>

record mutable_lot =
  ml_ref :: jsstr
  ml_id :: jsstr
  ml_qtyRemaining :: jsnum
  ml_costPerUnit :: jsnum
  ml_receivedAtMs :: jsnum

record lot_cut =
  lc_ref :: jsstr
  lc_cutQty :: jsnum

definition roundMoney_fifo :: "jsnum \<Rightarrow> jsnum" where
  "roundMoney_fifo n = js_div (math_round (js_mul n (Fin 100))) (Fin 100)"

text \<open>The argument recognises a \<^verbatim>\<open>Timestamp\<close> and gives its milliseconds.\<close>

definition parseReceivedAtMs :: "(jsval \<Rightarrow> jsnum option) \<Rightarrow> jsval \<Rightarrow> jsnum" where
  "parseReceivedAtMs timestampMs value =
    (case timestampMs value of Some t \<Rightarrow> t
     | None \<Rightarrow> (if has_own value ''seconds''
         then (case doc_field value ''seconds'' of JNum s \<Rightarrow> js_mul s (Fin 1000) | _ \<Rightarrow> Fin 0)
         else Fin 0))"

text \<open>The loop mutates the lots it walks over; here it returns them.\<close>

fun planFifoCutFromState ::
  "mutable_lot list \<Rightarrow> jsnum \<Rightarrow> mutable_lot list \<times> lot_cut list \<times> lot_ref list \<times> jsnum" where
  "planFifoCutFromState [] remaining = ([], [], [], remaining)"
| "planFifoCutFromState (lot # lots) remaining =
    (if js_le remaining (Fin 0) then (lot # lots, [], [], remaining)
     else if js_le (ml_qtyRemaining lot) (Fin 0) then
       (let (ls, cuts, refs, r) = planFifoCutFromState lots remaining in (lot # ls, cuts, refs, r))
     else
       (let cutQty = math_min remaining (ml_qtyRemaining lot);
            (ls, cuts, refs, r) = planFifoCutFromState lots (js_sub remaining cutQty)
        in (lot\<lparr>ml_qtyRemaining := js_sub (ml_qtyRemaining lot) cutQty\<rparr> # ls,
            \<lparr>lc_ref = ml_ref lot, lc_cutQty = cutQty\<rparr> # cuts,
            \<lparr>lr_lotId = ml_id lot, lr_qty = cutQty, lr_cost = ml_costPerUnit lot\<rparr> # refs, r)))"

definition merge_cut :: "(jsstr, jsnum) jsmap \<Rightarrow> lot_cut \<Rightarrow> (jsstr, jsnum) jsmap" where
  "merge_cut byRef c =
    (if lc_ref c = [] \<or> js_le (lc_cutQty c) (Fin 0) then byRef
     else case map_of byRef (lc_ref c) of
       Some q \<Rightarrow> map_set (lc_ref c) (js_add q (lc_cutQty c)) byRef
     | None \<Rightarrow> map_set (lc_ref c) (lc_cutQty c) byRef)"

definition mergeLotCuts :: "lot_cut list \<Rightarrow> lot_cut list" where
  "mergeLotCuts cuts = map (\<lambda>(r, q). \<lparr>lc_ref = r, lc_cutQty = q\<rparr>) (foldl merge_cut [] cuts)"

text \<open>The cost of what no lot covers: the newest lot with a cost, then the product's own costs.\<close>

definition positive_field :: "jsval \<Rightarrow> string \<Rightarrow> jsnum option" where
  "positive_field d k = (case doc_field d k of JNum n \<Rightarrow> if js_lt (Fin 0) n then Some n else None | _ \<Rightarrow> None)"

definition resolveOversellCost :: "mutable_lot list \<Rightarrow> jsval \<Rightarrow> jsnum" where
  "resolveOversellCost sourceLots product =
    (case filter (\<lambda>l. js_lt (Fin 0) (ml_costPerUnit l)) (rev sourceLots) of
       l # _ \<Rightarrow> ml_costPerUnit l
     | [] \<Rightarrow> (case positive_field product ''cost'' of Some c \<Rightarrow> c
         | None \<Rightarrow> (case positive_field product ''avgCost'' of Some c \<Rightarrow> c | None \<Rightarrow> Fin 0)))"

section \<open>Undoing a sale\<close>

definition OVERSELL_LOT_ID :: jsstr where
  "OVERSELL_LOT_ID = js ''oversell''"

record reversal_line =
  rv_productId :: jsstr
  rv_qtyBase :: jsnum
  rv_lotRefs :: "lot_ref list"

text \<open>\<^verbatim>\<open>m.set(k, (m.get(k) ?? 0) + n)\<close>\<close>

definition bump :: "jsstr \<Rightarrow> jsnum \<Rightarrow> (jsstr, jsnum) jsmap \<Rightarrow> (jsstr, jsnum) jsmap" where
  "bump k n m = map_set k (js_add (case map_of m k of Some x \<Rightarrow> x | None \<Rightarrow> Fin 0) n) m"

definition restock_step :: "(jsstr, jsnum) jsmap \<Rightarrow> lot_ref \<Rightarrow> (jsstr, jsnum) jsmap" where
  "restock_step byLot ref =
    (if lr_lotId ref = OVERSELL_LOT_ID then byLot
     else if \<not> js_lt (Fin 0) (lr_qty ref) then byLot
     else bump (lr_lotId ref) (lr_qty ref) byLot)"

definition planLotRestocks :: "reversal_line list \<Rightarrow> (jsstr \<times> jsnum) list" where
  "planLotRestocks lines = foldl (\<lambda>m line. foldl restock_step m (rv_lotRefs line)) [] lines"

definition restore_step :: "(jsstr, jsnum) jsmap \<Rightarrow> reversal_line \<Rightarrow> (jsstr, jsnum) jsmap" where
  "restore_step byProduct line =
    (if \<not> js_lt (Fin 0) (rv_qtyBase line) then byProduct
     else bump (rv_productId line) (rv_qtyBase line) byProduct)"

definition planStockRestores :: "reversal_line list \<Rightarrow> (jsstr \<times> jsnum) list" where
  "planStockRestores lines = foldl restore_step [] lines"

record credit_account =
  ca_creditUsed :: jsnum
  ca_creditLimit :: jsnum

record credit_reversal =
  cr_newCreditUsed :: jsnum
  cr_newCreditBalance :: jsnum
  cr_outstandingDecrement :: jsnum

definition planCreditReversal :: "jsnum \<Rightarrow> credit_account option \<Rightarrow> credit_reversal option" where
  "planCreditReversal creditAmt credData =
    (case credData of None \<Rightarrow> None
     | Some c \<Rightarrow> if \<not> js_lt (Fin 0) creditAmt then None
       else let used = math_max (Fin 0) (js_sub (ca_creditUsed c) creditAmt) in
         Some \<lparr>cr_newCreditUsed = used, cr_newCreditBalance = js_sub (ca_creditLimit c) used,
               cr_outstandingDecrement = creditAmt\<rparr>)"

section \<open>Whole quantities\<close>

text \<open>What a cut of \<open>need\<close> units takes from lots holding \<open>qs\<close> units.\<close>

fun taken :: "int list \<Rightarrow> int \<Rightarrow> int list" where
  "taken [] need = []"
| "taken (q # qs) need =
    (let t = max 0 (min need q) in t # taken qs (need - t))"

lemma length_taken [simp]: "length (taken qs need) = length qs"
  by (induction qs arbitrary: need) (auto simp: Let_def)

lemma taken_none: "need \<le> 0 \<Longrightarrow> taken qs need = replicate (length qs) 0"
  by (induction qs arbitrary: need) (auto simp: Let_def)

lemma taken_bounds: "i < length qs \<Longrightarrow> 0 \<le> taken qs need ! i \<and> taken qs need ! i \<le> max 0 (qs ! i)"
  by (induction qs arbitrary: need i) (auto simp: Let_def nth_Cons split: nat.splits)

lemma taken_sum: "0 \<le> need \<Longrightarrow> sum_list (taken qs need) = min need (sum_list (map (max 0) qs))"
proof (induction qs arbitrary: need)
  case (Cons q qs)
  have "0 \<le> sum_list (map (max 0) qs)" by (rule sum_list_nonneg) auto
  moreover have "max 0 (min need q) + min (need - max 0 (min need q)) s = min need (max 0 q + s)" if "0 \<le> s" for s
    using that Cons.prems by linarith
  ultimately show ?case using Cons.IH [of "need - max 0 (min need q)"] Cons.prems by (simp add: Let_def)
qed auto

text \<open>A lot is cut only when every older one is emptied.\<close>

lemma taken_oldest_first:
  "j < length qs \<Longrightarrow> 0 < taken qs need ! j \<Longrightarrow> i < j \<Longrightarrow> taken qs need ! i = max 0 (qs ! i)"
proof (induction qs arbitrary: need i j)
  case (Cons q qs)
  obtain j' where j: "j = Suc j'" using Cons.prems by (cases j) auto
  let ?t = "max 0 (min need q)"
  have pos: "0 < taken qs (need - ?t) ! j'" using Cons.prems j by (simp add: Let_def)
  show ?case
  proof (cases i)
    case 0
    have "\<not> need - ?t \<le> 0" using pos Cons.prems j by (auto simp: taken_none)
    then show ?thesis using 0 by (auto simp: Let_def)
  next
    case (Suc i')
    have "taken qs (need - ?t) ! i' = max 0 (qs ! i')"
      using pos Suc j Cons.prems by (intro Cons.IH [where j = j']) auto
    then show ?thesis using Suc by (simp add: Let_def)
  qed
qed simp

text \<open>A lot on the whole numbers, and the cuts and references of a plan.\<close>

definition whole_lots :: "mutable_lot list \<Rightarrow> int list \<Rightarrow> bool" where
  "whole_lots lots qs \<longleftrightarrow> map ml_qtyRemaining lots = map whole qs \<and> (\<forall>q \<in> set qs. exact_range q)"

definition cuts_of :: "mutable_lot list \<Rightarrow> int list \<Rightarrow> lot_cut list" where
  "cuts_of lots ts = [\<lparr>lc_ref = ml_ref l, lc_cutQty = whole t\<rparr>. (l, t) \<leftarrow> zip lots ts, 0 < t]"

definition refs_of :: "mutable_lot list \<Rightarrow> int list \<Rightarrow> lot_ref list" where
  "refs_of lots ts = [\<lparr>lr_lotId = ml_id l, lr_qty = whole t, lr_cost = ml_costPerUnit l\<rparr>. (l, t) \<leftarrow> zip lots ts, 0 < t]"

definition cut_lots :: "mutable_lot list \<Rightarrow> int list \<Rightarrow> int list \<Rightarrow> mutable_lot list" where
  "cut_lots lots qs ts = map (\<lambda>(l, q, t). l\<lparr>ml_qtyRemaining := whole (q - t)\<rparr>) (zip lots (zip qs ts))"

lemma exact_range_between: "0 \<le> a \<Longrightarrow> a \<le> b \<Longrightarrow> exact_range b \<Longrightarrow> exact_range a"
  by (auto simp: exact_range_def)

lemma cut_none:
  assumes "map ml_qtyRemaining lots = map whole qs"
  shows "cut_lots lots qs (replicate (length qs) 0) = lots"
    "cuts_of lots (replicate (length qs) 0) = []" "refs_of lots (replicate (length qs) 0) = []"
proof -
  have len: "length lots = length qs" using assms by (metis length_map)
  have "(\<lambda>(l, q, t). l\<lparr>ml_qtyRemaining := whole (q - t)\<rparr>) (zip lots (zip qs (replicate (length qs) 0)) ! i) = lots ! i"
    if "i < length lots" for i
    using that len arg_cong [OF assms, of "\<lambda>xs. xs ! i"] by simp
  then show "cut_lots lots qs (replicate (length qs) 0) = lots"
    using len by (intro nth_equalityI) (auto simp: cut_lots_def)
  have "\<forall>(l, t) \<in> set (zip lots (replicate (length qs) (0::int))). t = 0"
    by (auto dest: set_zip_rightD)
  then show "cuts_of lots (replicate (length qs) 0) = []" "refs_of lots (replicate (length qs) 0) = []"
    by (auto simp: cuts_of_def refs_of_def)
qed

lemma plan_whole:
  assumes "whole_lots lots qs" "exact_range need"
  shows "planFifoCutFromState lots (whole need) =
    (cut_lots lots qs (taken qs need), cuts_of lots (taken qs need), refs_of lots (taken qs need),
     whole (need - sum_list (taken qs need)))"
  using assms
proof (induction lots arbitrary: qs need)
  case Nil
  then show ?case by (simp add: whole_lots_def cut_lots_def cuts_of_def refs_of_def)
next
  case (Cons l lots)
  obtain q qs' where qs: "qs = q # qs'" "ml_qtyRemaining l = whole q" "exact_range q" and w: "whole_lots lots qs'"
    using Cons.prems(1) by (auto simp: whole_lots_def)
  show ?case
  proof (cases "need \<le> 0")
    case True
    have "map ml_qtyRemaining (l # lots) = map whole qs" using Cons.prems(1) by (simp add: whole_lots_def)
    from cut_none [OF this] show ?thesis using True by (simp add: taken_none whole_lits sum_list_replicate)
  next
    case False
    let ?t = "max 0 (min need q)"
    have r: "exact_range (need - ?t)" "exact_range (q - ?t)"
      using Cons.prems(2) qs(3) False by (auto simp: exact_range_def)
    show ?thesis
    proof (cases "q \<le> 0")
      case True
      then have "?t = 0" by simp
      have "l\<lparr>ml_qtyRemaining := whole q\<rparr> = l" using qs(2) by simp
      then show ?thesis using True False \<open>?t = 0\<close> Cons.IH [OF w Cons.prems(2)] qs
        by (simp add: whole_lits cut_lots_def cuts_of_def refs_of_def Let_def)
    next
      case pos: False
      then show ?thesis using False Cons.IH [OF w r(1)] qs r
        by (simp add: whole_lits cut_lots_def cuts_of_def refs_of_def Let_def max_def)
    qed
  qed
qed

section \<open>Sums per key\<close>

text \<open>The merged maps hold, for each key that occurs, the exact sum of its whole amounts.\<close>

definition key_sum :: "'k \<Rightarrow> ('k \<times> int) list \<Rightarrow> int" where
  "key_sum k xs = sum_list [n. (k', n) \<leftarrow> xs, k' = k]"

lemma key_sum_simps [simp]:
  "key_sum k [] = 0" "key_sum k ((k', n) # xs) = (if k' = k then n else 0) + key_sum k xs"
  "key_sum k (xs @ ys) = key_sum k xs + key_sum k ys"
  by (simp_all add: key_sum_def)

lemma key_sum_nonneg: "\<forall>(k', n) \<in> set xs. 0 < n \<Longrightarrow> 0 \<le> key_sum k xs"
  by (induction xs) auto

lemma key_sum_absent: "k \<notin> fst ` set xs \<Longrightarrow> key_sum k xs = 0"
  by (induction xs) auto

definition sums_to :: "(jsstr, jsnum) jsmap \<Rightarrow> (jsstr \<times> int) list \<Rightarrow> bool" where
  "sums_to m xs \<longleftrightarrow> map_wf m \<and> map_of m = (\<lambda>k. if k \<in> fst ` set xs then Some (whole (key_sum k xs)) else None)"

lemma sums_to_Nil [simp]: "sums_to [] []"
  by (simp add: sums_to_def fun_eq_iff)

lemma sums_to_bump:
  assumes "sums_to m xs" "exact_range (key_sum k (xs @ [(k, n)]))"
  shows "sums_to (bump k (whole n) m) (xs @ [(k, n)])"
  using assms key_sum_absent [of k xs]
  by (auto simp: sums_to_def bump_def whole_lits fun_eq_iff key_sum_absent)

lemma sums_to_distinct: "sums_to m xs \<Longrightarrow> distinct (map fst m)"
  by (simp add: sums_to_def map_wf_def)

lemma sums_to_in: "sums_to m xs \<Longrightarrow> (k, v) \<in> set m \<Longrightarrow> v = whole (key_sum k xs) \<and> k \<in> fst ` set xs"
  by (auto simp: sums_to_def map_wf_def fun_eq_iff map_of_eq_Some_iff split: if_splits)
    (metis Some_eq_map_of_iff option.distinct(1) option.inject)+

lemma foldl_bump:
  assumes "sums_to m ys" "\<forall>(k, n) \<in> set xs. 0 < n" "\<forall>k. exact_range (key_sum k (ys @ xs))"
    "\<forall>(k, n) \<in> set ys. 0 < n"
  shows "sums_to (foldl (\<lambda>m (k, n). bump k (whole n) m) m xs) (ys @ xs)"
  using assms
proof (induction xs arbitrary: m ys)
  case (Cons x xs)
  obtain k n where x: "x = (k, n)" by (cases x)
  have "0 \<le> key_sum k' (ys @ [x])" "key_sum k' (ys @ [x]) \<le> key_sum k' (ys @ x # xs)" for k'
    using Cons.prems x key_sum_nonneg [of ys k'] key_sum_nonneg [of xs k'] by auto
  then have r: "exact_range (key_sum k' (ys @ [x]))" for k'
    using Cons.prems(3) exact_range_between by blast
  have "sums_to (bump k (whole n) m) (ys @ [x])"
    using sums_to_bump [OF Cons.prems(1)] r [of k] by (simp add: x)
  then have "sums_to (foldl (\<lambda>m (k, n). bump k (whole n) m) (bump k (whole n) m) xs) ((ys @ [x]) @ xs)"
    using Cons.prems x by (intro Cons.IH) auto
  then show ?case by (simp add: x)
qed simp

section \<open>The cut meets its specification\<close>

text \<open>C19. Refinement of the FIFO cut: on lots of whole amounts the loop takes from every lot between nothing
  and what it holds, takes from a lot only when every older one is emptied, takes the smaller of the
  need and the stock in all, and returns exactly those cuts, references, rests and the uncovered rest.\<close>

theorem fifo_cut_oldest_first:
  assumes "whole_lots lots qs" "0 \<le> need" "exact_range need"
  shows "\<exists>ts. planFifoCutFromState lots (whole need)
      = (cut_lots lots qs ts, cuts_of lots ts, refs_of lots ts, whole (need - sum_list ts))
    \<and> length ts = length lots \<and> (\<forall>i < length lots. 0 \<le> ts ! i \<and> ts ! i \<le> max 0 (qs ! i))
    \<and> sum_list ts = min need (sum_list (map (max 0) qs))
    \<and> (\<forall>i j. i < j \<and> j < length lots \<and> 0 < ts ! j \<longrightarrow> ts ! i = max 0 (qs ! i))"
proof -
  have len: "length qs = length lots" using assms(1) by (metis whole_lots_def length_map)
  show ?thesis
    using plan_whole [OF assms(1,3)] taken_sum [OF assms(2), of qs] taken_bounds taken_oldest_first
    by (intro exI [of _ "taken qs need"]) (auto simp: len)
qed

definition sample_lots :: "mutable_lot list" where
  "sample_lots = map (\<lambda>(k, q). \<lparr>ml_ref = js k, ml_id = js k, ml_qtyRemaining = whole q, ml_costPerUnit = whole 4,
     ml_receivedAtMs = whole 0\<rparr>) [(''old'', 2), (''none'', 0), (''new'', 5)]"

theorem fifo_cut_oldest_first_witness:
  "\<exists>ts. planFifoCutFromState sample_lots (whole 3)
      = (cut_lots sample_lots [2, 0, 5] ts, cuts_of sample_lots ts, refs_of sample_lots ts, whole (3 - sum_list ts))
    \<and> length ts = 3 \<and> sum_list ts = 3"
proof -
  have w: "whole_lots sample_lots [2, 0, 5]" by (simp add: sample_lots_def whole_lots_def exact_range_def)
  have n: "(0::int) \<le> 3" "exact_range 3" by (simp_all add: exact_range_def)
  have l: "length sample_lots = 3" "min 3 (sum_list (map (max 0) [2, 0, 5])) = (3::int)" by (simp_all add: sample_lots_def)
  show ?thesis using fifo_cut_oldest_first [OF w n] unfolding l by blast
qed

end
