(* ===== verification/Settlement.thy ===== *)
theory Settlement
  imports CanonicalSale FifoLots PrivilegedAuthority JsString
begin

text \<open>
  The server's settlement of sales: \<^verbatim>\<open>functions/src/reconcileOrder.ts\<close> (the trigger and the one
  transaction that cuts lots, moves stock, posts credit and writes the canonical sale),
  \<^verbatim>\<open>voidIntent.ts\<close> (the reversal of a settled sale), \<^verbatim>\<open>retryReconcile.ts\<close> (the administrator's
  retry) and \<^verbatim>\<open>sweeper.ts\<close> (rebuilding a lost canonical sale). Documents are dynamic values, the
  database is a record of collections, and a transaction is a function on it that either
  throws, leaving the database as it was, or commits.
\<close>

section \<open>The database\<close>

text \<open>Collections with ids of their own are maps; collections the code only adds to are lists,
  the ids drawn from a counter.\<close>

record pos_db =
  asyncOrders :: "(jsstr, jsval) jsmap"
  orders :: "(jsstr, jsval) jsmap"
  orderItems :: "(jsstr \<times> jsval) list"
  payments :: "jsval list"
  products :: "(jsstr, jsval) jsmap"
  productStocks :: "(jsstr \<times> jsstr, jsval) jsmap"
  stockLots :: "(jsstr, jsval) jsmap"
  stockMovements :: "jsval list"
  customers :: "(jsstr, jsval) jsmap"
  creditAccounts :: "(jsstr, jsval) jsmap"
  creditTransactions :: "jsval list"
  posDevices :: "(jsstr, jsval) jsmap"
  auditLogs :: "jsval list"
  saleReturnLedgers :: "(jsstr, jsval) jsmap"
  next_auto :: nat

text \<open>
  The library's side: the commit time, generated ids, \<^verbatim>\<open>Timestamp.fromMillis\<close> (\<open>None\<close> when it
  throws), recognising a \<^verbatim>\<open>Timestamp\<close>, the order of values in an index, \<^verbatim>\<open>Date.now()\<close> and the message
  of an error the library or the runtime throws.
\<close>

record settle_env =
  se_now :: jsval
  se_autoId :: "nat \<Rightarrow> jsstr"
  se_fromMillis :: "jsnum \<Rightarrow> jsval option"
  se_timestampMs :: "jsval \<Rightarrow> jsnum option"
  se_indexCmp :: "jsval \<Rightarrow> jsval \<Rightarrow> int"
  se_libraryMessage :: jsstr

datatype settle_error =
  SourceInvalid jsstr source_reason | CanonicalExists | LibraryError | TransactionFailed jsstr

fun error_message :: "settle_env \<Rightarrow> settle_error \<Rightarrow> jsstr" where
  "error_message en (SourceInvalid field reason) =
    js ''source_invalid:'' @ field @ js '':'' @ js (reason_name reason)"
| "error_message en CanonicalExists = js ''canonical_exists''"
| "error_message en LibraryError = se_libraryMessage en"
| "error_message en (TransactionFailed m) = m"

text \<open>\<^verbatim>\<open>collection.doc(v)\<close> needs a non-empty string.\<close>

definition doc_id :: "jsval \<Rightarrow> settle_error + jsstr" where
  "doc_id v = (case v of JStr s \<Rightarrow> if s \<noteq> [] then Inr s else Inl LibraryError | _ \<Rightarrow> Inl LibraryError)"

text \<open>\<^verbatim>\<open>set(..., { merge: true })\<close> and \<^verbatim>\<open>update\<close> inside a collection.\<close>

definition merge_set :: "'k \<Rightarrow> patch \<Rightarrow> ('k, jsval) jsmap \<Rightarrow> ('k, jsval) jsmap" where
  "merge_set k p m = map_set k (merge_doc (case map_of m k of Some d \<Rightarrow> d | None \<Rightarrow> JObj []) p) m"

definition from_source :: "source_fault + 'a \<Rightarrow> settle_error + 'a" where
  "from_source r = (case r of Inl (f, why) \<Rightarrow> Inl (SourceInvalid f why) | Inr x \<Rightarrow> Inr x)"

definition require :: "bool \<Rightarrow> settle_error + unit" where
  "require b = (if b then Inr () else Inl LibraryError)"

section \<open>Reading for a settlement\<close>

text \<open>The receipt number at the end of the document id, or 0.\<close>

definition parseSeqFromId :: "jsstr \<Rightarrow> jsnum" where
  "parseSeqFromId orderId = (case split_last (of_char (CHR ''-'')) orderId of
     None \<Rightarrow> Fin 0
   | Some (_, digits) \<Rightarrow> (let n = js_parseInt digits in if isFinite n \<and> js_lt (Fin 0) n then n else Fin 0))"

definition lot_of :: "settle_env \<Rightarrow> jsstr \<times> jsval \<Rightarrow> mutable_lot" where
  "lot_of en l = \<lparr>ml_ref = fst l, ml_id = fst l,
     ml_qtyRemaining = to_number (or_else (doc_field (snd l) ''qtyRemaining'') (JNum (Fin 0))),
     ml_costPerUnit = to_number (or_else (doc_field (snd l) ''costPerUnit'') (JNum (Fin 0))),
     ml_receivedAtMs = parseReceivedAtMs (se_timestampMs en) (doc_field (snd l) ''receivedAt'')\<rparr>"

text \<open>The query: the open lots of a product in a branch, by the index on \<open>receivedAt\<close>.\<close>

definition lots_query :: "settle_env \<Rightarrow> pos_db \<Rightarrow> jsstr \<Rightarrow> jsstr \<Rightarrow> (jsstr \<times> jsval) list" where
  "lots_query en db pid branchId =
    sort_by (cmp_then (cmp_on (\<lambda>l. doc_field (snd l) ''receivedAt'') (se_indexCmp en)) (cmp_on fst utf8ByteCompare))
     (filter (\<lambda>(k, d). doc_field d ''productId'' = JStr pid \<and> doc_field d ''branchId'' = JStr branchId
        \<and> doc_field d ''isDepleted'' = JBool False \<and> has_own d ''receivedAt'') (stockLots db))"

definition read_lots :: "settle_env \<Rightarrow> pos_db \<Rightarrow> jsstr \<Rightarrow> jsstr \<Rightarrow> mutable_lot list" where
  "read_lots en db branchId pid =
    sort_by (\<lambda>a b. js_sgn (js_sub (ml_receivedAtMs a) (ml_receivedAtMs b)))
     (filter (\<lambda>l. \<not> js_le (ml_qtyRemaining l) (Fin 0)) (map (lot_of en) (lots_query en db pid branchId)))"

fun uniq :: "'a list \<Rightarrow> 'a list" where
  "uniq [] = []"
| "uniq (x # xs) = x # filter (\<lambda>y. y \<noteq> x) (uniq xs)"

record settle_reads =
  sr_branchId :: jsstr
  sr_productIds :: "jsstr list"
  sr_customer :: "(jsstr \<times> jsval) option"
  sr_credit :: "(jsstr \<times> jsval) option"
  sr_device :: "(jsstr \<times> jsnum) option"

definition creditAmt_of :: "jsval \<Rightarrow> jsnum" where
  "creditAmt_of order = to_number (doc_field order ''creditAmt'')"

definition sale_lines :: "jsval \<Rightarrow> jsval list" where
  "sale_lines order = elements (doc_field order ''lines'')"

definition read_customer :: "pos_db \<Rightarrow> jsval \<Rightarrow> settle_error + (jsstr \<times> jsval) option \<times> (jsstr \<times> jsval) option" where
  "read_customer db order =
    (if \<not> js_truthy (doc_field order ''customerId'') then Inr (None, None)
     else and_then (doc_id (doc_field order ''customerId'')) (\<lambda>cid.
       Inr (map_option (Pair cid) (map_of (customers db) cid),
            if js_lt (Fin 0) (creditAmt_of order) then map_option (Pair cid) (map_of (creditAccounts db) cid) else None)))"

definition read_device :: "pos_db \<Rightarrow> jsval \<Rightarrow> settle_error + (jsstr \<times> jsnum) option" where
  "read_device db order =
    (if \<not> js_truthy (doc_field order ''deviceId'') then Inr None
     else and_then (doc_id (doc_field order ''deviceId'')) (\<lambda>did.
       Inr (Some (did, case map_of (posDevices db) did of None \<Rightarrow> Fin 0
         | Some d \<Rightarrow> (case doc_field d ''lastSeq'' of JNum n \<Rightarrow> n | _ \<Rightarrow> Fin 0)))))"

definition settle_read :: "pos_db \<Rightarrow> jsval \<Rightarrow> settle_error + settle_reads" where
  "settle_read db order =
    and_then (map_result (\<lambda>l. doc_id (doc_field l ''productId'')) (sale_lines order)) (\<lambda>pids.
    and_then (doc_id (doc_field order ''branchId'')) (\<lambda>branchId.
    and_then (read_customer db order) (\<lambda>(cust, cred).
    and_then (read_device db order) (\<lambda>dev.
      Inr \<lparr>sr_branchId = branchId, sr_productIds = uniq pids, sr_customer = cust, sr_credit = cred,
           sr_device = dev\<rparr>))))"

section \<open>Planning the cut\<close>

definition lot_ref_doc :: "lot_ref \<Rightarrow> jsval" where
  "lot_ref_doc r = JObj [(js ''lotId'', JStr (lr_lotId r)), (js ''qty'', JNum (lr_qty r)), (js ''cost'', JNum (lr_cost r))]"

definition productId_of :: "jsval \<Rightarrow> jsstr" where
  "productId_of l = (case doc_field l ''productId'' of JStr s \<Rightarrow> s | _ \<Rightarrow> [])"

record settle_plan =
  sp_lots :: "(jsstr, mutable_lot list) jsmap"
  sp_stockDeduct :: "(jsstr, jsnum) jsmap"
  sp_cuts :: "lot_cut list"
  sp_lines :: "jsval list"
  sp_hadOversell :: bool

definition line_cost :: "lot_ref list \<Rightarrow> jsnum" where
  "line_cost refs = roundMoney_fifo (foldl (\<lambda>s r. js_add s (js_mul (lr_qty r) (lr_cost r))) (Fin 0) refs)"

definition enrich_line :: "jsval \<Rightarrow> jsnum \<Rightarrow> lot_ref list \<Rightarrow> jsval" where
  "enrich_line line qtyBase refs = merge_doc line
     [fput ''qtyBase'' (JNum qtyBase), fput ''fifoCost'' (JNum (line_cost refs)),
      fput ''lotRefs'' (JArr (map lot_ref_doc refs))]"

definition plan_line :: "pos_db \<Rightarrow> settle_plan \<Rightarrow> jsval \<Rightarrow> settle_error + settle_plan" where
  "plan_line db p line =
    and_then (from_source (resolveLineQtyBase line (js ''lines''))) (\<lambda>qtyBase.
      let pid = productId_of line;
          lots = (case map_of (sp_lots p) pid of Some ls \<Rightarrow> ls | None \<Rightarrow> []);
          (lots', cuts, refs, remaining) = planFifoCutFromState lots qtyBase;
          over = js_lt (Fin 0) remaining;
          allRefs = (if over then refs @ [\<lparr>lr_lotId = OVERSELL_LOT_ID, lr_qty = remaining,
              lr_cost = resolveOversellCost lots' (case map_of (products db) pid of Some d \<Rightarrow> d | None \<Rightarrow> JUndef)\<rparr>]
            else refs)
      in Inr \<lparr>sp_lots = map_set pid lots' (sp_lots p),
              sp_stockDeduct = bump pid qtyBase (sp_stockDeduct p),
              sp_cuts = sp_cuts p @ cuts,
              sp_lines = sp_lines p @ [enrich_line line qtyBase allRefs],
              sp_hadOversell = (sp_hadOversell p \<or> over)\<rparr>)"

definition initial_plan :: "settle_env \<Rightarrow> pos_db \<Rightarrow> settle_reads \<Rightarrow> settle_plan" where
  "initial_plan en db r =
    \<lparr>sp_lots = map (\<lambda>pid. (pid, read_lots en db (sr_branchId r) pid)) (sr_productIds r),
     sp_stockDeduct = [], sp_cuts = [], sp_lines = [], sp_hadOversell = False\<rparr>"

definition settle_plan_of :: "settle_env \<Rightarrow> pos_db \<Rightarrow> settle_reads \<Rightarrow> jsval \<Rightarrow> settle_error + settle_plan" where
  "settle_plan_of en db r order = fold_result (plan_line db) (initial_plan en db r) (sale_lines order)"

definition total_cogs :: "jsval list \<Rightarrow> jsnum" where
  "total_cogs lines = roundMoney_fifo (foldl (\<lambda>s l. js_add s (to_number (or_else (doc_field l ''fifoCost'') (JNum (Fin 0)))))
     (Fin 0) lines)"

definition num_field :: "jsval \<Rightarrow> string \<Rightarrow> jsnum" where
  "num_field d k = to_number (or_else (doc_field d k) (JNum (Fin 0)))"

definition grand_total :: "jsval \<Rightarrow> jsnum" where
  "grand_total order = roundMoney_fifo (to_number (doc_field order ''total''))"

definition settled_status :: "jsval \<Rightarrow> jsval" where
  "settled_status order = JStr (js (if js_lt (Fin 0) (creditAmt_of order)
      \<and> js_lt (to_number (doc_field order ''paidAmt'')) (grand_total order)
    then ''pending_payment'' else ''completed''))"

section \<open>Writing a settlement\<close>

text \<open>A new document under a generated id.\<close>

definition add_doc :: "settle_env \<Rightarrow> (jsstr \<Rightarrow> (jsstr \<times> jsval) list) \<Rightarrow> pos_db \<Rightarrow> settle_error + jsval \<times> pos_db" where
  "add_doc en f db =
    (let d = JObj (f (se_autoId en (next_auto db))) in
     if has_undef d then Inl LibraryError else Inr (d, db\<lparr>next_auto := Suc (next_auto db)\<rparr>))"

definition initial_qty :: "settle_env \<Rightarrow> pos_db \<Rightarrow> settle_reads \<Rightarrow> lot_cut \<Rightarrow> jsnum" where
  "initial_qty en db r c =
    (case filter (\<lambda>l. ml_ref l = lc_ref c) (concat (map (read_lots en db (sr_branchId r)) (sr_productIds r))) of
       [] \<Rightarrow> lc_cutQty c | ls \<Rightarrow> ml_qtyRemaining (last ls))"

definition write_lot_cut :: "(lot_cut \<Rightarrow> jsnum) \<Rightarrow> (jsstr, jsval) jsmap \<Rightarrow> lot_cut \<Rightarrow> (jsstr, jsval) jsmap" where
  "write_lot_cut initialQty lots c = merge_set (lc_ref c)
     [fadd ''qtyRemaining'' (js_neg (lc_cutQty c)),
      fput ''isDepleted'' (JBool (js_le (js_sub (initialQty c) (lc_cutQty c)) (Fin 0)))] lots"

definition write_lots :: "settle_env \<Rightarrow> settle_reads \<Rightarrow> settle_plan \<Rightarrow> pos_db \<Rightarrow> pos_db" where
  "write_lots en r p db =
    db\<lparr>stockLots := foldl (write_lot_cut (initial_qty en db r)) (stockLots db) (mergeLotCuts (sp_cuts p))\<rparr>"

definition write_stock :: "settle_env \<Rightarrow> jsstr \<Rightarrow> (jsstr, jsnum) jsmap
    \<Rightarrow> (jsstr \<times> jsstr, jsval) jsmap \<Rightarrow> jsstr \<Rightarrow> (jsstr \<times> jsstr, jsval) jsmap" where
  "write_stock en branchId stockDeduct stocks pid =
    (let deduct = (case map_of stockDeduct pid of Some q \<Rightarrow> q | None \<Rightarrow> Fin 0) in
     if js_le deduct (Fin 0) then stocks
     else merge_set (pid, branchId)
       [fput ''branchId'' (JStr branchId), fadd ''totalStockBase'' (js_neg deduct),
        fput ''lastMovementAt'' (se_now en), fput ''updatedAt'' (se_now en)] stocks)"

definition write_stocks :: "settle_env \<Rightarrow> settle_reads \<Rightarrow> settle_plan \<Rightarrow> pos_db \<Rightarrow> pos_db" where
  "write_stocks en r p db =
    db\<lparr>productStocks := foldl (write_stock en (sr_branchId r) (sp_stockDeduct p)) (productStocks db) (sr_productIds r)\<rparr>"

definition sale_movement :: "settle_env \<Rightarrow> jsval \<Rightarrow> jsstr \<Rightarrow> jsval \<Rightarrow> jsstr \<Rightarrow> (jsstr \<times> jsval) list" where
  "sale_movement en order branchId line mid =
    [(js ''id'', JStr mid), (js ''productId'', doc_field line ''productId''), (js ''branchId'', JStr branchId),
     (js ''type'', JStr (js ''sale'')), (js ''qty'', JNum (js_neg (num_field line ''qtyBase''))),
     (js ''costPerUnit'', (case elements (doc_field line ''lotRefs'') of
        ref # _ \<Rightarrow> or_else (doc_field ref ''cost'') (JNum (Fin 0)) | [] \<Rightarrow> JNum (Fin 0))),
     (js ''refId'', doc_field order ''billId''), (js ''refType'', JStr (js ''order'')), (js ''note'', JStr []),
     (js ''createdBy'', doc_field order ''staffId''), (js ''createdAt'', se_now en)]"

definition write_movement :: "settle_env \<Rightarrow> (jsval \<Rightarrow> jsstr \<Rightarrow> (jsstr \<times> jsval) list) \<Rightarrow> pos_db \<Rightarrow> jsval \<Rightarrow> settle_error + pos_db" where
  "write_movement en f db line =
    and_then (add_doc en (f line) db) (\<lambda>(d, db'). Inr (db'\<lparr>stockMovements := stockMovements db' @ [d]\<rparr>))"

definition write_device :: "settle_env \<Rightarrow> settle_reads \<Rightarrow> jsstr \<Rightarrow> pos_db \<Rightarrow> pos_db" where
  "write_device en r oid db = (case sr_device r of None \<Rightarrow> db
     | Some (did, currentLastSeq) \<Rightarrow>
         if js_lt currentLastSeq (parseSeqFromId oid)
         then db\<lparr>posDevices := merge_set did [fput ''lastSeq'' (JNum (parseSeqFromId oid)), fput ''lastSeqAt'' (se_now en)]
                (posDevices db)\<rparr>
         else db)"

definition credit_charge :: "settle_env \<Rightarrow> jsval \<Rightarrow> jsstr \<Rightarrow> jsnum \<Rightarrow> jsstr \<Rightarrow> (jsstr \<times> jsval) list" where
  "credit_charge en order branchId balance tid =
    [(js ''id'', JStr tid), (js ''customerId'', doc_field order ''customerId''), (js ''branchId'', JStr branchId),
     (js ''type'', JStr (js ''charge'')), (js ''amount'', doc_field order ''creditAmt''), (js ''balance'', JNum balance),
     (js ''refOrderId'', doc_field order ''id''), (js ''note'', JStr []), (js ''createdBy'', doc_field order ''staffId''),
     (js ''createdAt'', se_now en), (js ''dueDate'', JNull), (js ''isPaid'', JBool False), (js ''paidAt'', JNull)]"

definition write_credit :: "settle_env \<Rightarrow> settle_reads \<Rightarrow> jsval \<Rightarrow> pos_db \<Rightarrow> settle_error + pos_db" where
  "write_credit en r order db =
    (case (sr_credit r, js_lt (Fin 0) (creditAmt_of order)) of
       (Some (cid, cred), True) \<Rightarrow>
         (let newUsed = js_add (num_field cred ''creditUsed'') (creditAmt_of order);
              balance = js_sub (num_field cred ''creditLimit'') newUsed
          in and_then (add_doc en (credit_charge en order (sr_branchId r) balance) db) (\<lambda>(d, db'). Inr
              (db'\<lparr>creditAccounts := merge_set cid [fadd ''creditUsed'' (creditAmt_of order), fput ''creditBalance'' (JNum balance),
                   fput ''lastTransAt'' (se_now en), fput ''updatedAt'' (se_now en)] (creditAccounts db'),
                 creditTransactions := creditTransactions db' @ [d]\<rparr>)))
     | _ \<Rightarrow> Inr db)"

definition write_customer :: "settle_env \<Rightarrow> settle_reads \<Rightarrow> jsval \<Rightarrow> pos_db \<Rightarrow> settle_error + pos_db" where
  "write_customer en r order db =
    (case sr_customer r of None \<Rightarrow> Inr db
     | Some (cid, _) \<Rightarrow> and_then (write_credit en r order db) (\<lambda>db'. Inr
        (db'\<lparr>customers := merge_set cid
          ([fadd ''lifetimeValue'' (grand_total order), fadd ''totalSpent'' (grand_total order),
            fput ''lastVisitAt'' (se_now en), fput ''updatedAt'' (se_now en)]
           @ (if js_lt (Fin 0) (creditAmt_of order)
              then [fadd ''outstandingBalance'' (creditAmt_of order), fput ''lastCreditPurchaseDate'' (se_now en)]
              else [])) (customers db')\<rparr>)))"

definition money_field :: "jsval \<Rightarrow> string \<Rightarrow> jsval" where
  "money_field order k = JNum (roundMoney_fifo (num_field order k))"

definition canonical_doc ::
  "settle_env \<Rightarrow> jsval \<Rightarrow> jsval \<Rightarrow> jsval \<Rightarrow> jsnum \<Rightarrow> jsval \<Rightarrow> (jsstr \<times> jsval) list" where
  "canonical_doc en order cid status totalCogs saleTime =
    (let f = (\<lambda>k. (js k, doc_field order k)); n = (\<lambda>k. (js k, or_else (doc_field order k) JNull)) in
     [(js ''id'', cid), f ''billId'', f ''branchId'', f ''customerId'', n ''customerSnap'', f ''staffId'', f ''staffName'',
      f ''shiftId'', (js ''status'', status), (js ''subtotal'', money_field order ''subtotal''),
      (js ''discountAmt'', money_field order ''discountAmt''), (js ''billDiscount'', money_field order ''billDiscount''),
      (js ''vatRate'', JNum (Fin 0)), (js ''vatAmt'', JNum (Fin 0)), (js ''surcharge'', money_field order ''fee''),
      (js ''total'', JNum (grand_total order)), (js ''paidAmt'', money_field order ''paidAmt''),
      (js ''changeAmt'', money_field order ''changeAmt''), f ''creditAmt'', (js ''cogs'', JNum totalCogs),
      (js ''profit'', JNum (roundMoney_fifo (js_sub (roundMoney_fifo (num_field order ''subtotal'')) totalCogs))),
      f ''priceLevelId'', (js ''note'', JStr []), (js ''voidReason'', JNull), (js ''voidedBy'', JNull),
      (js ''voidedAt'', JNull), (js ''printCount'', JNum (Fin 0)), (js ''createdAt'', saleTime),
      (js ''updatedAt'', se_now en), (js ''asyncOrderId'', cid), n ''deviceId'', (js ''historyRev'', JNum (Fin 1))])"

definition write_canonical :: "jsstr \<Rightarrow> (jsstr \<times> jsval) list \<Rightarrow> pos_db \<Rightarrow> settle_error + pos_db" where
  "write_canonical cid fs db =
    (if has_undef (JObj fs) then Inl LibraryError else Inr (db\<lparr>orders := map_set cid (JObj fs) (orders db)\<rparr>))"

definition item_doc :: "jsval \<Rightarrow> jsval \<Rightarrow> jsstr \<Rightarrow> (jsstr \<times> jsval) list" where
  "item_doc line qtyBase iid =
    (let f = (\<lambda>k. (js k, doc_field line k)) in
     [(js ''id'', JStr iid), f ''productId'', f ''productSnap'', f ''unit'', f ''unitFactor'', f ''qty'',
      (js ''qtyBase'', qtyBase), f ''unitPrice'',
      (js ''originalPrice'', or_else (doc_field line ''originalPrice'') (doc_field line ''unitPrice'')),
      f ''discountAmt'', f ''lineTotal'', (js ''fifoCost'', or_else (doc_field line ''fifoCost'') (JNum (Fin 0))),
      (js ''lotRefs'', or_else (doc_field line ''lotRefs'') (JArr []))])"

definition write_item :: "settle_env \<Rightarrow> jsstr \<Rightarrow> (jsval \<Rightarrow> settle_error + jsval) \<Rightarrow> pos_db \<Rightarrow> jsval \<Rightarrow> settle_error + pos_db" where
  "write_item en cid qtyBase db line =
    and_then (qtyBase line) (\<lambda>q.
    and_then (add_doc en (item_doc line q) db) (\<lambda>(d, db'). Inr (db'\<lparr>orderItems := orderItems db' @ [(cid, d)]\<rparr>)))"

definition payment_doc :: "jsval \<Rightarrow> jsval \<Rightarrow> jsval \<Rightarrow> jsval \<Rightarrow> jsstr \<Rightarrow> (jsstr \<times> jsval) list" where
  "payment_doc order cid saleTime pay pid =
    [(js ''id'', JStr pid), (js ''orderId'', cid), (js ''branchId'', doc_field order ''branchId''),
     (js ''method'', doc_field pay ''method''), (js ''amount'', doc_field pay ''amount''),
     (js ''ref'', or_else (doc_field pay ''ref'') JNull), (js ''createdAt'', saleTime)]"

definition write_payment :: "settle_env \<Rightarrow> jsval \<Rightarrow> jsval \<Rightarrow> jsval \<Rightarrow> pos_db \<Rightarrow> jsval \<Rightarrow> settle_error + pos_db" where
  "write_payment en order cid saleTime db pay =
    (if js_le (to_number (doc_field pay ''amount'')) (Fin 0) then Inr db
     else and_then (add_doc en (payment_doc order cid saleTime pay) db) (\<lambda>(d, db').
       Inr (db'\<lparr>payments := payments db' @ [d]\<rparr>)))"

text \<open>\<^verbatim>\<open>for (const pay of order.payments)\<close> throws when the field is missing.\<close>

definition sale_payments :: "jsval \<Rightarrow> settle_error + jsval list" where
  "sale_payments order =
    (if is_array (doc_field order ''payments'') then Inr (elements (doc_field order ''payments'')) else Inl LibraryError)"

definition buildRecoveryAuditPatch :: "jsval \<Rightarrow> jsval \<Rightarrow> patch" where
  "buildRecoveryAuditPatch now order =
    (let prior = (case doc_field order ''lastReconcileError'' of JStr s \<Rightarrow> s
        | _ \<Rightarrow> (case doc_field order ''reconcileError'' of JStr s \<Rightarrow> s | _ \<Rightarrow> []))
     in [fdel ''reconcileError'', fdel ''lastReconcileError'', fdel ''lastReconcileErrorAt'', fdel ''firstFailedAt'']
        @ (if prior \<noteq> [] then [fput ''previousReconcileError'' (JStr prior), fput ''reconcileRecoveredAt'' now] else []))"

definition settled_patch :: "settle_env \<Rightarrow> jsval \<Rightarrow> settle_plan \<Rightarrow> jsnum \<Rightarrow> patch" where
  "settled_patch en order p totalCogs =
    [fput ''reconcileStatus'' (JStr (js ''settled'')), fput ''reconciledAt'' (se_now en),
     fput ''status'' (settled_status order), fput ''lines'' (JArr (sp_lines p)), fput ''cogs'' (JNum totalCogs),
     fput ''profit'' (JNum (roundMoney_fifo (js_sub (roundMoney_fifo (num_field order ''subtotal'')) totalCogs))),
     fput ''hadOversell'' (JBool (sp_hadOversell p)), fput ''updatedAt'' (se_now en)]
    @ buildRecoveryAuditPatch (se_now en) order"

definition write_async :: "jsstr \<Rightarrow> patch \<Rightarrow> pos_db \<Rightarrow> settle_error + pos_db" where
  "write_async oid p db =
    (if writable p then Inr (db\<lparr>asyncOrders := merge_set oid p (asyncOrders db)\<rparr>) else Inl LibraryError)"

definition sale_time :: "settle_env \<Rightarrow> jsval \<Rightarrow> settle_error + jsval" where
  "sale_time en order = (case se_fromMillis en (to_number (doc_field order ''clientCreatedAt'')) of
     Some t \<Rightarrow> Inr t | None \<Rightarrow> Inl LibraryError)"

text \<open>The documents of the sale: canonical order, items, payments and the settled intent.\<close>

definition write_documents :: "settle_env \<Rightarrow> jsstr \<Rightarrow> jsstr \<Rightarrow> jsval \<Rightarrow> settle_plan \<Rightarrow> pos_db \<Rightarrow> settle_error + pos_db" where
  "write_documents en oid cid order p db =
    (let totalCogs = total_cogs (sp_lines p) in
     and_then (sale_time en order) (\<lambda>saleTime.
     and_then (write_canonical cid (canonical_doc en order (JStr cid) (settled_status order) totalCogs saleTime) db) (\<lambda>db.
     and_then (fold_result (write_item en cid (\<lambda>l. Inr (doc_field l ''qtyBase''))) db (sp_lines p)) (\<lambda>db.
     and_then (sale_payments order) (\<lambda>pays.
     and_then (fold_result (write_payment en order (JStr cid) saleTime) db pays) (\<lambda>db.
       write_async oid (settled_patch en order p totalCogs) db))))))"

definition settle_effects :: "settle_env \<Rightarrow> jsstr \<Rightarrow> jsval \<Rightarrow> settle_reads \<Rightarrow> settle_plan \<Rightarrow> pos_db \<Rightarrow> settle_error + pos_db" where
  "settle_effects en oid order r p db =
    and_then (fold_result (write_movement en (sale_movement en order (sr_branchId r)))
       (write_stocks en r p (write_lots en r p db)) (sp_lines p)) (\<lambda>db.
    write_customer en r order (write_device en r oid db))"

definition settle_sale :: "settle_env \<Rightarrow> jsstr \<Rightarrow> jsval \<Rightarrow> jsstr \<Rightarrow> pos_db \<Rightarrow> settle_error + pos_db" where
  "settle_sale en oid order cid db =
    and_then (from_source (validateCanonicalSaleSource order)) (\<lambda>_.
    and_then (settle_read db order) (\<lambda>r.
    and_then (settle_plan_of en db r order) (\<lambda>p.
    and_then (settle_effects en oid order r p db) (\<lambda>db'. write_documents en oid cid order p db'))))"

text \<open>
  The transaction. The code returns nothing; the flag tells whether this run settled the sale.
\<close>

definition reconcileSale :: "settle_env \<Rightarrow> jsstr \<Rightarrow> pos_db \<Rightarrow> settle_error + bool \<times> pos_db" where
  "reconcileSale en oid db = (case map_of (asyncOrders db) oid of
     None \<Rightarrow> Inr (False, db)
   | Some order \<Rightarrow>
       if doc_field order ''reconcileStatus'' \<noteq> JStr (js ''pending_reconcile'') then Inr (False, db)
       else and_then (doc_id (doc_field order ''id'')) (\<lambda>cid.
         if map_of (orders db) cid \<noteq> None then Inl CanonicalExists
         else and_then (settle_sale en oid order cid db) (\<lambda>db'. Inr (True, db'))))"

section \<open>The trigger and its error path\<close>

definition MAX_ADMIN_ERROR_LEN :: nat where "MAX_ADMIN_ERROR_LEN = 300"

definition sanitizeReconcileError :: "jsstr \<Rightarrow> jsstr" where
  "sanitizeReconcileError message =
    (let oneLine = trim (collapse_ws message) in
     if oneLine = [] then js ''unknown error''
     else if length oneLine > MAX_ADMIN_ERROR_LEN then take MAX_ADMIN_ERROR_LEN oneLine @ [0x2026]
     else oneLine)"

definition exception_patch :: "settle_env \<Rightarrow> jsval \<Rightarrow> settle_error \<Rightarrow> patch" where
  "exception_patch en payload e =
    (let safeError = JStr (sanitizeReconcileError (error_message en e)) in
     [fput ''reconcileStatus'' (JStr (js ''exception'')), fadd ''reconcileAttempts'' (Fin 1),
      fput ''lastReconcileError'' safeError, fput ''lastReconcileErrorAt'' (se_now en),
      fput ''reconciledAt'' (se_now en)]
     @ (if is_nullish (doc_field payload ''reconcileError'')
        then [fput ''reconcileError'' safeError, fput ''firstFailedAt'' (se_now en)] else []))"

definition void_error_patch :: "settle_env \<Rightarrow> settle_error \<Rightarrow> patch" where
  "void_error_patch en e =
    [fput ''voidError'' (JStr (error_message en e)), fput ''voidErroredAt'' (se_now en)]"

section \<open>Reversing a settled sale\<close>

datatype revision = RevAbsent | RevValid jsnum | RevMalformed

definition MAX_SAFE_INTEGER :: jsnum where "MAX_SAFE_INTEGER = Fin 9007199254740991"

definition readRevision :: "jsval \<Rightarrow> revision" where
  "readRevision d =
    (if \<not> has_own d ''historyRev'' then RevAbsent
     else case doc_field d ''historyRev'' of
       JNum v \<Rightarrow> if \<not> isInteger v \<or> js_lt v (Fin 1) \<or> js_lt MAX_SAFE_INTEGER v then RevMalformed else RevValid v
     | _ \<Rightarrow> RevMalformed)"

definition canMintSuccessor :: "jsnum \<Rightarrow> bool" where
  "canMintSuccessor current \<longleftrightarrow> js_lt current MAX_SAFE_INTEGER"

datatype revision_fault = RevisionMalformed | RevisionOverflow

definition classifyRevisionFault :: "jsval \<Rightarrow> revision_fault option" where
  "classifyRevisionFault canonical = (case readRevision canonical of
     RevAbsent \<Rightarrow> None
   | RevMalformed \<Rightarrow> Some RevisionMalformed
   | RevValid v \<Rightarrow> if \<not> canMintSuccessor v then Some RevisionOverflow else None)"

fun fault_name :: "revision_fault \<Rightarrow> string" where
  "fault_name RevisionMalformed = ''revision_malformed''"
| "fault_name RevisionOverflow = ''revision_overflow''"

datatype void_noop = VnAbsent | VnNotSettled | VnAlreadyReconciled | VnTerminalMarker | VnReturnPresent

datatype void_outcome =
  VoidNoop void_noop | VoidTombstoned | VoidAnomaly string | VoidRevisionFault revision_fault | VoidApplied

text \<open>The options of a privileged caller; a generic caller passes \<open>no_void_options\<close>.\<close>

record void_options =
  vo_executionId :: jsval
  vo_oacId :: jsval
  vo_actorStaffId :: jsval

definition no_void_options :: void_options where
  "no_void_options = \<lparr>vo_executionId = JUndef, vo_oacId = JUndef, vo_actorStaffId = JUndef\<rparr>"

definition read_correlation :: "jsval \<Rightarrow> jsstr option" where
  "read_correlation raw = (case raw of JStr s \<Rightarrow> if trim s \<noteq> [] then Some (trim s) else None | _ \<Rightarrow> None)"

definition identifier_char :: "16 word \<Rightarrow> bool" where
  "identifier_char c \<longleftrightarrow> is_digit c \<or> (65 \<le> unat c \<and> unat c \<le> 90) \<or> (97 \<le> unat c \<and> unat c \<le> 122)
     \<or> unat c = 95 \<or> unat c = 45"

definition IDENTIFIER_MAX_BYTES :: nat where "IDENTIFIER_MAX_BYTES = 1500"

definition isCanonicalIdentifier :: "jsstr \<Rightarrow> bool" where
  "isCanonicalIdentifier s \<longleftrightarrow> 1 \<le> length s \<and> length s \<le> IDENTIFIER_MAX_BYTES \<and> list_all identifier_char s"

definition read_actor :: "void_options \<Rightarrow> settle_error + jsstr option" where
  "read_actor opts = (case vo_actorStaffId opts of
     JUndef \<Rightarrow> Inr None
   | JStr s \<Rightarrow> if isCanonicalIdentifier (trim s) \<and> read_correlation (vo_executionId opts) \<noteq> None
         \<and> read_correlation (vo_oacId opts) \<noteq> None then Inr (Some (trim s)) else Inl LibraryError
   | _ \<Rightarrow> Inl LibraryError)"

definition isCanonicallyVoidTerminal :: "jsval \<Rightarrow> bool" where
  "isCanonicallyVoidTerminal order \<longleftrightarrow>
     doc_field order ''status'' = JStr (js ''voided'') \<or> doc_field order ''voidReconciled'' = JBool True"

definition privilegedCorrelationWrite :: "void_options \<Rightarrow> patch" where
  "privilegedCorrelationWrite opts =
    (case read_correlation (vo_executionId opts) of Some s \<Rightarrow> [fput ''privilegedVoidExecutionId'' (JStr s)] | None \<Rightarrow> [])
    @ (case read_correlation (vo_oacId opts) of Some s \<Rightarrow> [fput ''privilegedVoidOacId'' (JStr s)] | None \<Rightarrow> [])"

definition terminalMarkerPresent :: "jsval \<Rightarrow> bool" where
  "terminalMarkerPresent order \<longleftrightarrow> has_own order ''voidAnomaly'' \<or> has_own order ''voidAnomalyAt''
     \<or> has_own order ''voidRevisionFault'' \<or> has_own order ''voidRevisionFaultAt''"

text \<open>The lines as the planners take them; a line of another shape makes the code throw.\<close>

definition lot_ref_of :: "jsval \<Rightarrow> lot_ref option" where
  "lot_ref_of v = (case (doc_field v ''lotId'', doc_field v ''qty'') of
     (JStr l, JNum q) \<Rightarrow> Some \<lparr>lr_lotId = l, lr_qty = q, lr_cost = to_number (doc_field v ''cost'')\<rparr>
   | _ \<Rightarrow> None)"

definition all_some :: "'a option list \<Rightarrow> 'a list option" where
  "all_some xs = (if None \<in> set xs then None else Some (map the xs))"

definition reversal_line_of :: "jsval \<Rightarrow> reversal_line option" where
  "reversal_line_of v = (case (doc_field v ''productId'', or_else (doc_field v ''qtyBase'') (JNum (Fin 0)),
       or_else (doc_field v ''lotRefs'') (JArr [])) of
     (JStr pid, JNum q, JArr refs) \<Rightarrow> map_option (\<lambda>rs. \<lparr>rv_productId = pid, rv_qtyBase = q, rv_lotRefs = rs\<rparr>)
       (all_some (map lot_ref_of refs))
   | _ \<Rightarrow> None)"

definition reversal_lines :: "jsval \<Rightarrow> settle_error + reversal_line list" where
  "reversal_lines order =
    (if \<not> is_array (doc_field order ''lines'') then Inl LibraryError
     else case all_some (map reversal_line_of (sale_lines order)) of None \<Rightarrow> Inl LibraryError | Some ls \<Rightarrow> Inr ls)"

definition read_void_credit :: "pos_db \<Rightarrow> jsval \<Rightarrow> settle_error + (jsstr \<times> credit_account option) option" where
  "read_void_credit db order =
    (if js_lt (Fin 0) (creditAmt_of order) \<and> js_truthy (doc_field order ''customerId'')
     then and_then (doc_id (doc_field order ''customerId'')) (\<lambda>cid. Inr (Some (cid,
       map_option (\<lambda>d. \<lparr>ca_creditUsed = num_field d ''creditUsed'', ca_creditLimit = num_field d ''creditLimit''\<rparr>)
         (map_of (creditAccounts db) cid))))
     else Inr None)"

definition restock_lot :: "settle_env \<Rightarrow> (jsstr, jsval) jsmap \<Rightarrow> jsstr \<times> jsnum \<Rightarrow> (jsstr, jsval) jsmap" where
  "restock_lot en lots r = merge_set (fst r)
     [fadd ''qtyRemaining'' (snd r), fput ''isDepleted'' (JBool False), fput ''updatedAt'' (se_now en)] lots"

definition restore_stock :: "settle_env \<Rightarrow> jsval \<Rightarrow> jsstr \<Rightarrow> (jsstr \<times> jsstr, jsval) jsmap \<Rightarrow> jsstr \<times> jsnum
    \<Rightarrow> (jsstr \<times> jsstr, jsval) jsmap" where
  "restore_stock en branch branchId stocks s = merge_set (fst s, branchId)
     [fput ''branchId'' branch, fadd ''totalStockBase'' (snd s),
      fput ''lastMovementAt'' (se_now en), fput ''updatedAt'' (se_now en)] stocks"

definition void_movement :: "settle_env \<Rightarrow> jsval \<Rightarrow> jsval \<Rightarrow> jsval \<Rightarrow> jsval \<Rightarrow> jsstr \<Rightarrow> (jsstr \<times> jsval) list" where
  "void_movement en order voidReason voidedBy line mid =
    [(js ''id'', JStr mid), (js ''productId'', doc_field line ''productId''), (js ''branchId'', doc_field order ''branchId''),
     (js ''type'', JStr (js ''void'')), (js ''qty'', or_else (doc_field line ''qtyBase'') (JNum (Fin 0))),
     (js ''costPerUnit'',
       (let refs = elements (doc_field line ''lotRefs'');
            real = filter (\<lambda>l. doc_field l ''lotId'' \<noteq> JStr OVERSELL_LOT_ID) refs;
            first_cost = (\<lambda>ls. case ls of [] \<Rightarrow> JUndef | l # _ \<Rightarrow> doc_field l ''cost'')
        in or_else (first_cost real) (or_else (first_cost refs) (JNum (Fin 0))))),
     (js ''refId'', doc_field order ''id''), (js ''refType'', JStr (js ''order'')), (js ''note'', or_else voidReason (JStr [])),
     (js ''createdBy'', voidedBy), (js ''createdAt'', se_now en)]"

definition void_note :: jsstr where
  "void_note = [0xe22, 0xe01, 0xe40, 0xe25, 0xe34, 0xe01, 0xe1a, 0xe34, 0xe25, 0x20]"

definition credit_payment :: "settle_env \<Rightarrow> jsval \<Rightarrow> jsstr \<Rightarrow> jsnum \<Rightarrow> jsval \<Rightarrow> jsstr \<Rightarrow> (jsstr \<times> jsval) list" where
  "credit_payment en order orderId balance voidedBy tid =
    [(js ''id'', JStr tid), (js ''customerId'', doc_field order ''customerId''), (js ''branchId'', doc_field order ''branchId''),
     (js ''type'', JStr (js ''payment'')), (js ''amount'', JNum (js_neg (creditAmt_of order))), (js ''balance'', JNum balance),
     (js ''refOrderId'', doc_field order ''id''), (js ''note'', JStr (void_note @ orderId)), (js ''createdBy'', voidedBy),
     (js ''createdAt'', se_now en), (js ''dueDate'', JNull), (js ''isPaid'', JBool True), (js ''paidAt'', se_now en)]"

definition void_stock :: "settle_env \<Rightarrow> jsval \<Rightarrow> reversal_line list \<Rightarrow> pos_db \<Rightarrow> settle_error + pos_db" where
  "void_stock en order ls db =
    (let db1 = db\<lparr>stockLots := foldl (restock_lot en) (stockLots db) (planLotRestocks ls)\<rparr> in
     if [] \<in> fst ` set (planLotRestocks ls) \<union> fst ` set (planStockRestores ls) then Inl LibraryError
     else if planStockRestores ls = [] then Inr db1
     else and_then (doc_id (doc_field order ''branchId'')) (\<lambda>branchId. Inr
       (db1\<lparr>productStocks := foldl (restore_stock en (doc_field order ''branchId'') branchId) (productStocks db1)
          (planStockRestores ls)\<rparr>)))"

definition void_credit ::
  "settle_env \<Rightarrow> jsval \<Rightarrow> jsstr \<Rightarrow> jsval \<Rightarrow> (jsstr \<times> credit_account option) option \<Rightarrow> pos_db \<Rightarrow> settle_error + pos_db" where
  "void_credit en order orderId voidedBy cred db =
    (case cred of None \<Rightarrow> Inr db
     | Some (cid, acc) \<Rightarrow> (case planCreditReversal (creditAmt_of order) acc of None \<Rightarrow> Inr db
       | Some rv \<Rightarrow>
           and_then (require (map_of (customers db) cid \<noteq> None)) (\<lambda>_.
           and_then (add_doc en (credit_payment en order orderId (cr_newCreditBalance rv) voidedBy) db) (\<lambda>(d, db). Inr
             (db\<lparr>creditAccounts := merge_set cid [fput ''creditUsed'' (JNum (cr_newCreditUsed rv)),
                   fput ''creditBalance'' (JNum (cr_newCreditBalance rv)), fput ''lastTransAt'' (se_now en),
                   fput ''updatedAt'' (se_now en)] (creditAccounts db),
                 customers := merge_set cid [fadd ''outstandingBalance'' (js_neg (cr_outstandingDecrement rv)),
                   fput ''updatedAt'' (se_now en)] (customers db),
                 creditTransactions := creditTransactions db @ [d]\<rparr>)))))"

definition void_audit :: "settle_env \<Rightarrow> jsval \<Rightarrow> jsval \<Rightarrow> jsval \<Rightarrow> jsstr \<Rightarrow> (jsstr \<times> jsval) list" where
  "void_audit en order voidReason voidedBy aid =
    [(js ''id'', JStr aid), (js ''collection'', JStr (js ''asyncOrders'')), (js ''docId'', doc_field order ''id''),
     (js ''action'', JStr (js ''void'')),
     (js ''before'', JObj [(js ''status'', JStr (js ''settled'')), (js ''total'', doc_field order ''total'')]),
     (js ''after'', JObj [(js ''status'', JStr (js ''voided'')), (js ''voidReason'', voidReason)]),
     (js ''reason'', voidReason), (js ''changedBy'', voidedBy), (js ''changedAt'', se_now en)]"

definition void_canonical_patch :: "settle_env \<Rightarrow> jsval \<Rightarrow> jsval \<Rightarrow> jsnum \<Rightarrow> patch" where
  "void_canonical_patch en voidReason voidedBy currentRev =
    [fput ''status'' (JStr (js ''voided'')), fput ''voidReason'' voidReason, fput ''voidedBy'' voidedBy,
     fput ''voidedAt'' (se_now en), fput ''updatedAt'' (se_now en),
     fput ''historyRev'' (JNum (js_add currentRev (Fin 1)))]"

definition void_async_patch :: "settle_env \<Rightarrow> void_options \<Rightarrow> jsstr option \<Rightarrow> patch" where
  "void_async_patch en opts actor =
    [fput ''status'' (JStr (js ''voided'')), fput ''voidReconciled'' (JBool True), fput ''voidedAt'' (se_now en),
     fput ''updatedAt'' (se_now en)]
    @ (case actor of Some s \<Rightarrow> [fput ''voidedBy'' (JStr s)] | None \<Rightarrow> [])
    @ privilegedCorrelationWrite opts"

definition current_rev :: "jsval \<Rightarrow> jsnum" where
  "current_rev canonical = (case readRevision canonical of RevValid v \<Rightarrow> v | _ \<Rightarrow> Fin 0)"

text \<open>The reversal itself, once the guards have let it through.\<close>

definition apply_void ::
  "settle_env \<Rightarrow> void_options \<Rightarrow> jsstr option \<Rightarrow> jsstr \<Rightarrow> jsval \<Rightarrow> jsstr \<Rightarrow> jsval \<Rightarrow> pos_db \<Rightarrow> settle_error + pos_db" where
  "apply_void en opts actor oid order cid canonical db =
    (let voidedBy = (case actor of Some s \<Rightarrow> JStr s
           | None \<Rightarrow> or_else (doc_field order ''voidedBy'') (doc_field order ''staffId''));
         voidReason = or_else (doc_field order ''voidReason'') JNull
     in and_then (read_void_credit db order) (\<lambda>cred.
        and_then (reversal_lines order) (\<lambda>ls.
        and_then (void_stock en order ls db) (\<lambda>db.
        and_then (fold_result (write_movement en (void_movement en order voidReason voidedBy)) db (sale_lines order)) (\<lambda>db.
        and_then (void_credit en order cid voidedBy cred db) (\<lambda>db.
        and_then (require (writable (void_canonical_patch en voidReason voidedBy (current_rev canonical)))) (\<lambda>_.
        and_then (add_doc en (void_audit en order voidReason voidedBy) db) (\<lambda>(d, db). Inr
          (db\<lparr>orders := merge_set cid (void_canonical_patch en voidReason voidedBy (current_rev canonical)) (orders db),
              auditLogs := auditLogs db @ [d],
              asyncOrders := merge_set oid (void_async_patch en opts actor) (asyncOrders db)\<rparr>)))))))))"

definition tombstone_patch :: "settle_env \<Rightarrow> void_options \<Rightarrow> patch" where
  "tombstone_patch en opts =
    [fput ''status'' (JStr (js ''voided'')), fput ''reconcileStatus'' (JStr (js ''settled'')), fput ''voidedAt'' (se_now en)]
    @ privilegedCorrelationWrite opts"

definition anomaly_patch :: "settle_env \<Rightarrow> string \<Rightarrow> patch" where
  "anomaly_patch en a = [fput ''voidAnomaly'' (JStr (js a)), fput ''voidAnomalyAt'' (se_now en)]"

definition revision_fault_patch :: "settle_env \<Rightarrow> revision_fault \<Rightarrow> patch" where
  "revision_fault_patch en f = [fput ''voidRevisionFault'' (JStr (js (fault_name f))), fput ''voidRevisionFaultAt'' (se_now en)]"

definition patch_async :: "jsstr \<Rightarrow> patch \<Rightarrow> pos_db \<Rightarrow> pos_db" where
  "patch_async oid p db = db\<lparr>asyncOrders := merge_set oid p (asyncOrders db)\<rparr>"

definition void_settled ::
  "settle_env \<Rightarrow> void_options \<Rightarrow> jsstr option \<Rightarrow> jsstr \<Rightarrow> jsval \<Rightarrow> pos_db \<Rightarrow> settle_error + void_outcome \<times> pos_db" where
  "void_settled en opts actor oid order db =
    and_then (doc_id (doc_field order ''id'')) (\<lambda>cid.
      case map_of (orders db) cid of
        None \<Rightarrow> Inr (VoidAnomaly ''missing_canonical'', patch_async oid (anomaly_patch en ''missing_canonical'') db)
      | Some canonical \<Rightarrow>
          if doc_field canonical ''status'' \<noteq> JStr (js ''completed'')
             \<and> doc_field canonical ''status'' \<noteq> JStr (js ''pending_payment'')
          then Inr (VoidAnomaly ''canonical_ineligible'', patch_async oid (anomaly_patch en ''canonical_ineligible'') db)
          else (case classifyRevisionFault canonical of
             Some f \<Rightarrow> Inr (VoidRevisionFault f, patch_async oid (revision_fault_patch en f) db)
           | None \<Rightarrow> and_then (apply_void en opts actor oid order cid canonical db) (\<lambda>db'. Inr (VoidApplied, db'))))"

definition void_transaction ::
  "settle_env \<Rightarrow> void_options \<Rightarrow> jsstr option \<Rightarrow> jsstr \<Rightarrow> pos_db \<Rightarrow> settle_error + void_outcome \<times> pos_db" where
  "void_transaction en opts actor oid db =
    (case map_of (asyncOrders db) oid of
       None \<Rightarrow> Inr (VoidNoop VnAbsent, db)
     | Some order \<Rightarrow>
         if terminalMarkerPresent order then Inr (VoidNoop VnTerminalMarker, db)
         else if map_of (saleReturnLedgers db) oid \<noteq> None then Inr (VoidNoop VnReturnPresent, db)
         else if read_correlation (vo_executionId opts) \<noteq> None \<and> isCanonicallyVoidTerminal order
         then Inr (VoidNoop VnAlreadyReconciled, db)
         else if doc_field order ''reconcileStatus'' = JStr (js ''pending_reconcile'')
         then Inr (VoidTombstoned, patch_async oid (tombstone_patch en opts) db)
         else if doc_field order ''reconcileStatus'' \<noteq> JStr (js ''settled'') then Inr (VoidNoop VnNotSettled, db)
         else if doc_field order ''voidReconciled'' = JBool True then Inr (VoidNoop VnAlreadyReconciled, db)
         else void_settled en opts actor oid order db)"

text \<open>\<open>fault\<close> is the message of a transaction that could not commit.\<close>

definition handleVoidIntent ::
  "settle_env \<Rightarrow> void_options \<Rightarrow> jsstr option \<Rightarrow> jsstr \<Rightarrow> pos_db \<Rightarrow> settle_error + void_outcome \<times> pos_db" where
  "handleVoidIntent en opts fault oid db =
    and_then (read_actor opts) (\<lambda>actor. case fault of
       Some m \<Rightarrow> Inl (TransactionFailed m)
     | None \<Rightarrow> void_transaction en opts actor oid db)"

section \<open>The trigger\<close>

text \<open>
  One delivery: the document as it was after the write that caused it (\<open>None\<close> when deleted),
  which may be stale; a transaction that fails; and a patch of the error path that fails.
\<close>

record delivery =
  dl_order :: jsstr
  dl_after :: "jsval option"
  dl_fault :: "jsstr option"
  dl_patchFails :: bool

datatype delivery_outcome =
  Ignored | VoidRan void_outcome | SettleRan bool | Threw settle_error

definition run_settle :: "settle_env \<Rightarrow> delivery \<Rightarrow> pos_db \<Rightarrow> settle_error + bool \<times> pos_db" where
  "run_settle en d db = (case dl_fault d of
     Some m \<Rightarrow> Inl (TransactionFailed m) | None \<Rightarrow> reconcileSale en (dl_order d) db)"

definition after_failure :: "delivery \<Rightarrow> patch \<Rightarrow> pos_db \<Rightarrow> pos_db" where
  "after_failure d p db = (if dl_patchFails d then db else patch_async (dl_order d) p db)"

definition reconcileOnWrite :: "settle_env \<Rightarrow> delivery \<Rightarrow> pos_db \<Rightarrow> delivery_outcome \<times> pos_db" where
  "reconcileOnWrite en d db = (case dl_after d of
     None \<Rightarrow> (Ignored, db)
   | Some data \<Rightarrow>
       if js_truthy (doc_field data ''voidRequested'') then
         (case handleVoidIntent en no_void_options (dl_fault d) (dl_order d) db of
            Inl e \<Rightarrow> (Threw e, after_failure d (void_error_patch en e) db)
          | Inr (v, db') \<Rightarrow> (VoidRan v, db'))
       else if doc_field data ''reconcileStatus'' \<noteq> JStr (js ''pending_reconcile'') then (Ignored, db)
       else (case run_settle en d db of
            Inl e \<Rightarrow> (Threw e, after_failure d (exception_patch en data e) db)
          | Inr (b, db') \<Rightarrow> (SettleRan b, db')))"

section \<open>The administrator's retry\<close>

definition RECONCILE_RETRY_CAP :: jsnum where "RECONCILE_RETRY_CAP = Fin 3"

datatype retry_error =
  RetryUnauthenticated | RetryPermissionDenied | RetryInvalidArgument | RetryNotFound
  | RetryFailedPrecondition | RetryResourceExhausted

datatype retry_result = ReArmed jsnum | NoopAlreadySettled

definition retry_by :: "auth_like \<Rightarrow> jsval" where
  "retry_by a = or_else (doc_field (al_token a) ''staffId'') (case al_uid a of Some u \<Rightarrow> JStr u | None \<Rightarrow> JNull)"

definition retry_transaction :: "settle_env \<Rightarrow> auth_like \<Rightarrow> jsstr \<Rightarrow> pos_db \<Rightarrow> retry_error + retry_result \<times> pos_db" where
  "retry_transaction en a oid db = (case map_of (asyncOrders db) oid of
     None \<Rightarrow> Inl RetryNotFound
   | Some ord \<Rightarrow>
       if doc_field ord ''reconcileStatus'' = JStr (js ''settled'') then Inr (NoopAlreadySettled, db)
       else if doc_field ord ''reconcileStatus'' \<noteq> JStr (js ''exception'') then Inl RetryFailedPrecondition
       else if doc_field ord ''voidRequested'' = JBool True then Inl RetryFailedPrecondition
       else (let attempts = (case doc_field ord ''reconcileAttempts'' of JNum n \<Rightarrow> n | _ \<Rightarrow> Fin 0) in
         if js_le RECONCILE_RETRY_CAP attempts then Inl RetryResourceExhausted
         else Inr (ReArmed attempts, patch_async oid
           [fput ''reconcileStatus'' (JStr (js ''pending_reconcile'')), fadd ''adminRetryCount'' (Fin 1),
            fput ''lastRetryBy'' (retry_by a), fput ''lastRetryAt'' (se_now en)] db)))"

definition performReconcileRetry ::
  "settle_env \<Rightarrow> users \<Rightarrow> auth_like option \<Rightarrow> jsstr \<Rightarrow> pos_db \<Rightarrow> retry_error + retry_result \<times> pos_db" where
  "performReconcileRetry en users auth orderId db = (case auth of
     None \<Rightarrow> Inl RetryUnauthenticated
   | Some a \<Rightarrow> (case assertFreshPrivilegedAuthority users auth of
       Inl HttpsUnauthenticated \<Rightarrow> Inl RetryUnauthenticated
     | Inl HttpsPermissionDenied \<Rightarrow> Inl RetryPermissionDenied
     | Inr _ \<Rightarrow>
         if doc_field (al_token a) ''role'' \<noteq> JStr (js ''admin'') then Inl RetryPermissionDenied
         else if trim orderId = [] then Inl RetryInvalidArgument
         else retry_transaction en a (trim orderId) db))"

section \<open>Rebuilding a lost canonical sale\<close>

datatype repair_outcome = Repaired | SkippedVoided | AlreadyPresent | Unrepairable

definition canonical_id :: "jsstr \<Rightarrow> jsval \<Rightarrow> jsstr" where
  "canonical_id snapId order = (case doc_field order ''id'' of JStr s \<Rightarrow> if s \<noteq> [] then s else snapId | _ \<Rightarrow> snapId)"

definition rebuilt_doc :: "settle_env \<Rightarrow> jsval \<Rightarrow> jsval \<Rightarrow> jsval \<Rightarrow> (jsstr \<times> jsval) list" where
  "rebuilt_doc en order cid saleTime =
    (let f = (\<lambda>k. (js k, doc_field order k)); n = (\<lambda>k. (js k, or_else (doc_field order k) JNull)) in
     [(js ''id'', cid), f ''billId'', f ''branchId'', n ''customerId'', n ''customerSnap'', f ''staffId'', f ''staffName'',
      f ''shiftId'',
      (js ''status'', case doc_field order ''status'' of JStr s \<Rightarrow> JStr s | _ \<Rightarrow> JStr (js ''completed'')),
      (js ''subtotal'', money_field order ''subtotal''),
      (js ''discountAmt'', money_field order ''discountAmt''), (js ''billDiscount'', money_field order ''billDiscount''),
      (js ''vatRate'', JNum (Fin 0)), (js ''vatAmt'', JNum (Fin 0)), (js ''surcharge'', money_field order ''fee''),
      (js ''total'', JNum (grand_total order)), (js ''paidAmt'', money_field order ''paidAmt''),
      (js ''changeAmt'', money_field order ''changeAmt''),
      (js ''creditAmt'', or_else (doc_field order ''creditAmt'') (JNum (Fin 0))), (js ''cogs'', money_field order ''cogs''),
      (js ''profit'', money_field order ''profit''), f ''priceLevelId'', (js ''note'', JStr []),
      (js ''voidReason'', JNull), (js ''voidedBy'', JNull), (js ''voidedAt'', JNull), (js ''printCount'', JNum (Fin 0)),
      (js ''createdAt'', saleTime), (js ''updatedAt'', se_now en), (js ''asyncOrderId'', cid), n ''deviceId'',
      (js ''historyRev'', JNum (Fin 1)), (js ''repairedBySweeper'', JBool True)])"

text \<open>The payments of the sweep tolerate a missing list.\<close>

definition rebuild :: "settle_env \<Rightarrow> jsval \<Rightarrow> jsstr \<Rightarrow> pos_db \<Rightarrow> settle_error + pos_db" where
  "rebuild en order cid db =
    and_then (sale_time en order) (\<lambda>saleTime.
    and_then (write_canonical cid (rebuilt_doc en order (JStr cid) saleTime) db) (\<lambda>db.
    and_then (fold_result (write_item en cid
        (\<lambda>l. and_then (from_source (resolveLineQtyBase l (js ''lines''))) (\<lambda>q. Inr (JNum q)))) db (sale_lines order)) (\<lambda>db.
      fold_result (write_payment en order (JStr cid) saleTime) db (elements (doc_field order ''payments'')))))"

definition repairSettledOrder :: "settle_env \<Rightarrow> bool \<Rightarrow> jsstr \<times> jsval \<Rightarrow> pos_db \<Rightarrow> settle_error + repair_outcome \<times> pos_db" where
  "repairSettledOrder en apply snap db =
    (let order = snd snap; cid = canonical_id (fst snap) order in
     if doc_field order ''status'' = JStr (js ''voided'') then Inr (SkippedVoided, db)
     else if map_of (orders db) cid \<noteq> None then Inr (AlreadyPresent, db)
     else and_then (from_source (validateCanonicalSaleSource order)) (\<lambda>_.
       if sale_lines order = [] then Inr (Unrepairable, db)
       else if \<not> apply then Inr (Repaired, db)
       else and_then (rebuild en order cid db) (\<lambda>db'. Inr (Repaired, db'))))"

record sweep_report =
  sw_scanned :: nat
  sw_repaired :: "jsstr list"
  sw_skippedVoided :: nat
  sw_alreadyPresent :: nat
  sw_unrepairable :: "(jsstr \<times> jsstr) list"

definition no_lines_reason :: jsstr where
  "no_lines_reason = js ''settled order has no enriched lines''"

definition sweep_one :: "settle_env \<Rightarrow> bool \<Rightarrow> sweep_report \<times> pos_db \<Rightarrow> jsstr \<times> jsval \<Rightarrow> sweep_report \<times> pos_db" where
  "sweep_one en apply acc snap =
    (let (rep0, db) = acc; rep = rep0\<lparr>sw_scanned := Suc (sw_scanned rep0)\<rparr> in
     case repairSettledOrder en apply snap db of
       Inl e \<Rightarrow> (rep\<lparr>sw_unrepairable := sw_unrepairable rep @ [(fst snap, error_message en e)]\<rparr>, db)
     | Inr (Repaired, db') \<Rightarrow> (rep\<lparr>sw_repaired := sw_repaired rep @ [fst snap]\<rparr>, db')
     | Inr (SkippedVoided, db') \<Rightarrow> (rep\<lparr>sw_skippedVoided := Suc (sw_skippedVoided rep)\<rparr>, db')
     | Inr (AlreadyPresent, db') \<Rightarrow> (rep\<lparr>sw_alreadyPresent := Suc (sw_alreadyPresent rep)\<rparr>, db')
     | Inr (Unrepairable, db') \<Rightarrow> (rep\<lparr>sw_unrepairable := sw_unrepairable rep @ [(fst snap, no_lines_reason)]\<rparr>, db'))"

definition sweepStuckOrders :: "settle_env \<Rightarrow> bool \<Rightarrow> pos_db \<Rightarrow> sweep_report \<times> pos_db" where
  "sweepStuckOrders en apply db =
    foldl (sweep_one en apply)
      (\<lparr>sw_scanned = 0, sw_repaired = [], sw_skippedVoided = 0, sw_alreadyPresent = 0, sw_unrepairable = []\<rparr>, db)
      (filter (\<lambda>(k, d). doc_field d ''reconcileStatus'' = JStr (js ''settled'')) (asyncOrders db))"

end
