(* ===== verification/SettlementRun.thy ===== *)
theory SettlementRun
  imports Settlement
begin

text \<open>
  Runs of the settlement: what each transaction touches, the machine of sales created,
  delivered, voided, retried and repaired in any order with any transaction failing, and
  what holds in all its runs.
\<close>

section \<open>What the writers keep\<close>

lemma fold_result_keeps:
  assumes "\<And>s x t. x \<in> set xs \<Longrightarrow> g s x = Inr t \<Longrightarrow> f t = f s" "fold_result g s xs = Inr t"
  shows "f t = f s"
  using assms
proof (induction xs arbitrary: s)
  case (Cons x xs)
  then obtain u where u: "g s x = Inr u" "fold_result g u xs = Inr t" by (auto simp: and_then_Inr_iff)
  have "f t = f u" using Cons.IH [OF _ u(2)] Cons.prems(1) by (meson list.set_intros(2))
  then show ?case using Cons.prems(1) [of x s u] u(1) by simp
qed simp

lemma merge_set_get [simp]:
  "map_of (merge_set k p m) k = Some (merge_doc (case map_of m k of Some d \<Rightarrow> d | None \<Rightarrow> JObj []) p)"
  "k' \<noteq> k \<Longrightarrow> map_of (merge_set k p m) k' = map_of m k'"
  by (simp_all add: merge_set_def)

lemma add_doc_Inr: "add_doc en f db = Inr (d, db') \<Longrightarrow>
    d = JObj (f (se_autoId en (next_auto db))) \<and> \<not> has_undef d \<and> db' = db\<lparr>next_auto := Suc (next_auto db)\<rparr>"
  by (auto simp: add_doc_def Let_def split: if_splits)

text \<open>The parts of the database a settlement's effects and documents leave alone.\<close>

definition sales_part :: "pos_db \<Rightarrow> (jsstr, jsval) jsmap \<times> (jsstr, jsval) jsmap \<times> (jsstr, jsval) jsmap" where
  "sales_part db = (asyncOrders db, orders db, saleReturnLedgers db)"

definition stock_part :: "pos_db \<Rightarrow> (jsstr \<times> jsstr, jsval) jsmap \<times> (jsstr, jsval) jsmap \<times> jsval list" where
  "stock_part db = (productStocks db, stockLots db, stockMovements db)"

lemma write_movement_keeps:
  "write_movement en f db l = Inr db' \<Longrightarrow> sales_part db' = sales_part db \<and> productStocks db' = productStocks db
     \<and> stockLots db' = stockLots db \<and> customers db' = customers db"
  by (auto simp: write_movement_def and_then_Inr_iff sales_part_def dest!: add_doc_Inr)

lemma write_item_keeps:
  "write_item en c q db l = Inr db' \<Longrightarrow> sales_part db' = sales_part db \<and> stock_part db' = stock_part db"
  by (auto simp: write_item_def and_then_Inr_iff sales_part_def stock_part_def dest!: add_doc_Inr)

lemma write_payment_keeps:
  "write_payment en ord c t db p = Inr db' \<Longrightarrow> sales_part db' = sales_part db \<and> stock_part db' = stock_part db"
  by (auto simp: write_payment_def and_then_Inr_iff sales_part_def stock_part_def dest!: add_doc_Inr split: if_splits)

lemma write_lots_keeps [simp]:
  "sales_part (write_lots en r p db) = sales_part db" "stockMovements (write_lots en r p db) = stockMovements db"
  "productStocks (write_lots en r p db) = productStocks db"
  by (simp_all add: write_lots_def sales_part_def)

lemma write_stocks_keeps [simp]:
  "sales_part (write_stocks en r p db) = sales_part db" "stockMovements (write_stocks en r p db) = stockMovements db"
  "stockLots (write_stocks en r p db) = stockLots db"
  by (simp_all add: write_stocks_def sales_part_def)

lemma write_device_keeps [simp]:
  "sales_part (write_device en r oid db) = sales_part db" "stock_part (write_device en r oid db) = stock_part db"
  by (auto simp: write_device_def sales_part_def stock_part_def split: option.splits prod.splits)

lemma write_customer_keeps:
  "write_customer en r ord db = Inr db' \<Longrightarrow> sales_part db' = sales_part db \<and> stock_part db' = stock_part db"
  by (auto simp: write_customer_def write_credit_def and_then_Inr_iff sales_part_def stock_part_def Let_def
      dest!: add_doc_Inr split: option.splits prod.splits bool.splits)

lemma write_canonical_Inr:
  "write_canonical c fs db = Inr db' \<longleftrightarrow> \<not> has_undef (JObj fs) \<and> db' = db\<lparr>orders := map_set c (JObj fs) (orders db)\<rparr>"
  by (auto simp: write_canonical_def simp del: has_undef.simps)

lemma write_async_Inr:
  "write_async oid p db = Inr db' \<longleftrightarrow> writable p \<and> db' = patch_async oid p db"
  by (auto simp: write_async_def patch_async_def)

lemma patch_async_keeps [simp]:
  "orders (patch_async oid p db) = orders db" "stock_part (patch_async oid p db) = stock_part db"
  "asyncOrders (patch_async oid p db) = merge_set oid p (asyncOrders db)"
  "saleReturnLedgers (patch_async oid p db) = saleReturnLedgers db"
  by (simp_all add: patch_async_def stock_part_def)

lemma stock_part_orders [simp]:
  "stock_part (db\<lparr>orders := x\<rparr>) = stock_part db" "sales_part (db\<lparr>orders := x\<rparr>) = (asyncOrders db, x, saleReturnLedgers db)"
  by (simp_all add: stock_part_def sales_part_def)

section \<open>One settlement, taken apart\<close>

definition written_canonical :: "settle_env \<Rightarrow> jsval \<Rightarrow> jsstr \<Rightarrow> settle_plan \<Rightarrow> jsval \<Rightarrow> jsval" where
  "written_canonical en order cid p saleTime =
    JObj (canonical_doc en order (JStr cid) (settled_status order) (total_cogs (sp_lines p)) saleTime)"

lemma write_documents_Inr:
  assumes "write_documents en oid cid order p db = Inr db'"
  obtains saleTime where "sale_time en order = Inr saleTime"
    "orders db' = map_set cid (written_canonical en order cid p saleTime) (orders db)"
    "asyncOrders db' = merge_set oid (settled_patch en order p (total_cogs (sp_lines p))) (asyncOrders db)"
    "stock_part db' = stock_part db" "saleReturnLedgers db' = saleReturnLedgers db"
proof -
  obtain t db1 db2 pays db3 where t: "sale_time en order = Inr t"
    and 1: "db1 = db\<lparr>orders := map_set cid (written_canonical en order cid p t) (orders db)\<rparr>"
    and 2: "fold_result (write_item en cid (\<lambda>l. Inr (doc_field l ''qtyBase''))) db1 (sp_lines p) = Inr db2"
    and 3: "fold_result (write_payment en order (JStr cid) t) db2 pays = Inr db3"
    and 4: "db' = patch_async oid (settled_patch en order p (total_cogs (sp_lines p))) db3"
    using assms
    by (auto simp: write_documents_def Let_def and_then_Inr_iff write_canonical_Inr write_async_Inr written_canonical_def
        simp del: has_undef.simps)
  have "sales_part db2 = sales_part db1" "stock_part db2 = stock_part db1"
    by (rule fold_result_keeps [OF _ 2], use write_item_keeps in blast)+
  moreover have "sales_part db3 = sales_part db2" "stock_part db3 = stock_part db2"
    by (rule fold_result_keeps [OF _ 3], use write_payment_keeps in blast)+
  ultimately show ?thesis using t 1 4 by (intro that [of t]) (simp_all add: sales_part_def)
qed

lemma settle_effects_Inr:
  assumes "settle_effects en oid order r p db = Inr db'"
  obtains db1 where
    "fold_result (write_movement en (sale_movement en order (sr_branchId r)))
       (write_stocks en r p (write_lots en r p db)) (sp_lines p) = Inr db1"
    "sales_part db' = sales_part db" "stock_part db' = stock_part db1"
    "productStocks db1 = productStocks (write_stocks en r p db)" "stockLots db1 = stockLots (write_lots en r p db)"
proof -
  obtain db1 where 1: "fold_result (write_movement en (sale_movement en order (sr_branchId r)))
       (write_stocks en r p (write_lots en r p db)) (sp_lines p) = Inr db1"
    and 2: "write_customer en r order (write_device en r oid db1) = Inr db'"
    using assms by (auto simp: settle_effects_def and_then_Inr_iff)
  have k: "sales_part db1 = sales_part (write_stocks en r p (write_lots en r p db))"
    "productStocks db1 = productStocks (write_stocks en r p (write_lots en r p db))"
    "stockLots db1 = stockLots (write_stocks en r p (write_lots en r p db))"
    by (rule fold_result_keeps [OF _ 1], use write_movement_keeps in blast)+
  have "productStocks (write_stocks en r p (write_lots en r p db)) = productStocks (write_stocks en r p db)"
    by (simp add: write_stocks_def write_lots_def)
  then show ?thesis using k 1 write_customer_keeps [OF 2] by (intro that [of db1]) simp_all
qed

lemma reconcileSale_settles:
  assumes "reconcileSale en oid db = Inr (True, db')"
  obtains order cid r p db1 saleTime where
    "map_of (asyncOrders db) oid = Some order" "doc_field order ''reconcileStatus'' = JStr (js ''pending_reconcile'')"
    "doc_field order ''id'' = JStr cid" "cid \<noteq> []" "map_of (orders db) cid = None"
    "validateCanonicalSaleSource order = Inr ()" "settle_read db order = Inr r" "settle_plan_of en db r order = Inr p"
    "settle_effects en oid order r p db = Inr db1" "sale_time en order = Inr saleTime"
    "orders db' = map_set cid (written_canonical en order cid p saleTime) (orders db)"
    "asyncOrders db' = merge_set oid (settled_patch en order p (total_cogs (sp_lines p))) (asyncOrders db)"
    "stock_part db' = stock_part db1" "saleReturnLedgers db' = saleReturnLedgers db"
proof -
  obtain order cid r p db1 where o: "map_of (asyncOrders db) oid = Some order"
    "doc_field order ''reconcileStatus'' = JStr (js ''pending_reconcile'')"
    "doc_id (doc_field order ''id'') = Inr cid" "map_of (orders db) cid = None"
    and v: "from_source (validateCanonicalSaleSource order) = Inr ()" and r: "settle_read db order = Inr r"
    and p: "settle_plan_of en db r order = Inr p" and e: "settle_effects en oid order r p db = Inr db1"
    and w: "write_documents en oid cid order p db1 = Inr db'"
    using assms by (auto simp: reconcileSale_def settle_sale_def and_then_Inr_iff split: option.splits if_splits)
  have id: "doc_field order ''id'' = JStr cid" "cid \<noteq> []"
    using o(3) by (auto simp: doc_id_def split: jsval.splits if_splits)
  have v': "validateCanonicalSaleSource order = Inr ()"
    using v by (auto simp: from_source_def split: sum.splits)
  obtain t where t: "sale_time en order = Inr t"
    "orders db' = map_set cid (written_canonical en order cid p t) (orders db1)"
    "asyncOrders db' = merge_set oid (settled_patch en order p (total_cogs (sp_lines p))) (asyncOrders db1)"
    "stock_part db' = stock_part db1" "saleReturnLedgers db' = saleReturnLedgers db1"
    using write_documents_Inr [OF w] by blast
  have s: "sales_part db1 = sales_part db" using settle_effects_Inr [OF e] by blast
  show ?thesis using that [OF o(1,2) id o(4) v' r p e t(1)] t s by (simp add: sales_part_def)
qed

lemma reconcileSale_idle: "reconcileSale en oid db = Inr (False, db') \<Longrightarrow> db' = db"
  by (auto simp: reconcileSale_def and_then_Inr_iff split: option.splits if_splits)

section \<open>One reversal, taken apart\<close>

lemma void_credit_keeps:
  "void_credit en ord oid by cred db = Inr db' \<Longrightarrow> sales_part db' = sales_part db \<and> stock_part db' = stock_part db"
  by (auto simp: void_credit_def and_then_Inr_iff sales_part_def stock_part_def Let_def
      dest!: add_doc_Inr split: option.splits prod.splits)

lemma void_stock_Inr:
  assumes "void_stock en order ls db = Inr db'"
  shows "sales_part db' = sales_part db" "stockMovements db' = stockMovements db"
    "stockLots db' = foldl (restock_lot en) (stockLots db) (planLotRestocks ls)"
    "planStockRestores ls = [] \<Longrightarrow> productStocks db' = productStocks db"
    "planStockRestores ls \<noteq> [] \<Longrightarrow> \<exists>b. doc_field order ''branchId'' = JStr b \<and>
       productStocks db' = foldl (restore_stock en (JStr b) b) (productStocks db) (planStockRestores ls)"
  using assms
  by (auto simp: void_stock_def Let_def and_then_Inr_iff sales_part_def doc_id_def
      split: if_splits jsval.splits)

lemma apply_void_Inr:
  assumes "apply_void en opts actor oid order cid canonical db = Inr db'"
  obtains ls db1 db2 reason voidedBy where
    "reversal_lines order = Inr ls" "void_stock en order ls db = Inr db1"
    "fold_result (write_movement en (void_movement en order reason voidedBy)) db1 (sale_lines order) = Inr db2"
    "stock_part db' = stock_part db2" "productStocks db2 = productStocks db1" "stockLots db2 = stockLots db1"
    "orders db' = merge_set cid (void_canonical_patch en reason voidedBy (current_rev canonical)) (orders db)"
    "asyncOrders db' = merge_set oid (void_async_patch en opts actor) (asyncOrders db)"
    "saleReturnLedgers db' = saleReturnLedgers db"
proof -
  define voidedBy where "voidedBy = (case actor of Some s \<Rightarrow> JStr s
     | None \<Rightarrow> or_else (doc_field order ''voidedBy'') (doc_field order ''staffId''))"
  define reason where "reason = or_else (doc_field order ''voidReason'') JNull"
  obtain cred ls db1 db2 db3 d db4 where 1: "reversal_lines order = Inr ls" "void_stock en order ls db = Inr db1"
    and 2: "fold_result (write_movement en (void_movement en order reason voidedBy)) db1 (sale_lines order) = Inr db2"
    and 3: "void_credit en order cid voidedBy cred db2 = Inr db3"
    and 4: "add_doc en (void_audit en order reason voidedBy) db3 = Inr (d, db4)"
    and 5: "db' = db4\<lparr>orders := merge_set cid (void_canonical_patch en reason voidedBy (current_rev canonical)) (orders db4),
              auditLogs := auditLogs db4 @ [d],
              asyncOrders := merge_set oid (void_async_patch en opts actor) (asyncOrders db4)\<rparr>"
    using assms unfolding apply_void_def Let_def and_then_Inr_iff
    by (auto simp flip: voidedBy_def reason_def split: prod.splits)
  have "sales_part db2 = sales_part db1" "productStocks db2 = productStocks db1" "stockLots db2 = stockLots db1"
    by (rule fold_result_keeps [OF _ 2], use write_movement_keeps in blast)+
  moreover have "sales_part db4 = sales_part db3" "stock_part db4 = stock_part db3"
    using add_doc_Inr [OF 4] by (simp_all add: sales_part_def stock_part_def)
  ultimately show ?thesis
    using void_credit_keeps [OF 3] void_stock_Inr(1) [OF 1(2)] 1 2 5
    by (intro that [of ls db1 reason voidedBy db2]) (simp_all add: sales_part_def stock_part_def)
qed

lemma void_applied:
  assumes "handleVoidIntent en opts f oid db = Inr (VoidApplied, db')"
  obtains order cid canonical actor where
    "f = None" "map_of (asyncOrders db) oid = Some order" "doc_field order ''reconcileStatus'' = JStr (js ''settled'')"
    "doc_field order ''voidReconciled'' \<noteq> JBool True" "doc_field order ''id'' = JStr cid"
    "map_of (saleReturnLedgers db) oid = None"
    "map_of (orders db) cid = Some canonical"
    "doc_field canonical ''status'' \<in> {JStr (js ''completed''), JStr (js ''pending_payment'')}"
    "read_actor opts = Inr actor" "apply_void en opts actor oid order cid canonical db = Inr db'"
  using assms
  by (auto simp: handleVoidIntent_def void_transaction_def void_settled_def and_then_Inr_iff Let_def doc_id_def
      split: option.splits if_splits jsval.splits)

definition refusal_patches :: "settle_env \<Rightarrow> void_options \<Rightarrow> patch set" where
  "refusal_patches en opts = {tombstone_patch en opts} \<union> range (anomaly_patch en) \<union> range (revision_fault_patch en)"

lemma void_settled_not_applied:
  assumes "void_settled en opts actor oid order db = Inr (v, db')" "v \<noteq> VoidApplied"
  shows "\<exists>p \<in> refusal_patches en opts. db' = patch_async oid p db"
proof -
  obtain cid where "doc_id (doc_field order ''id'') = Inr cid"
    using assms(1) by (auto simp: void_settled_def and_then_Inr_iff)
  then show ?thesis
    using assms
    by (cases "map_of (orders db) cid")
      (auto simp: void_settled_def refusal_patches_def and_then_Inr_iff split: option.splits if_splits)
qed

lemma void_not_applied:
  assumes "handleVoidIntent en opts f oid db = Inr (v, db')" "v \<noteq> VoidApplied"
  shows "db' = db \<or> (\<exists>p \<in> refusal_patches en opts. db' = patch_async oid p db)"
proof -
  obtain actor where "f = None" "void_transaction en opts actor oid db = Inr (v, db')"
    using assms(1) by (auto simp: handleVoidIntent_def and_then_Inr_iff split: option.splits)
  then show ?thesis
    using void_settled_not_applied [OF _ assms(2)] assms(2)
    by (auto simp: void_transaction_def refusal_patches_def split: option.splits if_splits)
qed

section \<open>The machine\<close>

text \<open>
  What a client may create (\<^verbatim>\<open>firestore.rules\<close>, \<^verbatim>\<open>safeInitialReconcileState\<close>): the state machine's
  own fields are left to the server.
\<close>

definition SERVER_OWNED_FIELDS :: "string list" where
  "SERVER_OWNED_FIELDS = [''reconcileAttempts'', ''reconcileError'', ''lastReconcileError'', ''lastReconcileErrorAt'',
     ''firstFailedAt'', ''previousReconcileError'', ''reconcileRecoveredAt'', ''adminRetryCount'', ''lastRetryBy'',
     ''voidAnomaly'', ''voidAnomalyAt'', ''voidRevisionFault'', ''voidRevisionFaultAt'',
     ''privilegedVoidExecutionId'', ''privilegedVoidOacId'']"

definition safeInitialReconcileState :: "jsval \<Rightarrow> bool" where
  "safeInitialReconcileState d \<longleftrightarrow>
     doc_field d ''reconcileStatus'' \<in> {JUndef, JStr (js ''pending_reconcile'')}
     \<and> is_nullish (doc_field d ''reconciledAt'') \<and> list_all (\<lambda>k. \<not> has_own d k) SERVER_OWNED_FIELDS"

datatype settle_event =
  CreateSale jsstr jsval
| DeliverWrite settle_env delivery
| PrivilegedVoid settle_env void_options "jsstr option" jsstr
| RetrySale settle_env users "auth_like option" jsstr
| RepairSale settle_env bool jsstr jsval

text \<open>What a step did, by canonical id; the log is kept beside the database.\<close>

datatype log_entry = Settled jsstr | Rebuilt jsstr | Reversed jsstr | ReArmedSale jsstr

definition sale_id :: "pos_db \<Rightarrow> jsstr \<Rightarrow> jsstr" where
  "sale_id db oid = (case map_of (asyncOrders db) oid of Some d \<Rightarrow>
     (case doc_field d ''id'' of JStr s \<Rightarrow> s | _ \<Rightarrow> []) | None \<Rightarrow> [])"

fun delivery_log :: "pos_db \<Rightarrow> jsstr \<Rightarrow> delivery_outcome \<Rightarrow> log_entry list" where
  "delivery_log db oid (SettleRan True) = [Settled (sale_id db oid)]"
| "delivery_log db oid (VoidRan VoidApplied) = [Reversed (sale_id db oid)]"
| "delivery_log db oid _ = []"

fun settle_step :: "log_entry list \<times> pos_db \<Rightarrow> settle_event \<Rightarrow> log_entry list \<times> pos_db" where
  "settle_step (lg, db) (CreateSale oid d) =
    (if map_of (asyncOrders db) oid = None \<and> oid \<noteq> [] \<and> plain_object d \<and> safeInitialReconcileState d
     then (lg, db\<lparr>asyncOrders := map_set oid d (asyncOrders db)\<rparr>) else (lg, db))"
| "settle_step (lg, db) (DeliverWrite en d) =
    (let (out, db') = reconcileOnWrite en d db in (lg @ delivery_log db (dl_order d) out, db'))"
| "settle_step (lg, db) (PrivilegedVoid en opts fault oid) =
    (case handleVoidIntent en opts fault oid db of
       Inr (v, db') \<Rightarrow> (lg @ delivery_log db oid (VoidRan v), db') | Inl e \<Rightarrow> (lg, db))"
| "settle_step (lg, db) (RetrySale en users auth oid) =
    (case performReconcileRetry en users auth oid db of
       Inr (ReArmed n, db') \<Rightarrow> (lg @ [ReArmedSale (trim oid)], db') | Inr (_, db') \<Rightarrow> (lg, db') | Inl e \<Rightarrow> (lg, db))"
| "settle_step (lg, db) (RepairSale en apply oid snap) =
    (case repairSettledOrder en apply (oid, snap) db of
       Inr (Repaired, db') \<Rightarrow> (if apply then lg @ [Rebuilt (canonical_id oid snap)] else lg, db')
     | Inr (_, db') \<Rightarrow> (lg, db') | Inl e \<Rightarrow> (lg, db))"

section \<open>Settled once, reversed once\<close>

text \<open>What one event does to the canonical sales and what it logs.\<close>

definition void_status :: "jsval \<Rightarrow> bool" where
  "void_status d \<longleftrightarrow> doc_field d ''status'' = JStr (js ''voided'')"

datatype order_effect = NoEffect | NewSale bool jsstr jsval | VoidedSale jsstr jsval

fun effect_orders :: "(jsstr, jsval) jsmap \<Rightarrow> order_effect \<Rightarrow> (jsstr, jsval) jsmap" where
  "effect_orders m NoEffect = m"
| "effect_orders m (NewSale _ cid d) = map_set cid d m"
| "effect_orders m (VoidedSale cid d) = map_set cid d m"

fun effect_log :: "order_effect \<Rightarrow> log_entry list" where
  "effect_log NoEffect = []"
| "effect_log (NewSale rebuilt cid _) = [if rebuilt then Rebuilt cid else Settled cid]"
| "effect_log (VoidedSale cid _) = [Reversed cid]"

fun effect_legal :: "(jsstr, jsval) jsmap \<Rightarrow> order_effect \<Rightarrow> bool" where
  "effect_legal m NoEffect = True"
| "effect_legal m (NewSale _ cid d) = (map_of m cid = None \<and> \<not> void_status d)"
| "effect_legal m (VoidedSale cid d) = (\<exists>c. map_of m cid = Some c \<and> \<not> void_status c \<and> void_status d)"

definition sale_entries :: "log_entry list \<Rightarrow> log_entry list" where
  "sale_entries lg = filter (\<lambda>x. \<forall>k. x \<noteq> ReArmedSale k) lg"

lemma sale_entries_simps [simp]:
  "sale_entries (a @ b) = sale_entries a @ sale_entries b" "sale_entries [ReArmedSale k] = []"
  "sale_entries [Settled k] = [Settled k]" "sale_entries [Reversed k] = [Reversed k]"
  "sale_entries [Rebuilt k] = [Rebuilt k]" "sale_entries [] = []" "sale_entries (effect_log e) = effect_log e"
  by (auto simp: sale_entries_def) (cases e; simp)

lemma doc_field_JObj: "doc_field (JObj fs) k = (case map_of fs (js k) of Some v \<Rightarrow> v | None \<Rightarrow> JUndef)"
  by (simp add: doc_field_def)

lemma written_canonical_status: "\<not> void_status (written_canonical en order cid p t)"
  by (simp add: void_status_def written_canonical_def canonical_doc_def Let_def doc_field_JObj settled_status_def)

lemma sale_id_of: "map_of (asyncOrders db) oid = Some order \<Longrightarrow> doc_field order ''id'' = JStr cid \<Longrightarrow> sale_id db oid = cid"
  by (simp add: sale_id_def)

lemma settle_effect:
  assumes "reconcileSale en oid db = Inr (True, db')"
  shows "\<exists>e. effect_legal (orders db) e \<and> orders db' = effect_orders (orders db) e
     \<and> effect_log e = [Settled (sale_id db oid)]"
proof -
  obtain order cid p t where o: "map_of (asyncOrders db) oid = Some order" "doc_field order ''id'' = JStr cid"
    "map_of (orders db) cid = None" "orders db' = map_set cid (written_canonical en order cid p t) (orders db)"
    using assms by (rule reconcileSale_settles)
  then show ?thesis
    by (intro exI [of _ "NewSale False cid (written_canonical en order cid p t)"])
      (simp add: written_canonical_status sale_id_of)
qed

lemma void_effect:
  assumes "handleVoidIntent en opts f oid db = Inr (VoidApplied, db')"
  shows "\<exists>e. effect_legal (orders db) e \<and> orders db' = effect_orders (orders db) e
     \<and> effect_log e = [Reversed (sale_id db oid)]"
proof -
  obtain order cid canonical actor where o: "map_of (asyncOrders db) oid = Some order"
    "doc_field order ''id'' = JStr cid" "map_of (orders db) cid = Some canonical"
    "doc_field canonical ''status'' \<in> {JStr (js ''completed''), JStr (js ''pending_payment'')}"
    "apply_void en opts actor oid order cid canonical db = Inr db'"
    using assms by (rule void_applied)
  obtain reason by' where "orders db' = merge_set cid (void_canonical_patch en reason by' (current_rev canonical)) (orders db)"
    using o(5) by (rule apply_void_Inr)
  moreover have "void_status (merge_doc canonical (void_canonical_patch en reason by' (current_rev canonical)))" for reason by'
    by (simp add: void_status_def doc_field_merge void_canonical_patch_def)
  ultimately show ?thesis using o
    by (intro exI [of _ "VoidedSale cid (merge_doc canonical (void_canonical_patch en reason by' (current_rev canonical)))"])
      (auto simp: merge_set_def void_status_def sale_id_of)
qed

lemma void_handler_effect:
  assumes "handleVoidIntent en opts f oid db = Inr (v, db')"
  shows "\<exists>e. effect_legal (orders db) e \<and> orders db' = effect_orders (orders db) e
     \<and> effect_log e = delivery_log db oid (VoidRan v)"
proof (cases "v = VoidApplied")
  case True
  then show ?thesis using void_effect assms by auto
next
  case False
  then have "orders db' = orders db" using void_not_applied [OF assms] by auto
  moreover have "delivery_log db oid (VoidRan v) = []" using False by (cases v) auto
  ultimately show ?thesis by (intro exI [of _ NoEffect]) simp
qed

lemma delivery_effect:
  assumes "reconcileOnWrite en d db = (out, db')"
  shows "\<exists>e. effect_legal (orders db) e \<and> orders db' = effect_orders (orders db) e
     \<and> effect_log e = delivery_log db (dl_order d) out"
proof -
  have none: ?thesis if "orders db' = orders db" "delivery_log db (dl_order d) out = []"
    using that by (intro exI [of _ NoEffect]) simp
  have failed: "orders (after_failure d p db) = orders db" for p
    by (simp add: after_failure_def)
  from assms consider
      (idle) "orders db' = orders db" "delivery_log db (dl_order d) out = []"
    | (void) v where "handleVoidIntent en no_void_options (dl_fault d) (dl_order d) db = Inr (v, db')" "out = VoidRan v"
    | (settle) b where "reconcileSale en (dl_order d) db = Inr (b, db')" "out = SettleRan b"
    by (auto simp: reconcileOnWrite_def run_settle_def failed split: option.splits if_splits sum.splits prod.splits)
  then show ?thesis
  proof cases
    case idle
    then show ?thesis by (rule none)
  next
    case (void v)
    then show ?thesis using void_handler_effect by simp
  next
    case (settle b)
    show ?thesis
    proof (cases b)
      case True
      then show ?thesis using settle settle_effect by auto
    next
      case False
      then have "reconcileSale en (dl_order d) db = Inr (False, db')" using settle by simp
      then have "db' = db" by (rule reconcileSale_idle)
      then show ?thesis using settle False by (intro none) simp_all
    qed
  qed
qed

lemma rebuild_orders:
  assumes "rebuild en order cid db = Inr db'"
  obtains t where "sale_time en order = Inr t" "orders db' = map_set cid (JObj (rebuilt_doc en order (JStr cid) t)) (orders db)"
    "asyncOrders db' = asyncOrders db" "stock_part db' = stock_part db" "saleReturnLedgers db' = saleReturnLedgers db"
proof -
  let ?q = "\<lambda>l. and_then (from_source (resolveLineQtyBase l (js ''lines''))) (\<lambda>q. Inr (JNum q))"
  obtain t db1 db2 where t: "sale_time en order = Inr t"
    and 1: "db1 = db\<lparr>orders := map_set cid (JObj (rebuilt_doc en order (JStr cid) t)) (orders db)\<rparr>"
    and 2: "fold_result (write_item en cid ?q) db1 (sale_lines order) = Inr db2"
    and 3: "fold_result (write_payment en order (JStr cid) t) db2 (elements (doc_field order ''payments'')) = Inr db'"
    using assms by (auto simp: rebuild_def and_then_Inr_iff write_canonical_Inr simp del: has_undef.simps)
  have "sales_part db2 = sales_part db1" "stock_part db2 = stock_part db1"
    by (rule fold_result_keeps [OF _ 2], use write_item_keeps in blast)+
  moreover have "sales_part db' = sales_part db2" "stock_part db' = stock_part db2"
    by (rule fold_result_keeps [OF _ 3], use write_payment_keeps in blast)+
  ultimately show ?thesis using t 1 by (intro that [of t]) (simp_all add: sales_part_def)
qed

lemma repair_cases:
  assumes "repairSettledOrder en apply (oid, snap) db = Inr (out, db')"
  shows "(out = Repaired \<and> apply \<and> map_of (orders db) (canonical_id oid snap) = None
      \<and> validateCanonicalSaleSource snap = Inr () \<and> rebuild en snap (canonical_id oid snap) db = Inr db')
    \<or> (db' = db \<and> (out = Repaired \<longrightarrow> \<not> apply))"
  using assms
  by (auto simp: repairSettledOrder_def Let_def and_then_Inr_iff from_source_def split: if_splits sum.splits)

lemma rebuilt_status:
  assumes "validateCanonicalSaleSource snap = Inr ()"
  shows "\<not> void_status (JObj (rebuilt_doc en snap (JStr cid) t))"
proof -
  have "validate_status snap = Inr ()"
    using assms by (auto simp: validateCanonicalSaleSource_def and_then_Inr_iff)
  then show ?thesis
    by (auto simp: void_status_def rebuilt_doc_def Let_def doc_field_JObj validate_status_def
        CANONICAL_SOURCE_STATUSES_def split: jsval.splits if_splits)
qed

lemma repair_effect:
  assumes "repairSettledOrder en apply (oid, snap) db = Inr (out, db')"
  shows "\<exists>e. effect_legal (orders db) e \<and> orders db' = effect_orders (orders db) e
     \<and> effect_log e = (if out = Repaired \<and> apply then [Rebuilt (canonical_id oid snap)] else [])"
  using repair_cases [OF assms]
proof
  assume r: "out = Repaired \<and> apply \<and> map_of (orders db) (canonical_id oid snap) = None
      \<and> validateCanonicalSaleSource snap = Inr () \<and> rebuild en snap (canonical_id oid snap) db = Inr db'"
  then obtain t where "orders db' = map_set (canonical_id oid snap) (JObj (rebuilt_doc en snap (JStr (canonical_id oid snap)) t)) (orders db)"
    using rebuild_orders by blast
  then show ?thesis using r rebuilt_status
    by (intro exI [of _ "NewSale True (canonical_id oid snap) (JObj (rebuilt_doc en snap (JStr (canonical_id oid snap)) t))"]) simp
next
  assume "db' = db \<and> (out = Repaired \<longrightarrow> \<not> apply)"
  then show ?thesis by (intro exI [of _ NoEffect]) simp
qed

lemma retry_cases:
  assumes "performReconcileRetry en users auth oid db = Inr (out, db')"
  shows "(out = NoopAlreadySettled \<and> db' = db) \<or> (\<exists>n p a ord. out = ReArmed n \<and> auth = Some a \<and>
      db' = patch_async (trim oid) [fput ''reconcileStatus'' (JStr (js ''pending_reconcile'')), fadd ''adminRetryCount'' (Fin 1),
            fput ''lastRetryBy'' (retry_by a), fput ''lastRetryAt'' (se_now en)] db
      \<and> map_of (asyncOrders db) (trim oid) = Some ord \<and> doc_field ord ''reconcileStatus'' = JStr (js ''exception'')
      \<and> doc_field ord ''voidRequested'' \<noteq> JBool True
      \<and> n = (case doc_field ord ''reconcileAttempts'' of JNum n \<Rightarrow> n | _ \<Rightarrow> Fin 0) \<and> \<not> js_le RECONCILE_RETRY_CAP n)"
  using assms
  by (auto simp: performReconcileRetry_def retry_transaction_def Let_def
      split: option.splits sum.splits https_error.splits if_splits)

text \<open>One step is one legal effect on the canonical sales, and logs exactly it.\<close>

lemma step_effect:
  assumes "settle_step (lg, db) ev = (lg', db')"
  shows "\<exists>e. effect_legal (orders db) e \<and> orders db' = effect_orders (orders db) e
     \<and> sale_entries lg' = sale_entries lg @ effect_log e"
proof -
  have none: ?thesis if "orders db' = orders db" "sale_entries lg' = sale_entries lg"
    using that by (intro exI [of _ NoEffect]) simp
  show ?thesis
  proof (cases ev)
    case (CreateSale oid d)
    then show ?thesis using assms by (intro none) (auto split: if_splits)
  next
    case (DeliverWrite en d)
    obtain out where "reconcileOnWrite en d db = (out, db')" "lg' = lg @ delivery_log db (dl_order d) out"
      using assms DeliverWrite by (auto simp: Let_def split: prod.splits)
    then show ?thesis using delivery_effect [of en d db out db'] by (metis sale_entries_simps(1,7))
  next
    case (PrivilegedVoid en opts f oid)
    show ?thesis
    proof (cases "handleVoidIntent en opts f oid db")
      case (Inl e)
      then show ?thesis using assms PrivilegedVoid by (intro none) auto
    next
      case (Inr vd)
      then obtain v where "handleVoidIntent en opts f oid db = Inr (v, db')" "lg' = lg @ delivery_log db oid (VoidRan v)"
        using assms PrivilegedVoid by (cases vd) auto
      then show ?thesis using void_handler_effect [of en opts f oid db v db'] by (metis sale_entries_simps(1,7))
    qed
  next
    case (RetrySale en users auth oid)
    show ?thesis
    proof (cases "performReconcileRetry en users auth oid db")
      case (Inl e)
      then show ?thesis using assms RetrySale by (intro none) auto
    next
      case (Inr rd)
      then show ?thesis using assms RetrySale retry_cases [of en users auth oid db "fst rd" "snd rd"]
        by (intro none) (auto split: prod.splits retry_result.splits)
    qed
  next
    case (RepairSale en ap oid snap)
    show ?thesis
    proof (cases "repairSettledOrder en ap (oid, snap) db")
      case (Inl e)
      then show ?thesis using assms RepairSale by (intro none) auto
    next
      case (Inr rd)
      then obtain out where "repairSettledOrder en ap (oid, snap) db = Inr (out, db')"
        "lg' = lg @ (if out = Repaired \<and> ap then [Rebuilt (canonical_id oid snap)] else [])"
        using assms RepairSale by (cases rd; cases "fst rd") auto
      moreover from this(1) obtain e where "effect_legal (orders db) e" "orders db' = effect_orders (orders db) e"
        "effect_log e = (if out = Repaired \<and> ap then [Rebuilt (canonical_id oid snap)] else [])"
        using repair_effect by meson
      ultimately show ?thesis by (intro exI [of _ e]) auto
    qed
  qed
qed

text \<open>The log and the canonical sales agree: a sale is there exactly when it was written once, and
  void exactly when it was reversed once.\<close>

definition log_matches :: "log_entry list \<times> pos_db \<Rightarrow> bool" where
  "log_matches s \<longleftrightarrow> (\<forall>c.
     count_list (fst s) (Settled c) + count_list (fst s) (Rebuilt c) = (if map_of (orders (snd s)) c = None then 0 else 1)
     \<and> count_list (fst s) (Reversed c)
       = (case map_of (orders (snd s)) c of Some d \<Rightarrow> if void_status d then 1 else 0 | None \<Rightarrow> 0))"

lemma count_list_append: "count_list (xs @ ys) x = count_list xs x + count_list ys x"
  by (induction xs) auto

lemma count_sale_entries:
  "count_list (sale_entries lg) (Settled c) = count_list lg (Settled c)"
  "count_list (sale_entries lg) (Rebuilt c) = count_list lg (Rebuilt c)"
  "count_list (sale_entries lg) (Reversed c) = count_list lg (Reversed c)"
  by (induction lg) (auto simp: sale_entries_def)

lemma log_matches_step:
  assumes "log_matches s"
  shows "log_matches (settle_step s ev)"
proof -
  obtain lg db where s: "s = (lg, db)" by (cases s)
  obtain lg' db' where s': "settle_step (lg, db) ev = (lg', db')" by fastforce
  obtain e where e: "effect_legal (orders db) e" "orders db' = effect_orders (orders db) e"
    "sale_entries lg' = sale_entries lg @ effect_log e" using step_effect [OF s'] by blast
  have c: "count_list lg' (Settled c) = count_list lg (Settled c) + count_list (effect_log e) (Settled c)"
    "count_list lg' (Rebuilt c) = count_list lg (Rebuilt c) + count_list (effect_log e) (Rebuilt c)"
    "count_list lg' (Reversed c) = count_list lg (Reversed c) + count_list (effect_log e) (Reversed c)" for c
    using arg_cong [OF e(3), of "\<lambda>l. count_list l (Settled c)"] arg_cong [OF e(3), of "\<lambda>l. count_list l (Rebuilt c)"]
      arg_cong [OF e(3), of "\<lambda>l. count_list l (Reversed c)"]
    by (simp_all only: count_list_append count_sale_entries)
  have "count_list lg' (Settled k) + count_list lg' (Rebuilt k) = (if map_of (orders db') k = None then 0 else 1)
     \<and> count_list lg' (Reversed k) = (case map_of (orders db') k of Some d \<Rightarrow> if void_status d then 1 else 0 | None \<Rightarrow> 0)" for k
  proof -
    have "count_list lg (Settled k) + count_list lg (Rebuilt k) = (if map_of (orders db) k = None then 0 else 1)
     \<and> count_list lg (Reversed k) = (case map_of (orders db) k of Some d \<Rightarrow> if void_status d then 1 else 0 | None \<Rightarrow> 0)"
      using assms by (simp add: log_matches_def s)
    then show ?thesis using e(1,2) by (cases e; cases "map_of (orders db) k") (auto simp: c)
  qed
  then show ?thesis by (simp add: log_matches_def s s')
qed

interpretation settlement: invariant_machine settle_step log_matches
  by unfold_locales (rule log_matches_step)

text \<open>C1. In any run that starts without canonical sales - sales created, writes delivered late, twice or
  with a stale document, voids, retries and repairs in any order, any transaction failing - a sale is
  written to the canonical collection at most once (settled or rebuilt, never both), and is reversed
  at most once and only after it was written.\<close>

theorem settled_and_reversed_once:
  assumes "orders db = []" "run settle_step ([], db) events = (lg, db')"
  shows "count_list lg (Settled c) + count_list lg (Rebuilt c) \<le> 1
    \<and> count_list lg (Reversed c) \<le> count_list lg (Settled c) + count_list lg (Rebuilt c)"
proof -
  have "log_matches ([], db)" using assms(1) by (simp add: log_matches_def)
  then have "log_matches (lg, db')" using settlement.inv_run assms(2) by metis
  then show ?thesis by (auto simp: log_matches_def split: if_splits option.splits)
qed

end
