(* ===== verification/StockLedger.thy ===== *)
theory StockLedger
  imports SettlementRun
begin

text \<open>
  The books of the stock: in every run of the settlement machine the stock of a product in a
  branch is its initial stock plus the quantities of the recorded movements.
\<close>

section \<open>Movements\<close>

fun stock_value :: "jsval \<Rightarrow> jsnum" where
  "stock_value (JNum n) = n"
| "stock_value _ = whole 0"

definition stock_of :: "pos_db \<Rightarrow> jsstr \<Rightarrow> jsstr \<Rightarrow> jsnum" where
  "stock_of db pid b = (case map_of (productStocks db) (pid, b) of
     None \<Rightarrow> whole 0 | Some d \<Rightarrow> stock_value (doc_field d ''totalStockBase''))"

definition movement_qty :: "jsval \<Rightarrow> int" where
  "movement_qty m = (case doc_field m ''qty'' of JNum n \<Rightarrow> \<lfloor>num_val n\<rfloor> | _ \<Rightarrow> 0)"

definition moved :: "jsstr \<Rightarrow> jsstr \<Rightarrow> jsval list \<Rightarrow> int" where
  "moved pid b ms = sum_list (map movement_qty
     (filter (\<lambda>m. doc_field m ''productId'' = JStr pid \<and> doc_field m ''branchId'' = JStr b) ms))"

definition volume :: "jsval list \<Rightarrow> int" where
  "volume ms = sum_list (map (\<lambda>m. \<bar>movement_qty m\<bar>) ms)"

text \<open>A whole quantity, positive when it gives stock back.\<close>

definition proper_movement :: "jsval \<Rightarrow> bool" where
  "proper_movement m \<longleftrightarrow> doc_field m ''qty'' = JNum (whole (movement_qty m)) \<and> movement_qty m \<noteq> 0
     \<and> (doc_field m ''type'' = JStr (js ''void'') \<longrightarrow> 0 < movement_qty m)"

definition proper_books :: "(jsstr \<Rightarrow> jsstr \<Rightarrow> int) \<Rightarrow> jsval list \<Rightarrow> bool" where
  "proper_books initial ms \<longleftrightarrow> list_all proper_movement ms \<and> (\<forall>pid b. \<bar>initial pid b\<bar> + volume ms < 2 ^ 53)"

definition balanced :: "(jsstr \<Rightarrow> jsstr \<Rightarrow> int) \<Rightarrow> pos_db \<Rightarrow> bool" where
  "balanced initial db \<longleftrightarrow> (\<forall>pid b. stock_of db pid b = whole (initial pid b + moved pid b (stockMovements db)))"

lemma moved_append [simp]: "moved pid b (xs @ ys) = moved pid b xs + moved pid b ys"
  by (simp add: moved_def)

lemma volume_append [simp]: "volume (xs @ ys) = volume xs + volume ys"
  by (simp add: volume_def)

lemma volume_nonneg: "0 \<le> volume ms"
  unfolding volume_def by (rule sum_list_nonneg) auto

lemma moved_le_volume: "\<bar>moved pid b ms\<bar> \<le> volume ms"
  by (induction ms) (auto simp: moved_def volume_def)

lemma proper_books_prefix: "proper_books initial (ms @ ds) \<Longrightarrow> proper_books initial ms"
proof -
  assume p: "proper_books initial (ms @ ds)"
  have "\<bar>initial pid b\<bar> + volume ms < 2 ^ 53" for pid b
  proof -
    have "\<bar>initial pid b\<bar> + (volume ms + volume ds) < 2 ^ 53" using p by (simp add: proper_books_def)
    then show ?thesis using volume_nonneg [of ds] by linarith
  qed
  then show ?thesis using p by (simp add: proper_books_def)
qed

lemma proper_books_exact:
  assumes "proper_books initial ms"
  shows "exact_range (initial pid b + moved pid b ms)"
proof -
  have "\<bar>initial pid b\<bar> + volume ms < 2 ^ 53" using assms by (simp add: proper_books_def)
  then show ?thesis using moved_le_volume [of pid b ms] by (simp add: exact_range_def)
qed

lemma proper_books_volume: "proper_books initial ms \<Longrightarrow> volume ms < 2 ^ 53"
proof -
  assume "proper_books initial ms"
  then have "\<bar>initial [] []\<bar> + volume ms < 2 ^ 53" by (simp add: proper_books_def)
  then show ?thesis by linarith
qed

lemma add_to_stock:
  assumes "stock_value v = whole a" "exact_range (a + k)"
  shows "stock_value (incremented v (whole k)) = whole (a + k)"
  using assms by (cases v) (auto simp: incremented_def)

lemma js_neg_whole: "k \<noteq> 0 \<Longrightarrow> js_neg (whole k) = whole (- k)"
  by (simp add: whole_def)

lemma whole_of_neg:
  assumes "isFinite q" "js_lt (Fin 0) q" "js_neg q = whole m"
  shows "q = whole (- m) \<and> 0 < - m"
  using assms by (cases q) (auto simp: whole_def js_lt_def split: if_splits)

section \<open>Writing movements and stock\<close>

lemma write_movements:
  assumes "fold_result (write_movement en f) db ls = Inr db'"
  shows "\<exists>ds. stockMovements db' = stockMovements db @ ds \<and> list_all2 (\<lambda>l d. \<exists>mid. d = JObj (f l mid)) ls ds"
  using assms
proof (induction ls arbitrary: db)
  case (Cons l ls)
  then obtain db1 where 1: "write_movement en f db l = Inr db1" "fold_result (write_movement en f) db1 ls = Inr db'"
    by (auto simp: and_then_Inr_iff)
  obtain d where d: "stockMovements db1 = stockMovements db @ [d]" "\<exists>mid. d = JObj (f l mid)"
  proof
    show "stockMovements db1 = stockMovements db @ [JObj (f l (se_autoId en (next_auto db)))]"
      using 1(1) by (auto simp: write_movement_def and_then_Inr_iff dest!: add_doc_Inr)
  qed blast
  obtain ds where "stockMovements db' = stockMovements db1 @ ds" "list_all2 (\<lambda>l d. \<exists>mid. d = JObj (f l mid)) ls ds"
    using Cons.IH [OF 1(2)] by blast
  then show ?case using d by (intro exI [of _ "d # ds"]) simp
qed simp

definition stocks_value :: "(jsstr \<times> jsstr, jsval) jsmap \<Rightarrow> jsstr \<Rightarrow> jsstr \<Rightarrow> jsnum" where
  "stocks_value m pid b = (case map_of m (pid, b) of None \<Rightarrow> whole 0 | Some d \<Rightarrow> stock_value (doc_field d ''totalStockBase''))"

lemma stock_of_stocks: "stock_of db pid b = stocks_value (productStocks db) pid b"
  by (simp add: stock_of_def stocks_value_def)

lemma stocks_value_merge:
  assumes "stocks_value m pid b = whole a" "exact_range (a + k)"
    "p = [fput ''branchId'' v, fadd ''totalStockBase'' (whole k), fput ''lastMovementAt'' t, fput ''updatedAt'' u]"
  shows "stocks_value (merge_set (pid, b) p m) pid b = whole (a + k)"
proof -
  have "doc_field (JObj []) ''totalStockBase'' = JUndef" by (simp add: doc_field_def)
  then show ?thesis using assms add_to_stock [of "JUndef" a k]
    by (auto simp: stocks_value_def merge_set_def doc_field_merge add_to_stock split: option.splits)
qed

lemma stocks_value_merge_other:
  "(pid', b') \<noteq> (pid, b) \<Longrightarrow> stocks_value (merge_set (pid, b) p m) pid' b' = stocks_value m pid' b'"
  by (auto simp: stocks_value_def merge_set_def)

lemma write_stocks_values:
  assumes "distinct pids" "\<And>pid. stocks_value m pid b = whole (f pid)"
    "\<And>pid. pid \<in> set pids \<Longrightarrow> map_of sd pid = Some (whole (g pid)) \<and> 0 < g pid \<and> exact_range (f pid - g pid)"
  shows "stocks_value (foldl (write_stock en b sd) m pids) pid b = whole (if pid \<in> set pids then f pid - g pid else f pid)"
  using assms
proof (induction pids arbitrary: m f)
  case (Cons x pids)
  let ?f = "f(x := f x - g x)"
  have x: "map_of sd x = Some (whole (g x))" "0 < g x" "exact_range (f x - g x)" using Cons.prems(3) [of x] by auto
  have w: "write_stock en b sd m x = merge_set (x, b) [fput ''branchId'' (JStr b), fadd ''totalStockBase'' (whole (- g x)),
      fput ''lastMovementAt'' (se_now en), fput ''updatedAt'' (se_now en)] m"
    using x by (simp add: write_stock_def Let_def js_neg_whole whole_lits)
  have "stocks_value (write_stock en b sd m x) pid b = whole (?f pid)" for pid
    using stocks_value_merge [OF Cons.prems(2) _ refl, of x "- g x"] stocks_value_merge_other [of pid b x b] Cons.prems(2) x(3)
    by (cases "pid = x") (simp_all add: w)
  moreover have "map_of sd pid = Some (whole (g pid)) \<and> 0 < g pid \<and> exact_range (?f pid - g pid)"
    if "pid \<in> set pids" for pid
    using Cons.prems(3) [of pid] Cons.prems(1) that by auto
  ultimately have "stocks_value (foldl (write_stock en b sd) (write_stock en b sd m x) pids) pid b
      = whole (if pid \<in> set pids then ?f pid - g pid else ?f pid)"
    using Cons.prems(1) by (intro Cons.IH) auto
  then show ?case using Cons.prems(1) by auto
qed simp

lemma write_stocks_other:
  "b' \<noteq> b \<Longrightarrow> stocks_value (foldl (write_stock en b sd) m pids) pid b' = stocks_value m pid b'"
  by (induction pids arbitrary: m) (simp_all add: write_stock_def Let_def stocks_value_merge_other)

lemma restore_stocks_values:
  assumes "distinct (map fst rs)" "\<And>pid. stocks_value m pid b = whole (f pid)"
    "\<And>pid q. (pid, q) \<in> set rs \<Longrightarrow> q = whole (g pid) \<and> exact_range (f pid + g pid)"
  shows "stocks_value (foldl (restore_stock en (JStr b) b) m rs) pid b = whole (if pid \<in> fst ` set rs then f pid + g pid else f pid)"
  using assms
proof (induction rs arbitrary: m f)
  case (Cons x rs)
  obtain k q where x: "x = (k, q)" by (cases x)
  let ?f = "f(k := f k + g k)"
  have q: "q = whole (g k)" "exact_range (f k + g k)" using Cons.prems(3) [of k q] x by auto
  have "stocks_value (restore_stock en (JStr b) b m x) pid b = whole (?f pid)" for pid
    using stocks_value_merge [OF Cons.prems(2) q(2) refl] stocks_value_merge_other [of pid b k b] Cons.prems(2)
    by (cases "pid = k") (simp_all add: x q(1) restore_stock_def)
  moreover have "q = whole (g pid) \<and> exact_range (?f pid + g pid)" if "(pid, q) \<in> set rs" for pid q
    using Cons.prems(3) [of pid q] Cons.prems(1) that x by (auto simp: image_iff)
  ultimately have "stocks_value (foldl (restore_stock en (JStr b) b) (restore_stock en (JStr b) b m x) rs) pid b
      = whole (if pid \<in> fst ` set rs then ?f pid + g pid else ?f pid)"
    using Cons.prems(1) by (intro Cons.IH) auto
  then show ?case using Cons.prems(1) x by (auto simp: image_iff)
qed simp

lemma restore_stocks_other:
  "b' \<noteq> b \<Longrightarrow> stocks_value (foldl (restore_stock en v b) m rs) pid b' = stocks_value m pid b'"
  by (induction rs arbitrary: m) (simp_all add: restore_stock_def stocks_value_merge_other)

section \<open>The plan of a settlement\<close>

text \<open>What planning one line adds: its quantity, its cuts and the line enriched with its references.\<close>

definition lots_for :: "settle_plan \<Rightarrow> jsval \<Rightarrow> mutable_lot list" where
  "lots_for p l = (case map_of (sp_lots p) (productId_of l) of Some ls \<Rightarrow> ls | None \<Rightarrow> [])"

definition plan_step :: "pos_db \<Rightarrow> settle_plan \<Rightarrow> jsval \<Rightarrow> jsnum \<Rightarrow> settle_plan" where
  "plan_step db p l q =
    (let (lots', cuts, refs, remaining) = planFifoCutFromState (lots_for p l) q;
         over = js_lt (Fin 0) remaining;
         allRefs = (if over then refs @ [\<lparr>lr_lotId = OVERSELL_LOT_ID, lr_qty = remaining,
              lr_cost = resolveOversellCost lots' (case map_of (products db) (productId_of l) of Some d \<Rightarrow> d | None \<Rightarrow> JUndef)\<rparr>]
            else refs)
      in \<lparr>sp_lots = map_set (productId_of l) lots' (sp_lots p),
          sp_stockDeduct = bump (productId_of l) q (sp_stockDeduct p),
          sp_cuts = sp_cuts p @ cuts, sp_lines = sp_lines p @ [enrich_line l q allRefs],
          sp_hadOversell = (sp_hadOversell p \<or> over)\<rparr>)"

lemma plan_line_Inr:
  "plan_line db p l = Inr p' \<longleftrightarrow> (\<exists>q. resolveLineQtyBase l (js ''lines'') = Inr q \<and> p' = plan_step db p l q)"
  by (auto simp: plan_line_def plan_step_def lots_for_def from_source_def and_then_Inr_iff Let_def split: sum.splits prod.splits)

lemma plan_step_deduct: "sp_stockDeduct (plan_step db p l q) = bump (productId_of l) q (sp_stockDeduct p)"
  by (simp add: plan_step_def Let_def split: prod.splits)

lemma plan_step_lines: "\<exists>refs. sp_lines (plan_step db p l q) = sp_lines p @ [enrich_line l q refs]"
  by (auto simp: plan_step_def Let_def split: prod.splits)

definition quantities :: "jsval list \<Rightarrow> jsnum list \<Rightarrow> bool" where
  "quantities ls qs \<longleftrightarrow> list_all2 (\<lambda>l q. resolveLineQtyBase l (js ''lines'') = Inr q) ls qs"

lemma plan_fold:
  assumes "fold_result (plan_line db) p ls = Inr p'"
  shows "\<exists>qs. quantities ls qs \<and> p' = foldl (\<lambda>p (l, q). plan_step db p l q) p (zip ls qs)"
  using assms
proof (induction ls arbitrary: p)
  case (Cons l ls)
  then obtain q where q: "resolveLineQtyBase l (js ''lines'') = Inr q" "fold_result (plan_line db) (plan_step db p l q) ls = Inr p'"
    by (auto simp: and_then_Inr_iff plan_line_Inr)
  obtain qs where "quantities ls qs" "p' = foldl (\<lambda>p (l, q). plan_step db p l q) (plan_step db p l q) (zip ls qs)"
    using Cons.IH [OF q(2)] by blast
  then show ?case using q(1) by (intro exI [of _ "q # qs"]) (simp add: quantities_def)
qed (auto simp: quantities_def)

lemma plan_fold_deduct:
  "sp_stockDeduct (foldl (\<lambda>p (l, q). plan_step db p l q) p lqs) =
    foldl (\<lambda>m (l, q). bump (productId_of l) q m) (sp_stockDeduct p) lqs"
  by (induction lqs arbitrary: p) (auto simp: plan_step_deduct split: prod.splits)

lemma plan_fold_lines:
  "\<exists>es. sp_lines (foldl (\<lambda>p (l, q). plan_step db p l q) p lqs) = sp_lines p @ es
     \<and> list_all2 (\<lambda>(l, q) e. \<exists>refs. e = enrich_line l q refs) lqs es"
proof (induction lqs arbitrary: p)
  case (Cons lq lqs)
  obtain l q where lq: "lq = (l, q)" by (cases lq)
  obtain refs where r: "sp_lines (plan_step db p l q) = sp_lines p @ [enrich_line l q refs]"
    using plan_step_lines by blast
  obtain es where "sp_lines (foldl (\<lambda>p (l, q). plan_step db p l q) (plan_step db p l q) lqs) = sp_lines (plan_step db p l q) @ es"
    "list_all2 (\<lambda>(l, q) e. \<exists>refs. e = enrich_line l q refs) lqs es" using Cons.IH by blast
  then show ?case using r by (intro exI [of _ "enrich_line l q refs # es"]) (auto simp: lq)
qed simp

lemma settle_plan:
  assumes "settle_plan_of en db r order = Inr p"
  obtains qs where "quantities (sale_lines order) qs"
    "p = foldl (\<lambda>p (l, q). plan_step db p l q) (initial_plan en db r) (zip (sale_lines order) qs)"
    "sp_stockDeduct p = foldl (\<lambda>m (l, q). bump (productId_of l) q m) [] (zip (sale_lines order) qs)"
    "list_all2 (\<lambda>(l, q) e. \<exists>refs. e = enrich_line l q refs) (zip (sale_lines order) qs) (sp_lines p)"
proof -
  obtain qs where q: "quantities (sale_lines order) qs"
    "p = foldl (\<lambda>p (l, q). plan_step db p l q) (initial_plan en db r) (zip (sale_lines order) qs)"
    using plan_fold assms unfolding settle_plan_of_def by blast
  show ?thesis
  proof (rule that [OF q])
    show "sp_stockDeduct p = foldl (\<lambda>m (l, q). bump (productId_of l) q m) [] (zip (sale_lines order) qs)"
      by (simp add: q(2) plan_fold_deduct initial_plan_def)
    show "list_all2 (\<lambda>(l, q) e. \<exists>refs. e = enrich_line l q refs) (zip (sale_lines order) qs) (sp_lines p)"
      using plan_fold_lines [of db "initial_plan en db r" "zip (sale_lines order) qs"] by (auto simp: q(2) initial_plan_def)
  qed
qed

lemma enrich_line_fields:
  "doc_field (enrich_line l q refs) ''qtyBase'' = JNum q"
  "doc_field (enrich_line l q refs) ''fifoCost'' = JNum (line_cost refs)"
  "doc_field (enrich_line l q refs) ''lotRefs'' = JArr (map lot_ref_doc refs)"
  "k \<notin> {''qtyBase'', ''fifoCost'', ''lotRefs''} \<Longrightarrow> doc_field (enrich_line l q refs) k = doc_field l k"
  by (auto simp: enrich_line_def doc_field_merge)

section \<open>A settlement keeps the books\<close>

lemma settle_read_Inr:
  assumes "settle_read db order = Inr r"
  shows "doc_field order ''branchId'' = JStr (sr_branchId r)"
    "l \<in> set (sale_lines order) \<Longrightarrow> doc_field l ''productId'' = JStr (productId_of l) \<and> productId_of l \<noteq> []"
    "sr_productIds r = uniq (map productId_of (sale_lines order))"
proof -
  have d: "doc_id v = Inr s \<longleftrightarrow> v = JStr s \<and> s \<noteq> []" for v s
    by (auto simp: doc_id_def split: jsval.splits)
  obtain pids b c e where 1: "map_result (\<lambda>l. doc_id (doc_field l ''productId'')) (sale_lines order) = Inr pids"
    "doc_id (doc_field order ''branchId'') = Inr b" "r = \<lparr>sr_branchId = b, sr_productIds = uniq pids, sr_customer = fst c,
       sr_credit = snd c, sr_device = e\<rparr>"
    using assms by (auto simp: settle_read_def and_then_Inr_iff)
  have "map_result (\<lambda>l. doc_id (doc_field l ''productId'')) ls = Inr pids \<Longrightarrow>
      pids = map productId_of ls \<and> (\<forall>l \<in> set ls. doc_field l ''productId'' = JStr (productId_of l) \<and> productId_of l \<noteq> [])" for ls pids
    by (induction ls arbitrary: pids) (auto simp: and_then_Inr_iff d productId_of_def)
  then show "doc_field order ''branchId'' = JStr (sr_branchId r)"
    "l \<in> set (sale_lines order) \<Longrightarrow> doc_field l ''productId'' = JStr (productId_of l) \<and> productId_of l \<noteq> []"
    "sr_productIds r = uniq (map productId_of (sale_lines order))" using 1 d by auto
qed

lemma uniq_set [simp]: "set (uniq xs) = set xs" "distinct (uniq xs)"
  by (induction xs) auto

text \<open>The movements a settlement records for its lines.\<close>

lemma moved_cons: "moved pid b (d # ds) =
    (if doc_field d ''productId'' = JStr pid \<and> doc_field d ''branchId'' = JStr b then movement_qty d else 0) + moved pid b ds"
  by (simp add: moved_def)

lemma sale_movements:
  assumes "list_all2 (\<lambda>(l, q) e. \<exists>refs. e = enrich_line l q refs) lqs es"
    "list_all2 (\<lambda>l d. \<exists>mid. d = JObj (sale_movement en order b l mid)) es ds"
    "\<forall>(l, q) \<in> set lqs. doc_field l ''productId'' = JStr (productId_of l) \<and> isFinite q \<and> js_lt (Fin 0) q"
    "list_all proper_movement ds"
  shows "\<exists>xs. map (\<lambda>(l, q). (productId_of l, q)) lqs = map (\<lambda>(k, n). (k, whole n)) xs \<and> (\<forall>(k, n) \<in> set xs. 0 < n)
     \<and> (\<forall>pid b'. moved pid b' ds = (if b' = b then - key_sum pid xs else 0)) \<and> sum_list (map snd xs) = volume ds"
  using assms
proof (induction lqs es arbitrary: ds rule: list_all2_induct)
  case Nil
  then show ?case by (intro exI [of _ "[]"]) (simp add: moved_def volume_def)
next
  case (Cons lq lqs e es)
  obtain l q where lq: "lq = (l, q)" by (cases lq)
  obtain refs where e: "e = enrich_line l q refs" using Cons.hyps lq by auto
  obtain mid d ds' where ds: "ds = d # ds'" "d = JObj (sale_movement en order b e mid)"
    "list_all2 (\<lambda>l d. \<exists>mid. d = JObj (sale_movement en order b l mid)) es ds'"
    using Cons.prems(1) by (auto simp: list_all2_Cons1)
  have f: "doc_field d ''qty'' = JNum (js_neg q)" "doc_field d ''productId'' = doc_field l ''productId''"
    "doc_field d ''branchId'' = JStr b"
    by (simp_all add: ds(2) sale_movement_def doc_field_JObj e enrich_line_fields num_field_def)
  have q: "isFinite q" "js_lt (Fin 0) q" "doc_field l ''productId'' = JStr (productId_of l)"
    using Cons.prems(2) by (auto simp: lq)
  have "js_neg q = whole (movement_qty d)" using Cons.prems(3) f(1) by (simp add: ds(1) proper_movement_def)
  then have w: "q = whole (- movement_qty d)" "0 < - movement_qty d" using whole_of_neg q(1,2) by blast+
  obtain xs where xs: "map (\<lambda>(l, q). (productId_of l, q)) lqs = map (\<lambda>(k, n). (k, whole n)) xs"
    "\<forall>(k, n) \<in> set xs. 0 < n" "\<forall>pid b'. moved pid b' ds' = (if b' = b then - key_sum pid xs else 0)"
    "sum_list (map snd xs) = volume ds'"
    using Cons.IH [of ds'] ds(3) Cons.prems(2,3) ds(1) by auto
  show ?case
    using xs w q(3) f(2,3)
    by (intro exI [of _ "(productId_of l, - movement_qty d) # xs"]) (auto simp: lq ds(1) moved_cons volume_def)
qed

lemma key_sum_le_total: "\<forall>(k, n) \<in> set xs. 0 < n \<Longrightarrow> key_sum k xs \<le> sum_list (map snd xs)"
  by (induction xs) auto

lemma key_sum_pos: "k \<in> fst ` set xs \<Longrightarrow> \<forall>(k, n) \<in> set xs. 0 < n \<Longrightarrow> 0 < key_sum k xs"
proof (induction xs)
  case (Cons x xs)
  then show ?case using key_sum_nonneg [of xs k] by (cases x) (auto intro: add_pos_nonneg)
qed simp

lemma foldl_bump_whole:
  assumes "map f lqs = map (\<lambda>(k, n). (k, whole n)) xs" "\<forall>(k, n) \<in> set xs. 0 < n" "\<forall>k. exact_range (key_sum k xs)"
  shows "sums_to (foldl (\<lambda>m x. bump (fst (f x)) (snd (f x)) m) [] lqs) xs"
proof -
  have "foldl (\<lambda>m x. bump (fst (f x)) (snd (f x)) m) m lqs = foldl (\<lambda>m (k, n). bump k n m) m (map f lqs)" for m
    by (simp add: foldl_map case_prod_unfold)
  also have "\<dots> m = foldl (\<lambda>m (k, n). bump k (whole n) m) m xs" for m
    unfolding assms(1) by (simp add: foldl_map case_prod_unfold)
  finally have "foldl (\<lambda>m x. bump (fst (f x)) (snd (f x)) m) [] lqs = foldl (\<lambda>m (k, n). bump k (whole n) m) [] xs" .
  then show ?thesis using foldl_bump [of "[]" "[]" xs] assms(2,3) by simp
qed

lemma resolved_positive: "quantities ls qs \<Longrightarrow> (l, q) \<in> set (zip ls qs) \<Longrightarrow> isFinite q \<and> js_lt (Fin 0) q"
  by (auto simp: quantities_def list_all2_iff dest: resolve_positive)

text \<open>New movements, and the stock moved by them, provided they are proper and nothing overflows.\<close>

definition stock_moved :: "pos_db \<Rightarrow> pos_db \<Rightarrow> jsval list \<Rightarrow> bool" where
  "stock_moved db db' ds \<longleftrightarrow> stockMovements db' = stockMovements db @ ds \<and>
    (\<forall>f. list_all proper_movement ds \<and> (\<forall>pid b. stock_of db pid b = whole (f pid b) \<and> \<bar>f pid b\<bar> + volume ds < 2 ^ 53)
      \<longrightarrow> (\<forall>pid b. stock_of db' pid b = whole (f pid b + moved pid b ds)))"

lemma stock_movedI:
  assumes "stockMovements db' = stockMovements db @ ds"
    "\<And>f pid b. list_all proper_movement ds \<Longrightarrow> (\<And>pid b. stock_of db pid b = whole (f pid b))
       \<Longrightarrow> (\<And>pid b. \<bar>f pid b\<bar> + volume ds < 2 ^ 53) \<Longrightarrow> stock_of db' pid b = whole (f pid b + moved pid b ds)"
  shows "stock_moved db db' ds"
  using assms by (simp add: stock_moved_def)

lemma moved_exact:
  assumes "\<bar>x\<bar> + volume ds < 2 ^ 53"
  shows "exact_range (x + moved pid b ds)" "volume ds < 2 ^ 53"
  using assms moved_le_volume [of pid b ds] by (auto simp: exact_range_def)

lemma stock_moved_balanced:
  assumes "stock_moved db db' ds" "balanced initial db" "proper_books initial (stockMovements db')"
  shows "balanced initial db'"
proof -
  let ?f = "\<lambda>pid b. initial pid b + moved pid b (stockMovements db)"
  have mv: "stockMovements db' = stockMovements db @ ds" using assms(1) by (simp add: stock_moved_def)
  have "\<bar>?f pid b\<bar> + volume ds < 2 ^ 53" for pid b
  proof -
    have "\<bar>initial pid b\<bar> + (volume (stockMovements db) + volume ds) < 2 ^ 53"
      using assms(3) by (simp add: proper_books_def mv)
    then show ?thesis using moved_le_volume [of pid b "stockMovements db"] by linarith
  qed
  moreover have "list_all proper_movement ds" using assms(3) by (simp add: proper_books_def mv)
  moreover have "(\<forall>f. list_all proper_movement ds \<and> (\<forall>pid b. stock_of db pid b = whole (f pid b) \<and> \<bar>f pid b\<bar> + volume ds < 2 ^ 53)
      \<longrightarrow> (\<forall>pid b. stock_of db' pid b = whole (f pid b + moved pid b ds)))"
    using assms(1) by (simp add: stock_moved_def)
  moreover have "stock_of db pid b = whole (?f pid b)" for pid b using assms(2) by (simp add: balanced_def)
  ultimately have "stock_of db' pid b = whole (?f pid b + moved pid b ds)" for pid b
    by (elim allE [where x = ?f]) simp
  then show ?thesis by (simp add: balanced_def mv add.assoc)
qed

lemma settle_moves:
  assumes s: "reconcileSale en oid db = Inr (True, db')"
  obtains order r p ds where "map_of (asyncOrders db) oid = Some order" "settle_read db order = Inr r"
    "settle_plan_of en db r order = Inr p" "stock_moved db db' ds"
    "list_all2 (\<lambda>l d. \<exists>mid. d = JObj (sale_movement en order (sr_branchId r) l mid)) (sp_lines p) ds"
    "stockLots db' = stockLots (write_lots en r p db)"
    "asyncOrders db' = merge_set oid (settled_patch en order p (total_cogs (sp_lines p))) (asyncOrders db)"
proof -
  obtain order r p db1 where o: "map_of (asyncOrders db) oid = Some order"
    and r: "settle_read db order = Inr r" and p: "settle_plan_of en db r order = Inr p"
    and e: "settle_effects en oid order r p db = Inr db1" and d1: "stock_part db' = stock_part db1"
    and ao: "asyncOrders db' = merge_set oid (settled_patch en order p (total_cogs (sp_lines p))) (asyncOrders db)"
    using s by (rule reconcileSale_settles)
  obtain db2 where w: "fold_result (write_movement en (sale_movement en order (sr_branchId r)))
       (write_stocks en r p (write_lots en r p db)) (sp_lines p) = Inr db2"
    and d2: "stock_part db1 = stock_part db2" "productStocks db2 = productStocks (write_stocks en r p db)"
      "stockLots db2 = stockLots (write_lots en r p db)"
    using e by (rule settle_effects_Inr)
  obtain ds where ds: "stockMovements db2 = stockMovements db @ ds"
    "list_all2 (\<lambda>l d. \<exists>mid. d = JObj (sale_movement en order (sr_branchId r) l mid)) (sp_lines p) ds"
    using write_movements [OF w] by auto
  obtain qs where q: "quantities (sale_lines order) qs"
    "sp_stockDeduct p = foldl (\<lambda>m (l, q). bump (productId_of l) q m) [] (zip (sale_lines order) qs)"
    "list_all2 (\<lambda>(l, q) e. \<exists>refs. e = enrich_line l q refs) (zip (sale_lines order) qs) (sp_lines p)"
    using p by (rule settle_plan)
  let ?lqs = "zip (sale_lines order) qs" and ?b = "sr_branchId r"
  have mv: "stockMovements db' = stockMovements db @ ds" and st: "productStocks db' = productStocks (write_stocks en r p db)"
    using d1 d2 ds(1) by (simp_all add: stock_part_def)
  have "stock_moved db db' ds"
  proof (rule stock_movedI [OF mv])
  fix f pid b'
  assume pm: "list_all proper_movement ds" and f0: "\<And>pid b. stock_of db pid b = whole (f pid b)"
    and m: "\<And>pid b. \<bar>f pid b\<bar> + volume ds < 2 ^ 53"
  have "doc_field l ''productId'' = JStr (productId_of l) \<and> isFinite q \<and> js_lt (Fin 0) q" if "(l, q) \<in> set ?lqs" for l q
    using that settle_read_Inr(2) [OF r] resolved_positive [OF q(1)] by (auto dest: set_zip_leftD)
  then obtain xs where xs: "map (\<lambda>(l, q). (productId_of l, q)) ?lqs = map (\<lambda>(k, n). (k, whole n)) xs"
    "\<forall>(k, n) \<in> set xs. 0 < n" "\<forall>pid b'. moved pid b' ds = (if b' = ?b then - key_sum pid xs else 0)"
    "sum_list (map snd xs) = volume ds"
    using sale_movements [OF q(3) ds(2) _ pm] by auto
  have vol: "volume ds < 2 ^ 53" by (rule moved_exact(2) [OF m])
  have ks: "0 \<le> key_sum k xs" "exact_range (key_sum k xs)" for k
    using key_sum_nonneg [OF xs(2), of k] key_sum_le_total [OF xs(2), of k] xs(4) vol by (auto simp: exact_range_def)
  have sums: "sums_to (sp_stockDeduct p) xs"
    using foldl_bump_whole [OF xs(1,2)] ks(2) by (simp add: q(2) case_prod_unfold)
  have keys: "fst ` set xs = set (sr_productIds r)"
  proof -
    have "map fst xs = map (productId_of \<circ> fst) ?lqs"
      using arg_cong [OF xs(1), of "map fst"] by (simp add: comp_def case_prod_beta)
    moreover have "map fst ?lqs = sale_lines order" using q(1) by (simp add: quantities_def list_all2_lengthD)
    ultimately show ?thesis using settle_read_Inr(3) [OF r] by (metis list.map_comp list.set_map uniq_set(1))
  qed
  have pos: "0 < key_sum k xs" if "k \<in> fst ` set xs" for k
    using that xs(2) by (rule key_sum_pos)
  show "stock_of db' pid b' = whole (f pid b' + moved pid b' ds)"
  proof (cases "b' = ?b")
    case False
    then show ?thesis using f0 [of pid b'] xs(3)
      by (simp add: stock_of_stocks st write_stocks_def write_stocks_other)
  next
    case True
    let ?f = "\<lambda>pid. f pid ?b"
    have f: "stocks_value (productStocks db) pid ?b = whole (?f pid)" for pid
      using f0 by (simp add: stock_of_stocks)
    have g: "map_of (sp_stockDeduct p) pid = Some (whole (key_sum pid xs)) \<and> 0 < key_sum pid xs
        \<and> exact_range (?f pid - key_sum pid xs)" if "pid \<in> set (sr_productIds r)" for pid
      using that sums pos keys moved_exact(1) [OF m, of pid ?b pid ?b] xs(3)
      by (auto simp: sums_to_def fun_eq_iff)
    have "stocks_value (productStocks db') pid ?b
        = whole (if pid \<in> set (sr_productIds r) then ?f pid - key_sum pid xs else ?f pid)"
      using write_stocks_values [of "sr_productIds r" "productStocks db" ?b ?f "sp_stockDeduct p" "\<lambda>k. key_sum k xs"]
        settle_read_Inr(3) [OF r] f g by (simp add: st write_stocks_def)
    then show ?thesis using True xs(3) keys key_sum_absent [of pid xs] by (simp add: stock_of_stocks)
  qed
  qed
  then show ?thesis using that [OF o r p _ ds(2)] d1 d2 ao by (simp add: stock_part_def)
qed

lemma sums_to_keys:
  assumes "sums_to m xs"
  shows "fst ` set m = fst ` set xs"
proof -
  have "fst ` set m = dom (map_of m)" by (simp add: dom_map_of_conv_image_fst)
  also have "\<dots> = fst ` set xs" using assms by (auto simp: sums_to_def dom_def split: if_splits)
  finally show ?thesis .
qed

section \<open>A reversal keeps the books\<close>

lemma all_some_iff: "all_some xs = Some ys \<longleftrightarrow> xs = map Some ys"
proof
  assume a: "all_some xs = Some ys"
  then have "None \<notin> set xs" "ys = map the xs" by (auto simp: all_some_def split: if_splits)
  moreover from this(1) have "map (\<lambda>x. Some (the x)) xs = map (\<lambda>x. x) xs" by (intro map_cong refl) (metis option.exhaust_sel)
  ultimately show "xs = map Some ys" by (simp add: comp_def)
next
  assume "xs = map Some ys"
  then show "all_some xs = Some ys" by (auto simp: all_some_def comp_def)
qed

lemma reversal_lines_Inr:
  assumes "reversal_lines order = Inr ls"
  shows "list_all2 (\<lambda>l v. reversal_line_of l = Some v) (sale_lines order) ls"
proof -
  have "map reversal_line_of (sale_lines order) = map Some ls"
    using assms by (auto simp: reversal_lines_def all_some_iff split: if_splits option.splits)
  then have "list_all2 (\<lambda>x y. x = y) (map reversal_line_of (sale_lines order)) (map Some ls)"
    by (simp add: list.rel_eq)
  then show ?thesis by (simp add: list_all2_map1 list_all2_map2)
qed

lemma reversal_line_fields:
  "reversal_line_of l = Some v \<Longrightarrow> doc_field l ''productId'' = JStr (rv_productId v)
     \<and> or_else (doc_field l ''qtyBase'') (JNum (Fin 0)) = JNum (rv_qtyBase v)"
  by (auto simp: reversal_line_of_def split: jsval.splits)

lemma void_movements:
  assumes "list_all2 (\<lambda>l v. reversal_line_of l = Some v) ls vs"
    "list_all2 (\<lambda>l d. \<exists>mid. d = JObj (void_movement en order reason by' l mid)) ls ds"
    "list_all proper_movement ds"
  shows "\<exists>xs. map (\<lambda>v. (rv_productId v, rv_qtyBase v)) vs = map (\<lambda>(k, n). (k, whole n)) xs \<and> (\<forall>(k, n) \<in> set xs. 0 < n)
     \<and> (\<forall>pid b. moved pid b ds = (if doc_field order ''branchId'' = JStr b then key_sum pid xs else 0))
     \<and> sum_list (map snd xs) = volume ds"
  using assms
proof (induction ls vs arbitrary: ds rule: list_all2_induct)
  case Nil
  then show ?case by (intro exI [of _ "[]"]) (simp add: moved_def volume_def)
next
  case (Cons l ls v vs)
  obtain mid d ds' where ds: "ds = d # ds'" "d = JObj (void_movement en order reason by' l mid)"
    "list_all2 (\<lambda>l d. \<exists>mid. d = JObj (void_movement en order reason by' l mid)) ls ds'"
    using Cons.prems(1) by (auto simp: list_all2_Cons1)
  have f: "doc_field d ''qty'' = JNum (rv_qtyBase v)" "doc_field d ''productId'' = JStr (rv_productId v)"
    "doc_field d ''branchId'' = doc_field order ''branchId''" "doc_field d ''type'' = JStr (js ''void'')"
    using reversal_line_fields [OF Cons.hyps(1)] by (simp_all add: ds(2) void_movement_def doc_field_JObj)
  have w: "rv_qtyBase v = whole (movement_qty d)" "0 < movement_qty d"
    using Cons.prems(2) f(1,4) by (auto simp: ds(1) proper_movement_def)
  obtain xs where xs: "map (\<lambda>v. (rv_productId v, rv_qtyBase v)) vs = map (\<lambda>(k, n). (k, whole n)) xs"
    "\<forall>(k, n) \<in> set xs. 0 < n" "\<forall>pid b. moved pid b ds' = (if doc_field order ''branchId'' = JStr b then key_sum pid xs else 0)"
    "sum_list (map snd xs) = volume ds'"
    using Cons.IH [OF ds(3)] Cons.prems(2) ds(1) by auto
  show ?case
    using xs w f(2,3)
    by (intro exI [of _ "(rv_productId v, movement_qty d) # xs"]) (auto simp: ds(1) moved_cons volume_def)
qed

lemma restores_whole:
  assumes "map (\<lambda>v. (rv_productId v, rv_qtyBase v)) vs = map (\<lambda>(k, n). (k, whole n)) xs"
    "\<forall>(k, n) \<in> set xs. 0 < n" "\<forall>k. exact_range (key_sum k xs)"
  shows "sums_to (planStockRestores vs) xs"
proof -
  have "js_lt (Fin 0) (rv_qtyBase v)" if "v \<in> set vs" for v
  proof -
    have "(rv_productId v, rv_qtyBase v) \<in> (\<lambda>(k, n). (k, whole n)) ` set xs"
      using that arg_cong [OF assms(1), of set] by auto
    then show ?thesis using assms(2) by (auto simp: whole_lits)
  qed
  then have "foldl restore_step m vs = foldl (\<lambda>m v. bump (rv_productId v) (rv_qtyBase v) m) m vs" for m
    by (induction vs arbitrary: m) (auto simp: restore_step_def)
  then show ?thesis using foldl_bump_whole [OF assms] by (simp add: planStockRestores_def)
qed

lemma void_moves:
  assumes s: "handleVoidIntent en opts fault oid db = Inr (VoidApplied, db')"
  obtains order ls ds reason by' where "map_of (asyncOrders db) oid = Some order" "reversal_lines order = Inr ls"
    "stock_moved db db' ds"
    "list_all2 (\<lambda>l d. \<exists>mid. d = JObj (void_movement en order reason by' l mid)) (sale_lines order) ds"
    "stockLots db' = foldl (restock_lot en) (stockLots db) (planLotRestocks ls)"
proof -
  obtain order cid canonical actor where o: "map_of (asyncOrders db) oid = Some order" and a: "apply_void en opts actor oid order cid canonical db = Inr db'"
    using s by (rule void_applied)
  obtain ls db1 db2 reason by' where ls: "reversal_lines order = Inr ls" and v: "void_stock en order ls db = Inr db1"
    and w: "fold_result (write_movement en (void_movement en order reason by')) db1 (sale_lines order) = Inr db2"
    and d: "stock_part db' = stock_part db2" "productStocks db2 = productStocks db1" "stockLots db2 = stockLots db1"
    using a by (rule apply_void_Inr)
  obtain ds where ds: "stockMovements db2 = stockMovements db @ ds"
    "list_all2 (\<lambda>l d. \<exists>mid. d = JObj (void_movement en order reason by' l mid)) (sale_lines order) ds"
    using write_movements [OF w] void_stock_Inr(2) [OF v] by auto
  have mv: "stockMovements db' = stockMovements db @ ds" and st: "productStocks db' = productStocks db1"
    using d ds(1) by (simp_all add: stock_part_def)
  have "stock_moved db db' ds"
  proof (rule stock_movedI [OF mv])
  fix f pid b'
  assume pm: "list_all proper_movement ds" and f0: "\<And>pid b. stock_of db pid b = whole (f pid b)"
    and m: "\<And>pid b. \<bar>f pid b\<bar> + volume ds < 2 ^ 53"
  obtain xs where xs: "map (\<lambda>v. (rv_productId v, rv_qtyBase v)) ls = map (\<lambda>(k, n). (k, whole n)) xs"
    "\<forall>(k, n) \<in> set xs. 0 < n" "\<forall>pid b. moved pid b ds = (if doc_field order ''branchId'' = JStr b then key_sum pid xs else 0)"
    "sum_list (map snd xs) = volume ds"
    using void_movements [OF reversal_lines_Inr [OF ls] ds(2) pm] by blast
  have vol: "volume ds < 2 ^ 53" by (rule moved_exact(2) [OF m])
  have ks: "0 \<le> key_sum k xs" "exact_range (key_sum k xs)" for k
    using key_sum_nonneg [OF xs(2), of k] key_sum_le_total [OF xs(2), of k] xs(4) vol by (auto simp: exact_range_def)
  have sums: "sums_to (planStockRestores ls) xs" using restores_whole [OF xs(1,2)] ks(2) by blast
  show "stock_of db' pid b' = whole (f pid b' + moved pid b' ds)"
  proof (cases "planStockRestores ls = []")
    case True
    then have "xs = []" using sums by (cases xs) (auto simp: sums_to_def fun_eq_iff split: if_splits)
    then show ?thesis using f0 [of pid b'] xs(3) void_stock_Inr(4) [OF v True] by (simp add: stock_of_stocks st)
  next
    case False
    then obtain br where br: "doc_field order ''branchId'' = JStr br"
      "productStocks db1 = foldl (restore_stock en (JStr br) br) (productStocks db) (planStockRestores ls)"
      using void_stock_Inr(5) [OF v] by blast
    show ?thesis
    proof (cases "b' = br")
      case False
      then show ?thesis using f0 [of pid b'] br xs(3) by (simp add: stock_of_stocks st restore_stocks_other)
    next
      case True
      let ?f = "\<lambda>pid. f pid br"
      have f: "stocks_value (productStocks db) pid br = whole (?f pid)" for pid
        using f0 by (simp add: stock_of_stocks)
      have g: "q = whole (key_sum pid xs) \<and> exact_range (?f pid + key_sum pid xs)"
        if "(pid, q) \<in> set (planStockRestores ls)" for pid q
        using sums_to_in [OF sums that] moved_exact(1) [OF m, of pid br pid br] xs(3) br(1) by simp
      have keys: "fst ` set (planStockRestores ls) = fst ` set xs"
        using sums by (metis (no_types, lifting) sums_to_keys)
      show ?thesis
        using restore_stocks_values [OF sums_to_distinct [OF sums] f g, of en pid] xs(3) br True keys key_sum_absent [of pid xs]
        by (simp add: stock_of_stocks st)
    qed
  qed
  qed
  then show ?thesis using that [OF o ls _ ds(2)] d void_stock_Inr(3) [OF v] by (simp add: stock_part_def)
qed

section \<open>The books of a run\<close>

text \<open>Only a settlement and a reversal touch stock, lots and movements.\<close>

lemma void_handler_stock:
  assumes "handleVoidIntent en opts f oid db = Inr (v, db')"
  shows "stock_part db' = stock_part db \<or> v = VoidApplied"
  using void_not_applied [OF assms] by auto

lemma delivery_stock:
  assumes "reconcileOnWrite en d db = (out, db')"
  shows "stock_part db' = stock_part db \<or> reconcileSale en (dl_order d) db = Inr (True, db')
    \<or> handleVoidIntent en no_void_options (dl_fault d) (dl_order d) db = Inr (VoidApplied, db')"
proof -
  have failed: "stock_part (after_failure d p db) = stock_part db" for p
    by (simp add: after_failure_def)
  from assms consider
      (idle) "stock_part db' = stock_part db"
    | (void) v where "handleVoidIntent en no_void_options (dl_fault d) (dl_order d) db = Inr (v, db')"
    | (settle) b where "reconcileSale en (dl_order d) db = Inr (b, db')"
    by (auto simp: reconcileOnWrite_def run_settle_def failed split: option.splits if_splits sum.splits prod.splits)
  then show ?thesis
  proof cases
    case (void v)
    then show ?thesis using void_handler_stock by blast
  next
    case (settle b)
    then show ?thesis using reconcileSale_idle by (cases b) auto
  qed simp
qed

lemma step_stock:
  assumes "settle_step (lg, db) ev = (lg', db')"
  shows "stock_part db' = stock_part db \<or> (\<exists>en oid. reconcileSale en oid db = Inr (True, db'))
    \<or> (\<exists>en opts f oid. handleVoidIntent en opts f oid db = Inr (VoidApplied, db'))"
proof (cases ev)
  case (CreateSale oid d)
  then show ?thesis using assms by (auto simp: stock_part_def split: if_splits)
next
  case (DeliverWrite en d)
  then obtain out where "reconcileOnWrite en d db = (out, db')"
    using assms by (auto simp: Let_def split: prod.splits)
  then show ?thesis using delivery_stock by blast
next
  case (PrivilegedVoid en opts f oid)
  then show ?thesis
    using assms void_handler_stock [of en opts f oid db] by (auto split: sum.splits prod.splits)
next
  case (RetrySale en users auth oid)
  then show ?thesis
    using assms retry_cases [of en users auth oid db]
    by (auto split: sum.splits prod.splits retry_result.splits)
next
  case (RepairSale en ap oid snap)
  have "stock_part db'' = stock_part db" if "repairSettledOrder en ap (oid, snap) db = Inr (out, db'')" for out db''
    using repair_cases [OF that] rebuild_orders by blast
  then show ?thesis using assms RepairSale by (auto split: sum.splits prod.splits repair_outcome.splits if_splits)
qed

definition balanced_if_proper :: "(jsstr \<Rightarrow> jsstr \<Rightarrow> int) \<Rightarrow> log_entry list \<times> pos_db \<Rightarrow> bool" where
  "balanced_if_proper initial s \<longleftrightarrow> (proper_books initial (stockMovements (snd s)) \<longrightarrow> balanced initial (snd s))"

lemma balanced_same: "stock_part db' = stock_part db \<Longrightarrow> balanced initial db' = balanced initial db"
  by (simp add: stock_part_def balanced_def stock_of_def)

lemma step_keeps_books:
  assumes "balanced_if_proper initial s"
  shows "balanced_if_proper initial (settle_step s ev)"
proof -
  obtain lg db where s: "s = (lg, db)" by (cases s)
  obtain lg' db' where s': "settle_step (lg, db) ev = (lg', db')" by fastforce
  have moves: "balanced initial db'" if m: "stock_moved db db' ds" "proper_books initial (stockMovements db')" for ds
  proof -
    have "stockMovements db' = stockMovements db @ ds" using m(1) by (simp add: stock_moved_def)
    then have "proper_books initial (stockMovements db)" using m(2) proper_books_prefix by simp
    then have "balanced initial db" using assms by (simp add: s balanced_if_proper_def)
    then show ?thesis using stock_moved_balanced m by blast
  qed
  have "balanced initial db'" if m: "proper_books initial (stockMovements db')"
    using step_stock [OF s']
  proof (elim disjE exE)
    assume 1: "stock_part db' = stock_part db"
    then have "stockMovements db' = stockMovements db" by (simp add: stock_part_def)
    then show ?thesis using assms m balanced_same [OF 1] by (simp add: s balanced_if_proper_def)
  next
    fix en oid assume "reconcileSale en oid db = Inr (True, db')"
    then show ?thesis using settle_moves moves m by metis
  next
    fix en opts f oid assume "handleVoidIntent en opts f oid db = Inr (VoidApplied, db')"
    then show ?thesis using void_moves moves m by metis
  qed
  then show ?thesis by (simp add: s s' balanced_if_proper_def)
qed

interpretation books: invariant_machine settle_step "balanced_if_proper initial" for initial
  by unfold_locales (rule step_keeps_books)

text \<open>C5. The stock books balance: in any run of creations, deliveries (late, repeated, stale), voids,
  retries and repairs with any transaction failing, if the recorded movements are whole quantities
  of a total below \<open>2 ^ 53\<close> and voids give stock back, then the stock of every product in every branch
  is exactly its initial stock plus its movements.\<close>

theorem stock_is_opening_plus_movements:
  assumes "stockMovements db = []" "\<And>pid b. stock_of db pid b = whole (initial pid b)"
    "run settle_step ([], db) events = (lg, db')" "proper_books initial (stockMovements db')"
  shows "stock_of db' pid b = whole (initial pid b + moved pid b (stockMovements db'))"
proof -
  have "balanced_if_proper initial ([], db)"
    using assms(1,2) by (simp add: balanced_if_proper_def balanced_def moved_def)
  then have "balanced_if_proper initial (lg, db')" using books.inv_run assms(3) by metis
  then show ?thesis using assms(4) by (simp add: balanced_if_proper_def balanced_def)
qed

end
