(* ===== verification/SettlementGaps.thy ===== *)
theory SettlementGaps
  imports SettlementRun
begin

text \<open>
  Where the settlement does less, or more, than its comments say: a sale the validator accepts
  and the writer refuses, a failed duplicate delivery that reopens a settled sale, a voided
  pending sale that is marked as an anomaly by its own write, and a sale document that voids
  another sale.
\<close>

section \<open>Documents after a patch\<close>

lemma has_own_merge:
  "has_own (merge_doc d p) k \<longleftrightarrow>
    (\<exists>v. (js k, Put v) \<in> set p \<or> (\<exists>n. (js k, Increment n) \<in> set p)) \<or> has_own d k"
  if "(js k, DeleteField) \<notin> set p"
proof -
  have "map_of (foldl write_field fs p) (js k) \<noteq> None \<longleftrightarrow>
      (\<exists>v. (js k, Put v) \<in> set p \<or> (\<exists>n. (js k, Increment n) \<in> set p)) \<or> map_of fs (js k) \<noteq> None" for fs
    using that
  proof (induction p arbitrary: fs)
    case (Cons w p)
    obtain k' u where w: "w = (k', u)" by (cases w)
    show ?case using Cons.IH [of "write_field fs w"] Cons.prems
      by (cases u) (auto simp: w write_field_def simp del: get_prop.simps)
  qed simp
  then show ?thesis by (cases d) (simp_all add: merge_doc_def)
qed

section \<open>Accepted by the validator, refused by the writer\<close>

lemma has_undef_field: "\<exists>k. (k, JUndef) \<in> set fs \<Longrightarrow> has_undef (JObj fs)"
  by (force simp: list_ex_iff)

lemma canonical_needs_credit:
  "\<not> has_own order ''creditAmt'' \<Longrightarrow> has_undef (JObj (canonical_doc en order cid st c t))"
  by (cases order) (auto simp: canonical_doc_def Let_def doc_field_def split: option.splits)

text \<open>C37. A sale without a payments list (allowed by the validator when nothing was paid) or without a
  credit amount (an optional number to the validator) is never settled, whatever the database holds:
  every attempt throws.\<close>

theorem accepted_sale_never_settles:
  assumes "map_of (asyncOrders db) oid = Some order"
    "\<not> has_own order ''payments'' \<or> \<not> has_own order ''creditAmt''"
  shows "reconcileSale en oid db \<noteq> Inr (True, db')"
proof
  assume s: "reconcileSale en oid db = Inr (True, db')"
  obtain cid r p db1 where w: "write_documents en oid cid order p db1 = Inr db'"
    using s assms(1) by (auto simp: reconcileSale_def settle_sale_def and_then_Inr_iff split: if_splits)
  show False
  proof (cases "has_own order ''payments''")
    case True
    then show False using w assms(2) canonical_needs_credit
      by (auto simp: write_documents_def Let_def and_then_Inr_iff write_canonical_Inr simp del: has_undef.simps)
  next
    case False
    then have "doc_field order ''payments'' = JUndef" by (cases order) (auto simp: doc_field_def split: option.splits)
    then show False using w by (auto simp: write_documents_def Let_def and_then_Inr_iff sale_payments_def)
  qed
qed

section \<open>A failed duplicate delivery\<close>

definition redelivery :: "jsstr \<Rightarrow> jsval \<Rightarrow> jsstr \<Rightarrow> delivery" where
  "redelivery oid payload message =
    \<lparr>dl_order = oid, dl_after = Some payload, dl_fault = Some message, dl_patchFails = False\<rparr>"

lemma exception_patch_fields:
  "doc_field (merge_doc d (exception_patch en payload e)) ''reconcileStatus'' = JStr (js ''exception'')"
  "k \<notin> {''reconcileStatus'', ''reconcileAttempts'', ''lastReconcileError'', ''lastReconcileErrorAt'', ''reconciledAt'',
     ''reconcileError'', ''firstFailedAt''} \<Longrightarrow> doc_field (merge_doc d (exception_patch en payload e)) k = doc_field d k"
  by (auto simp: exception_patch_def doc_field_merge Let_def)

lemma exception_patch_marker:
  "terminalMarkerPresent (merge_doc d (exception_patch en payload e)) = terminalMarkerPresent d"
  by (auto simp: terminalMarkerPresent_def has_own_merge exception_patch_def Let_def)

text \<open>C36. The error path writes its patch whatever state the sale is in. A duplicate delivery of the first
  write of a sale that has settled meanwhile, whose transaction fails, turns the settled sale into an
  exception: its voids become no-ops, and every settlement after a retry fails because the canonical
  sale exists.\<close>

theorem redelivery_reopens_settled_sale:
  assumes "map_of (asyncOrders db) oid = Some order" "doc_field order ''id'' = JStr cid" "cid \<noteq> []"
    "map_of (orders db) cid = Some canonical" "doc_field order ''reconcileStatus'' = JStr (js ''settled'')"
    "\<not> terminalMarkerPresent order" "\<not> isCanonicallyVoidTerminal order" "map_of (saleReturnLedgers db) oid = None"
    "doc_field payload ''reconcileStatus'' = JStr (js ''pending_reconcile'')" "doc_field payload ''voidRequested'' = JUndef"
    "trim oid = oid" "reconcileOnWrite en (redelivery oid payload message) db = (out, db')"
  shows "(\<exists>d. map_of (asyncOrders db') oid = Some d \<and> doc_field d ''reconcileStatus'' = JStr (js ''exception''))
    \<and> (\<forall>actor. read_actor opts = Inr actor \<longrightarrow> handleVoidIntent en' opts None oid db' = Inr (VoidNoop VnNotSettled, db'))
    \<and> (\<forall>n db''. performReconcileRetry en' users auth oid db' = Inr (ReArmed n, db'') \<longrightarrow>
          reconcileSale en'' oid db'' = Inl CanonicalExists)"
proof -
  let ?d = "merge_doc order (exception_patch en payload (TransactionFailed message))"
  have db': "db' = patch_async oid (exception_patch en payload (TransactionFailed message)) db"
    using assms(9,10,12) by (simp add: reconcileOnWrite_def redelivery_def run_settle_def after_failure_def)
  have d: "map_of (asyncOrders db') oid = Some ?d" "doc_field ?d ''reconcileStatus'' = JStr (js ''exception'')"
    "doc_field ?d ''id'' = JStr cid" "\<not> terminalMarkerPresent ?d" "\<not> isCanonicallyVoidTerminal ?d"
    "map_of (orders db') cid = Some canonical" "map_of (saleReturnLedgers db') oid = None"
    using assms(1-8)
    by (simp_all add: db' exception_patch_fields exception_patch_marker isCanonicallyVoidTerminal_def)
  have "handleVoidIntent en' opts None oid db' = Inr (VoidNoop VnNotSettled, db')" if "read_actor opts = Inr actor" for actor
    using that d by (simp add: handleVoidIntent_def void_transaction_def)
  moreover have "reconcileSale en'' oid db'' = Inl CanonicalExists"
    if r: "performReconcileRetry en' users auth oid db' = Inr (ReArmed n, db'')" for n db''
  proof -
    obtain a where "db'' = patch_async oid [fput ''reconcileStatus'' (JStr (js ''pending_reconcile'')),
        fadd ''adminRetryCount'' (Fin 1), fput ''lastRetryBy'' (retry_by a), fput ''lastRetryAt'' (se_now en')] db'"
      using retry_cases [OF r] assms(11) by auto
    then show ?thesis using d assms(3)
      by (simp add: reconcileSale_def doc_field_merge doc_id_def)
  qed
  ultimately show ?thesis using d(1,2) by blast
qed

section \<open>A voided pending sale\<close>

text \<open>A void request for a pending sale tombstones it without a canonical sale; the delivery of that very
  write takes the tombstone for a settled sale whose canonical document is missing and commits the
  anomaly \<open>missing_canonical\<close>, after which every further void is refused by the marker.\<close>

theorem pending_void_becomes_anomaly:
  assumes "map_of (asyncOrders db) oid = Some order" "doc_field order ''reconcileStatus'' = JStr (js ''pending_reconcile'')"
    "doc_field order ''voidRequested'' = JBool True" "\<not> terminalMarkerPresent order"
    "doc_field order ''voidReconciled'' = JUndef" "doc_field order ''id'' = JStr cid" "cid \<noteq> []"
    "map_of (orders db) cid = None" "map_of (saleReturnLedgers db) oid = None"
    "reconcileOnWrite en \<lparr>dl_order = oid, dl_after = Some order, dl_fault = None, dl_patchFails = False\<rparr> db = (out1, db1)"
    "map_of (asyncOrders db1) oid = Some order1"
    "reconcileOnWrite en' \<lparr>dl_order = oid, dl_after = Some order1, dl_fault = None, dl_patchFails = False\<rparr> db1 = (out2, db2)"
  shows "out1 = VoidRan VoidTombstoned \<and> out2 = VoidRan (VoidAnomaly ''missing_canonical'')
    \<and> handleVoidIntent en'' no_void_options None oid db2 = Inr (VoidNoop VnTerminalMarker, db2)"
proof -
  let ?t = "tombstone_patch en no_void_options" and ?a = "anomaly_patch en' ''missing_canonical''"
  have no: "read_actor no_void_options = Inr None" "read_correlation (vo_executionId no_void_options) = None"
    "privilegedCorrelationWrite no_void_options = []"
    by (simp_all add: read_actor_def no_void_options_def read_correlation_def privilegedCorrelationWrite_def)
  have 1: "out1 = VoidRan VoidTombstoned" "db1 = patch_async oid ?t db"
    using assms(1-4,9,10) by (auto simp: reconcileOnWrite_def handleVoidIntent_def void_transaction_def no)
  have o1: "order1 = merge_doc order ?t" using assms(1,11) by (simp add: 1)
  have f: "doc_field order1 ''reconcileStatus'' = JStr (js ''settled'')" "doc_field order1 ''voidRequested'' = JBool True"
    "doc_field order1 ''voidReconciled'' = JUndef" "doc_field order1 ''id'' = JStr cid" "\<not> terminalMarkerPresent order1"
    using assms(3-6) by (simp_all add: o1 tombstone_patch_def no doc_field_merge terminalMarkerPresent_def has_own_merge)
  have 2: "out2 = VoidRan (VoidAnomaly ''missing_canonical'')" "db2 = patch_async oid ?a db1"
    using assms(7-9,11,12) f
    by (auto simp: reconcileOnWrite_def handleVoidIntent_def void_transaction_def void_settled_def no 1(2) doc_id_def)
  have "terminalMarkerPresent (merge_doc order1 ?a)" by (simp add: terminalMarkerPresent_def has_own_merge anomaly_patch_def)
  then have "handleVoidIntent en'' no_void_options None oid db2 = Inr (VoidNoop VnTerminalMarker, db2)"
    using assms(11) by (simp add: handleVoidIntent_def void_transaction_def no 2(2))
  then show ?thesis using 1 2 by simp
qed

section \<open>A sale document that voids another sale\<close>

text \<open>What a cashier can create: the canonical id of another sale as \<open>id\<close>, no lines, and a void request.\<close>

definition forged_sale :: "jsstr \<Rightarrow> jsstr \<Rightarrow> jsstr \<Rightarrow> jsval" where
  "forged_sale victim staffId branchId = JObj
    [(js ''id'', JStr victim), (js ''branchId'', JStr branchId), (js ''staffId'', JStr staffId), (js ''lines'', JArr []),
     (js ''total'', JNum (Fin 0)), (js ''reconcileStatus'', JStr (js ''pending_reconcile'')),
     (js ''voidRequested'', JBool True)]"

definition delivered :: "jsstr \<Rightarrow> jsval \<Rightarrow> delivery" where
  "delivered oid d = \<lparr>dl_order = oid, dl_after = Some d, dl_fault = None, dl_patchFails = False\<rparr>"

lemma forged_sale_fields:
  "doc_field (forged_sale v s b) ''id'' = JStr v" "doc_field (forged_sale v s b) ''staffId'' = JStr s"
  "doc_field (forged_sale v s b) ''branchId'' = JStr b"
  "doc_field (forged_sale v s b) ''lines'' = JArr []" "doc_field (forged_sale v s b) ''total'' = JNum (Fin 0)"
  "doc_field (forged_sale v s b) ''reconcileStatus'' = JStr (js ''pending_reconcile'')"
  "doc_field (forged_sale v s b) ''voidRequested'' = JBool True"
  "k \<notin> {''id'', ''staffId'', ''branchId'', ''lines'', ''total'', ''reconcileStatus'', ''voidRequested''} \<Longrightarrow>
     doc_field (forged_sale v s b) k = JUndef"
  by (auto simp: forged_sale_def doc_field_def)

lemma generic_options:
  "read_actor no_void_options = Inr None" "read_correlation (vo_executionId no_void_options) = None"
  "privilegedCorrelationWrite no_void_options = []"
  by (simp_all add: read_actor_def no_void_options_def read_correlation_def privilegedCorrelationWrite_def)

text \<open>The reversal of a sale without lines or credit touches documents only, and succeeds.\<close>

lemma apply_void_empty:
  assumes "doc_field order ''lines'' = JArr []" "doc_field order ''creditAmt'' = JUndef" "doc_field order ''voidedBy'' = JUndef"
    "doc_field order ''voidReason'' = JUndef" "doc_field order ''staffId'' = JStr staffId" "doc_field order ''id'' = JStr cid"
    "doc_field order ''total'' = JNum t" "\<not> has_undef (se_now en)" "map_of (orders db) cid = Some canonical"
  shows "\<exists>db' c. apply_void en no_void_options None oid order cid canonical db = Inr db'
     \<and> map_of (orders db') cid = Some c \<and> void_status c"
proof -
  let ?p = "void_canonical_patch en JNull (JStr staffId) (current_rev canonical)"
  have r: "reversal_lines order = Inr []" "sale_lines order = []"
    using assms(1) by (simp_all add: reversal_lines_def sale_lines_def all_some_def)
  have p: "planLotRestocks [] = []" "planStockRestores [] = []"
    by (simp_all add: planLotRestocks_def planStockRestores_def)
  have "writable ?p" using assms(8) by (simp add: writable_def void_canonical_patch_def)
  moreover have "add_doc en (void_audit en order JNull (JStr staffId)) db0 =
      Inr (JObj (void_audit en order JNull (JStr staffId) (se_autoId en (next_auto db0))), db0\<lparr>next_auto := Suc (next_auto db0)\<rparr>)" for db0
    using assms(6-8) by (simp add: add_doc_def void_audit_def Let_def)
  moreover have "void_status (merge_doc canonical ?p)"
    by (simp add: void_status_def doc_field_merge void_canonical_patch_def)
  ultimately show ?thesis
    using assms r p
    by (simp add: apply_void_def Let_def read_void_credit_def creditAmt_of_def js_lt_def void_stock_def void_credit_def
        require_def)
qed

text \<open>C18. Any cashier who may create sales can void any completed sale without approval: a created document
  whose \<open>id\<close> names the other sale and which asks for its own void is tombstoned by its first delivery,
  and the delivery of the tombstone reverses the named sale.\<close>

theorem forged_sale_voids_victim:
  assumes "map_of (asyncOrders db) oid = None" "oid \<noteq> []" "map_of (saleReturnLedgers db) oid = None"
    "map_of (orders db) victim = Some canonical" "victim \<noteq> []" "doc_field canonical ''status'' = JStr (js ''completed'')"
    "classifyRevisionFault canonical = None" "\<not> has_undef (se_now en)"
  shows "\<exists>lg' db' tomb c.
    run settle_step (lg, db) [CreateSale oid (forged_sale victim staffId branchId),
      DeliverWrite en (delivered oid (forged_sale victim staffId branchId)), DeliverWrite en (delivered oid tomb)] = (lg', db')
    \<and> map_of (orders db') victim = Some c \<and> void_status c"
proof -
  let ?d = "forged_sale victim staffId branchId"
  let ?t = "merge_doc ?d (tombstone_patch en no_void_options)"
  let ?db1 = "db\<lparr>asyncOrders := map_set oid ?d (asyncOrders db)\<rparr>"
  let ?db2 = "patch_async oid (tombstone_patch en no_void_options) ?db1"
  have "safeInitialReconcileState ?d"
    by (simp add: safeInitialReconcileState_def forged_sale_fields SERVER_OWNED_FIELDS_def is_nullish_def)
      (simp add: forged_sale_def)
  then have 1: "settle_step (lg, db) (CreateSale oid ?d) = (lg, ?db1)"
    using assms(1,2) by (simp add: forged_sale_def)
  have m: "\<not> terminalMarkerPresent ?d" "\<not> terminalMarkerPresent ?t"
    by (simp_all add: terminalMarkerPresent_def has_own_merge tombstone_patch_def generic_options)
      (simp_all add: forged_sale_def)
  have 2: "settle_step (lg, ?db1) (DeliverWrite en (delivered oid ?d)) = (lg, ?db2)"
    using assms(3) m
    by (simp add: delivered_def reconcileOnWrite_def forged_sale_fields handleVoidIntent_def void_transaction_def generic_options Let_def)
  have f: "doc_field ?t k = (if k = ''status'' then JStr (js ''voided'') else if k = ''reconcileStatus'' then JStr (js ''settled'')
      else if k = ''voidedAt'' then se_now en else doc_field ?d k)" for k
    by (auto simp: tombstone_patch_def generic_options doc_field_merge)
  obtain db3 c where 3: "apply_void en no_void_options None oid ?t victim canonical ?db2 = Inr db3"
    "map_of (orders db3) victim = Some c" "void_status c"
    using apply_void_empty [of ?t staffId victim "Fin 0" en ?db2 canonical oid] assms(4,8)
    by (auto simp: f forged_sale_fields)
  have "handleVoidIntent en no_void_options None oid ?db2 = Inr (VoidApplied, db3)"
    using assms(3-7) m 3(1)
    by (simp add: handleVoidIntent_def void_transaction_def generic_options void_settled_def f forged_sale_fields doc_id_def)
  then have "snd (settle_step (lg, ?db2) (DeliverWrite en (delivered oid ?t))) = db3"
    by (simp add: delivered_def reconcileOnWrite_def f forged_sale_fields Let_def)
  then obtain lg' where 4: "settle_step (lg, ?db2) (DeliverWrite en (delivered oid ?t)) = (lg', db3)"
    by (metis prod.collapse)
  have "run settle_step (lg, db) [CreateSale oid ?d, DeliverWrite en (delivered oid ?d), DeliverWrite en (delivered oid ?t)] = (lg', db3)"
    by (simp only: run_simps 1 2 4)
  then show ?thesis using 3(2,3) by blast
qed

end
