(* ===== verification/SettlementRetry.thy ===== *)
theory SettlementRetry
  imports SettlementRun
begin

text \<open>
  The retry budget of a sale: every failed settlement counts, an administrator can arm a failed
  sale again only below the cap, and so a sale is armed again at most twice in any run.
\<close>

section \<open>What a step does to one sale document\<close>

definition neutral :: "patch \<Rightarrow> bool" where
  "neutral p \<longleftrightarrow> js ''reconcileAttempts'' \<notin> fst ` set p
     \<and> (\<forall>w. (js ''reconcileStatus'', w) \<in> set p \<longrightarrow> w = Put (JStr (js ''settled'')))"

lemma neutral_patches [simp]:
  "neutral (settled_patch en ord p c)" "neutral (void_error_patch en e)" "neutral (tombstone_patch en opts)"
  "neutral (anomaly_patch en a)" "neutral (revision_fault_patch en f)" "neutral (void_async_patch en opts actor)"
  by (auto simp: neutral_def settled_patch_def buildRecoveryAuditPatch_def void_error_patch_def tombstone_patch_def
      privilegedCorrelationWrite_def anomaly_patch_def revision_fault_patch_def void_async_patch_def Let_def
      split: option.splits)

lemma neutral_attempts:
  "neutral p \<Longrightarrow> doc_field (merge_doc d p) ''reconcileAttempts'' = doc_field d ''reconcileAttempts''"
  by (simp add: neutral_def doc_field_def)

lemma read_patch_status:
  "\<forall>w. (k, w) \<in> set p \<longrightarrow> w = Put u \<Longrightarrow> read_patch p k v = u \<or> read_patch p k v = v"
proof (induction p arbitrary: v)
  case (Cons x p)
  obtain k' w where x: "x = (k', w)" by (cases x)
  show ?case
  proof (cases "k' = k")
    case True
    then have "w = Put u" using Cons.prems x by simp
    then have "read_patch (x # p) k v = read_patch p k u" using True x by simp
    then show ?thesis using Cons.IH [of u] Cons.prems by (metis list.set_intros(2))
  next
    case False
    then have "read_patch (x # p) k v = read_patch p k v" using x by simp
    then show ?thesis using Cons.IH [of v] Cons.prems by (metis list.set_intros(2))
  qed
qed simp

lemma neutral_status:
  "neutral p \<Longrightarrow> doc_field (merge_doc d p) ''reconcileStatus'' = JStr (js ''exception'')
     \<Longrightarrow> doc_field d ''reconcileStatus'' = JStr (js ''exception'')"
  using read_patch_status [of "js ''reconcileStatus''" p "JStr (js ''settled'')" "doc_field d ''reconcileStatus''"]
  by (auto simp: neutral_def doc_field_merge)

definition async_doc :: "pos_db \<Rightarrow> jsstr \<Rightarrow> jsval" where
  "async_doc db oid = (case map_of (asyncOrders db) oid of Some d \<Rightarrow> d | None \<Rightarrow> JObj [])"

datatype doc_effect = DocSame | DocCreated jsval | DocPatched patch | DocFailed patch | DocArmed

definition armed_patch :: "settle_env \<Rightarrow> auth_like \<Rightarrow> patch" where
  "armed_patch en a = [fput ''reconcileStatus'' (JStr (js ''pending_reconcile'')), fadd ''adminRetryCount'' (Fin 1),
     fput ''lastRetryBy'' (retry_by a), fput ''lastRetryAt'' (se_now en)]"

definition attempts_of :: "jsval \<Rightarrow> jsnum" where
  "attempts_of d = (case doc_field d ''reconcileAttempts'' of JNum n \<Rightarrow> n | _ \<Rightarrow> Fin 0)"

definition failed_doc :: "jsval \<Rightarrow> bool" where
  "failed_doc d \<longleftrightarrow> doc_field d ''reconcileStatus'' = JStr (js ''exception'')"

text \<open>How the attempts and the failed state of a sale's document change in one step; the flag says
  that the sale was armed again.\<close>

inductive attempt_step :: "bool \<Rightarrow> jsval \<Rightarrow> jsval \<Rightarrow> bool" where
  same: "attempts_of d' = attempts_of d \<Longrightarrow> (failed_doc d' \<Longrightarrow> failed_doc d) \<Longrightarrow> attempt_step False d d'"
| failed: "attempts_of d' = js_add (attempts_of d) (Fin 1) \<Longrightarrow> attempt_step False d d'"
| armed: "failed_doc d \<Longrightarrow> \<not> js_le RECONCILE_RETRY_CAP (attempts_of d) \<Longrightarrow> attempts_of d' = attempts_of d
    \<Longrightarrow> \<not> failed_doc d' \<Longrightarrow> attempt_step True d d'"

lemma attempt_refl [simp]: "attempt_step False d d"
  by (rule attempt_step.same) auto

lemma attempt_neutral: "neutral p \<Longrightarrow> attempt_step False d (merge_doc d p)"
  by (rule attempt_step.same) (auto simp: attempts_of_def failed_doc_def neutral_attempts dest: neutral_status)

lemma attempt_failed:
  assumes "\<exists>k. attempts_of d = whole k"
  shows "attempt_step False d (merge_doc d (exception_patch en payload e))"
proof (rule attempt_step.failed)
  have "js_add (Fin 0) (Fin 1) = Fin 1" using whole_add [of 0 1] by (simp add: whole_lits exact_range_def)
  then show "attempts_of (merge_doc d (exception_patch en payload e)) = js_add (attempts_of d) (Fin 1)"
    by (auto simp: attempts_of_def doc_field_merge exception_patch_def Let_def incremented_def split: jsval.splits)
qed

lemma async_doc_merge:
  "asyncOrders db' = merge_set oid' p (asyncOrders db) \<Longrightarrow>
     async_doc db' oid = (if oid = oid' then merge_doc (async_doc db oid) p else async_doc db oid)"
  by (simp add: async_doc_def merge_set_def)

lemma async_doc_patch [simp]:
  "async_doc (patch_async oid' p db) oid = (if oid = oid' then merge_doc (async_doc db oid) p else async_doc db oid)"
  by (rule async_doc_merge) simp

lemma void_attempts:
  assumes "handleVoidIntent en opts f oid' db = Inr (v, db')"
  shows "attempt_step False (async_doc db oid) (async_doc db' oid)"
proof (cases "v = VoidApplied")
  case True
  then obtain order cid canonical actor where "apply_void en opts actor oid' order cid canonical db = Inr db'"
    using assms void_applied by metis
  then have "asyncOrders db' = merge_set oid' (void_async_patch en opts actor) (asyncOrders db)" by (rule apply_void_Inr)
  then show ?thesis by (simp add: async_doc_merge attempt_neutral)
next
  case False
  then show ?thesis using void_not_applied [OF assms]
    by (auto simp: refusal_patches_def attempt_neutral)
qed

lemma delivery_attempts:
  assumes "reconcileOnWrite en d db = (out, db')" "\<exists>k. attempts_of (async_doc db oid) = whole k"
  shows "attempt_step False (async_doc db oid) (async_doc db' oid)"
proof -
  have failed: "attempt_step False (async_doc db oid) (async_doc (after_failure d (exception_patch en x e) db) oid)" for x e
    using attempt_failed [OF assms(2)] by (cases "oid = dl_order d") (auto simp: after_failure_def)
  have verror: "attempt_step False (async_doc db oid) (async_doc (after_failure d (void_error_patch en e) db) oid)" for e
    by (simp add: after_failure_def attempt_neutral)
  from assms(1) consider "db' = db" | x e where "db' = after_failure d (exception_patch en x e) db"
    | e where "db' = after_failure d (void_error_patch en e) db"
    | (void) v where "handleVoidIntent en no_void_options (dl_fault d) (dl_order d) db = Inr (v, db')"
    | (settle) b where "reconcileSale en (dl_order d) db = Inr (b, db')"
    by (auto simp: reconcileOnWrite_def run_settle_def split: option.splits if_splits sum.splits prod.splits)
  then show ?thesis
  proof cases
    case (void v)
    then show ?thesis by (rule void_attempts)
  next
    case (settle b)
    show ?thesis
    proof (cases b)
      case True
      then have "reconcileSale en (dl_order d) db = Inr (True, db')" using settle by simp
      then obtain order p where "asyncOrders db' = merge_set (dl_order d) (settled_patch en order p (total_cogs (sp_lines p))) (asyncOrders db)"
        by (rule reconcileSale_settles)
      then show ?thesis by (simp add: async_doc_merge attempt_neutral)
    next
      case False
      then have "reconcileSale en (dl_order d) db = Inr (False, db')" using settle by simp
      then have "db' = db" by (rule reconcileSale_idle)
      then show ?thesis by simp
    qed
  qed (use failed verror in simp_all)
qed

lemma created_attempts:
  assumes "safeInitialReconcileState d" "map_of (asyncOrders db) oid' = None"
    "db' = db\<lparr>asyncOrders := map_set oid' d (asyncOrders db)\<rparr>"
  shows "attempt_step False (async_doc db oid) (async_doc db' oid)"
proof (cases "oid = oid'")
  case True
  have "\<not> has_own d ''reconcileAttempts''" using assms(1) by (simp add: safeInitialReconcileState_def SERVER_OWNED_FIELDS_def)
  then have "doc_field d ''reconcileAttempts'' = JUndef" by (cases d) (auto simp: doc_field_def split: option.splits)
  moreover have "\<not> failed_doc d" using assms(1) by (auto simp: safeInitialReconcileState_def failed_doc_def)
  moreover have "doc_field (JObj []) k = JUndef" for k by (simp add: doc_field_def)
  ultimately show ?thesis using assms(2,3) True
    by (intro attempt_step.same) (simp_all add: async_doc_def attempts_of_def)
qed (simp add: async_doc_def assms(3))

lemma count_delivery_log [simp]: "count_list (delivery_log db x out) (ReArmedSale oid) = 0"
  by (cases "(db, x, out)" rule: delivery_log.cases) auto

lemma step_attempts:
  assumes "settle_step (lg, db) ev = (lg', db')" "\<exists>k. attempts_of (async_doc db oid) = whole k"
  shows "\<exists>b. attempt_step b (async_doc db oid) (async_doc db' oid)
     \<and> count_list lg' (ReArmedSale oid) = count_list lg (ReArmedSale oid) + (if b then 1 else 0)"
proof -
  have plain: ?thesis if "attempt_step False (async_doc db oid) (async_doc db' oid)"
    "count_list lg' (ReArmedSale oid) = count_list lg (ReArmedSale oid)"
    using that by auto
  show ?thesis
  proof (cases ev)
    case (CreateSale oid' d)
    then have "lg' = lg" "db' = db \<or> (safeInitialReconcileState d \<and> map_of (asyncOrders db) oid' = None
        \<and> db' = db\<lparr>asyncOrders := map_set oid' d (asyncOrders db)\<rparr>)"
      using assms(1) by (simp_all split: if_splits)
    then show ?thesis using created_attempts by (intro plain) (elim disjE conjE; simp)+
  next
    case (DeliverWrite en d)
    then obtain out where "reconcileOnWrite en d db = (out, db')" "lg' = lg @ delivery_log db (dl_order d) out"
      using assms(1) by (auto simp: Let_def split: prod.splits)
    then show ?thesis using delivery_attempts assms(2) by (intro plain) (auto simp: count_list_append)
  next
    case (PrivilegedVoid en opts f oid')
    then show ?thesis using assms(1) void_attempts [of en opts f oid' db _ db' oid]
      by (intro plain) (auto simp: count_list_append split: sum.splits prod.splits)
  next
    case (RetrySale en users auth oid')
    show ?thesis
    proof (cases "performReconcileRetry en users auth oid' db")
      case (Inl e)
      then show ?thesis using assms(1) RetrySale by (intro plain) auto
    next
      case (Inr x)
      obtain out db'' where x: "x = (out, db'')" by (cases x)
      from retry_cases [OF Inr [unfolded x]] show ?thesis
      proof
        assume "out = NoopAlreadySettled \<and> db'' = db"
        then show ?thesis using assms(1) RetrySale Inr x by (intro plain) auto
      next
        assume "\<exists>n p a ord. out = ReArmed n \<and> auth = Some a \<and>
          db'' = patch_async (trim oid') [fput ''reconcileStatus'' (JStr (js ''pending_reconcile'')), fadd ''adminRetryCount'' (Fin 1),
            fput ''lastRetryBy'' (retry_by a), fput ''lastRetryAt'' (se_now en)] db
          \<and> map_of (asyncOrders db) (trim oid') = Some ord \<and> doc_field ord ''reconcileStatus'' = JStr (js ''exception'')
          \<and> doc_field ord ''voidRequested'' \<noteq> JBool True
          \<and> n = (case doc_field ord ''reconcileAttempts'' of JNum n \<Rightarrow> n | _ \<Rightarrow> Fin 0) \<and> \<not> js_le RECONCILE_RETRY_CAP n"
        then obtain n a ord where r: "out = ReArmed n" "db'' = patch_async (trim oid') (armed_patch en a) db"
          "map_of (asyncOrders db) (trim oid') = Some ord" "failed_doc ord" "n = attempts_of ord" "\<not> js_le RECONCILE_RETRY_CAP n"
          by (auto simp: armed_patch_def attempts_of_def failed_doc_def)
        have e: "lg' = lg @ [ReArmedSale (trim oid')]" "db' = db''"
          using assms(1) RetrySale Inr x r(1) by auto
        show ?thesis
        proof (cases "oid = trim oid'")
          case True
          then have d: "async_doc db oid = ord" using r(3) by (simp add: async_doc_def)
          have "attempt_step True ord (merge_doc ord (armed_patch en a))"
            using r(4-6) by (intro attempt_step.armed)
              (simp_all add: attempts_of_def failed_doc_def armed_patch_def doc_field_merge)
          then show ?thesis using True d e r(2) by (intro exI [of _ True]) (simp add: count_list_append)
        next
          case False
          then show ?thesis using e r(2) by (intro plain) (simp_all add: count_list_append)
        qed
      qed
    qed
  next
    case (RepairSale en ap oid' snap)
    have "asyncOrders db'' = asyncOrders db" if "repairSettledOrder en ap (oid', snap) db = Inr (out, db'')" for out db''
      using repair_cases [OF that] rebuild_orders by blast
    then have "asyncOrders db' = asyncOrders db" "count_list lg' (ReArmedSale oid) = count_list lg (ReArmedSale oid)"
      using assms(1) RepairSale by (auto simp: count_list_append split: sum.splits prod.splits repair_outcome.splits if_splits)
    then show ?thesis by (intro plain) (simp_all add: async_doc_def)
  qed
qed

section \<open>The budget\<close>

text \<open>The attempts are at least the re-arms, and one more while the sale is failed.\<close>

definition budget :: "jsstr \<Rightarrow> nat \<Rightarrow> log_entry list \<times> pos_db \<Rightarrow> bool" where
  "budget oid steps s \<longleftrightarrow> (\<exists>k. attempts_of (async_doc (snd s) oid) = whole k \<and> k \<le> int steps
     \<and> int (count_list (fst s) (ReArmedSale oid)) + (if failed_doc (async_doc (snd s) oid) then 1 else 0) \<le> k
     \<and> count_list (fst s) (ReArmedSale oid) \<le> 2)"

lemma budget_step:
  assumes "budget oid n s" "int n + 1 < 2 ^ 53"
  shows "budget oid (Suc n) (settle_step s ev)"
proof -
  obtain lg db where s: "s = (lg, db)" by (cases s)
  obtain lg' db' where s': "settle_step (lg, db) ev = (lg', db')" by fastforce
  let ?r = "count_list lg (ReArmedSale oid)" and ?d = "async_doc db oid" and ?d' = "async_doc db' oid"
  obtain k where k: "attempts_of ?d = whole k" "k \<le> int n" "int ?r + (if failed_doc ?d then 1 else 0) \<le> k" "?r \<le> 2"
    using assms(1) by (auto simp: budget_def s)
  obtain b where b: "attempt_step b ?d ?d'" "count_list lg' (ReArmedSale oid) = ?r + (if b then 1 else 0)"
    using step_attempts [OF s'] k(1) by blast
  from b(1) show ?thesis
  proof cases
    case same
    then show ?thesis using k b(2) by (auto simp: budget_def s s' split: if_splits)
  next
    case failed
    have "0 \<le> k" using k(3) by (auto split: if_splits)
    then have "exact_range (k + 1)" using k(2) assms(2) by (simp add: exact_range_def)
    then have "attempts_of ?d' = whole (k + 1)" using failed k(1) by (simp add: whole_lits)
    then show ?thesis using failed k b(2) by (auto simp: budget_def s s' split: if_splits)
  next
    case armed
    have "k < 3" using armed(3) k(1) by (auto simp: RECONCILE_RETRY_CAP_def whole_def js_le_def js_lt_def js_eq_def)
    then show ?thesis using armed k b(2) by (auto simp: budget_def s s')
  qed
qed

lemma budget_run:
  assumes "budget oid n s" "int n + int (length es) < 2 ^ 53"
  shows "budget oid (n + length es) (run settle_step s es)"
  using assms
proof (induction es arbitrary: s n)
  case (Cons e es)
  have "budget oid (Suc n + length es) (run settle_step (settle_step s e) es)"
    using Cons.prems by (intro Cons.IH budget_step) auto
  then show ?case by simp
qed simp

text \<open>C26. The retry budget of a sale. In any run of fewer than \<open>2 ^ 53\<close> events, with duplicate
  deliveries and failing transactions among them, the counter on the sale's document is a whole
  number; every re-arm by an administrator is covered by a counted failure of its own, and a
  failed sale has one more failure than re-arms; and a sale is re-armed at most twice (the cap
  of the code is three failures). Failures are not bounded: duplicate deliveries may fail too.\<close>

theorem retries_bounded:
  assumes "map_of (asyncOrders db) oid = None" "length events < 2 ^ 53"
    "run settle_step ([], db) events = (lg, db')"
  shows "\<exists>k. attempts_of (async_doc db' oid) = whole k
    \<and> int (count_list lg (ReArmedSale oid)) + (if failed_doc (async_doc db' oid) then 1 else 0) \<le> k
    \<and> count_list lg (ReArmedSale oid) \<le> 2"
proof -
  have "async_doc db oid = JObj []" using assms(1) by (simp add: async_doc_def)
  then have "budget oid 0 ([], db)"
    by (simp add: budget_def attempts_of_def failed_doc_def doc_field_def whole_lits)
  moreover have "int (length events) < 2 ^ 53" using assms(2) by (simp add: of_nat_less_iff [symmetric] del: of_nat_less_iff)
  ultimately have "budget oid (0 + length events) (lg, db')"
    using budget_run [of oid 0 "([], db)" events] assms(3) by simp
  then show ?thesis by (auto simp: budget_def)
qed

end
