(* ===== verification/SettlementNeverBlocks.thy ===== *)
theory SettlementNeverBlocks
  imports StockLedger
begin

text \<open>
  Whether a sale settles does not depend on the inventory: lots and stock decide only what is
  cut, what is oversold and what it costs.
\<close>

section \<open>Success of the steps\<close>

definition ok :: "'e + 'a \<Rightarrow> bool" where
  "ok r \<longleftrightarrow> (\<exists>x. r = Inr x)"

lemma ok_simps [simp]: "ok (Inr x)" "\<not> ok (Inl e)"
  by (simp_all add: ok_def)

lemma ok_and_then: "ok (and_then r f) \<longleftrightarrow> (\<exists>x. r = Inr x \<and> ok (f x))"
  by (cases r) (auto simp: ok_def)

lemma ok_fold_result:
  assumes "\<And>s x. x \<in> set xs \<Longrightarrow> ok (g s x) \<longleftrightarrow> P x"
  shows "ok (fold_result g s xs) \<longleftrightarrow> (\<forall>x \<in> set xs. P x)"
  using assms
proof (induction xs arbitrary: s)
  case (Cons x xs)
  have "ok (fold_result g t xs) \<longleftrightarrow> (\<forall>x \<in> set xs. P x)" for t using Cons by simp
  then show ?case using Cons.prems [of x s] by (cases "g s x") simp_all
qed simp

lemma ok_and_then_const: "(\<And>x. ok (f x) = B) \<Longrightarrow> ok (and_then r f) = (ok r \<and> B)"
  by (cases r) auto

lemma ok_and_then_pair [simp]: "ok (and_then r (\<lambda>(d, db). Inr (h d db))) = ok r"
  by (cases r) auto

lemma ok_and_then_plain [simp]: "ok (and_then r (\<lambda>x. Inr (h x))) = ok r"
  by (cases r) auto

lemma ok_add_doc: "ok (add_doc en f db) \<longleftrightarrow> \<not> has_undef (JObj (f (se_autoId en (next_auto db))))"
  by (simp add: add_doc_def Let_def del: has_undef.simps)

section \<open>Missing values in the written documents\<close>

text \<open>Overwriting a field by a value without \<^verbatim>\<open>undefined\<close> leaves the same missing values, whatever the value.\<close>

definition same_undef :: "(jsstr, jsval) jsmap \<Rightarrow> (jsstr, jsval) jsmap \<Rightarrow> bool" where
  "same_undef fs gs \<longleftrightarrow> list_all2 (\<lambda>(k, v) (k', v'). k = k' \<and> has_undef v = has_undef v') fs gs"

lemma same_undef_refl: "same_undef fs fs"
  by (auto simp: same_undef_def list_all2_same)

lemma same_undef_set:
  "same_undef fs gs \<Longrightarrow> has_undef v = has_undef v' \<Longrightarrow> same_undef (map_set k v fs) (map_set k v' gs)"
  unfolding same_undef_def by (induction fs gs rule: list_all2_induct) (auto split: prod.splits)

lemma same_undef_has_undef: "same_undef fs gs \<Longrightarrow> has_undef (JObj fs) = has_undef (JObj gs)"
  unfolding same_undef_def by (induction fs gs rule: list_all2_induct) (auto split: prod.splits)

lemma lot_ref_docs_defined [simp]: "\<not> list_ex has_undef (map lot_ref_doc refs)"
  by (simp add: list_ex_iff lot_ref_doc_def)

lemma enrich_line_undef: "has_undef (enrich_line l q refs) = has_undef (enrich_line l (Fin 0) [])"
  unfolding enrich_line_def merge_doc_def
  by (intro same_undef_has_undef) (simp add: write_field_def same_undef_set same_undef_refl)

definition movement_ok :: "settle_env \<Rightarrow> jsval \<Rightarrow> jsval \<Rightarrow> bool" where
  "movement_ok en order l \<longleftrightarrow> \<not> has_undef (JObj (sale_movement en order [] (enrich_line l (Fin 0) []) []))"

definition item_ok :: "jsval \<Rightarrow> bool" where
  "item_ok l \<longleftrightarrow> \<not> has_undef (JObj (item_doc (enrich_line l (Fin 0) []) JNull []))"

lemma movement_ok_iff:
  "has_undef (JObj (sale_movement en order b (enrich_line l q refs) mid)) \<longleftrightarrow> \<not> movement_ok en order l"
  by (cases refs) (simp_all add: movement_ok_def sale_movement_def enrich_line_fields lot_ref_doc_def doc_field_JObj)

lemma item_ok_iff: "has_undef (JObj (item_doc (enrich_line l q refs) (JNum q') iid)) \<longleftrightarrow> \<not> item_ok l"
  by (simp add: item_ok_def item_doc_def enrich_line_fields Let_def)

definition charge_doc_ok :: "settle_env \<Rightarrow> jsval \<Rightarrow> bool" where
  "charge_doc_ok en order \<longleftrightarrow> \<not> has_undef (JObj (credit_charge en order [] (Fin 0) []))"

definition charge_ok :: "settle_env \<Rightarrow> jsval \<Rightarrow> settle_reads \<Rightarrow> bool" where
  "charge_ok en order r \<longleftrightarrow> sr_customer r = None \<or> sr_credit r = None \<or> \<not> js_lt (Fin 0) (creditAmt_of order)
     \<or> charge_doc_ok en order"

lemma charge_iff: "has_undef (JObj (credit_charge en order b n t)) \<longleftrightarrow> \<not> charge_doc_ok en order"
  by (simp add: charge_doc_ok_def credit_charge_def)

lemma ok_write_customer: "ok (write_customer en r order db) \<longleftrightarrow> charge_ok en order r"
proof (cases "sr_customer r")
  case (Some c)
  then show ?thesis
  proof (cases "sr_credit r")
    case None
    then show ?thesis using Some by (cases c) (simp add: write_customer_def write_credit_def charge_ok_def)
  next
    case cr: (Some x)
    then show ?thesis using Some
      by (cases c; cases x; cases "js_lt (Fin 0) (creditAmt_of order)")
        (simp_all add: write_customer_def write_credit_def charge_ok_def Let_def ok_add_doc charge_iff del: has_undef.simps)
  qed
qed (simp add: write_customer_def charge_ok_def)

definition header_ok :: "settle_env \<Rightarrow> jsstr \<Rightarrow> jsval \<Rightarrow> jsval \<Rightarrow> bool" where
  "header_ok en cid order t \<longleftrightarrow> \<not> has_undef (JObj (canonical_doc en order (JStr cid) JNull (Fin 0) t))"

lemma header_ok_iff:
  "has_undef (JObj (canonical_doc en order (JStr cid) (settled_status order) c t)) \<longleftrightarrow> \<not> header_ok en cid order t"
  by (simp add: header_ok_def canonical_doc_def Let_def money_field_def settled_status_def)

definition payment_ok :: "jsval \<Rightarrow> jsstr \<Rightarrow> jsval \<Rightarrow> jsval \<Rightarrow> bool" where
  "payment_ok order cid t pay \<longleftrightarrow> js_le (to_number (doc_field pay ''amount'')) (Fin 0)
     \<or> \<not> has_undef (JObj (payment_doc order (JStr cid) t pay []))"

lemma ok_write_payment: "ok (write_payment en order (JStr cid) t db pay) \<longleftrightarrow> payment_ok order cid t pay"
proof -
  have "has_undef (JObj (payment_doc order (JStr cid) t pay pid)) = has_undef (JObj (payment_doc order (JStr cid) t pay []))" for pid
    by (simp add: payment_doc_def)
  then show ?thesis
    by (simp add: write_payment_def payment_ok_def ok_add_doc del: has_undef.simps)
qed

section \<open>Success of a settlement\<close>

text \<open>The enriched lines of a plan, one for each line of the sale.\<close>

definition enriched :: "jsval list \<Rightarrow> jsval list \<Rightarrow> bool" where
  "enriched ls es \<longleftrightarrow> list_all2 (\<lambda>l e. \<exists>q refs. e = enrich_line l q refs) ls es"

lemma enriched_all:
  assumes "enriched ls es" "\<And>l q refs. P (enrich_line l q refs) = Q l"
  shows "(\<forall>e \<in> set es. P e) \<longleftrightarrow> (\<forall>l \<in> set ls. Q l)"
  using assms(1) unfolding enriched_def by (induction ls es rule: list_all2_induct) (auto simp: assms(2))

lemma plan_enriched:
  assumes "settle_plan_of en db r order = Inr p"
  shows "enriched (sale_lines order) (sp_lines p)"
proof -
  obtain qs where q: "quantities (sale_lines order) qs"
    "list_all2 (\<lambda>(l, q) e. \<exists>refs. e = enrich_line l q refs) (zip (sale_lines order) qs) (sp_lines p)"
    using assms by (rule settle_plan)
  then have len: "length (sale_lines order) = length qs" by (simp add: quantities_def list_all2_lengthD)
  have "list_all2 (\<lambda>x e. \<exists>q refs. e = enrich_line (fst x) q refs) (zip (sale_lines order) qs) (sp_lines p)"
    using q(2) by (rule list_all2_mono) (clarsimp, blast)
  then have "enriched (map fst (zip (sale_lines order) qs)) (sp_lines p)" by (simp add: enriched_def list_all2_map1)
  then show ?thesis using len by simp
qed

lemma ok_plan: "ok (settle_plan_of en db r order) \<longleftrightarrow> (\<forall>l \<in> set (sale_lines order). ok (resolveLineQtyBase l (js ''lines'')))"
  unfolding settle_plan_of_def by (rule ok_fold_result) (auto simp: ok_def plan_line_Inr)

lemma ok_effects:
  assumes "enriched (sale_lines order) (sp_lines p)"
  shows "ok (settle_effects en oid order r p db) \<longleftrightarrow>
    (\<forall>l \<in> set (sale_lines order). movement_ok en order l) \<and> charge_ok en order r"
proof -
  let ?w = "write_movement en (sale_movement en order (sr_branchId r))"
  have "ok (fold_result ?w db0 (sp_lines p)) \<longleftrightarrow>
      (\<forall>e \<in> set (sp_lines p). \<not> has_undef (JObj (sale_movement en order (sr_branchId r) e [])))" for db0
  proof (rule ok_fold_result)
    fix s e assume "e \<in> set (sp_lines p)"
    have "has_undef (JObj (sale_movement en order (sr_branchId r) e mid)) = has_undef (JObj (sale_movement en order (sr_branchId r) e []))" for mid
      by (simp add: sale_movement_def)
    then show "ok (?w s e) \<longleftrightarrow> \<not> has_undef (JObj (sale_movement en order (sr_branchId r) e []))"
      by (simp add: write_movement_def ok_add_doc del: has_undef.simps)
  qed
  also have "(\<forall>e \<in> set (sp_lines p). \<not> has_undef (JObj (sale_movement en order (sr_branchId r) e [])))
      \<longleftrightarrow> (\<forall>l \<in> set (sale_lines order). movement_ok en order l)"
    by (rule enriched_all [OF assms]) (simp only: movement_ok_iff not_not)
  finally show ?thesis by (auto simp: settle_effects_def ok_and_then ok_write_customer ok_def [of "fold_result _ _ _"])
qed

definition documents_ok :: "settle_env \<Rightarrow> jsval \<Rightarrow> jsstr \<Rightarrow> bool" where
  "documents_ok en order cid \<longleftrightarrow> (\<exists>t. sale_time en order = Inr t \<and> header_ok en cid order t
     \<and> (\<forall>l \<in> set (sale_lines order). item_ok l \<and> \<not> has_undef (enrich_line l (Fin 0) []))
     \<and> (\<exists>pays. sale_payments order = Inr pays \<and> (\<forall>pay \<in> set pays. payment_ok order cid t pay))
     \<and> \<not> has_undef (se_now en))"

lemma ok_documents:
  assumes "enriched (sale_lines order) (sp_lines p)"
  shows "ok (write_documents en oid cid order p db) \<longleftrightarrow> documents_ok en order cid"
proof -
  let ?w = "write_item en cid (\<lambda>l. Inr (doc_field l ''qtyBase''))"
  have items: "ok (fold_result ?w db0 (sp_lines p)) \<longleftrightarrow> (\<forall>l \<in> set (sale_lines order). item_ok l)" for db0
  proof -
    have "ok (fold_result ?w db0 (sp_lines p)) \<longleftrightarrow> (\<forall>e \<in> set (sp_lines p). \<not> has_undef (JObj (item_doc e (doc_field e ''qtyBase'') [])))"
    proof (rule ok_fold_result)
      fix s e assume "e \<in> set (sp_lines p)"
      have "has_undef (JObj (item_doc e v mid)) = has_undef (JObj (item_doc e v []))" for mid v
        by (simp add: item_doc_def Let_def)
      then show "ok (?w s e) \<longleftrightarrow> \<not> has_undef (JObj (item_doc e (doc_field e ''qtyBase'') []))"
        by (simp add: write_item_def ok_add_doc del: has_undef.simps)
    qed
    also have "\<dots> \<longleftrightarrow> (\<forall>l \<in> set (sale_lines order). item_ok l)"
      by (rule enriched_all [OF assms]) (simp only: enrich_line_fields item_ok_iff not_not)
    finally show ?thesis .
  qed
  have pays: "ok (fold_result (write_payment en order (JStr cid) t) db0 ps) \<longleftrightarrow> (\<forall>pay \<in> set ps. payment_ok order cid t pay)" for db0 t ps
    by (rule ok_fold_result) (rule ok_write_payment)
  have "(\<forall>e \<in> set (sp_lines p). \<not> has_undef e) \<longleftrightarrow> (\<forall>l \<in> set (sale_lines order). \<not> has_undef (enrich_line l (Fin 0) []))"
    by (rule enriched_all [OF assms]) (rule arg_cong [OF enrich_line_undef, of Not])
  then have w: "writable (settled_patch en order p c) \<longleftrightarrow> \<not> has_undef (se_now en)
      \<and> (\<forall>l \<in> set (sale_lines order). \<not> has_undef (enrich_line l (Fin 0) []))" for c
    by (auto simp: writable_def settled_patch_def buildRecoveryAuditPatch_def Let_def settled_status_def list_ex_iff)
  let ?W = "writable (settled_patch en order p (total_cogs (sp_lines p)))"
  let ?pays = "\<lambda>t. \<exists>ps. sale_payments order = Inr ps \<and> (\<forall>pay \<in> set ps. payment_ok order cid t pay) \<and> ?W"
  have async: "ok (write_async oid q db0) = writable q" for q db0 by (simp add: write_async_def)
  have 1: "ok (and_then (fold_result (write_payment en order (JStr cid) t) db0 ps)
      (\<lambda>db. write_async oid (settled_patch en order p (total_cogs (sp_lines p))) db))
      = ((\<forall>pay \<in> set ps. payment_ok order cid t pay) \<and> ?W)" for db0 t ps
    by (subst ok_and_then_const [where B = ?W]) (simp_all only: async pays)
  have 2: "ok (and_then (sale_payments order) (\<lambda>ps. and_then (fold_result (write_payment en order (JStr cid) t) db0 ps)
      (\<lambda>db. write_async oid (settled_patch en order p (total_cogs (sp_lines p))) db))) = ?pays t" for db0 t
    by (simp only: ok_and_then [of "sale_payments order"] 1)
  have 3: "ok (and_then (fold_result ?w db0 (sp_lines p)) (\<lambda>db. and_then (sale_payments order) (\<lambda>ps.
      and_then (fold_result (write_payment en order (JStr cid) t) db ps)
      (\<lambda>db. write_async oid (settled_patch en order p (total_cogs (sp_lines p))) db))))
      = ((\<forall>l \<in> set (sale_lines order). item_ok l) \<and> ?pays t)" for db0 t
    by (subst ok_and_then_const [where B = "?pays t"]) (simp_all only: items 2)
  have "ok (write_documents en oid cid order p db) \<longleftrightarrow> (\<exists>t. sale_time en order = Inr t \<and> header_ok en cid order t
     \<and> (\<forall>l \<in> set (sale_lines order). item_ok l) \<and> ?pays t)"
    unfolding write_documents_def Let_def ok_and_then [of "sale_time en order"] write_canonical_def header_ok_iff
    by (auto simp: 3 split: if_splits)
  then show ?thesis by (auto simp: documents_ok_def w)
qed

definition settle_ok :: "settle_env \<Rightarrow> pos_db \<Rightarrow> jsval \<Rightarrow> jsstr \<Rightarrow> bool" where
  "settle_ok en db order cid \<longleftrightarrow> validateCanonicalSaleSource order = Inr ()
     \<and> (\<exists>r. settle_read db order = Inr r \<and> charge_ok en order r)
     \<and> (\<forall>l \<in> set (sale_lines order). movement_ok en order l) \<and> documents_ok en order cid"

lemma ok_settle: "ok (settle_sale en oid order cid db) \<longleftrightarrow> settle_ok en db order cid"
proof (cases "validateCanonicalSaleSource order")
  case (Inl e)
  then show ?thesis by (cases e) (simp add: settle_sale_def from_source_def settle_ok_def)
next
  case (Inr u)
  then have v: "validateCanonicalSaleSource order = Inr ()" by simp
  have lines: "\<forall>l \<in> set (sale_lines order). ok (resolveLineQtyBase l (js ''lines''))"
    using validated_sale(7) [OF v] by (auto simp: sale_lines_def ok_def)
  show ?thesis
  proof (cases "settle_read db order")
    case (Inl e)
    then show ?thesis using v by (simp add: settle_sale_def from_source_def settle_ok_def)
  next
    case r: (Inr r)
    obtain p where p: "settle_plan_of en db r order = Inr p" using lines ok_plan [of en db r order] by (auto simp: ok_def)
    note e = plan_enriched [OF p]
    have "ok (and_then (settle_effects en oid order r p db) (\<lambda>db'. write_documents en oid cid order p db'))
        = (ok (settle_effects en oid order r p db) \<and> documents_ok en order cid)"
      by (rule ok_and_then_const) (rule ok_documents [OF e])
    then show ?thesis using ok_effects [OF e, of en oid r db]
      by (auto simp: settle_sale_def from_source_def settle_ok_def v r p)
  qed
qed

text \<open>C21. A sale is never blocked by the inventory: whatever lots, stock and product costs the database
  holds - enough, too little, negative or none - the same sales settle.\<close>

theorem settles_whatever_the_stock:
  "(\<exists>db1. reconcileSale en oid (db\<lparr>stockLots := lots, productStocks := stocks, products := prods\<rparr>) = Inr (True, db1))
    \<longleftrightarrow> (\<exists>db2. reconcileSale en oid db = Inr (True, db2))"
proof -
  let ?db = "db\<lparr>stockLots := lots, productStocks := stocks, products := prods\<rparr>"
  have r: "settle_read ?db order = settle_read db order" for order
    by (simp add: settle_read_def read_customer_def read_device_def cong: if_cong)
  have "ok (settle_sale en oid order cid ?db) = ok (settle_sale en oid order cid db)" for order cid
    by (simp add: ok_settle settle_ok_def r)
  then show ?thesis
    by (auto simp: reconcileSale_def and_then_Inr_iff ok_def split: option.splits if_splits) metis+
qed

end
