(* ===== verification/SettlementRoundTrip.thy ===== *)
theory SettlementRoundTrip
  imports StockLedger
begin

text \<open>
  Settling a sale and voiding it again: the lots and the stock are what they were. The cuts
  of the settlement and the lot references it stores in the lines carry the same amounts, so
  the restock planned from the references undoes the cuts.
\<close>

section \<open>Cuts and references agree\<close>

definition cut_pairs :: "lot_cut list \<Rightarrow> (jsstr \<times> jsnum) list" where
  "cut_pairs cuts = map (\<lambda>c. (lc_ref c, lc_cutQty c)) cuts"

definition ref_pairs :: "lot_ref list \<Rightarrow> (jsstr \<times> jsnum) list" where
  "ref_pairs refs = map (\<lambda>r. (lr_lotId r, lr_qty r)) refs"

text \<open>Lots as the plan holds them: whole amounts, the reference is the id, and the id is a real one.\<close>

definition real_id :: "jsstr \<Rightarrow> bool" where
  "real_id k \<longleftrightarrow> k \<noteq> [] \<and> k \<noteq> OVERSELL_LOT_ID"

definition sound_lots :: "jsstr set \<Rightarrow> mutable_lot list \<Rightarrow> bool" where
  "sound_lots ids lots \<longleftrightarrow> (\<exists>qs. whole_lots lots qs) \<and> (\<forall>l \<in> set lots. ml_ref l = ml_id l \<and> ml_id l \<in> ids \<and> real_id (ml_id l))"

definition whole_pairs :: "(jsstr \<times> int) list \<Rightarrow> (jsstr \<times> jsnum) list" where
  "whole_pairs xs = map (\<lambda>(k, n). (k, whole n)) xs"

definition good_pairs :: "jsstr set \<Rightarrow> (jsstr \<times> int) list \<Rightarrow> bool" where
  "good_pairs ids xs \<longleftrightarrow> (\<forall>(k, n) \<in> set xs. 0 < n \<and> k \<in> ids \<and> real_id k)"

lemma good_pairs_append [simp]: "good_pairs ids (xs @ ys) \<longleftrightarrow> good_pairs ids xs \<and> good_pairs ids ys"
  by (auto simp: good_pairs_def)

lemma whole_pairs_append [simp]: "whole_pairs (xs @ ys) = whole_pairs xs @ whole_pairs ys"
  by (simp add: whole_pairs_def)

lemma pairs_of_taken:
  assumes "\<forall>l \<in> set lots. ml_ref l = ml_id l \<and> ml_id l \<in> ids \<and> real_id (ml_id l)"
  shows "\<exists>xs. cut_pairs (cuts_of lots ts) = whole_pairs xs \<and> ref_pairs (refs_of lots ts) = whole_pairs xs
     \<and> good_pairs ids xs \<and> sum_list (map snd xs) = sum_list (filter (\<lambda>t. 0 < t) (map snd (zip lots ts)))"
  using assms
proof (induction lots arbitrary: ts)
  case (Cons l lots)
  show ?case
  proof (cases ts)
    case (Cons t ts')
    obtain xs where "cut_pairs (cuts_of lots ts') = whole_pairs xs \<and> ref_pairs (refs_of lots ts') = whole_pairs xs
     \<and> good_pairs ids xs \<and> sum_list (map snd xs) = sum_list (filter (\<lambda>t. 0 < t) (map snd (zip lots ts')))"
      using Cons.IH [of ts'] Cons.prems by auto
    then show ?thesis using Cons.prems Cons
      by (intro exI [of _ "if 0 < t then (ml_id l, t) # xs else xs"])
        (auto simp: cuts_of_def refs_of_def cut_pairs_def ref_pairs_def whole_pairs_def good_pairs_def)
  qed (auto simp: cuts_of_def refs_of_def cut_pairs_def ref_pairs_def whole_pairs_def good_pairs_def intro: exI [of _ "[]"])
qed (auto simp: cuts_of_def refs_of_def cut_pairs_def ref_pairs_def whole_pairs_def good_pairs_def intro: exI [of _ "[]"])

lemma filter_positive_sum: "\<forall>t \<in> set ts. 0 \<le> (t::int) \<Longrightarrow> sum_list (filter (\<lambda>t. 0 < t) ts) = sum_list ts"
  by (induction ts) auto

text \<open>One cut: the lots stay sound, cuts and references agree and take no more than was needed.\<close>

lemma sound_cut:
  assumes "sound_lots ids lots" "0 \<le> need" "exact_range need"
    "planFifoCutFromState lots (whole need) = (lots', cuts, refs, remaining)"
  shows "sound_lots ids lots' \<and> (\<exists>xs. cut_pairs cuts = whole_pairs xs \<and> ref_pairs refs = whole_pairs xs
     \<and> good_pairs ids xs \<and> sum_list (map snd xs) \<le> need)"
proof -
  obtain qs where w: "whole_lots lots qs" and l: "\<forall>l \<in> set lots. ml_ref l = ml_id l \<and> ml_id l \<in> ids \<and> real_id (ml_id l)"
    using assms(1) by (auto simp: sound_lots_def)
  have len: "length lots = length qs" using w by (metis whole_lots_def length_map)
  note plan = plan_whole [OF w assms(3), unfolded assms(4)]
  let ?t = "taken qs need"
  have t: "0 \<le> ?t ! i" "?t ! i \<le> max 0 (qs ! i)" if "i < length qs" for i
    using taken_bounds [OF that] by blast+
  have ex: "exact_range (qs ! i)" if "i < length qs" for i using w that by (simp add: whole_lots_def)
  have "exact_range (qs ! i - ?t ! i)" if "i < length qs" for i
    using t [OF that] ex [OF that] by (auto simp: exact_range_def max_def split: if_splits)
  then have w': "whole_lots lots' (map2 (-) qs ?t)"
    using plan len by (auto simp: whole_lots_def cut_lots_def in_set_conv_nth intro!: nth_equalityI)
  have "\<forall>l \<in> set lots'. ml_ref l = ml_id l \<and> ml_id l \<in> ids \<and> real_id (ml_id l)"
    using plan l by (auto simp: cut_lots_def dest: set_zip_leftD)
  then have s: "sound_lots ids lots'" using w' by (auto simp: sound_lots_def)
  obtain xs where xs: "cut_pairs cuts = whole_pairs xs" "ref_pairs refs = whole_pairs xs" "good_pairs ids xs"
    "sum_list (map snd xs) = sum_list (filter (\<lambda>t. 0 < t) (map snd (zip lots ?t)))"
    using pairs_of_taken [OF l, of ?t] plan by auto
  have "map snd (zip lots ?t) = ?t" using len by simp
  moreover have "\<forall>u \<in> set ?t. 0 \<le> u" using t by (auto simp: in_set_conv_nth)
  ultimately have "sum_list (map snd xs) = sum_list ?t" using xs(4) by (simp add: filter_positive_sum)
  also have "\<dots> \<le> need" using taken_sum [OF assms(2), of qs] by simp
  finally show ?thesis using s xs by blast
qed

section \<open>The whole plan\<close>

text \<open>The references of the enriched lines without the oversell, in order.\<close>

definition real_refs :: "lot_ref list \<Rightarrow> lot_ref list" where
  "real_refs refs = filter (\<lambda>r. lr_lotId r \<noteq> OVERSELL_LOT_ID) refs"

definition line_refs :: "jsval \<Rightarrow> lot_ref list" where
  "line_refs e = (case all_some (map lot_ref_of (elements (doc_field e ''lotRefs''))) of Some rs \<Rightarrow> rs | None \<Rightarrow> [])"

lemma lot_refs_back: "map lot_ref_of (map lot_ref_doc refs) = map Some refs"
  by (auto simp: lot_ref_of_def lot_ref_doc_def doc_field_def)

lemma line_refs_enrich [simp]: "line_refs (enrich_line l q refs) = refs"
proof -
  have "all_some (map lot_ref_of (map lot_ref_doc refs)) = Some refs" using lot_refs_back all_some_iff by blast
  then show ?thesis by (simp add: line_refs_def enrich_line_fields del: map_map)
qed

definition sound_plan :: "jsstr set \<Rightarrow> settle_plan \<Rightarrow> (jsstr \<times> int) list \<Rightarrow> bool" where
  "sound_plan ids p xs \<longleftrightarrow> (\<forall>(pid, lots) \<in> set (sp_lots p). sound_lots ids lots)
     \<and> cut_pairs (sp_cuts p) = whole_pairs xs
     \<and> ref_pairs (real_refs (concat (map line_refs (sp_lines p)))) = whole_pairs xs \<and> good_pairs ids xs"

lemma sound_lots_Nil [simp]: "sound_lots ids []"
  by (auto simp: sound_lots_def whole_lots_def)

lemma map_set_in: "(k', v') \<in> set (map_set k v m) \<Longrightarrow> (k', v') = (k, v) \<or> (k', v') \<in> set m"
  by (induction m) (auto split: if_splits)

lemma real_refs_good: "ref_pairs refs = whole_pairs xs \<Longrightarrow> good_pairs ids xs \<Longrightarrow> real_refs refs = refs"
proof -
  assume r: "ref_pairs refs = whole_pairs xs" "good_pairs ids xs"
  have "lr_lotId r \<noteq> OVERSELL_LOT_ID" if "r \<in> set refs" for r
  proof -
    have "(lr_lotId r, lr_qty r) \<in> set (whole_pairs xs)" using that r(1) by (force simp: ref_pairs_def simp flip: r(1))
    then show ?thesis using r(2) by (auto simp: whole_pairs_def good_pairs_def real_id_def)
  qed
  then show ?thesis by (simp add: real_refs_def)
qed

lemma sound_plan_step:
  assumes "sound_plan ids p xs" "0 \<le> need" "exact_range need"
  shows "\<exists>ys. sound_plan ids (plan_step db p l (whole need)) (xs @ ys) \<and> sum_list (map snd ys) \<le> need"
proof -
  obtain lots' cuts refs remaining where f: "planFifoCutFromState (lots_for p l) (whole need) = (lots', cuts, refs, remaining)"
    by (metis prod_cases4)
  have "sound_lots ids (lots_for p l)"
    using assms(1) by (auto simp: sound_plan_def lots_for_def split: option.splits dest: map_of_SomeD)
  then obtain ys where s: "sound_lots ids lots'" and y: "cut_pairs cuts = whole_pairs ys" "ref_pairs refs = whole_pairs ys"
    "good_pairs ids ys" "sum_list (map snd ys) \<le> need"
    using sound_cut [OF _ assms(2,3) f] by blast
  have r: "real_refs (refs @ [\<lparr>lr_lotId = OVERSELL_LOT_ID, lr_qty = q, lr_cost = c\<rparr>]) = refs" "real_refs refs = refs" for q c
    using real_refs_good [OF y(2,3)] by (simp_all add: real_refs_def)
  have lots: "\<forall>(pid, ls) \<in> set (map_set (productId_of l) lots' (sp_lots p)). sound_lots ids ls"
    using assms(1) s by (auto simp: sound_plan_def dest!: map_set_in)
  have "sound_plan ids (plan_step db p l (whole need)) (xs @ ys)"
    using assms(1) y(1-3) r lots
    by (simp add: sound_plan_def plan_step_def f Let_def cut_pairs_def ref_pairs_def)
      (simp add: real_refs_def)
  then show ?thesis using y(4) by blast
qed

lemma sound_plan_fold:
  assumes "sound_plan ids p xs" "qs = map whole needs" "\<forall>n \<in> set needs. 0 \<le> n \<and> exact_range n" "length ls = length qs"
  shows "\<exists>ys. sound_plan ids (foldl (\<lambda>p (l, q). plan_step db p l q) p (zip ls qs)) (xs @ ys)
     \<and> sum_list (map snd ys) \<le> sum_list needs"
  using assms
proof (induction ls arbitrary: p xs qs needs)
  case Nil
  then show ?case by (intro exI [of _ "[]"]) simp
next
  case (Cons l ls)
  obtain n ns where n: "needs = n # ns" "qs = whole n # map whole ns" using Cons.prems(2,4) by (cases needs) auto
  obtain ys where y: "sound_plan ids (plan_step db p l (whole n)) (xs @ ys)" "sum_list (map snd ys) \<le> n"
    using sound_plan_step [OF Cons.prems(1), where need = n and db = db and l = l] Cons.prems(3) n by auto
  obtain zs where "sound_plan ids (foldl (\<lambda>p (l, q). plan_step db p l q) (plan_step db p l (whole n)) (zip ls (map whole ns))) ((xs @ ys) @ zs)
     \<and> sum_list (map snd zs) \<le> sum_list ns"
    using Cons.IH [OF y(1) refl] Cons.prems(3,4) n by auto
  then show ?case using y(2) n by (intro exI [of _ "ys @ zs"]) simp
qed

section \<open>Writing the lots and back\<close>

lemma foldl_merge_set:
  assumes "distinct (map fst ks)"
  shows "map_of (foldl (\<lambda>m (k, q). merge_set k (f k q) m) m ks) k =
    (case map_of ks k of Some q \<Rightarrow> Some (merge_doc (case map_of m k of Some d \<Rightarrow> d | None \<Rightarrow> JObj []) (f k q))
     | None \<Rightarrow> map_of m k)"
  using assms
proof (induction ks arbitrary: m)
  case (Cons x ks)
  obtain k' q where x: "x = (k', q)" by (cases x)
  have "k' \<notin> fst ` set ks" "distinct (map fst ks)" using Cons.prems x by auto
  then have "map_of ks k' = None" by (simp add: map_of_eq_None_iff)
  then show ?case using Cons.IH [OF \<open>distinct (map fst ks)\<close>, of "merge_set k' (f k' q) m"]
    by (cases "k = k'") (auto simp: x split: option.split)
qed simp

definition exact_sums :: "(jsstr \<times> int) list \<Rightarrow> bool" where
  "exact_sums xs \<longleftrightarrow> (\<forall>k. exact_range (key_sum k xs))"

lemma sum_snd_nonneg: "good_pairs ids xs \<Longrightarrow> 0 \<le> sum_list (map snd xs)"
  by (induction xs) (auto simp: good_pairs_def)

lemma exact_sumsI:
  assumes "good_pairs ids xs" "sum_list (map snd xs) < 2 ^ 53"
  shows "exact_sums xs"
proof -
  have p: "\<forall>(k, n) \<in> set xs. 0 < n" using assms(1) by (auto simp: good_pairs_def)
  show ?thesis using key_sum_nonneg [OF p] key_sum_le_total [OF p] assms(2)
    by (force simp: exact_sums_def exact_range_def intro: order.strict_trans1)
qed

lemma positive_pairs: "good_pairs ids xs \<Longrightarrow> (k, q) \<in> set (whole_pairs xs) \<Longrightarrow> js_lt (Fin 0) q \<and> \<not> js_le q (Fin 0) \<and> real_id k"
  by (auto simp: whole_pairs_def good_pairs_def whole_lits)

lemma foldl_bump_pairs:
  assumes "good_pairs ids xs" "exact_sums xs"
  shows "sums_to (foldl (\<lambda>m (k, q). bump k q m) [] (whole_pairs xs)) xs"
proof -
  have "foldl (\<lambda>m (k, q). bump k q m) m (whole_pairs xs) = foldl (\<lambda>m (k, n). bump k (whole n) m) m xs" for m
    by (induction xs arbitrary: m) (auto simp: whole_pairs_def)
  then show ?thesis using foldl_bump [of "[]" "[]" xs] assms by (auto simp: good_pairs_def exact_sums_def)
qed

lemma merge_cut_bump:
  assumes "lc_ref c \<noteq> []" "lc_cutQty c = whole n" "0 < n" "exact_range n"
  shows "merge_cut m c = bump (lc_ref c) (lc_cutQty c) m"
  using assms by (auto simp: merge_cut_def bump_def whole_lits split: option.splits)

lemma merged_cuts:
  assumes "cut_pairs cuts = whole_pairs xs" "good_pairs ids xs" "sum_list (map snd xs) < 2 ^ 53"
  shows "sums_to (foldl merge_cut [] cuts) xs"
proof -
  have "foldl merge_cut m cs = foldl (\<lambda>m (k, q). bump k q m) m (cut_pairs cs)" if "cut_pairs cs = whole_pairs ys"
    "good_pairs ids ys" "sum_list (map snd ys) < 2 ^ 53" for m cs ys
    using that
  proof (induction cs arbitrary: m ys)
    case (Cons c cs)
    obtain n ys' where y: "ys = (lc_ref c, n) # ys'" "lc_cutQty c = whole n" "cut_pairs cs = whole_pairs ys'"
      using Cons.prems(1) by (cases ys) (auto simp: cut_pairs_def whole_pairs_def)
    have g: "good_pairs ids ys'" "0 < n" "real_id (lc_ref c)" using Cons.prems(2) y(1) by (auto simp: good_pairs_def)
    have "sum_list (map snd ys') < 2 ^ 53" "exact_range n"
      using Cons.prems(3) y(1) g(2) sum_snd_nonneg [OF g(1)] by (auto simp: exact_range_def)
    then show ?case using Cons.IH [OF y(3) g(1)] merge_cut_bump [OF _ y(2) g(2)] g(3)
      by (simp add: cut_pairs_def real_id_def)
  qed (simp add: cut_pairs_def)
  then show ?thesis using foldl_bump_pairs [OF assms(2) exact_sumsI [OF assms(2,3)]] assms by simp
qed

lemma restock_real: "foldl restock_step m refs = foldl restock_step m (real_refs refs)"
  by (induction refs arbitrary: m) (auto simp: real_refs_def restock_step_def)

lemma foldl_concat: "foldl (\<lambda>m l. foldl g m (h l)) m ls = foldl g m (concat (map h ls))"
  by (induction ls arbitrary: m) auto

lemma restocks_sum:
  assumes "ref_pairs (real_refs (concat (map rv_lotRefs ls))) = whole_pairs xs" "good_pairs ids xs" "sum_list (map snd xs) < 2 ^ 53"
  shows "sums_to (planLotRestocks ls) xs"
proof -
  let ?rs = "real_refs (concat (map rv_lotRefs ls))"
  have "foldl restock_step m rs = foldl (\<lambda>m (k, q). bump k q m) m (ref_pairs rs)"
    if "\<forall>(k, q) \<in> set (ref_pairs rs). js_lt (Fin 0) q \<and> real_id k" for m rs
    using that by (induction rs arbitrary: m) (auto simp: ref_pairs_def restock_step_def real_id_def)
  moreover have "\<forall>(k, q) \<in> set (ref_pairs ?rs). js_lt (Fin 0) q \<and> real_id k"
    using positive_pairs [OF assms(2)] by (auto simp: assms(1))
  ultimately have "planLotRestocks ls = foldl (\<lambda>m (k, q). bump k q m) [] (whole_pairs xs)"
    using assms(1) by (simp add: planLotRestocks_def foldl_concat restock_real [of "[]" "concat (map rv_lotRefs ls)"])
  then show ?thesis using foldl_bump_pairs [OF assms(2) exact_sumsI [OF assms(2,3)]] by simp
qed

definition lot_field :: "(jsstr, jsval) jsmap \<Rightarrow> jsstr \<Rightarrow> string \<Rightarrow> jsval" where
  "lot_field m k f = (case map_of m k of Some d \<Rightarrow> doc_field d f | None \<Rightarrow> JUndef)"

lemma cut_and_restock:
  assumes "sums_to c xs" "sums_to r xs"
    "\<And>k. k \<in> fst ` set xs \<Longrightarrow> \<exists>d q. map_of m k = Some d \<and> doc_field d ''qtyRemaining'' = JNum (whole q)
       \<and> doc_field d ''isDepleted'' = JBool False \<and> exact_range (q - key_sum k xs) \<and> exact_range q"
    "f \<in> {''qtyRemaining'', ''isDepleted''}"
  shows "lot_field (foldl (restock_lot en) (foldl (write_lot_cut iq) m (map (\<lambda>(k, q). \<lparr>lc_ref = k, lc_cutQty = q\<rparr>) c)) r) k f
    = lot_field m k f"
proof -
  let ?w = "\<lambda>k q. [fadd ''qtyRemaining'' (js_neg q), fput ''isDepleted'' (JBool (js_le (js_sub (iq \<lparr>lc_ref = k, lc_cutQty = q\<rparr>) q) (Fin 0)))]"
  let ?b = "\<lambda>k q. [fadd ''qtyRemaining'' q, fput ''isDepleted'' (JBool False), fput ''updatedAt'' (se_now en)]"
  have 1: "foldl (write_lot_cut iq) m (map (\<lambda>(k, q). \<lparr>lc_ref = k, lc_cutQty = q\<rparr>) c) = foldl (\<lambda>m (k, q). merge_set k (?w k q) m) m c"
    by (simp add: foldl_map write_lot_cut_def case_prod_unfold)
  have 2: "foldl (restock_lot en) m' r = foldl (\<lambda>m (k, q). merge_set k (?b k q) m) m' r" for m'
    by (rule foldl_cong) (auto simp: restock_lot_def)
  have mc: "map_of c k = (if k \<in> fst ` set xs then Some (whole (key_sum k xs)) else None)"
    "map_of r k = (if k \<in> fst ` set xs then Some (whole (key_sum k xs)) else None)"
    using assms(1,2) by (simp_all add: sums_to_def)
  note fold = foldl_merge_set [OF sums_to_distinct [OF assms(1)], of ?w m k]
    foldl_merge_set [OF sums_to_distinct [OF assms(2)], of ?b "foldl (\<lambda>m (k, q). merge_set k (?w k q) m) m c" k]
  show ?thesis
  proof (cases "k \<in> fst ` set xs")
    case False
    then show ?thesis using fold mc by (simp add: 1 2 lot_field_def)
  next
    case True
    obtain d q where d: "map_of m k = Some d" "doc_field d ''qtyRemaining'' = JNum (whole q)"
      "doc_field d ''isDepleted'' = JBool False" "exact_range (q - key_sum k xs)" "exact_range q"
      using assms(3) [OF True] by blast
    have "lot_field (foldl (\<lambda>m (k, q). merge_set k (?b k q) m) (foldl (\<lambda>m (k, q). merge_set k (?w k q) m) m c) r) k f
        = doc_field (merge_doc (merge_doc d (?w k (whole (key_sum k xs)))) (?b k (whole (key_sum k xs)))) f"
      using fold mc True d(1) by (simp add: lot_field_def)
    also have "\<dots> = doc_field d f"
    proof -
      let ?n = "key_sum k xs"
      have a: "js_add (js_add (whole q) (js_neg (whole ?n))) (whole ?n) = whole q"
        using d(4,5) whole_add [of "q - ?n" ?n] by (simp only: whole_add_neg diff_add_cancel)
      consider "f = ''qtyRemaining''" | "f = ''isDepleted''" using assms(4) by blast
      then show ?thesis
        by cases (simp_all add: doc_field_merge d(2,3) incremented_def a)
    qed
    finally show ?thesis using d(1) by (simp add: 1 2 lot_field_def)
  qed
qed

section \<open>Settle and void\<close>

definition open_lots :: "pos_db \<Rightarrow> jsstr set" where
  "open_lots db = {k. lot_field (stockLots db) k ''isDepleted'' = JBool False}"

text \<open>The lots hold whole amounts below \<open>2 ^ 51\<close>, under ids that are not the virtual one.\<close>

definition whole_stock_lots :: "pos_db \<Rightarrow> bool" where
  "whole_stock_lots db \<longleftrightarrow> map_wf (stockLots db) \<and> (\<forall>(k, d) \<in> set (stockLots db). real_id k
     \<and> (\<exists>q. doc_field d ''qtyRemaining'' = JNum (whole q) \<and> \<bar>q\<bar> < 2 ^ 51))"

lemma read_lots_sound:
  assumes "whole_stock_lots db"
  shows "sound_lots (open_lots db) (read_lots en db b pid)"
proof -
  let ?ls = "read_lots en db b pid"
  have l: "ml_ref l = ml_id l \<and> ml_id l \<in> open_lots db \<and> real_id (ml_id l) \<and> (\<exists>q. ml_qtyRemaining l = whole q \<and> exact_range q)"
    if mem: "l \<in> set ?ls" for l
  proof -
    obtain k d where kd: "l = lot_of en (k, d)" "(k, d) \<in> set (stockLots db)" "doc_field d ''isDepleted'' = JBool False"
      using mem by (auto simp: read_lots_def lots_query_def)
    obtain q where "doc_field d ''qtyRemaining'' = JNum (whole q)" "\<bar>q\<bar> < 2 ^ 51" "real_id k" "map_of (stockLots db) k = Some d"
      using assms kd(2) by (auto simp: whole_stock_lots_def map_wf_def)
    then show ?thesis using kd by (auto simp: lot_of_def open_lots_def lot_field_def exact_range_def)
  qed
  then obtain g where g: "\<And>l. l \<in> set ?ls \<Longrightarrow> ml_qtyRemaining l = whole (g l) \<and> exact_range (g l)" by metis
  then have "whole_lots ?ls (map g ?ls)" by (auto simp: whole_lots_def)
  then show ?thesis using l by (auto simp: sound_lots_def)
qed

lemma reversal_line_refs: "reversal_line_of e = Some v \<Longrightarrow> doc_field e ''lotRefs'' = JArr rs \<Longrightarrow> rv_lotRefs v = line_refs e"
  by (auto simp: reversal_line_of_def line_refs_def split: jsval.splits)

lemma enriched_line_refs:
  "list_all2 (\<lambda>(l, q) e. \<exists>refs. e = enrich_line l q refs) lqs es \<Longrightarrow> list_all2 (\<lambda>e v. reversal_line_of e = Some v) es vs
    \<Longrightarrow> map rv_lotRefs vs = map line_refs es"
proof (induction lqs es arbitrary: vs rule: list_all2_induct)
  case (Cons lq lqs e es)
  obtain v vs' where v: "vs = v # vs'" "reversal_line_of e = Some v" "list_all2 (\<lambda>e v. reversal_line_of e = Some v) es vs'"
    using Cons.prems by (auto simp: list_all2_Cons1)
  obtain rs where "doc_field e ''lotRefs'' = JArr rs"
    using Cons.hyps(1) enrich_line_fields(3) by (cases lq) auto
  then show ?case using Cons.IH [OF v(3)] reversal_line_refs [OF v(2)] by (simp add: v(1))
qed simp

lemma settled_patch_fields:
  "doc_field (merge_doc d (settled_patch en order p c)) ''lines'' = JArr (sp_lines p)"
  "doc_field (merge_doc d (settled_patch en order p c)) ''branchId'' = doc_field d ''branchId''"
  by (simp_all add: doc_field_merge settled_patch_def buildRecoveryAuditPatch_def Let_def)

text \<open>The movements of the reversal are those of the sale with the sign turned.\<close>

lemma opposite_movements:
  assumes "list_all2 (\<lambda>(l, n) e. \<exists>refs. e = enrich_line l (whole n) refs) lns es"
    "list_all2 (\<lambda>l d. \<exists>mid. d = JObj (sale_movement en order br l mid)) es ds"
    "list_all2 (\<lambda>l d. \<exists>mid. d = JObj (void_movement en' order' reason by' l mid)) es ds'"
    "doc_field order' ''branchId'' = JStr br" "\<forall>(l, n) \<in> set lns. 0 < n"
  shows "list_all proper_movement ds \<and> list_all proper_movement ds' \<and> volume ds = sum_list (map snd lns)
     \<and> volume ds' = sum_list (map snd lns) \<and> (\<forall>pid b. moved pid b ds' = - moved pid b ds)"
  using assms
proof (induction lns es arbitrary: ds ds' rule: list_all2_induct)
  case Nil
  then show ?case by (simp add: moved_def volume_def)
next
  case (Cons ln lns e es)
  obtain l n where ln: "ln = (l, n)" by (cases ln)
  obtain refs where e: "e = enrich_line l (whole n) refs" using Cons.hyps ln by auto
  obtain d ds1 d' ds1' mid mid' where d: "ds = d # ds1" "ds' = d' # ds1'" "d = JObj (sale_movement en order br e mid)"
    "d' = JObj (void_movement en' order' reason by' e mid')"
    "list_all2 (\<lambda>l d. \<exists>mid. d = JObj (sale_movement en order br l mid)) es ds1"
    "list_all2 (\<lambda>l d. \<exists>mid. d = JObj (void_movement en' order' reason by' l mid)) es ds1'"
    using Cons.prems(1,2) by (auto simp: list_all2_Cons1)
  have n: "0 < n" using Cons.prems(4) ln by simp
  have f: "doc_field d ''qty'' = JNum (whole (- n))" "doc_field d' ''qty'' = JNum (whole n)"
    "doc_field d ''productId'' = doc_field d' ''productId''" "doc_field d ''branchId'' = doc_field d' ''branchId''"
    "doc_field d ''type'' = JStr (js ''sale'')"
    using n Cons.prems(3)
    by (simp_all add: d(3,4) sale_movement_def void_movement_def doc_field_JObj e enrich_line_fields num_field_def js_neg_whole)
  then have q: "movement_qty d = - n" "movement_qty d' = n" by (simp_all add: movement_qty_def)
  then show ?case using Cons.IH [OF d(5,6) Cons.prems(3)] Cons.prems(4) f n
    by (auto simp: d(1,2) ln proper_movement_def moved_cons volume_def)
qed

text \<open>C7. Round trip: settling a sale of whole quantities and then voiding it leaves the stock of every
  product in every branch and the remaining amount and the open flag of every lot as they were,
  oversold or not.\<close>

theorem settle_then_void_restores:
  assumes "map_of (asyncOrders db) oid = Some order" "quantities (sale_lines order) (map whole needs)" "sum_list needs < 2 ^ 51"
    "whole_stock_lots db" "\<And>pid b. stock_of db pid b = whole (f pid b) \<and> \<bar>f pid b\<bar> < 2 ^ 51"
    "reconcileSale en oid db = Inr (True, db1)" "handleVoidIntent en' opts None oid db1 = Inr (VoidApplied, db2)"
  shows "stock_of db2 pid b = stock_of db pid b
    \<and> lot_field (stockLots db2) k ''qtyRemaining'' = lot_field (stockLots db) k ''qtyRemaining''
    \<and> lot_field (stockLots db2) k ''isDepleted'' = lot_field (stockLots db) k ''isDepleted''"
proof -
  obtain order1 r p ds where o: "map_of (asyncOrders db) oid = Some order1" and r1: "settle_read db order1 = Inr r"
    and p1: "settle_plan_of en db r order1 = Inr p"
    and m1: "stock_moved db db1 ds"
    and d0: "list_all2 (\<lambda>l d. \<exists>mid. d = JObj (sale_movement en order1 (sr_branchId r) l mid)) (sp_lines p) ds"
    and l1: "stockLots db1 = stockLots (write_lots en r p db)"
    and ao: "asyncOrders db1 = merge_set oid (settled_patch en order1 p (total_cogs (sp_lines p))) (asyncOrders db)"
    using assms(6) by (rule settle_moves)
  have "order1 = order" using o assms(1) by simp
  note r = r1 [unfolded this] and p = p1 [unfolded this] and d1 = d0 [unfolded this]
  have o1: "map_of (asyncOrders db1) oid = Some (merge_doc order (settled_patch en order p (total_cogs (sp_lines p))))"
    using ao assms(1) \<open>order1 = order\<close> by simp
  let ?o = "merge_doc order (settled_patch en order p (total_cogs (sp_lines p)))"
  obtain order2 ls ds' reason by' where o2: "map_of (asyncOrders db1) oid = Some order2"
    and ls2: "reversal_lines order2 = Inr ls" and m2: "stock_moved db1 db2 ds'"
    and d3: "list_all2 (\<lambda>l d. \<exists>mid. d = JObj (void_movement en' order2 reason by' l mid)) (sale_lines order2) ds'"
    and l2: "stockLots db2 = foldl (restock_lot en') (stockLots db1) (planLotRestocks ls)"
    using assms(7) by (rule void_moves)
  have "order2 = ?o" using o1 o2 by simp
  note ls = ls2 [unfolded this] and d2 = d3 [unfolded this]
  have lines: "sale_lines ?o = sp_lines p" by (simp add: sale_lines_def settled_patch_fields)
  obtain qs where q: "quantities (sale_lines order) qs"
    "p = foldl (\<lambda>p (l, q). plan_step db p l q) (initial_plan en db r) (zip (sale_lines order) qs)"
    "list_all2 (\<lambda>(l, q) e. \<exists>refs. e = enrich_line l q refs) (zip (sale_lines order) qs) (sp_lines p)"
    using p by (rule settle_plan)
  have qs: "qs = map whole needs"
    using q(1) assms(2) unfolding quantities_def by (induction arbitrary: needs rule: list_all2_induct) (auto simp: list_all2_Cons1)
  have len: "length (sale_lines order) = length needs" using assms(2) by (simp add: quantities_def list_all2_lengthD)
  have pos: "0 < n" if mem: "n \<in> set needs" for n
  proof -
    obtain i where "i < length needs" "needs ! i = n" using mem by (auto simp: in_set_conv_nth)
    then have "resolveLineQtyBase (sale_lines order ! i) (js ''lines'') = Inr (whole n)"
      using assms(2) len by (auto simp: quantities_def list_all2_conv_all_nth)
    then show ?thesis using resolve_positive by (fastforce simp: whole_lits)
  qed
  let ?lns = "zip (sale_lines order) needs"
  have "list_all2 (\<lambda>(l, n) e. \<exists>refs. e = enrich_line l (whole n) refs) ?lns (sp_lines p)"
    using q(3) by (simp add: qs zip_map2 list_all2_map1 case_prod_unfold)
  moreover have "doc_field ?o ''branchId'' = JStr (sr_branchId r)" using settle_read_Inr(1) [OF r] by (simp add: settled_patch_fields)
  moreover have "\<forall>(l, n) \<in> set ?lns. 0 < n" using pos by (auto dest: set_zip_rightD)
  ultimately have mv: "list_all proper_movement ds" "list_all proper_movement ds'" "volume ds = sum_list needs"
    "volume ds' = sum_list needs" "\<And>pid b. moved pid b ds' = - moved pid b ds"
    using opposite_movements [OF _ d1 d2 [unfolded lines]] len by auto
  have stock: "stock_of db2 pid b = stock_of db pid b"
  proof -
    have "\<bar>f pid b\<bar> + volume ds < 2 ^ 53" for pid b using assms(3) assms(5) [of pid b] mv(3) by simp
    then have s1: "stock_of db1 pid b = whole (f pid b + moved pid b ds)" for pid b
      using m1 mv(1) assms(5) unfolding stock_moved_def by blast
    have "\<bar>f pid b + moved pid b ds\<bar> + volume ds' < 2 ^ 53" for pid b
      using assms(3) conjunct2 [OF assms(5) [of pid b]] mv(3,4) moved_le_volume [of pid b ds] by simp
    then have "stock_of db2 pid b = whole ((f pid b + moved pid b ds) + moved pid b ds')"
      using m2 mv(2) s1 unfolding stock_moved_def by (elim conjE allE [where x = "\<lambda>pid b. f pid b + moved pid b ds"]) blast
    then show ?thesis using assms(5) mv(5) by simp
  qed
  have init: "sound_plan (open_lots db) (initial_plan en db r) []"
    using read_lots_sound [OF assms(4)]
    by (auto simp: sound_plan_def initial_plan_def cut_pairs_def whole_pairs_def real_refs_def ref_pairs_def good_pairs_def)
  have tot: "n \<le> sum_list needs" if "n \<in> set needs" for n
    using that pos by (metis member_le_sum_list order_less_imp_le)
  have "\<forall>n \<in> set needs. 0 \<le> n \<and> exact_range n" using pos tot assms(3) by (fastforce simp: exact_range_def)
  then obtain xs where x: "sound_plan (open_lots db) p xs" "sum_list (map snd xs) \<le> sum_list needs"
    using sound_plan_fold [OF init qs _] len q(2) qs by fastforce
  have x': "cut_pairs (sp_cuts p) = whole_pairs xs" "ref_pairs (real_refs (concat (map line_refs (sp_lines p)))) = whole_pairs xs"
    "good_pairs (open_lots db) xs" "sum_list (map snd xs) < 2 ^ 53"
    using x assms(3) by (auto simp: sound_plan_def)
  have "list_all2 (\<lambda>e v. reversal_line_of e = Some v) (sp_lines p) ls" using reversal_lines_Inr [OF ls] by (simp add: lines)
  then have "map rv_lotRefs ls = map line_refs (sp_lines p)" by (rule enriched_line_refs [OF q(3)])
  then have sums: "sums_to (foldl merge_cut [] (sp_cuts p)) xs" "sums_to (planLotRestocks ls) xs"
    using merged_cuts [OF x'(1,3,4)] restocks_sum [OF _ x'(3,4), of ls] x'(2) by simp_all
  have ps: "\<forall>(k, n) \<in> set xs. 0 < n" using x'(3) by (auto simp: good_pairs_def)
  have keys: "\<exists>d q. map_of (stockLots db) k = Some d \<and> doc_field d ''qtyRemaining'' = JNum (whole q)
       \<and> doc_field d ''isDepleted'' = JBool False \<and> exact_range (q - key_sum k xs) \<and> exact_range q" if "k \<in> fst ` set xs" for k
  proof -
    have "k \<in> open_lots db" using that x'(3) by (auto simp: good_pairs_def)
    then obtain d where d: "map_of (stockLots db) k = Some d" "doc_field d ''isDepleted'' = JBool False"
      by (auto simp: open_lots_def lot_field_def split: option.splits)
    then obtain q where "doc_field d ''qtyRemaining'' = JNum (whole q)" "\<bar>q\<bar> < 2 ^ 51"
      using assms(4) by (auto simp: whole_stock_lots_def dest!: map_of_SomeD)
    moreover have "0 \<le> key_sum k xs" "key_sum k xs < 2 ^ 51"
      using key_sum_nonneg [OF ps, of k] key_sum_le_total [OF ps, of k] x(2) assms(3) by simp_all
    ultimately show ?thesis using d by (auto simp: exact_range_def)
  qed
  have "lot_field (stockLots db2) k g = lot_field (stockLots db) k g" if "g \<in> {''qtyRemaining'', ''isDepleted''}" for g
    unfolding l2 l1 write_lots_def mergeLotCuts_def
    using cut_and_restock [OF sums keys that, of en' "initial_qty en db r" k] by simp
  then show ?thesis using stock by simp
qed

end
