(* ===== verification/SettlementDemo.thy ===== *)
theory SettlementDemo
  imports SettlementRoundTrip SettlementRetry SettlementGaps SettlementNeverBlocks
begin

text \<open>
  A concrete shop: one product with two units in one lot, a sale of three (so one unit is
  oversold), settled, voided, delivered again, failed and retried. The properties of the
  settlement theories are applied to it.
\<close>

section \<open>Money in whole Baht\<close>

lemma whole_mul: "0 \<le> a \<Longrightarrow> 0 \<le> b \<Longrightarrow> exact_range (a * b) \<Longrightarrow> js_mul (whole a) (whole b) = whole (a * b)"
  using fl_whole [of "a * b"] by (simp add: whole_def js_mul_Fin)

lemma roundMoney_whole:
  assumes "0 \<le> n" "n * 100 < 2 ^ 53"
  shows "roundMoney_fifo (whole n) = whole n"
proof -
  have e: "exact_range (n * 100)" "exact_range n" using assms by (auto simp: exact_range_def)
  have 100: "Fin 100 = whole 100" by (simp add: whole_def)
  have "js_mul (whole n) (Fin 100) = whole (n * 100)" using whole_mul [OF assms(1) _ e(1)] by (simp add: 100)
  moreover have "math_round (whole (n * 100)) = whole (n * 100)"
    using math_round_near [of "of_int (n * 100)" "n * 100"] assms(1) by (simp add: whole_def)
  moreover have "js_div (whole (n * 100)) (Fin 100) = whole n"
    using fl_whole [OF e(2)] assms(1) by (simp add: whole_def js_div_Fin)
  ultimately show ?thesis by (simp add: roundMoney_fifo_def)
qed

section \<open>The shop\<close>

definition demo_env :: settle_env where
  "demo_env = \<lparr>se_now = JStr (js ''now''), se_autoId = (\<lambda>n. decimal n), se_fromMillis = (\<lambda>n. Some (JNum n)),
     se_timestampMs = (\<lambda>_. None), se_indexCmp = (\<lambda>_ _. 0), se_libraryMessage = js ''failed''\<rparr>"

definition demo_line :: jsval where
  "demo_line = JObj [(js ''productId'', JStr (js ''P'')), (js ''productSnap'', JNull), (js ''unit'', JStr (js ''pc'')),
     (js ''unitFactor'', JNum (whole 1)), (js ''qty'', JNum (whole 3)), (js ''qtyBase'', JNum (whole 3)),
     (js ''unitPrice'', JNum (whole 10)), (js ''discountAmt'', JNum (whole 0)), (js ''lineTotal'', JNum (whole 30))]"

definition demo_sale :: jsval where
  "demo_sale = JObj [(js ''id'', JStr (js ''S'')), (js ''billId'', JStr (js ''bill'')), (js ''branchId'', JStr (js ''B'')),
     (js ''customerId'', JNull), (js ''staffId'', JStr (js ''ann'')), (js ''staffName'', JStr (js ''Ann'')),
     (js ''shiftId'', JStr (js ''sh'')), (js ''status'', JStr (js ''completed'')), (js ''subtotal'', JNum (whole 30)),
     (js ''discountAmt'', JNum (whole 0)), (js ''billDiscount'', JNum (whole 0)), (js ''fee'', JNum (whole 0)),
     (js ''total'', JNum (whole 30)), (js ''paidAmt'', JNum (whole 30)), (js ''changeAmt'', JNum (whole 0)),
     (js ''creditAmt'', JNum (whole 0)), (js ''priceLevelId'', JNull), (js ''clientCreatedAt'', JNum (whole 1000)),
     (js ''lines'', JArr [demo_line]),
     (js ''payments'', JArr [JObj [(js ''method'', JStr (js ''cash'')), (js ''amount'', JNum (whole 30))]]),
     (js ''reconcileStatus'', JStr (js ''pending_reconcile''))]"

definition demo_lot :: jsval where
  "demo_lot = JObj [(js ''productId'', JStr (js ''P'')), (js ''branchId'', JStr (js ''B'')), (js ''isDepleted'', JBool False),
     (js ''qtyRemaining'', JNum (whole 2)), (js ''costPerUnit'', JNum (whole 4)),
     (js ''receivedAt'', JObj [(js ''seconds'', JNum (whole 1))])]"

definition empty_db :: pos_db where
  "empty_db = \<lparr>asyncOrders = [], orders = [], orderItems = [], payments = [], products = [], productStocks = [],
     stockLots = [], stockMovements = [], customers = [], creditAccounts = [], creditTransactions = [], posDevices = [],
     auditLogs = [], saleReturnLedgers = [], next_auto = 0\<rparr>"

definition demo_shop :: pos_db where
  "demo_shop = empty_db\<lparr>productStocks := [((js ''P'', js ''B''), JObj [(js ''totalStockBase'', JNum (whole 2))])],
     stockLots := [(js ''L'', demo_lot)]\<rparr>"

definition demo_db :: pos_db where
  "demo_db = demo_shop\<lparr>asyncOrders := [(js ''S'', demo_sale)]\<rparr>"

section \<open>The sale settles\<close>

lemma demo_fields:
  "doc_field demo_sale ''id'' = JStr (js ''S'')" "doc_field demo_sale ''billId'' = JStr (js ''bill'')"
  "doc_field demo_sale ''branchId'' = JStr (js ''B'')" "doc_field demo_sale ''customerId'' = JNull"
  "doc_field demo_sale ''staffId'' = JStr (js ''ann'')" "doc_field demo_sale ''staffName'' = JStr (js ''Ann'')"
  "doc_field demo_sale ''shiftId'' = JStr (js ''sh'')" "doc_field demo_sale ''status'' = JStr (js ''completed'')"
  "doc_field demo_sale ''subtotal'' = JNum (whole 30)" "doc_field demo_sale ''discountAmt'' = JNum (whole 0)"
  "doc_field demo_sale ''billDiscount'' = JNum (whole 0)" "doc_field demo_sale ''fee'' = JNum (whole 0)"
  "doc_field demo_sale ''total'' = JNum (whole 30)" "doc_field demo_sale ''paidAmt'' = JNum (whole 30)"
  "doc_field demo_sale ''changeAmt'' = JNum (whole 0)" "doc_field demo_sale ''creditAmt'' = JNum (whole 0)"
  "doc_field demo_sale ''priceLevelId'' = JNull" "doc_field demo_sale ''clientCreatedAt'' = JNum (whole 1000)"
  "doc_field demo_sale ''lines'' = JArr [demo_line]" "doc_field demo_sale ''deviceId'' = JUndef"
  "doc_field demo_sale ''customerSnap'' = JUndef" "doc_field demo_sale ''voidReconciled'' = JUndef"
  "doc_field demo_sale ''voidedBy'' = JUndef" "doc_field demo_sale ''voidReason'' = JUndef"
  "doc_field demo_sale ''voidRequested'' = JUndef"
  "doc_field demo_sale ''payments'' = JArr [JObj [(js ''method'', JStr (js ''cash'')), (js ''amount'', JNum (whole 30))]]"
  "doc_field demo_sale ''reconcileStatus'' = JStr (js ''pending_reconcile'')"
  by (simp_all add: demo_sale_def doc_field_def)

lemma demo_line_fields:
  "doc_field demo_line ''productId'' = JStr (js ''P'')" "doc_field demo_line ''productSnap'' = JNull"
  "doc_field demo_line ''unit'' = JStr (js ''pc'')" "doc_field demo_line ''unitFactor'' = JNum (whole 1)"
  "doc_field demo_line ''qty'' = JNum (whole 3)" "doc_field demo_line ''qtyBase'' = JNum (whole 3)"
  "doc_field demo_line ''unitPrice'' = JNum (whole 10)" "doc_field demo_line ''discountAmt'' = JNum (whole 0)"
  "doc_field demo_line ''lineTotal'' = JNum (whole 30)" "doc_field demo_line ''originalPrice'' = JUndef"
  by (simp_all add: demo_line_def doc_field_def)

lemma demo_line_qty: "resolveLineQtyBase demo_line f = Inr (whole 3)"
  by (simp add: resolveLineQtyBase_def demo_line_def doc_field_def positive_num_def whole_lits)

lemma demo_valid: "validateCanonicalSaleSource demo_sale = Inr ()"
proof -
  have "validateLine demo_line 0 = Inr ()"
    by (simp add: validateLine_def demo_line_qty Let_def) (simp add: demo_line_def reqNum_def doc_field_def)
  moreover have "validate_payments demo_sale = Inr ()"
    by (simp add: validate_payments_def demo_fields whole_lits)
      (simp add: demo_sale_def validatePayment_def CANONICAL_PAYMENT_METHODS_def doc_field_def)
  ultimately show ?thesis
    by (simp add: validateCanonicalSaleSource_def optNum_def demo_fields validate_status_def validate_time_def
        validate_lines_def CANONICAL_SOURCE_STATUSES_def positive_num_def whole_lits)
      (simp add: demo_sale_def)
qed

lemma demo_read: "settle_read demo_db demo_sale = Inr \<lparr>sr_branchId = js ''B'', sr_productIds = [js ''P''], sr_customer = None,
    sr_credit = None, sr_device = None\<rparr>"
  by (simp add: settle_read_def sale_lines_def demo_fields doc_id_def read_customer_def read_device_def)
    (simp add: demo_line_def doc_field_def)

lemma demo_lots: "read_lots demo_env demo_db (js ''B'') (js ''P'') =
    [\<lparr>ml_ref = js ''L'', ml_id = js ''L'', ml_qtyRemaining = whole 2, ml_costPerUnit = whole 4,
      ml_receivedAtMs = js_mul (whole 1) (Fin 1000)\<rparr>]"
  by (simp add: read_lots_def lots_query_def demo_db_def demo_shop_def empty_db_def demo_lot_def doc_field_def sort_by_def
      lot_of_def demo_env_def parseReceivedAtMs_def whole_lits or_else_def is_nullish_def)

definition demo_refs :: "lot_ref list" where
  "demo_refs = [\<lparr>lr_lotId = js ''L'', lr_qty = whole 2, lr_cost = whole 4\<rparr>,
     \<lparr>lr_lotId = OVERSELL_LOT_ID, lr_qty = whole 1, lr_cost = whole 4\<rparr>]"

definition demo_plan :: settle_plan where
  "demo_plan = \<lparr>sp_lots = [(js ''P'', [\<lparr>ml_ref = js ''L'', ml_id = js ''L'', ml_qtyRemaining = whole 0, ml_costPerUnit = whole 4,
      ml_receivedAtMs = js_mul (whole 1) (Fin 1000)\<rparr>])], sp_stockDeduct = [(js ''P'', whole 3)],
     sp_cuts = [\<lparr>lc_ref = js ''L'', lc_cutQty = whole 2\<rparr>], sp_lines = [enrich_line demo_line (whole 3) demo_refs],
     sp_hadOversell = True\<rparr>"

lemma demo_cut:
  "planFifoCutFromState [\<lparr>ml_ref = js ''L'', ml_id = js ''L'', ml_qtyRemaining = whole 2, ml_costPerUnit = whole 4,
      ml_receivedAtMs = js_mul (whole 1) (Fin 1000)\<rparr>] (whole 3) =
    ([\<lparr>ml_ref = js ''L'', ml_id = js ''L'', ml_qtyRemaining = whole 0, ml_costPerUnit = whole 4,
      ml_receivedAtMs = js_mul (whole 1) (Fin 1000)\<rparr>], [\<lparr>lc_ref = js ''L'', lc_cutQty = whole 2\<rparr>],
     [\<lparr>lr_lotId = js ''L'', lr_qty = whole 2, lr_cost = whole 4\<rparr>], whole 1)"
  by (simp add: whole_lits exact_range_def Let_def)

lemma demo_planned: "settle_plan_of demo_env demo_db \<lparr>sr_branchId = js ''B'', sr_productIds = [js ''P''], sr_customer = None,
    sr_credit = None, sr_device = None\<rparr> demo_sale = Inr demo_plan"
proof -
  have "productId_of demo_line = js ''P''" by (simp add: productId_of_def demo_line_def doc_field_def)
  then show ?thesis
    by (simp add: settle_plan_of_def initial_plan_def demo_lots sale_lines_def demo_fields plan_line_def from_source_def
        demo_line_qty demo_cut bump_def whole_lits demo_plan_def demo_refs_def resolveOversellCost_def Let_def
        exact_range_def)
qed

lemma demo_cost: "line_cost demo_refs = whole 12"
  by (simp add: line_cost_def demo_refs_def whole_lits whole_mul roundMoney_whole exact_range_def)

lemma demo_cogs: "total_cogs (sp_lines demo_plan) = whole 12"
  by (simp add: total_cogs_def demo_plan_def enrich_line_fields demo_cost or_else_def is_nullish_def whole_lits roundMoney_whole
      exact_range_def)

abbreviation "demo_reads \<equiv> \<lparr>sr_branchId = js ''B'', sr_productIds = [js ''P''], sr_customer = None,
    sr_credit = None, sr_device = None\<rparr>"

lemma demo_ok: "settle_ok demo_env demo_db demo_sale (js ''S'')"
proof -
  have "movement_ok demo_env demo_sale demo_line"
    by (simp add: movement_ok_def sale_movement_def enrich_line_fields demo_line_fields demo_fields demo_env_def or_else_def
        is_nullish_def)
  moreover have "header_ok demo_env (js ''S'') demo_sale (JNum (whole 1000))"
    by (simp add: header_ok_def canonical_doc_def demo_fields demo_env_def or_else_def is_nullish_def money_field_def Let_def)
  moreover have "item_ok demo_line"
    by (simp add: item_ok_def item_doc_def enrich_line_fields demo_line_fields or_else_def is_nullish_def Let_def)
  moreover have "\<not> has_undef (enrich_line demo_line (Fin 0) [])"
    by (simp add: enrich_line_def demo_line_def merge_doc_def write_field_def)
  moreover have "payment_ok demo_sale (js ''S'') (JNum (whole 1000)) (JObj [(js ''method'', JStr (js ''cash'')), (js ''amount'', JNum (whole 30))])"
    by (simp add: payment_ok_def payment_doc_def demo_fields doc_field_JObj or_else_def is_nullish_def)
  moreover have "sale_time demo_env demo_sale = Inr (JNum (whole 1000))" "\<not> has_undef (se_now demo_env)"
    by (simp_all add: sale_time_def demo_env_def demo_fields)
  ultimately have "documents_ok demo_env demo_sale (js ''S'')"
    by (simp add: documents_ok_def demo_fields sale_lines_def sale_payments_def)
  moreover have "movement_ok demo_env demo_sale demo_line" by fact
  ultimately show ?thesis
    by (simp add: settle_ok_def demo_valid demo_read charge_ok_def sale_lines_def demo_fields)
qed

text \<open>After the settlement: the documents the reversal reads.\<close>

lemma demo_async:
  assumes "reconcileSale demo_env (js ''S'') demo_db = Inr (True, db)"
  shows "asyncOrders db = merge_set (js ''S'') (settled_patch demo_env demo_sale demo_plan (whole 12)) (asyncOrders demo_db)"
proof -
  obtain order r p where "map_of (asyncOrders demo_db) (js ''S'') = Some order" "settle_read demo_db order = Inr r"
    "settle_plan_of demo_env demo_db r order = Inr p"
    "asyncOrders db = merge_set (js ''S'') (settled_patch demo_env order p (total_cogs (sp_lines p))) (asyncOrders demo_db)"
    using assms by (rule reconcileSale_settles)
  moreover have "map_of (asyncOrders demo_db) (js ''S'') = Some demo_sale" by (simp add: demo_db_def)
  ultimately show ?thesis using demo_read demo_planned demo_cogs by simp
qed

lemma demo_settles:
  obtains db where "reconcileSale demo_env (js ''S'') demo_db = Inr (True, db)"
    "map_of (asyncOrders db) (js ''S'') = Some (merge_doc demo_sale (settled_patch demo_env demo_sale demo_plan (whole 12)))"
    "map_of (orders db) (js ''S'') = Some (JObj (canonical_doc demo_env demo_sale (JStr (js ''S'')) (JStr (js ''completed'')) (whole 12) (JNum (whole 1000))))"
    "saleReturnLedgers db = []"
proof -
  have o: "map_of (asyncOrders demo_db) (js ''S'') = Some demo_sale" "orders demo_db = []" "saleReturnLedgers demo_db = []"
    by (simp_all add: demo_db_def demo_shop_def empty_db_def)
  have "ok (settle_sale demo_env (js ''S'') demo_sale (js ''S'') demo_db)" by (simp add: ok_settle demo_ok)
  then obtain db where s: "reconcileSale demo_env (js ''S'') demo_db = Inr (True, db)"
    by (auto simp: reconcileSale_def o demo_fields doc_id_def ok_def)
  obtain order cid r p saleTime where "map_of (asyncOrders demo_db) (js ''S'') = Some order" "doc_field order ''id'' = JStr cid"
    "settle_read demo_db order = Inr r" "settle_plan_of demo_env demo_db r order = Inr p" "sale_time demo_env order = Inr saleTime"
    "orders db = map_set cid (written_canonical demo_env order cid p saleTime) (orders demo_db)"
    "asyncOrders db = merge_set (js ''S'') (settled_patch demo_env order p (total_cogs (sp_lines p))) (asyncOrders demo_db)"
    "saleReturnLedgers db = saleReturnLedgers demo_db"
    using s by (rule reconcileSale_settles)
  then show ?thesis using o demo_read demo_planned that [OF s]
    by (auto simp: demo_fields demo_cogs written_canonical_def sale_time_def demo_env_def settled_status_def creditAmt_of_def whole_lits)
qed

section \<open>The sale is voided\<close>

lemma demo_now: "se_now demo_env = JStr (js ''now'')"
  by (simp add: demo_env_def)

abbreviation "demo_settled \<equiv> merge_doc demo_sale (settled_patch demo_env demo_sale demo_plan (whole 12))"
abbreviation "demo_order \<equiv> JObj (canonical_doc demo_env demo_sale (JStr (js ''S'')) (JStr (js ''completed'')) (whole 12) (JNum (whole 1000)))"

lemma demo_settled_marker: "\<not> terminalMarkerPresent demo_settled"
  by (simp add: terminalMarkerPresent_def has_own_merge settled_patch_def buildRecoveryAuditPatch_def demo_fields Let_def)
    (simp add: demo_sale_def)

lemma demo_settled_fields:
  "doc_field demo_settled ''reconcileStatus'' = JStr (js ''settled'')" "doc_field demo_settled ''voidReconciled'' = JUndef"
  "doc_field demo_settled ''id'' = JStr (js ''S'')" "doc_field demo_settled ''branchId'' = JStr (js ''B'')"
  "doc_field demo_settled ''creditAmt'' = JNum (whole 0)" "doc_field demo_settled ''staffId'' = JStr (js ''ann'')"
  "doc_field demo_settled ''voidedBy'' = JUndef" "doc_field demo_settled ''voidReason'' = JUndef"
  "doc_field demo_settled ''total'' = JNum (whole 30)"
  "doc_field demo_settled ''lines'' = JArr [enrich_line demo_line (whole 3) demo_refs]"
  "doc_field demo_settled ''status'' = JStr (js ''completed'')"
  by (simp_all add: doc_field_merge settled_patch_def buildRecoveryAuditPatch_def demo_fields Let_def demo_plan_def
      settled_status_def creditAmt_of_def whole_lits)

lemma demo_canonical:
  "doc_field demo_order ''status'' = JStr (js ''completed'')" "readRevision demo_order = RevValid (Fin 1)"
  "classifyRevisionFault demo_order = None"
proof -
  have c: "doc_field demo_order ''historyRev'' = JNum (Fin 1)" "has_own demo_order ''historyRev''"
    unfolding canonical_doc_def Let_def by (simp_all add: doc_field_JObj)
  show "doc_field demo_order ''status'' = JStr (js ''completed'')"
    by (simp add: doc_field_JObj canonical_doc_def Let_def)
  show "readRevision demo_order = RevValid (Fin 1)"
    using c(2) by (simp add: readRevision_def c(1) isInteger_def MAX_SAFE_INTEGER_def js_lt_def)
  then show "classifyRevisionFault demo_order = None"
    by (simp add: classifyRevisionFault_def canMintSuccessor_def MAX_SAFE_INTEGER_def js_lt_def)
qed

text \<open>A reversal of the demo sale applies, whatever the stock of the shop is by then.\<close>

lemma demo_voids:
  assumes "map_of (asyncOrders db) (js ''S'') = Some (merge_doc demo_sale (settled_patch demo_env demo_sale demo_plan (whole 12)))"
    "map_of (orders db) (js ''S'') = Some (JObj (canonical_doc demo_env demo_sale (JStr (js ''S'')) (JStr (js ''completed'')) (whole 12) (JNum (whole 1000))))"
    "saleReturnLedgers db = []"
  shows "\<exists>db'. handleVoidIntent demo_env no_void_options None (js ''S'') db = Inr (VoidApplied, db')"
proof -
  let ?o = "merge_doc demo_sale (settled_patch demo_env demo_sale demo_plan (whole 12))"
  let ?c = "JObj (canonical_doc demo_env demo_sale (JStr (js ''S'')) (JStr (js ''completed'')) (whole 12) (JNum (whole 1000)))"
  let ?l = "enrich_line demo_line (whole 3) demo_refs"
  note m = demo_settled_marker and f = demo_settled_fields and c = demo_canonical
  have "all_some (map lot_ref_of (map lot_ref_doc demo_refs)) = Some demo_refs" using lot_refs_back all_some_iff by blast
  then have "reversal_line_of ?l = Some \<lparr>rv_productId = js ''P'', rv_qtyBase = whole 3, rv_lotRefs = demo_refs\<rparr>"
    by (simp add: reversal_line_of_def enrich_line_fields demo_line_fields or_else_def is_nullish_def del: map_map)
  then have r: "reversal_lines ?o = Inr [\<lparr>rv_productId = js ''P'', rv_qtyBase = whole 3, rv_lotRefs = demo_refs\<rparr>]"
    by (simp add: reversal_lines_def sale_lines_def f all_some_def)
  let ?ls = "[\<lparr>rv_productId = js ''P'', rv_qtyBase = whole 3, rv_lotRefs = demo_refs\<rparr>]" and ?by = "JStr (js ''ann'')"
  let ?p = "void_canonical_patch demo_env JNull ?by (Fin 1)"
  have "planLotRestocks ?ls = [(js ''L'', whole 2)]" "planStockRestores ?ls = [(js ''P'', whole 3)]"
    by (simp_all add: planLotRestocks_def planStockRestores_def restock_step_def restore_step_def bump_def demo_refs_def
        OVERSELL_LOT_ID_def whole_lits exact_range_def)
  then have 1: "\<exists>db1. void_stock demo_env ?o ?ls db = Inr db1"
    by (simp add: void_stock_def f doc_id_def Let_def)
  have "\<not> has_undef (JObj (void_movement demo_env ?o JNull ?by ?l mid))" for mid
    by (simp add: void_movement_def f enrich_line_fields demo_line_fields demo_refs_def OVERSELL_LOT_ID_def or_else_def is_nullish_def
        lot_ref_doc_def doc_field_JObj demo_now)
  then have 2: "\<exists>db2. fold_result (write_movement demo_env (void_movement demo_env ?o JNull ?by)) db1 (sale_lines ?o) = Inr db2" for db1
    by (simp add: sale_lines_def f write_movement_def add_doc_def Let_def del: has_undef.simps)
  have "\<not> has_undef (JObj (void_audit demo_env ?o JNull ?by aid))" for aid
    by (simp add: void_audit_def f demo_now)
  then have 3: "\<exists>d db3. add_doc demo_env (void_audit demo_env ?o JNull ?by) db2 = Inr (d, db3)" for db2
    by (simp add: add_doc_def Let_def del: has_undef.simps)
  have 4: "writable ?p" by (simp add: writable_def void_canonical_patch_def demo_now)
  have cr: "read_void_credit db ?o = Inr None" "current_rev ?c = Fin 1"
    by (simp_all add: read_void_credit_def creditAmt_of_def f whole_lits current_rev_def c)
  obtain db1 where d1: "void_stock demo_env ?o ?ls db = Inr db1" using 1 by blast
  obtain db2 where d2: "fold_result (write_movement demo_env (void_movement demo_env ?o JNull ?by)) db1 (sale_lines ?o) = Inr db2"
    using 2 by blast
  obtain d db3 where d3: "add_doc demo_env (void_audit demo_env ?o JNull ?by) db2 = Inr (d, db3)" using 3 by blast
  have "\<exists>db'. apply_void demo_env no_void_options None (js ''S'') ?o (js ''S'') ?c db = Inr db'"
    by (simp add: apply_void_def f cr r d1 d2 d3 4 void_credit_def require_def or_else_def is_nullish_def)
  then show ?thesis
    using assms m by (auto simp: handleVoidIntent_def generic_options void_transaction_def f void_settled_def doc_id_def c)
qed

section \<open>The round trip\<close>

definition demo_stock :: "jsstr \<Rightarrow> jsstr \<Rightarrow> int" where
  "demo_stock pid b = (if pid = js ''P'' \<and> b = js ''B'' then 2 else 0)"

lemma demo_stock_of: "stock_of demo_db pid b = whole (demo_stock pid b)" "stock_of demo_shop pid b = whole (demo_stock pid b)"
  by (simp_all add: stock_of_def demo_stock_def demo_db_def demo_shop_def empty_db_def doc_field_def)

theorem settle_then_void_restores_witness:
  "\<exists>db1 db2. reconcileSale demo_env (js ''S'') demo_db = Inr (True, db1)
    \<and> handleVoidIntent demo_env no_void_options None (js ''S'') db1 = Inr (VoidApplied, db2)
    \<and> stock_of db2 (js ''P'') (js ''B'') = whole 2 \<and> lot_field (stockLots db2) (js ''L'') ''qtyRemaining'' = JNum (whole 2)
    \<and> lot_field (stockLots db2) (js ''L'') ''isDepleted'' = JBool False"
proof -
  obtain db1 where 1: "reconcileSale demo_env (js ''S'') demo_db = Inr (True, db1)"
    "\<exists>db2. handleVoidIntent demo_env no_void_options None (js ''S'') db1 = Inr (VoidApplied, db2)"
    by (rule demo_settles) (meson demo_voids)
  then obtain db2 where 2: "handleVoidIntent demo_env no_void_options None (js ''S'') db1 = Inr (VoidApplied, db2)" by blast
  have o: "map_of (asyncOrders demo_db) (js ''S'') = Some demo_sale" by (simp add: demo_db_def)
  have q: "quantities (sale_lines demo_sale) (map whole [3])"
    by (simp add: quantities_def sale_lines_def demo_fields demo_line_qty)
  have l: "whole_stock_lots demo_db"
    by (simp add: whole_stock_lots_def map_wf_def demo_db_def demo_shop_def empty_db_def real_id_def OVERSELL_LOT_ID_def demo_lot_def
        doc_field_def)
  have "stock_of demo_db pid b = whole (demo_stock pid b) \<and> \<bar>demo_stock pid b\<bar> < 2 ^ 51" for pid b
    by (simp add: demo_stock_of demo_stock_def)
  note r = settle_then_void_restores [OF o q _ l this 1(1) 2, of "js ''P''" "js ''B''" "js ''L''"]
  have "lot_field (stockLots demo_db) (js ''L'') ''qtyRemaining'' = JNum (whole 2)"
    "lot_field (stockLots demo_db) (js ''L'') ''isDepleted'' = JBool False"
    by (simp_all add: lot_field_def demo_db_def demo_shop_def demo_lot_def doc_field_def)
  then show ?thesis using 1(1) 2 r by (auto simp: demo_stock_of demo_stock_def)
qed

section \<open>Runs\<close>

lemma step_log: "set lg \<subseteq> set (fst (settle_step (lg, db) e))"
  by (cases e) (auto split: prod.splits sum.splits void_outcome.splits retry_result.splits repair_outcome.splits)

lemma log_grows: "set lg \<subseteq> set (fst (run settle_step (lg, db) es))"
proof (induction es arbitrary: lg db)
  case (Cons e es)
  obtain lg' db' where s: "settle_step (lg, db) e = (lg', db')" by (metis surj_pair)
  then show ?case using Cons.IH [of lg' db'] step_log [of lg db e] by auto
qed simp

abbreviation "demo_delivery \<equiv> DeliverWrite demo_env (delivered (js ''S'') demo_sale)"
abbreviation "demo_creation \<equiv> CreateSale (js ''S'') demo_sale"
abbreviation "demo_void \<equiv> PrivilegedVoid demo_env no_void_options None (js ''S'')"

lemma demo_created: "settle_step (lg, demo_shop) demo_creation = (lg, demo_db)"
proof -
  have "safeInitialReconcileState demo_sale"
    by (simp add: safeInitialReconcileState_def demo_fields SERVER_OWNED_FIELDS_def is_nullish_def)
      (simp add: demo_sale_def doc_field_def)
  then show ?thesis by (simp add: demo_shop_def empty_db_def demo_db_def demo_sale_def)
qed

lemma demo_delivered:
  assumes "reconcileSale demo_env (js ''S'') demo_db = Inr (True, db1)"
  shows "settle_step (lg, demo_db) demo_delivery = (lg @ [Settled (js ''S'')], db1)"
  using assms
  by (simp add: delivered_def reconcileOnWrite_def demo_fields run_settle_def sale_id_def)
    (simp add: demo_db_def demo_fields)

theorem settled_and_reversed_once_witness:
  "\<exists>lg db'. run settle_step ([], demo_shop) [demo_creation, demo_delivery, demo_void, demo_delivery, demo_void] = (lg, db')
    \<and> Settled (js ''S'') \<in> set lg \<and> Reversed (js ''S'') \<in> set lg
    \<and> count_list lg (Settled (js ''S'')) + count_list lg (Rebuilt (js ''S'')) \<le> 1
    \<and> count_list lg (Reversed (js ''S'')) \<le> count_list lg (Settled (js ''S'')) + count_list lg (Rebuilt (js ''S''))"
proof -
  let ?es = "[demo_creation, demo_delivery, demo_void, demo_delivery, demo_void]"
  obtain db1 db2 where 1: "reconcileSale demo_env (js ''S'') demo_db = Inr (True, db1)" and id: "sale_id db1 (js ''S'') = js ''S''"
    and 2: "handleVoidIntent demo_env no_void_options None (js ''S'') db1 = Inr (VoidApplied, db2)"
  proof (rule demo_settles)
    fix db
    assume a: "reconcileSale demo_env (js ''S'') demo_db = Inr (True, db)"
      "map_of (asyncOrders db) (js ''S'') = Some (merge_doc demo_sale (settled_patch demo_env demo_sale demo_plan (whole 12)))"
      "map_of (orders db) (js ''S'') = Some (JObj (canonical_doc demo_env demo_sale (JStr (js ''S'')) (JStr (js ''completed'')) (whole 12) (JNum (whole 1000))))"
      "saleReturnLedgers db = []"
    have "sale_id db (js ''S'') = js ''S''"
      by (simp add: sale_id_def a(2) doc_field_merge settled_patch_def buildRecoveryAuditPatch_def demo_fields Let_def)
    then show thesis using that a(1) demo_voids [OF a(2-4)] by blast
  qed
  have "settle_step (lg, db1) demo_void = (lg @ [Reversed (js ''S'')], db2)" for lg
    by (simp add: 2 id)
  then have r: "run settle_step ([], demo_shop) ?es
      = run settle_step ([Settled (js ''S''), Reversed (js ''S'')], db2) [demo_delivery, demo_void]"
    by (simp only: run_simps demo_created demo_delivered [OF 1] append.simps)
  obtain lg db' where e: "run settle_step ([], demo_shop) ?es = (lg, db')" by (metis surj_pair)
  have "set [Settled (js ''S''), Reversed (js ''S'')] \<subseteq> set lg"
    using log_grows [of "[Settled (js ''S''), Reversed (js ''S'')]" db2 "[demo_delivery, demo_void]"]
    unfolding r [symmetric] e by (simp only: fst_conv)
  then have m: "Settled (js ''S'') \<in> set lg" "Reversed (js ''S'') \<in> set lg" by simp_all
  have "orders demo_shop = []" by (simp add: demo_shop_def empty_db_def)
  from settled_and_reversed_once [OF this e, of "js ''S''"] show ?thesis using e m by blast
qed

theorem stock_is_opening_plus_movements_witness:
  "\<exists>lg db'. run settle_step ([], demo_shop) [demo_creation, demo_delivery] = (lg, db')
    \<and> moved (js ''P'') (js ''B'') (stockMovements db') = - 3 \<and> stock_of db' (js ''P'') (js ''B'') = whole (- 1)"
proof -
  obtain db1 where 1: "reconcileSale demo_env (js ''S'') demo_db = Inr (True, db1)" by (rule demo_settles)
  have e: "run settle_step ([], demo_shop) [demo_creation, demo_delivery] = ([Settled (js ''S'')], db1)"
    by (simp only: run_simps demo_created demo_delivered [OF 1] append.simps)
  obtain order r p ds where o: "map_of (asyncOrders demo_db) (js ''S'') = Some order" and r: "settle_read demo_db order = Inr r"
    and p: "settle_plan_of demo_env demo_db r order = Inr p" and m: "stock_moved demo_db db1 ds"
    and d: "list_all2 (\<lambda>l d. \<exists>mid. d = JObj (sale_movement demo_env order (sr_branchId r) l mid)) (sp_lines p) ds"
    using 1 by (rule settle_moves)
  have "order = demo_sale" using o by (simp add: demo_db_def)
  moreover from this have "r = demo_reads" using r demo_read by simp
  ultimately have "p = demo_plan" using p demo_planned by simp
  then obtain mid where ds: "ds = [JObj (sale_movement demo_env demo_sale (js ''B'') (enrich_line demo_line (whole 3) demo_refs) mid)]"
    using d \<open>order = demo_sale\<close> \<open>r = demo_reads\<close> by (auto simp: demo_plan_def list_all2_Cons1)
  have f: "doc_field (hd ds) ''qty'' = JNum (whole (- 3))" "doc_field (hd ds) ''productId'' = JStr (js ''P'')"
    "doc_field (hd ds) ''branchId'' = JStr (js ''B'')" "doc_field (hd ds) ''type'' = JStr (js ''sale'')" "tl ds = []" "ds \<noteq> []"
    by (simp_all add: ds sale_movement_def doc_field_JObj enrich_line_fields demo_line_fields num_field_def or_else_def is_nullish_def
        js_neg_whole)
  have q: "movement_qty (hd ds) = - 3" by (simp add: movement_qty_def f)
  have sm: "stockMovements db1 = [hd ds]"
    using m f(5,6) by (cases ds) (simp_all add: stock_moved_def demo_db_def demo_shop_def empty_db_def)
  have "proper_books demo_stock (stockMovements db1)"
    by (simp add: sm proper_books_def proper_movement_def q f volume_def demo_stock_def)
  moreover have "stockMovements demo_shop = []" by (simp add: demo_shop_def empty_db_def)
  ultimately have "stock_of db1 (js ''P'') (js ''B'')
      = whole (demo_stock (js ''P'') (js ''B'') + moved (js ''P'') (js ''B'') (stockMovements db1))"
    by (rule stock_is_opening_plus_movements [OF _ demo_stock_of(2) e, rotated])
  moreover have "moved (js ''P'') (js ''B'') (stockMovements db1) = - 3" by (simp add: moved_def sm q f)
  ultimately show ?thesis using e by (simp add: demo_stock_def)
qed

text \<open>An administrator retries a sale whose delivery failed.\<close>

definition demo_auth :: auth_like where
  "demo_auth = \<lparr>al_uid = Some (js ''boss''), al_token = JObj [(js ''staffId'', JStr (js ''boss'')), (js ''role'', JStr (js ''admin'')),
     (js ''authVersion'', JNum (Fin 0))]\<rparr>"

definition demo_users :: users where
  "demo_users = (\<lambda>k. if k = js ''boss'' then Some (JObj [(js ''isActive'', JBool True)]) else None)"

abbreviation "demo_failure \<equiv> DeliverWrite demo_env (redelivery (js ''S'') demo_sale (js ''busy''))"
abbreviation "demo_retry \<equiv> RetrySale demo_env demo_users (Some demo_auth) (js ''S'')"

lemma demo_trims: "trim (js ''S'') = js ''S''" "trim (js ''boss'') = js ''boss''"
  by (simp_all add: trim_js is_ws_def)

lemma demo_authority: "assertFreshPrivilegedAuthority demo_users (Some demo_auth) = Inr (js ''boss'', Fin 0)"
  by (simp add: assertFreshPrivilegedAuthority_def evaluateFreshPrivilegedAuthority_def tokenStaffId_def demo_auth_def
      doc_field_JObj demo_trims demo_users_def is_nullish_def finite_or_def tokenAuthVersion_def js_eq_def)

theorem retries_bounded_witness:
  "\<exists>lg db'. run settle_step ([], demo_shop) [demo_creation, demo_failure, demo_retry, demo_failure, demo_retry, demo_failure, demo_retry]
      = (lg, db') \<and> ReArmedSale (js ''S'') \<in> set lg \<and> count_list lg (ReArmedSale (js ''S'')) \<le> 2
     \<and> (\<exists>k. attempts_of (async_doc db' (js ''S'')) = whole k \<and> int (count_list lg (ReArmedSale (js ''S''))) \<le> k)"
proof -
  let ?rest = "[demo_failure, demo_retry, demo_failure, demo_retry]"
  let ?p = "exception_patch demo_env demo_sale (TransactionFailed (js ''busy''))"
  let ?d = "merge_doc demo_sale ?p" and ?db1 = "patch_async (js ''S'') ?p demo_db"
  have 1: "settle_step (lg, demo_db) demo_failure = (lg, ?db1)" for lg
    by (simp add: redelivery_def reconcileOnWrite_def demo_fields run_settle_def after_failure_def)
  have d: "map_of (asyncOrders ?db1) (js ''S'') = Some ?d" by (simp add: demo_db_def)
  have f: "doc_field ?d ''reconcileStatus'' = JStr (js ''exception'')" "doc_field ?d ''voidRequested'' = JUndef"
    "doc_field ?d ''reconcileAttempts'' = JNum (whole 1)"
    by (simp_all add: exception_patch_fields demo_fields)
      (simp add: exception_patch_def doc_field_merge Let_def incremented_def demo_sale_def doc_field_JObj whole_lits)
  have "doc_field (al_token demo_auth) ''role'' = JStr (js ''admin'')" by (simp add: demo_auth_def doc_field_JObj)
  moreover obtain n db2 where "retry_transaction demo_env demo_auth (js ''S'') ?db1 = Inr (ReArmed n, db2)"
    unfolding retry_transaction_def d option.case
    by (simp add: f RECONCILE_RETRY_CAP_def js_le_def js_lt_def js_eq_def whole_def Let_def)
  ultimately have "settle_step (lg, ?db1) demo_retry = (lg @ [ReArmedSale (js ''S'')], db2)" for lg
    by (simp add: performReconcileRetry_def demo_authority demo_trims)
  then have r: "run settle_step ([], demo_shop) (demo_creation # demo_failure # demo_retry # ?rest)
      = run settle_step ([ReArmedSale (js ''S'')], db2) ?rest"
    by (simp only: run_simps demo_created 1 append.simps)
  obtain lg db' where e: "run settle_step ([], demo_shop) (demo_creation # demo_failure # demo_retry # ?rest) = (lg, db')"
    by (metis surj_pair)
  have "set [ReArmedSale (js ''S'')] \<subseteq> set lg"
    using log_grows [of "[ReArmedSale (js ''S'')]" db2 ?rest] unfolding r [symmetric] e by (simp only: fst_conv)
  then have re: "ReArmedSale (js ''S'') \<in> set lg" by simp
  have "map_of (asyncOrders demo_shop) (js ''S'') = None" by (simp add: demo_shop_def empty_db_def)
  moreover have "length (demo_creation # demo_failure # demo_retry # ?rest) < 2 ^ 53" by simp
  ultimately have "\<exists>k. attempts_of (async_doc db' (js ''S'')) = whole k
      \<and> int (count_list lg (ReArmedSale (js ''S''))) + (if failed_doc (async_doc db' (js ''S'')) then 1 else 0) \<le> k
      \<and> count_list lg (ReArmedSale (js ''S'')) \<le> 2" by (intro retries_bounded [OF _ _ e])
  then have "count_list lg (ReArmedSale (js ''S'')) \<le> 2"
    "\<exists>k. attempts_of (async_doc db' (js ''S'')) = whole k \<and> int (count_list lg (ReArmedSale (js ''S''))) \<le> k"
    by (auto split: if_splits)
  then show ?thesis using e re by (intro exI [of _ lg] exI [of _ db']) simp
qed

section \<open>Gaps\<close>

text \<open>A sale of nothing paid that the validator accepts.\<close>

definition unpaid_sale :: jsval where
  "unpaid_sale = JObj [(js ''id'', JStr (js ''U'')), (js ''total'', JNum (whole 0)), (js ''subtotal'', JNum (whole 0)),
     (js ''paidAmt'', JNum (whole 0)), (js ''status'', JStr (js ''completed'')), (js ''clientCreatedAt'', JNum (whole 1000)),
     (js ''lines'', JArr [demo_line]), (js ''reconcileStatus'', JStr (js ''pending_reconcile''))]"

theorem accepted_sale_never_settles_witness:
  "validateCanonicalSaleSource unpaid_sale = Inr ()
    \<and> (\<forall>db'. reconcileSale demo_env (js ''U'') (demo_shop\<lparr>asyncOrders := [(js ''U'', unpaid_sale)]\<rparr>) \<noteq> Inr (True, db'))"
proof -
  have "validateLine demo_line 0 = Inr ()"
    by (simp add: validateLine_def demo_line_qty Let_def) (simp add: demo_line_def reqNum_def doc_field_def)
  then have "validateCanonicalSaleSource unpaid_sale = Inr ()"
    by (simp add: validateCanonicalSaleSource_def optNum_def validate_status_def validate_time_def validate_payments_def
        validate_lines_def CANONICAL_SOURCE_STATUSES_def positive_num_def whole_lits unpaid_sale_def doc_field_JObj)
  moreover have "\<not> has_own unpaid_sale ''payments'' \<or> \<not> has_own unpaid_sale ''creditAmt''"
    by (simp add: unpaid_sale_def)
  ultimately show ?thesis
    using accepted_sale_never_settles [of "demo_shop\<lparr>asyncOrders := [(js ''U'', unpaid_sale)]\<rparr>" "js ''U''" unpaid_sale demo_env] by simp
qed

text \<open>The first delivery of the settled demo sale arrives again and fails.\<close>

theorem redelivery_reopens_settled_sale_witness:
  "\<exists>db1 out db2 d. reconcileSale demo_env (js ''S'') demo_db = Inr (True, db1)
    \<and> reconcileOnWrite demo_env (redelivery (js ''S'') demo_sale (js ''busy'')) db1 = (out, db2)
    \<and> map_of (asyncOrders db2) (js ''S'') = Some d \<and> doc_field d ''reconcileStatus'' = JStr (js ''exception'')
    \<and> handleVoidIntent demo_env no_void_options None (js ''S'') db2 = Inr (VoidNoop VnNotSettled, db2)"
proof (rule demo_settles)
  fix db
  let ?o = "merge_doc demo_sale (settled_patch demo_env demo_sale demo_plan (whole 12))"
  assume a: "reconcileSale demo_env (js ''S'') demo_db = Inr (True, db)" "map_of (asyncOrders db) (js ''S'') = Some ?o"
    "map_of (orders db) (js ''S'') = Some (JObj (canonical_doc demo_env demo_sale (JStr (js ''S'')) (JStr (js ''completed'')) (whole 12) (JNum (whole 1000))))"
    "saleReturnLedgers db = []"
  note o = demo_settled_fields
  have r: "map_of (saleReturnLedgers db) (js ''S'') = None" using a(4) by simp
  obtain out db2 where w: "reconcileOnWrite demo_env (redelivery (js ''S'') demo_sale (js ''busy'')) db = (out, db2)" by (metis surj_pair)
  have "\<not> isCanonicallyVoidTerminal ?o" "js ''S'' \<noteq> []" by (simp_all add: isCanonicallyVoidTerminal_def o)
  note g = redelivery_reopens_settled_sale [where opts = no_void_options and en' = demo_env,
    OF a(2) o(3) this(2) a(3) o(1) demo_settled_marker this(1) r _ _ demo_trims(1) w]
  show ?thesis using g a(1) w by (auto simp: generic_options demo_fields)
qed

definition void_asked :: jsval where
  "void_asked = merge_doc demo_sale [fput ''voidRequested'' (JBool True)]"

theorem pending_void_becomes_anomaly_witness:
  "\<exists>out1 db1 order1 out2 db2.
    reconcileOnWrite demo_env (delivered (js ''S'') void_asked) (demo_shop\<lparr>asyncOrders := [(js ''S'', void_asked)]\<rparr>) = (out1, db1)
    \<and> map_of (asyncOrders db1) (js ''S'') = Some order1
    \<and> reconcileOnWrite demo_env (delivered (js ''S'') order1) db1 = (out2, db2)
    \<and> out1 = VoidRan VoidTombstoned \<and> out2 = VoidRan (VoidAnomaly ''missing_canonical'')
    \<and> handleVoidIntent demo_env no_void_options None (js ''S'') db2 = Inr (VoidNoop VnTerminalMarker, db2)"
proof -
  let ?db = "demo_shop\<lparr>asyncOrders := [(js ''S'', void_asked)]\<rparr>"
  have f: "doc_field void_asked ''reconcileStatus'' = JStr (js ''pending_reconcile'')" "doc_field void_asked ''voidRequested'' = JBool True"
    "doc_field void_asked ''voidReconciled'' = JUndef" "doc_field void_asked ''id'' = JStr (js ''S'')"
    by (simp_all add: void_asked_def doc_field_merge demo_fields)
  have m: "\<not> terminalMarkerPresent void_asked"
    by (simp add: terminalMarkerPresent_def void_asked_def has_own_merge) (simp add: demo_sale_def)
  obtain out1 db1 where 1: "reconcileOnWrite demo_env (delivered (js ''S'') void_asked) ?db = (out1, db1)" by (metis surj_pair)
  have "db1 = patch_async (js ''S'') (tombstone_patch demo_env no_void_options) ?db"
    using 1 f m
    by (simp add: reconcileOnWrite_def delivered_def handleVoidIntent_def void_transaction_def generic_options demo_shop_def empty_db_def)
  then obtain order1 where 2: "map_of (asyncOrders db1) (js ''S'') = Some order1" by simp
  obtain out2 db2 where 3: "reconcileOnWrite demo_env (delivered (js ''S'') order1) db1 = (out2, db2)" by (metis surj_pair)
  show ?thesis
    using pending_void_becomes_anomaly [of ?db "js ''S''" void_asked "js ''S''" demo_env out1 db1 order1 demo_env out2 db2 demo_env] 1 2 3 f m
    by (simp add: delivered_def demo_shop_def empty_db_def)
qed

text \<open>A forged document voids the settled demo sale.\<close>

theorem forged_sale_voids_victim_witness:
  "\<exists>db lg' db' tomb c. reconcileSale demo_env (js ''S'') demo_db = Inr (True, db)
    \<and> run settle_step ([], db) [CreateSale (js ''X'') (forged_sale (js ''S'') (js ''eve'') (js ''B'')),
      DeliverWrite demo_env (delivered (js ''X'') (forged_sale (js ''S'') (js ''eve'') (js ''B''))),
      DeliverWrite demo_env (delivered (js ''X'') tomb)] = (lg', db')
    \<and> map_of (orders db') (js ''S'') = Some c \<and> void_status c"
proof (rule demo_settles)
  fix db
  let ?c = "JObj (canonical_doc demo_env demo_sale (JStr (js ''S'')) (JStr (js ''completed'')) (whole 12) (JNum (whole 1000)))"
  assume a: "reconcileSale demo_env (js ''S'') demo_db = Inr (True, db)"
    "map_of (asyncOrders db) (js ''S'') = Some (merge_doc demo_sale (settled_patch demo_env demo_sale demo_plan (whole 12)))"
    "map_of (orders db) (js ''S'') = Some ?c" "saleReturnLedgers db = []"
  have "asyncOrders db = merge_set (js ''S'') (settled_patch demo_env demo_sale demo_plan (whole 12)) (asyncOrders demo_db)"
    by (rule demo_async [OF a(1)])
  then have "map_of (asyncOrders db) (js ''X'') = None" by (simp add: demo_db_def)
  then show ?thesis
    using forged_sale_voids_victim [of db "js ''X''" "js ''S''" ?c demo_env "[]" "js ''eve''" "js ''B''"] a(1,3,4) demo_canonical
    by (auto simp: demo_now)
qed

end
