(* ===== verification/SettlementRepair.thy ===== *)
theory SettlementRepair
  imports SettlementDemo
begin

text \<open>
  The repair sweep against the settlement: what it rebuilds from a settled sale whose canonical
  document is lost is the document the settlement wrote.
\<close>

section \<open>Comparing documents\<close>

definition without :: "string set \<Rightarrow> (jsstr \<times> jsval) list \<Rightarrow> (jsstr \<times> jsval) list" where
  "without X fs = filter (\<lambda>(k, v). k \<notin> js ` X) fs"

lemma doc_field_without: "k \<notin> X \<Longrightarrow> doc_field (JObj (without X fs)) k = doc_field (JObj fs) k"
proof (induction fs)
  case (Cons f fs)
  obtain k' v where f: "f = (k', v)" by (cases f)
  have "k' \<noteq> js k" if "k' \<in> js ` X" using that Cons.prems by auto
  then show ?case using Cons by (auto simp: f without_def doc_field_def)
qed (simp add: without_def)

lemma same_fields:
  assumes "without X fs = without X gs" "k \<notin> X"
  shows "doc_field (JObj fs) k = doc_field (JObj gs) k"
  using doc_field_without [OF assms(2), of fs] doc_field_without [OF assms(2), of gs] assms(1) by simp

lemma settled_keeps:
  assumes "k \<notin> {''reconcileStatus'', ''reconciledAt'', ''status'', ''lines'', ''cogs'', ''profit'', ''hadOversell'', ''updatedAt'',
    ''reconcileError'', ''lastReconcileError'', ''lastReconcileErrorAt'', ''firstFailedAt'', ''previousReconcileError'',
    ''reconcileRecoveredAt''}"
  shows "doc_field (merge_doc d (settled_patch en order p c)) k = doc_field d k"
proof -
  have "js k \<notin> fst ` set (settled_patch en order p c)"
    using assms by (auto simp: settled_patch_def buildRecoveryAuditPatch_def Let_def)
  then show ?thesis by (simp add: doc_field_def)
qed

lemma settled_has:
  "doc_field (merge_doc d (settled_patch en order p c)) ''status'' = settled_status order"
  "doc_field (merge_doc d (settled_patch en order p c)) ''cogs'' = JNum c"
  "doc_field (merge_doc d (settled_patch en order p c)) ''profit''
    = JNum (roundMoney_fifo (js_sub (roundMoney_fifo (num_field order ''subtotal'')) c))"
  by (simp_all add: doc_field_merge settled_patch_def buildRecoveryAuditPatch_def Let_def)

section \<open>The rebuilt document\<close>

abbreviation "rewritten_fields \<equiv> {''cogs'', ''profit'', ''updatedAt'', ''repairedBySweeper''}"

lemma rebuilt_is_canonical:
  assumes "\<And>k. k \<notin> {''status'', ''cogs'', ''profit''} \<Longrightarrow> k \<in> K \<Longrightarrow> doc_field order1 k = doc_field order k"
    and K: "K = {''billId'', ''branchId'', ''customerId'', ''customerSnap'', ''staffId'', ''staffName'', ''shiftId'', ''subtotal'',
      ''discountAmt'', ''billDiscount'', ''fee'', ''total'', ''paidAmt'', ''changeAmt'', ''creditAmt'', ''priceLevelId'', ''deviceId''}"
    and "doc_field order1 ''status'' = settled_status order"
    and "doc_field order ''customerId'' \<noteq> JUndef" "doc_field order ''creditAmt'' = JNum a"
  shows "without rewritten_fields (rebuilt_doc en' order1 cid t)
    = without rewritten_fields (canonical_doc en order cid (settled_status order) c t)"
proof -
  have s: "(case settled_status order of JStr s \<Rightarrow> JStr s | _ \<Rightarrow> JStr (js ''completed'')) = settled_status order"
    by (simp add: settled_status_def)
  have n: "or_else v JNull = v" if "v \<noteq> JUndef" for v using that by (cases v) (simp_all add: or_else_def is_nullish_def)
  have "num_field order1 k = num_field order k" if "k \<in> K" "k \<notin> {''status'', ''cogs'', ''profit''}" for k
    using assms(1) that by (simp add: num_field_def)
  then have m: "money_field order1 k = money_field order k" if "k \<in> K" "k \<notin> {''status'', ''cogs'', ''profit''}" for k
    using that by (simp add: money_field_def)
  show ?thesis
    using assms(1,3-5) n
    by (simp add: rebuilt_doc_def canonical_doc_def without_def K Let_def s m grand_total_def or_else_def is_nullish_def)
qed

lemma rebuilt_money:
  "doc_field (JObj (rebuilt_doc en order cid t)) ''cogs'' = money_field order ''cogs''"
  "doc_field (JObj (rebuilt_doc en order cid t)) ''profit'' = money_field order ''profit''"
  by (simp_all add: rebuilt_doc_def doc_field_JObj Let_def)

lemma canonical_money:
  "doc_field (JObj (canonical_doc en order cid st c t)) ''cogs'' = JNum c"
  "doc_field (JObj (canonical_doc en order cid st c t)) ''profit''
    = JNum (roundMoney_fifo (js_sub (roundMoney_fifo (num_field order ''subtotal'')) c))"
  by (simp_all add: canonical_doc_def doc_field_JObj Let_def)

lemma money_field_num: "doc_field d k = JNum n \<Longrightarrow> money_field d k = JNum (roundMoney_fifo n)"
  by (simp add: money_field_def num_field_def or_else_def is_nullish_def)

lemma canonical_defined:
  assumes "reconcileSale en oid db = Inr (True, db')" "map_of (asyncOrders db) oid = Some order" "doc_field order ''id'' = JStr cid"
  obtains n t where "\<not> has_undef (JObj (canonical_doc en order (JStr cid) (settled_status order) n t))"
proof -
  obtain p db1 where "write_documents en oid cid order p db1 = Inr db'"
    using assms by (auto simp: reconcileSale_def settle_sale_def and_then_Inr_iff doc_id_def split: if_splits)
  then obtain t db2 where "write_canonical cid (canonical_doc en order (JStr cid) (settled_status order)
      (total_cogs (sp_lines p)) t) db1 = Inr db2"
    by (auto simp: write_documents_def Let_def and_then_Inr_iff)
  then show ?thesis using that write_canonical_Inr by blast
qed

lemma rebuilt:
  assumes "repairSettledOrder en True (oid, order) db = Inr (Repaired, db')"
  obtains t where "sale_time en order = Inr t" "map_of (orders db') (canonical_id oid order)
    = Some (JObj (rebuilt_doc en order (JStr (canonical_id oid order)) t))"
proof -
  have "rebuild en order (canonical_id oid order) db = Inr db'" using repair_cases [OF assms] by simp
  then show ?thesis by (rule rebuild_orders) (use that in simp)
qed

text \<open>C27. Equivalence of the two writers of canonical sales: what the repair sweep rebuilds from a settled
  sale whose canonical document was lost agrees with the document the settlement wrote on every field
  but the commit time and its own marker; costs and profit are rounded a second time.\<close>

theorem repair_rebuilds_settled_sale:
  assumes "reconcileSale en oid db = Inr (True, db1)" "map_of (asyncOrders db1) oid = Some order1"
    "doc_field order1 ''id'' = JStr cid" "map_of (orders db1) cid = Some c"
    "repairSettledOrder en' True (oid, order1) db2 = Inr (Repaired, db3)" "se_fromMillis en' = se_fromMillis en"
  shows "\<exists>c'. map_of (orders db3) cid = Some c'
    \<and> (\<forall>k. k \<notin> rewritten_fields \<longrightarrow> doc_field c' k = doc_field c k)
    \<and> (\<forall>k \<in> {''cogs'', ''profit''}. \<exists>n. doc_field c k = JNum n \<and> doc_field c' k = JNum (roundMoney_fifo n))"
proof -
  obtain order cid0 r p db0 t where o: "map_of (asyncOrders db) oid = Some order" "doc_field order ''id'' = JStr cid0" "cid0 \<noteq> []"
    and v: "validateCanonicalSaleSource order = Inr ()" and t: "sale_time en order = Inr t"
    and c: "orders db1 = map_set cid0 (written_canonical en order cid0 p t) (orders db)"
    and a: "asyncOrders db1 = merge_set oid (settled_patch en order p (total_cogs (sp_lines p))) (asyncOrders db)"
    using assms(1) by (rule reconcileSale_settles)
  let ?n = "total_cogs (sp_lines p)"
  have o1: "order1 = merge_doc order (settled_patch en order p ?n)" using a assms(2) o(1) by simp
  have cid: "cid0 = cid" using assms(3) o(2) by (simp add: o1 settled_keeps)
  have cc: "c = JObj (canonical_doc en order (JStr cid) (settled_status order) ?n t)"
    using assms(4) c by (simp add: cid written_canonical_def)
  have "canonical_id oid order1 = cid" using assms(3) o(3) by (simp add: canonical_id_def cid)
  then obtain t' where t': "sale_time en' order1 = Inr t'" and r: "map_of (orders db3) cid = Some (JObj (rebuilt_doc en' order1 (JStr cid) t'))"
    using rebuilt [OF assms(5)] by metis
  have "t' = t" using t t' assms(6) by (simp add: sale_time_def o1 settled_keeps split: option.splits)
  obtain n u where u: "\<not> has_undef (JObj (canonical_doc en order (JStr cid) (settled_status order) n u))"
    using canonical_defined [OF assms(1) o(1)] cid o(2) by blast
  have kept: "doc_field order1 k = doc_field order k" if "k \<in> {''billId'', ''branchId'', ''customerId'', ''customerSnap'', ''staffId'',
    ''staffName'', ''shiftId'', ''subtotal'', ''discountAmt'', ''billDiscount'', ''fee'', ''total'', ''paidAmt'', ''changeAmt'',
    ''creditAmt'', ''priceLevelId'', ''deviceId''}" for k
    using that unfolding o1 by (elim insertE emptyE) (simp_all add: settled_keeps)
  have "doc_field order ''customerId'' \<noteq> JUndef" using u by (auto simp: canonical_doc_def Let_def)
  moreover obtain m where "doc_field order ''creditAmt'' = JNum m"
    using u validated_sale(2) [OF v] canonical_needs_credit by (metis optNum_def is_finite_num_iff)
  ultimately have w: "without rewritten_fields (rebuilt_doc en' order1 (JStr cid) t) =
      without rewritten_fields (canonical_doc en order (JStr cid) (settled_status order) ?n t)"
    by (intro rebuilt_is_canonical [OF _ refl]) (rule kept, simp_all add: o1 settled_has)
  have f: "doc_field (JObj (rebuilt_doc en' order1 (JStr cid) t)) k = doc_field c k" if "k \<notin> rewritten_fields" for k
    unfolding cc by (rule same_fields [OF w that])
  have g: "\<exists>n. doc_field c k = JNum n \<and> doc_field (JObj (rebuilt_doc en' order1 (JStr cid) t)) k = JNum (roundMoney_fifo n)"
    if "k \<in> {''cogs'', ''profit''}" for k
  proof -
    have "k = ''cogs'' \<or> k = ''profit''" using that by blast
    then show ?thesis
      by (rule disjE) (simp_all only: cc canonical_money rebuilt_money money_field_num [OF settled_has(2)]
          money_field_num [OF settled_has(3)] o1 jsval.inject ex_simps simp_thms)
  qed
  show ?thesis using r f g \<open>t' = t\<close> by blast
qed

section \<open>A lost demo sale\<close>

lemma demo_requantified: "resolveLineQtyBase (enrich_line demo_line (whole 3) demo_refs) f = Inr (whole 3)"
proof -
  have "has_own (enrich_line demo_line (whole 3) demo_refs) ''qtyBase''" by (simp add: enrich_line_def has_own_merge)
  then show ?thesis by (simp add: resolveLineQtyBase_def enrich_line_fields positive_num_def whole_lits)
qed

lemma demo_settled_valid: "validateCanonicalSaleSource demo_settled = Inr ()"
proof -
  have l: "validateLine (enrich_line demo_line (whole 3) demo_refs) 0 = Inr ()"
    by (simp add: validateLine_def demo_requantified enrich_line_fields demo_line_fields demo_cost Let_def)
      (simp add: enrich_line_def merge_doc_def demo_line_def write_field_def reqNum_def doc_field_JObj)
  have own: "has_own demo_settled k" if "k \<in> {''total'', ''subtotal'', ''paidAmt'', ''billDiscount'', ''payments''}" for k
    using that by (auto simp: has_own_merge settled_patch_def buildRecoveryAuditPatch_def demo_sale_def Let_def)
  have "validatePayment (JObj [(js ''method'', JStr (js ''cash'')), (js ''amount'', JNum (whole 30))]) 0 = Inr ()"
    by (simp add: validatePayment_def CANONICAL_PAYMENT_METHODS_def doc_field_JObj)
  then have "validate_payments demo_settled = Inr ()"
    using own [of "''payments''"] by (simp add: validate_payments_def settled_keeps demo_fields whole_lits)
  moreover note own
  moreover have "settled_status demo_sale = JStr (js ''completed'')"
    by (simp add: settled_status_def creditAmt_of_def demo_fields whole_lits)
  moreover have "roundMoney_fifo (js_sub (roundMoney_fifo (num_field demo_sale ''subtotal'')) (whole 12)) = whole 18"
    by (simp add: num_field_def demo_fields or_else_def is_nullish_def roundMoney_whole exact_range_def)
  ultimately show ?thesis using l
    by (simp add: validateCanonicalSaleSource_def optNum_def settled_keeps settled_has demo_settled_fields demo_fields
        validate_status_def validate_time_def validate_lines_def CANONICAL_SOURCE_STATUSES_def positive_num_def whole_lits)
qed

lemma demo_rebuilds:
  assumes "orders db = []"
  shows "\<exists>db'. repairSettledOrder demo_env True (js ''S'', demo_settled) db = Inr (Repaired, db')"
proof -
  let ?l = "enrich_line demo_line (whole 3) demo_refs" and ?S = "JStr (js ''S'')" and ?t = "JNum (whole 1000)"
  let ?pay = "JObj [(js ''method'', JStr (js ''cash'')), (js ''amount'', JNum (whole 30))]"
  have "\<not> has_undef (JObj (rebuilt_doc demo_env demo_settled ?S ?t))"
    by (simp add: rebuilt_doc_def settled_keeps demo_settled_fields demo_fields demo_now money_field_def or_else_def is_nullish_def Let_def)
  then have 1: "\<exists>db1. write_canonical (js ''S'') (rebuilt_doc demo_env demo_settled ?S ?t) db = Inr db1" for db
    by (simp add: write_canonical_def del: has_undef.simps)
  have "\<not> has_undef (JObj (item_doc ?l (JNum (whole 3)) iid))" for iid
    by (simp add: item_doc_def enrich_line_fields demo_line_fields demo_refs_def OVERSELL_LOT_ID_def or_else_def is_nullish_def
        lot_ref_doc_def Let_def)
  then have 2: "\<exists>db2. fold_result (write_item demo_env (js ''S'')
        (\<lambda>l. and_then (from_source (resolveLineQtyBase l (js ''lines''))) (\<lambda>q. Inr (JNum q)))) db1 (sale_lines demo_settled) = Inr db2" for db1
    by (simp add: sale_lines_def demo_settled_fields write_item_def demo_requantified from_source_def add_doc_def Let_def
        del: has_undef.simps)
  have "\<not> has_undef (JObj (payment_doc demo_settled ?S ?t ?pay pid))" for pid
    by (simp add: payment_doc_def settled_keeps demo_fields doc_field_JObj or_else_def is_nullish_def)
  then have 3: "\<exists>db3. fold_result (write_payment demo_env demo_settled ?S ?t) db2 (elements (doc_field demo_settled ''payments'')) = Inr db3" for db2
    by (simp add: settled_keeps demo_fields write_payment_def add_doc_def Let_def del: has_undef.simps)
  have 4: "sale_time demo_env demo_settled = Inr ?t" by (simp add: sale_time_def settled_keeps demo_fields) (simp add: demo_env_def)
  obtain db1 where d1: "write_canonical (js ''S'') (rebuilt_doc demo_env demo_settled ?S ?t) db = Inr db1" using 1 by blast
  obtain db2 where d2: "fold_result (write_item demo_env (js ''S'')
        (\<lambda>l. and_then (from_source (resolveLineQtyBase l (js ''lines''))) (\<lambda>q. Inr (JNum q)))) db1 (sale_lines demo_settled) = Inr db2"
    using 2 by blast
  have "\<exists>db'. rebuild demo_env demo_settled (js ''S'') db = Inr db'" using 3 by (simp add: rebuild_def 4 d1 d2)
  moreover have "canonical_id (js ''S'') demo_settled = js ''S''" by (simp add: canonical_id_def demo_settled_fields)
  moreover have "sale_lines demo_settled \<noteq> []" by (simp add: sale_lines_def demo_settled_fields)
  ultimately show ?thesis
    using assms by (auto simp: repairSettledOrder_def demo_settled_fields demo_settled_valid from_source_def Let_def)
qed

theorem repair_rebuilds_settled_sale_witness:
  "\<exists>db1 c db3 c'. reconcileSale demo_env (js ''S'') demo_db = Inr (True, db1) \<and> map_of (orders db1) (js ''S'') = Some c
    \<and> repairSettledOrder demo_env True (js ''S'', demo_settled) (db1\<lparr>orders := []\<rparr>) = Inr (Repaired, db3)
    \<and> map_of (orders db3) (js ''S'') = Some c' \<and> doc_field c' ''total'' = doc_field c ''total''
    \<and> doc_field c' ''creditAmt'' = doc_field c ''creditAmt''"
proof (rule demo_settles)
  fix db
  assume a: "reconcileSale demo_env (js ''S'') demo_db = Inr (True, db)" "map_of (asyncOrders db) (js ''S'') = Some demo_settled"
    "map_of (orders db) (js ''S'') = Some demo_order"
  obtain db3 where r: "repairSettledOrder demo_env True (js ''S'', demo_settled) (db\<lparr>orders := []\<rparr>) = Inr (Repaired, db3)"
    using demo_rebuilds [of "db\<lparr>orders := []\<rparr>"] by auto
  obtain c' where c: "map_of (orders db3) (js ''S'') = Some c'"
    and eq: "\<forall>k. k \<notin> rewritten_fields \<longrightarrow> doc_field c' k = doc_field demo_order k"
    using repair_rebuilds_settled_sale [OF a(1,2) demo_settled_fields(3) a(3) r refl] by blast
  have "doc_field c' ''total'' = doc_field demo_order ''total''" by (rule eq [rule_format]) simp
  moreover have "doc_field c' ''creditAmt'' = doc_field demo_order ''creditAmt''" by (rule eq [rule_format]) simp
  ultimately show ?thesis using a(1,3) r c by blast
qed

end
