(* ===== verification/SaleEvidence.thy ===== *)
theory SaleEvidence
  imports Settlement "HOL-Library.Signed_Division"
begin

text \<open>
  \<^verbatim>\<open>functions/src/saleReturnCore.ts\<close>: what may be returned of a settled sale, for how much money
  and into which lots. Money is in satang and quantities in thousandths; the code holds them
  as integral doubles below \<open>2 ^ 53\<close> and here they are \<open>int\<close>. Conversions from and to documents,
  unit factors and costs are doubles.
\<close>

section \<open>Vocabulary\<close>

datatype money_method = PayCash | PayQr | PayKbank | PayCard

definition MONEY_REFUND_METHODS :: "money_method list" where
  "MONEY_REFUND_METHODS = [PayCash, PayQr, PayKbank, PayCard]"

fun method_name :: "money_method \<Rightarrow> string" where
  "method_name PayCash = ''cash''"
| "method_name PayQr = ''qr''"
| "method_name PayKbank = ''kbank''"
| "method_name PayCard = ''card''"

definition money_method_of :: "jsval \<Rightarrow> money_method option" where
  "money_method_of v = find (\<lambda>m. v = JStr (js (method_name m))) MONEY_REFUND_METHODS"

text \<open>A refund method; the code's \<^verbatim>\<open>'none'\<close> is \<open>None\<close>.\<close>

type_synonym refund_method = "money_method option"

definition refund_method_of :: "jsval \<Rightarrow> refund_method option" where
  "refund_method_of v = (if v = JStr (js ''none'') then Some None else map_option Some (money_method_of v))"

type_synonym by_method = "money_method \<Rightarrow> int"

definition method_total :: "by_method \<Rightarrow> int" where
  "method_total g = sum_list (map g MONEY_REFUND_METHODS)"

datatype not_eligible_reason =
  RnOrderNotFound | RnBranchMismatch | RnNotSettled | RnReconcileException | RnVoided | RnVoidInProgress
  | RnVoidTerminalMarker | RnCanonicalNotCompleted

datatype unsupported_reason =
  RuCanonicalMissing | RuCreditSale | RuVat | RuMoneyMalformed | RuMoneyInconsistent | RuPaymentsMalformed
  | RuPaidValueMismatch | RuLineMalformed | RuLineEvidenceMissing | RuLotEvidenceMalformed | RuLotQtyMismatch
  | RuPrecision

datatype evidence_reject = NotEligible not_eligible_reason | Unsupported unsupported_reason

section \<open>Exact conversions\<close>

definition SCALED_ABS_TOLERANCE :: jsnum where "SCALED_ABS_TOLERANCE = lit (1 / 10000)"
definition MONEY_MAX_ABS_BAHT :: jsnum where "MONEY_MAX_ABS_BAHT = Fin 1000000000"
definition QTY_MAX_ABS :: jsnum where "QTY_MAX_ABS = Fin 100000000"

definition safe_int :: "int \<Rightarrow> bool" where
  "safe_int n \<longleftrightarrow> \<bar>n\<bar> \<le> 9007199254740991"

definition isSafeInteger :: "jsnum \<Rightarrow> bool" where
  "isSafeInteger x \<longleftrightarrow> isInteger x \<and> safe_int \<lfloor>num_val x\<rfloor>"

text \<open>Rounding a scaled value that is within the tolerance of an integer.\<close>

definition near_integer :: "jsnum \<Rightarrow> int option" where
  "near_integer scaled =
    (let rounded = math_round scaled in
     if \<not> isSafeInteger rounded then None
     else if js_lt SCALED_ABS_TOLERANCE (js_abs (js_sub scaled rounded)) then None
     else Some \<lfloor>num_val rounded\<rfloor>)"

definition toScaledExact :: "jsval \<Rightarrow> jsnum \<Rightarrow> jsnum \<Rightarrow> int option" where
  "toScaledExact value factor maxAbs =
    (case value of JNum x \<Rightarrow>
       if \<not> isFinite x then None
       else if js_lt maxAbs (js_abs x) then None
       else near_integer (js_mul x factor)
     | _ \<Rightarrow> None)"

definition toMinorExact :: "jsval \<Rightarrow> int option" where
  "toMinorExact value = toScaledExact value (Fin 100) MONEY_MAX_ABS_BAHT"

definition toMilliExact :: "jsval \<Rightarrow> int option" where
  "toMilliExact value = toScaledExact value (Fin 1000) QTY_MAX_ABS"

definition exactBaseMilli :: "int \<Rightarrow> jsnum \<Rightarrow> int option" where
  "exactBaseMilli qtyMilli unitFactor =
    (if \<not> safe_int qtyMilli \<or> qtyMilli < 0 then None
     else if \<not> isFinite unitFactor \<or> js_le unitFactor (Fin 0) then None
     else near_integer (js_mul (whole qtyMilli) unitFactor))"

definition minorToBaht :: "int \<Rightarrow> jsnum" where
  "minorToBaht minor = js_div (math_round (whole minor)) (Fin 100)"

definition milliToQty :: "int \<Rightarrow> jsnum" where
  "milliToQty milli = js_div (math_round (whole milli)) (Fin 1000)"

section \<open>The evidence of a sale\<close>

record lot_evidence =
  lt_lotId :: jsstr
  lt_qtyBaseMilli :: int
  lt_cost :: jsnum

text \<open>The last three fields are allocated once all lines are read.\<close>

record line_evidence =
  le_lineIndex :: nat
  le_productId :: jsstr
  le_productName :: jsstr
  le_sku :: jsstr
  le_category :: jsstr
  le_unit :: jsstr
  le_unitFactor :: jsnum
  le_soldQtyMilli :: int
  le_soldQtyBaseMilli :: int
  le_unitPriceMinor :: int
  le_lineDiscountMinor :: int
  le_lineTotalMinor :: int
  le_lots :: "lot_evidence list"
  le_billDiscountAllocMinor :: int
  le_feeAllocMinor :: int
  le_refundableShareMinor :: int

record sale_evidence =
  sv_orderId :: jsstr
  sv_billId :: jsstr
  sv_branchId :: jsstr
  sv_customerId :: "jsstr option"
  sv_customerName :: "jsstr option"
  sv_saleCreatedAtMs :: jsnum
  sv_saleShiftId :: "jsstr option"
  sv_saleStaffId :: "jsstr option"
  sv_subtotalMinor :: int
  sv_billDiscountMinor :: int
  sv_feeMinor :: int
  sv_totalMinor :: int
  sv_netPaid :: by_method
  sv_lines :: "line_evidence list"

definition str_of :: "jsval \<Rightarrow> jsstr option" where
  "str_of v = (case v of JStr s \<Rightarrow> Some s | _ \<Rightarrow> None)"

definition readString :: "jsval \<Rightarrow> jsstr" where
  "readString v = (case v of JStr s \<Rightarrow> s | _ \<Rightarrow> [])"

definition object_value :: "jsval \<Rightarrow> bool" where
  "object_value v \<longleftrightarrow> plain_object v \<or> is_array v"

definition isOrderVoidedOrVoiding :: "jsval \<Rightarrow> not_eligible_reason option" where
  "isOrderVoidedOrVoiding order =
    (if doc_field order ''status'' = JStr (js ''voided'') \<or> doc_field order ''voidReconciled'' = JBool True then Some RnVoided
     else if readString (doc_field order ''privilegedVoidExecutionId'') \<noteq> [] then Some RnVoided
     else if doc_field order ''voidRequested'' = JBool True then Some RnVoidInProgress
     else if readString (doc_field order ''voidedBy'') \<noteq> [] then Some RnVoidInProgress
     else if has_own order ''voidAnomaly'' \<or> has_own order ''voidRevisionFault'' then Some RnVoidTerminalMarker
     else None)"

subsection \<open>Allocation\<close>

text \<open>Division of big integers truncates.\<close>

definition rem_cmp :: "int \<times> nat \<Rightarrow> int \<times> nat \<Rightarrow> int" where
  "rem_cmp x y = (if fst x = fst y then int (snd x) - int (snd y) else if fst x > fst y then -1 else 1)"

definition hand_out_order :: "int list \<Rightarrow> nat list" where
  "hand_out_order rems = map snd (sort_by rem_cmp (zip rems [0..<length rems]))"

fun hand_out :: "int \<Rightarrow> nat list \<Rightarrow> int list \<Rightarrow> int list" where
  "hand_out leftover [] base = base"
| "hand_out leftover (i # is) base =
    (if 0 < leftover then hand_out (leftover - 1) is (base[i := base ! i + 1]) else base)"

definition allocateProportional :: "int \<Rightarrow> int list \<Rightarrow> int list" where
  "allocateProportional amount weights =
    (let tot = sum_list weights in
     if amount = 0 \<or> tot = 0 then map (\<lambda>_. 0) weights
     else let base = map (\<lambda>w. (amount * w) sdiv tot) weights;
              rems = map (\<lambda>w. (amount * w) smod tot) weights
          in hand_out (amount - sum_list base) (hand_out_order rems) base)"

subsection \<open>Reading the documents\<close>

definition evidence_docs :: "jsval option \<Rightarrow> jsval option \<Rightarrow> jsstr \<Rightarrow> evidence_reject + jsval \<times> jsval" where
  "evidence_docs asyncOrder canonical branch = (case asyncOrder of
     None \<Rightarrow> Inl (NotEligible RnOrderNotFound)
   | Some order \<Rightarrow>
       if doc_field order ''branchId'' \<noteq> JStr branch then Inl (NotEligible RnBranchMismatch)
       else case isOrderVoidedOrVoiding order of Some r \<Rightarrow> Inl (NotEligible r)
     | None \<Rightarrow>
       if doc_field order ''reconcileStatus'' = JStr (js ''exception'') then Inl (NotEligible RnReconcileException)
       else if doc_field order ''reconcileStatus'' \<noteq> JStr (js ''settled'') then Inl (NotEligible RnNotSettled)
       else case canonical of None \<Rightarrow> Inl (Unsupported RuCanonicalMissing)
     | Some c \<Rightarrow> (case isOrderVoidedOrVoiding c of Some r \<Rightarrow> Inl (NotEligible r)
       | None \<Rightarrow> if doc_field c ''branchId'' \<noteq> JStr branch then Inl (NotEligible RnBranchMismatch) else Inr (order, c)))"

definition vat_present :: "jsval \<Rightarrow> jsval \<Rightarrow> string \<Rightarrow> bool" where
  "vat_present order c k = (let v = or_else (doc_field order k) (doc_field c k) in
     \<not> is_nullish v \<and> \<not> (is_finite_num v \<and> js_eq (to_number v) (Fin 0)))"

definition evidence_kind :: "jsval \<Rightarrow> jsval \<Rightarrow> evidence_reject + unit" where
  "evidence_kind order c =
    (let creditAmt = doc_field order ''creditAmt'' in
     if creditAmt \<noteq> JUndef \<and> \<not> (is_finite_num creditAmt \<and> js_le (Fin 0) (to_number creditAmt))
     then Inl (Unsupported RuMoneyMalformed)
     else if is_finite_num creditAmt \<and> js_lt (Fin 0) (to_number creditAmt) then Inl (Unsupported RuCreditSale)
     else if doc_field c ''status'' \<noteq> JStr (js ''completed'') then Inl (NotEligible RnCanonicalNotCompleted)
     else if vat_present order c ''vatAmt'' \<or> vat_present order c ''vatRate'' then Inl (Unsupported RuVat)
     else Inr ())"

definition optMinor :: "jsval \<Rightarrow> string \<Rightarrow> int option" where
  "optMinor d k = (if doc_field d k = JUndef then Some 0 else toMinorExact (doc_field d k))"

text \<open>Subtotal, bill discount, fee, change and total.\<close>

definition evidence_money :: "jsval \<Rightarrow> jsval \<Rightarrow> evidence_reject + int \<times> int \<times> int \<times> int \<times> int" where
  "evidence_money order c =
    (case (toMinorExact (doc_field order ''subtotal''), optMinor order ''billDiscount'', optMinor order ''fee'',
        optMinor order ''changeAmt'', toMinorExact (doc_field order ''total'')) of
       (Some subtotal, Some disc, Some fee, Some change, Some tot) \<Rightarrow>
         if subtotal < 0 \<or> tot < 0 \<or> disc < 0 \<or> fee < 0 \<or> change < 0 then Inl (Unsupported RuMoneyMalformed)
         else if subtotal - disc + fee \<noteq> tot then Inl (Unsupported RuMoneyInconsistent)
         else if disc > subtotal then Inl (Unsupported RuMoneyInconsistent)
         else if toMinorExact (doc_field c ''total'') \<noteq> Some tot then Inl (Unsupported RuMoneyInconsistent)
         else Inr (subtotal, disc, fee, change, tot)
     | _ \<Rightarrow> Inl (Unsupported RuMoneyMalformed))"

fun gross_payments :: "by_method \<Rightarrow> jsval list \<Rightarrow> evidence_reject + by_method" where
  "gross_payments gross [] = Inr gross"
| "gross_payments gross (p # ps) =
    (if \<not> object_value p then Inl (Unsupported RuPaymentsMalformed)
     else case toMinorExact (doc_field p ''amount'') of None \<Rightarrow> Inl (Unsupported RuPaymentsMalformed)
     | Some amount \<Rightarrow>
       if amount < 0 then Inl (Unsupported RuPaymentsMalformed)
       else if doc_field p ''method'' = JStr (js ''credit'') then
         (if amount > 0 then Inl (Unsupported RuCreditSale) else gross_payments gross ps)
       else (case money_method_of (doc_field p ''method'') of None \<Rightarrow> Inl (Unsupported RuPaymentsMalformed)
         | Some m \<Rightarrow> gross_payments (gross(m := gross m + amount)) ps))"

definition evidence_payments :: "jsval \<Rightarrow> int \<Rightarrow> int \<Rightarrow> evidence_reject + by_method" where
  "evidence_payments order change tot =
    (if \<not> is_array (doc_field order ''payments'') then Inl (Unsupported RuPaymentsMalformed)
     else and_then (gross_payments (\<lambda>_. 0) (elements (doc_field order ''payments''))) (\<lambda>gross.
       if change > gross PayCash then Inl (Unsupported RuPaidValueMismatch)
       else let net = gross(PayCash := gross PayCash - change) in
         if method_total net \<noteq> tot then Inl (Unsupported RuPaidValueMismatch) else Inr net))"

definition read_lot :: "jsval \<Rightarrow> evidence_reject + lot_evidence" where
  "read_lot r =
    (if \<not> object_value r then Inl (Unsupported RuLotEvidenceMalformed)
     else let lotId = readString (doc_field r ''lotId'') in
       case toMilliExact (doc_field r ''qty'') of None \<Rightarrow> Inl (Unsupported RuLotEvidenceMalformed)
       | Some q \<Rightarrow>
         if lotId = [] \<or> of_char (CHR ''/'') \<in> set lotId \<or> q \<le> 0 then Inl (Unsupported RuLotEvidenceMalformed)
         else if \<not> is_finite_num (doc_field r ''cost'') \<or> js_lt (to_number (doc_field r ''cost'')) (Fin 0)
         then Inl (Unsupported RuLotEvidenceMalformed)
         else Inr \<lparr>lt_lotId = lotId, lt_qtyBaseMilli = q, lt_cost = to_number (doc_field r ''cost'')\<rparr>)"

definition read_lot_refs :: "jsval \<Rightarrow> evidence_reject + lot_evidence list" where
  "read_lot_refs line =
    (if \<not> is_array (doc_field line ''lotRefs'') \<or> elements (doc_field line ''lotRefs'') = []
     then Inl (Unsupported RuLineEvidenceMissing) else map_result read_lot (elements (doc_field line ''lotRefs'')))"

text \<open>Quantity and base quantity, then the amounts of a line.\<close>

definition line_quantities :: "jsval \<Rightarrow> evidence_reject + int \<times> int" where
  "line_quantities line = (case (toMilliExact (doc_field line ''qty''), toMilliExact (doc_field line ''qtyBase'')) of
     (Some q, Some b) \<Rightarrow>
       if q \<le> 0 \<or> b \<le> 0 then Inl (Unsupported RuPrecision)
       else if exactBaseMilli q (to_number (doc_field line ''unitFactor'')) \<noteq> Some b then Inl (Unsupported RuPrecision)
       else Inr (q, b)
   | _ \<Rightarrow> Inl (Unsupported RuPrecision))"

definition line_amounts :: "jsval \<Rightarrow> evidence_reject + int \<times> int \<times> int" where
  "line_amounts line = (case (toMinorExact (doc_field line ''unitPrice''), toMinorExact (doc_field line ''lineTotal''),
       optMinor line ''discountAmt'') of
     (Some price, Some tot, Some disc) \<Rightarrow>
       if tot < 0 then Inl (Unsupported RuLineMalformed) else Inr (price, tot, disc)
   | _ \<Rightarrow> Inl (Unsupported RuLineMalformed))"

definition read_line :: "nat \<Rightarrow> jsval \<Rightarrow> evidence_reject + line_evidence" where
  "read_line i line =
    (if \<not> plain_object line then Inl (Unsupported RuLineMalformed)
     else if readString (doc_field line ''productId'') = [] then Inl (Unsupported RuLineMalformed)
     else if \<not> is_finite_num (doc_field line ''unitFactor'') \<or> js_le (to_number (doc_field line ''unitFactor'')) (Fin 0)
     then Inl (Unsupported RuLineMalformed)
     else and_then (line_quantities line) (\<lambda>(q, b).
       and_then (line_amounts line) (\<lambda>(price, tot, disc).
       and_then (read_lot_refs line) (\<lambda>lots.
         if sum_list (map lt_qtyBaseMilli lots) \<noteq> b then Inl (Unsupported RuLotQtyMismatch)
         else let snap = doc_field line ''productSnap'' in
           Inr \<lparr>le_lineIndex = i, le_productId = readString (doc_field line ''productId''),
             le_productName = readString (doc_field snap ''name''), le_sku = readString (doc_field snap ''sku''),
             le_category = readString (doc_field snap ''category''), le_unit = readString (doc_field line ''unit''),
             le_unitFactor = to_number (doc_field line ''unitFactor''), le_soldQtyMilli = q, le_soldQtyBaseMilli = b,
             le_unitPriceMinor = price, le_lineDiscountMinor = disc, le_lineTotalMinor = tot, le_lots = lots,
             le_billDiscountAllocMinor = 0, le_feeAllocMinor = 0, le_refundableShareMinor = 0\<rparr>))))"

fun read_lines :: "nat \<Rightarrow> jsval list \<Rightarrow> evidence_reject + line_evidence list" where
  "read_lines i [] = Inr []"
| "read_lines i (l # ls) =
    and_then (read_line i l) (\<lambda>d. and_then (read_lines (Suc i) ls) (\<lambda>ds. Inr (d # ds)))"

definition share_out :: "line_evidence \<Rightarrow> int \<times> int \<Rightarrow> line_evidence" where
  "share_out d a = d\<lparr>le_billDiscountAllocMinor := fst a, le_feeAllocMinor := snd a,
     le_refundableShareMinor := le_lineTotalMinor d - fst a + snd a\<rparr>"

definition evidence_lines :: "jsval \<Rightarrow> int \<Rightarrow> int \<Rightarrow> int \<Rightarrow> evidence_reject + line_evidence list" where
  "evidence_lines order subtotal disc fee =
    (if \<not> is_array (doc_field order ''lines'') \<or> elements (doc_field order ''lines'') = []
     then Inl (Unsupported RuLineMalformed)
     else and_then (read_lines 0 (elements (doc_field order ''lines''))) (\<lambda>drafts.
       if sum_list (map le_lineTotalMinor drafts) \<noteq> subtotal then Inl (Unsupported RuMoneyInconsistent)
       else let weights = map le_lineTotalMinor drafts in
         Inr (map2 share_out drafts (zip (allocateProportional disc weights) (allocateProportional fee weights)))))"

definition parseSaleEvidence ::
  "jsstr \<Rightarrow> jsval option \<Rightarrow> jsval option \<Rightarrow> jsstr \<Rightarrow> evidence_reject + sale_evidence" where
  "parseSaleEvidence orderId asyncOrder canonical branch =
    and_then (evidence_docs asyncOrder canonical branch) (\<lambda>(order, c).
    and_then (evidence_kind order c) (\<lambda>_.
    and_then (evidence_money order c) (\<lambda>(subtotal, disc, fee, change, tot).
    and_then (evidence_payments order change tot) (\<lambda>net.
    and_then (evidence_lines order subtotal disc fee) (\<lambda>lines. Inr
      \<lparr>sv_orderId = orderId,
       sv_billId = (if readString (doc_field order ''billId'') \<noteq> [] then readString (doc_field order ''billId'') else orderId),
       sv_branchId = branch, sv_customerId = str_of (doc_field order ''customerId''),
       sv_customerName = str_of (doc_field (doc_field order ''customerSnap'') ''name''),
       sv_saleCreatedAtMs = (if is_finite_num (doc_field order ''clientCreatedAt'')
         then to_number (doc_field order ''clientCreatedAt'') else Fin 0),
       sv_saleShiftId = str_of (doc_field order ''shiftId''), sv_saleStaffId = str_of (doc_field order ''staffId''),
       sv_subtotalMinor = subtotal, sv_billDiscountMinor = disc, sv_feeMinor = fee, sv_totalMinor = tot,
       sv_netPaid = net, sv_lines = lines\<rparr>)))))"

end
