(* ===== verification/SaleShares.thy ===== *)
theory SaleShares
  imports SaleEvidence
begin

text \<open>
  The shares of a bill: the allocation of the bill discount and of the fee over the lines
  (\<^verbatim>\<open>allocateProportional\<close>) is exact, fair to one satang and never larger than a line, so the
  refundable shares of the lines are non-negative and add up to what was paid. The reading of
  a sale gives a well-formed sale.
\<close>

section \<open>Handing out the remainders\<close>

lemma sdiv_nonneg: "0 \<le> a \<Longrightarrow> 0 < b \<Longrightarrow> a sdiv b = a div (b :: int)"
  by (cases "a = 0") (simp_all add: signed_divide_int_eq_divide_int)

lemma smod_nonneg: "0 \<le> a \<Longrightarrow> 0 < b \<Longrightarrow> a smod b = a mod (b :: int)"
  by (cases "a = 0") (simp_all add: signed_modulo_int_eq_modulo_int)

lemma length_hand_out [simp]: "length (hand_out k is base) = length base"
  by (induction k "is" base rule: hand_out.induct) simp_all

lemma hand_out_nth:
  "distinct is \<Longrightarrow> set is \<subseteq> {..<length base} \<Longrightarrow> j < length base \<Longrightarrow>
   hand_out k is base ! j = base ! j + (if j \<in> set (take (nat k) is) then 1 else 0)"
proof (induction k "is" base rule: hand_out.induct)
  case (2 k i "is" base)
  show ?case
  proof (cases "0 < k")
    case True
    then have k: "nat k = Suc (nat (k - 1))" by simp
    show ?thesis
      using 2 True by (auto simp: k nth_list_update dest: in_set_takeD)
  qed simp
qed simp

interpretation rem_order: comparator rem_cmp
  by unfold_locales (auto simp: rem_cmp_def split: if_splits)

lemma hand_out_order_perm: "mset (hand_out_order rems) = mset [0..<length rems]"
proof -
  have "mset (hand_out_order rems) = mset (map snd (zip rems [0..<length rems]))"
    unfolding hand_out_order_def mset_map by simp
  then show ?thesis by simp
qed

lemma hand_out_order_facts [simp]:
  "distinct (hand_out_order rems)" "set (hand_out_order rems) = {..<length rems}" "length (hand_out_order rems) = length rems"
  subgoal by (metis hand_out_order_perm distinct_upt mset_eq_imp_distinct_iff)
  subgoal by (metis hand_out_order_perm atLeast_upt mset_eq_setD)
  subgoal by (metis hand_out_order_perm length_upt minus_nat.diff_0 mset_eq_length)
  done

lemma hand_out_order_sorted: "sorted_wrt (\<lambda>i j. rems ! j \<le> rems ! i) (hand_out_order rems)"
proof -
  let ?s = "sort_by rem_cmp (zip rems [0..<length rems])"
  have "sorted_wrt (\<lambda>a b. rem_cmp a b \<le> 0) ?s" by (rule rem_order.sorted_sort_by)
  moreover have "rems ! snd b \<le> rems ! snd a" if "a \<in> set ?s" "b \<in> set ?s" "rem_cmp a b \<le> 0" for a b
    using that by (auto simp: rem_cmp_def set_zip split: if_splits)
  ultimately have "sorted_wrt (\<lambda>a b. rems ! snd b \<le> rems ! snd a) ?s"
    by (rule sorted_wrt_mono_rel [rotated])
  then show ?thesis by (simp add: hand_out_order_def sorted_wrt_map)
qed

text \<open>Only lines with a positive remainder get one more.\<close>

lemma sum_list_over: "length xs = n \<Longrightarrow> sum_list xs = (\<Sum>i<n. xs ! i)" for xs :: "int list"
  by (simp add: sum_list_sum_nth atLeast0LessThan)

lemma handed_out_positive:
  assumes rems: "\<forall>i < length rems. 0 \<le> rems ! i \<and> rems ! i < T" and k: "sum_list rems = k * T"
    and i: "i \<in> set (take (nat k) (hand_out_order rems))"
  shows "0 < rems ! i"
proof (rule ccontr)
  assume "\<not> 0 < rems ! i"
  let ?o = "hand_out_order rems"
  obtain p where p: "p < nat k" "p < length ?o" "?o ! p = i" using i by (auto simp: in_set_conv_nth)
  have lt: "?o ! q < length rems" if "q < length rems" for q
    using nth_mem [of q ?o] that by simp
  have zero: "rems ! (?o ! q) = 0" if "p \<le> q" "q < length rems" for q
  proof -
    have "rems ! (?o ! q) \<le> rems ! (?o ! p)"
      using sorted_wrt_nth_less [OF hand_out_order_sorted, of p q rems] that by (cases "p = q") auto
    then show ?thesis using \<open>\<not> 0 < rems ! i\<close> p rems lt [OF that(2)] by fastforce
  qed
  have "sum_list rems = sum_list (map ((!) rems) ?o)"
  proof -
    have "mset (map ((!) rems) ?o) = mset (map ((!) rems) [0..<length rems])"
      by (simp only: mset_map hand_out_order_perm)
    then show ?thesis by (metis map_nth sum_mset_sum_list)
  qed
  also have "\<dots> = (\<Sum>q<length rems. rems ! (?o ! q))"
    by (simp add: sum_list_over)
  also have "\<dots> = (\<Sum>q<p. rems ! (?o ! q)) + (\<Sum>q\<in>{p..<length rems}. rems ! (?o ! q))"
    using p by (subst sum.union_disjoint [symmetric]) (auto intro!: sum.cong)
  also have "(\<Sum>q\<in>{p..<length rems}. rems ! (?o ! q)) = 0"
    using zero by (intro sum.neutral) auto
  also have "(\<Sum>q<p. rems ! (?o ! q)) \<le> (\<Sum>q<p. T)"
    using rems lt p by (intro sum_mono) (metis hand_out_order_facts(3) lessThan_iff less_imp_le less_trans)
  finally have "k * T \<le> int p * T" using k by simp
  moreover have "0 < T" using rems p(2) by fastforce
  ultimately show False using p by (simp add: mult_le_cancel_right)
qed

section \<open>The allocation\<close>

lemma sum_marked: "set is \<subseteq> {..<n} \<Longrightarrow> distinct is \<Longrightarrow> (\<Sum>i<n. if i \<in> set is then (1::int) else 0) = int (length is)"
  for n :: nat
  by (simp add: sum.If_cases Int_absorb1 Int_absorb2 distinct_card)

text \<open>The result line by line, and its sum.\<close>

lemma allocate_lines:
  assumes ws: "\<forall>w \<in> set ws. 0 \<le> w" and T: "0 < sum_list ws" and a: "0 \<le> a"
  defines "r \<equiv> allocateProportional a ws"
  shows "length r = length ws" "sum_list r = a"
    and "i < length ws \<Longrightarrow> r ! i = a * (ws ! i) div sum_list ws
        \<or> (r ! i = a * (ws ! i) div sum_list ws + 1 \<and> 0 < a * (ws ! i) mod sum_list ws)"
proof -
  define T where "T = sum_list ws"
  define base where "base = map (\<lambda>w. (a * w) div T) ws"
  define rems where "rems = map (\<lambda>w. (a * w) mod T) ws"
  define k where "k = a - sum_list base"
  have T0: "0 < T" using T by (simp add: T_def)
  have "(\<Sum>w\<leftarrow>ws. a * w) = (\<Sum>w\<leftarrow>ws. (a * w) div T * T + (a * w) mod T)" by simp
  also have "\<dots> = sum_list base * T + sum_list rems"
    by (simp only: base_def rems_def sum_list_addf sum_list_mult_const)
  finally have split: "sum_list rems = k * T"
    by (simp add: k_def left_diff_distrib sum_list_const_mult T_def)
  have rems: "\<forall>i < length rems. 0 \<le> rems ! i \<and> rems ! i < T" using T0 by (simp add: rems_def)
  have r: "r = (if a = 0 then map (\<lambda>_. 0) ws else hand_out k (hand_out_order rems) base)"
  proof -
    have "map (\<lambda>w. (a * w) sdiv T) ws = base" "map (\<lambda>w. (a * w) smod T) ws = rems"
      using ws a T0 by (auto simp: base_def rems_def sdiv_nonneg smod_nonneg)
    then show ?thesis using T0 by (simp add: r_def allocateProportional_def T_def [symmetric] k_def)
  qed
  show len: "length r = length ws" by (simp add: r base_def)
  have k0: "0 \<le> k"
  proof -
    have "0 \<le> sum_list rems" using T0 by (intro sum_list_nonneg) (auto simp: rems_def)
    then show ?thesis using split T0 by (simp add: zero_le_mult_iff)
  qed
  have kn: "nat k \<le> length ws"
  proof -
    have "sum_list rems \<le> (\<Sum>x\<leftarrow>rems. T)" using T0 by (intro sum_list_mono [of _ "\<lambda>x. x" "\<lambda>x. T", simplified]) (auto simp: rems_def less_imp_le)
    also have "\<dots> = int (length rems) * T" by (simp add: sum_list_triv)
    finally have "k * T \<le> int (length ws) * T" using split by (simp add: rems_def)
    then show ?thesis using T0 by (simp add: mult_le_cancel_right)
  qed
  have nth: "r ! i = base ! i + (if i \<in> set (take (nat k) (hand_out_order rems)) then 1 else 0)" if "i < length ws" "a \<noteq> 0" for i
    using that hand_out_nth [of "hand_out_order rems" base i k] by (simp add: r base_def rems_def)
  show "sum_list r = a"
  proof (cases "a = 0")
    case False
    have "sum_list r = (\<Sum>i<length ws. base ! i) + (\<Sum>i<length ws. if i \<in> set (take (nat k) (hand_out_order rems)) then 1 else 0)"
      using nth False by (simp add: sum_list_over [OF len] sum.distrib)
    also have "\<dots> = sum_list base + k"
      using k0 kn by (subst sum_marked)
        (auto simp: sum_list_over base_def rems_def dest: in_set_takeD)
    finally show ?thesis by (simp add: k_def)
  qed (simp add: r sum_list_0)
  show "r ! i = a * (ws ! i) div sum_list ws
        \<or> (r ! i = a * (ws ! i) div sum_list ws + 1 \<and> 0 < a * (ws ! i) mod sum_list ws)" if "i < length ws"
  proof (cases "a = 0")
    case False
    show ?thesis
      using nth [OF that False] handed_out_positive [OF rems split, of i] that
      by (auto simp: base_def rems_def T_def [symmetric] split: if_splits)
  qed (use that in \<open>simp add: r\<close>)
qed

lemma allocate_zero: "a = 0 \<or> sum_list ws = 0 \<Longrightarrow> allocateProportional a ws = map (\<lambda>_. 0) ws"
  by (auto simp: allocateProportional_def)

lemma length_allocate [simp]: "length (allocateProportional a ws) = length ws"
  by (simp add: allocateProportional_def Let_def)

lemma off_by_one:
  "r = q \<or> r = q + 1 \<and> 0 < m \<Longrightarrow> q * t + m = x \<Longrightarrow> 0 \<le> m \<Longrightarrow> m < t \<Longrightarrow> \<bar>r * t - x\<bar> < t" for t :: int
  by (auto simp: distrib_right abs_less_iff)

text \<open>No share is negative, and none is more than one whole unit off the exact share.\<close>

lemma allocate_bounds:
  assumes ws: "\<forall>w \<in> set ws. 0 \<le> w" and a: "0 \<le> a" and i: "i < length ws"
  shows "0 \<le> allocateProportional a ws ! i"
    and "a \<le> sum_list ws \<Longrightarrow> allocateProportional a ws ! i \<le> ws ! i"
    and "\<bar>allocateProportional a ws ! i * sum_list ws - (if sum_list ws = 0 then 0 else a * ws ! i)\<bar> < max 1 (sum_list ws)"
proof -
  have w: "0 \<le> ws ! i" using ws i by simp
  have T: "0 \<le> sum_list ws" using ws by (simp add: sum_list_nonneg)
  let ?T = "sum_list ws" and ?r = "allocateProportional a ws ! i"
  show "0 \<le> ?r" "a \<le> ?T \<Longrightarrow> ?r \<le> ws ! i" "\<bar>?r * ?T - (if ?T = 0 then 0 else a * ws ! i)\<bar> < max 1 ?T"
  proof (atomize(full), cases "?T = 0")
    case False
    then have T0: "0 < ?T" using T by simp
    let ?q = "a * (ws ! i) div ?T" and ?m = "a * (ws ! i) mod ?T"
    have e: "?q * ?T + ?m = a * ws ! i" "0 \<le> ?m" "?m < ?T" "0 \<le> ?q" using T0 a w by (simp_all add: pos_imp_zdiv_nonneg_iff)
    have "?q \<le> ws ! i" if "a \<le> ?T"
    proof -
      have "?q * ?T \<le> a * ws ! i" using e(1,2) by linarith
      also have "\<dots> \<le> ws ! i * ?T" using mult_right_mono [OF that w] by (simp add: mult.commute)
      finally have "?q * ?T \<le> ws ! i * ?T" .
      then show ?thesis using T0 by simp
    qed
    moreover have "?q < ws ! i" if "a \<le> ?T" "0 < ?m"
    proof -
      have "?q * ?T < a * ws ! i" using e(1) that(2) by linarith
      also have "\<dots> \<le> ws ! i * ?T" using mult_right_mono [OF that(1) w] by (simp add: mult.commute)
      finally have "?q * ?T < ws ! i * ?T" .
      then show ?thesis using T0 by simp
    qed
    moreover note allocate_lines(3) [OF ws T0 a i]
    moreover have "\<bar>?r * ?T - a * ws ! i\<bar> < ?T"
      by (rule off_by_one [OF allocate_lines(3) [OF ws T0 a i] e(1-3)])
    ultimately show "0 \<le> ?r \<and> (a \<le> ?T \<longrightarrow> ?r \<le> ws ! i) \<and> \<bar>?r * ?T - (if ?T = 0 then 0 else a * ws ! i)\<bar> < max 1 ?T"
      using e(4) T0 by auto
  qed (use w i in \<open>simp add: allocate_zero\<close>)
qed

section \<open>A sale that was read\<close>

definition line_wf :: "line_evidence \<Rightarrow> bool" where
  "line_wf l \<longleftrightarrow> 0 < le_soldQtyMilli l \<and> 0 < le_soldQtyBaseMilli l \<and> 0 \<le> le_lineTotalMinor l \<and>
     (\<forall>r \<in> set (le_lots l). 0 < lt_qtyBaseMilli r) \<and> sum_list (map lt_qtyBaseMilli (le_lots l)) = le_soldQtyBaseMilli l \<and>
     exactBaseMilli (le_soldQtyMilli l) (le_unitFactor l) = Some (le_soldQtyBaseMilli l)"

definition sale_wf :: "sale_evidence \<Rightarrow> bool" where
  "sale_wf s \<longleftrightarrow> sv_lines s \<noteq> [] \<and> map le_lineIndex (sv_lines s) = [0..<length (sv_lines s)] \<and>
     (\<forall>l \<in> set (sv_lines s). line_wf l) \<and> (\<forall>l \<in> set (sv_lines s). 0 \<le> le_refundableShareMinor l) \<and>
     (\<forall>m. 0 \<le> sv_netPaid s m) \<and> method_total (sv_netPaid s) = sv_totalMinor s"

text \<open>The money of the bill: what the lines may give back is what was paid.\<close>

definition shares_exact :: "sale_evidence \<Rightarrow> bool" where
  "shares_exact s \<longleftrightarrow>
     sum_list (map le_lineTotalMinor (sv_lines s)) = sv_subtotalMinor s \<and>
     sv_totalMinor s = sv_subtotalMinor s - sv_billDiscountMinor s + sv_feeMinor s \<and>
     sum_list (map le_billDiscountAllocMinor (sv_lines s)) = sv_billDiscountMinor s \<and>
     sum_list (map le_feeAllocMinor (sv_lines s)) = (if sv_subtotalMinor s = 0 then 0 else sv_feeMinor s) \<and>
     sum_list (map le_refundableShareMinor (sv_lines s)) = (if sv_subtotalMinor s = 0 then 0 else sv_totalMinor s)"

lemmas reading = and_then_Inr_iff read_line_def line_quantities_def line_amounts_def Let_def

lemma map_result_all:
  "map_result f xs = Inr ys \<Longrightarrow> (\<And>x y. f x = Inr y \<Longrightarrow> P y) \<Longrightarrow> \<forall>y \<in> set ys. P y"
  by (induction f xs arbitrary: ys rule: map_result.induct) (auto simp: and_then_Inr_iff)

lemma read_lot_positive: "read_lot v = Inr r \<Longrightarrow> 0 < lt_qtyBaseMilli r"
  by (auto simp: read_lot_def Let_def split: if_splits option.splits)

lemma read_lot_refs_positive: "read_lot_refs v = Inr lots \<Longrightarrow> \<forall>r \<in> set lots. 0 < lt_qtyBaseMilli r"
  by (auto simp: read_lot_refs_def split: if_splits dest!: map_result_all [where P = "\<lambda>r. 0 < lt_qtyBaseMilli r"] read_lot_positive)

lemma read_line_wf: "read_line i v = Inr l \<Longrightarrow> line_wf l \<and> le_lineIndex l = i"
  by (auto simp: reading line_wf_def split: if_splits option.splits
      dest!: read_lot_refs_positive)

lemma read_lines_wf:
  "read_lines i vs = Inr ds \<Longrightarrow> (\<forall>l \<in> set ds. line_wf l) \<and> map le_lineIndex ds = [i..<i + length ds] \<and> length ds = length vs"
proof (induction i vs arbitrary: ds rule: read_lines.induct)
  case (2 i v vs)
  then obtain d ds' where d: "ds = d # ds'" "read_line i v = Inr d" "read_lines (Suc i) vs = Inr ds'"
    by (auto simp: and_then_Inr_iff)
  show ?case using "2.IH" [OF d(3)] read_line_wf [OF d(2)] by (simp add: d upt_conv_Cons del: upt_Suc)
qed simp

lemma share_out_simps [simp]:
  "le_lineTotalMinor (share_out d a) = le_lineTotalMinor d" "le_lineIndex (share_out d a) = le_lineIndex d"
  "le_billDiscountAllocMinor (share_out d a) = fst a" "le_feeAllocMinor (share_out d a) = snd a"
  "le_refundableShareMinor (share_out d a) = le_lineTotalMinor d - fst a + snd a"
  "line_wf (share_out d a) = line_wf d"
  by (simp_all add: share_out_def line_wf_def)

lemma map_share_out:
  assumes "length as = length ds" "length bs = length ds"
  defines "ls \<equiv> map2 share_out ds (zip as bs)"
  shows "map le_lineIndex ls = map le_lineIndex ds" "map le_lineTotalMinor ls = map le_lineTotalMinor ds"
    "map le_billDiscountAllocMinor ls = as" "map le_feeAllocMinor ls = bs"
    "sum_list (map le_refundableShareMinor ls) = sum_list (map le_lineTotalMinor ds) - sum_list as + sum_list bs"
proof -
  show "map le_lineIndex ls = map le_lineIndex ds" "map le_lineTotalMinor ls = map le_lineTotalMinor ds"
    "map le_billDiscountAllocMinor ls = as" "map le_feeAllocMinor ls = bs"
    using assms by (auto intro!: nth_equalityI)
  have "map le_refundableShareMinor ls = map (\<lambda>(t, a, b). t - a + b) (zip (map le_lineTotalMinor ds) (zip as bs))"
    using assms by (auto intro!: nth_equalityI)
  also have "sum_list \<dots> = sum_list (map le_lineTotalMinor ds) - sum_list as + sum_list bs"
    using assms(1,2) by (induction ds arbitrary: as bs) (auto simp: length_Suc_conv)
  finally show "sum_list (map le_refundableShareMinor ls) = sum_list (map le_lineTotalMinor ds) - sum_list as + sum_list bs" .
qed

text \<open>Sums of the allocation, the case of no weight included.\<close>

lemma allocate_sum:
  "\<forall>w \<in> set ws. 0 \<le> w \<Longrightarrow> 0 \<le> a \<Longrightarrow> sum_list (allocateProportional a ws) = (if sum_list ws = 0 then 0 else a)"
  using allocate_lines(2) [of ws a] sum_list_nonneg [of ws] by (auto simp: allocate_zero order.order_iff_strict)

lemma evidence_lines_Inr:
  assumes e: "evidence_lines order subtotal disc fee = Inr ls" and nn: "0 \<le> disc" "0 \<le> fee" "disc \<le> subtotal"
  shows "ls \<noteq> []" "map le_lineIndex ls = [0..<length ls]" "\<forall>l \<in> set ls. line_wf l" "\<forall>l \<in> set ls. 0 \<le> le_refundableShareMinor l"
    "sum_list (map le_lineTotalMinor ls) = subtotal" "sum_list (map le_billDiscountAllocMinor ls) = disc"
    "sum_list (map le_feeAllocMinor ls) = (if subtotal = 0 then 0 else fee)"
    "sum_list (map le_refundableShareMinor ls) = (if subtotal = 0 then 0 else subtotal - disc + fee)"
proof -
  obtain ds where ds: "read_lines 0 (elements (doc_field order ''lines'')) = Inr ds"
    and ne: "elements (doc_field order ''lines'') \<noteq> []"
    and tot: "sum_list (map le_lineTotalMinor ds) = subtotal"
    and ls: "ls = map2 share_out ds (zip (allocateProportional disc (map le_lineTotalMinor ds)) (allocateProportional fee (map le_lineTotalMinor ds)))"
    using e by (auto simp: evidence_lines_def and_then_Inr_iff Let_def split: if_splits)
  note wf = read_lines_wf [OF ds]
  let ?ws = "map le_lineTotalMinor ds"
  have ws: "\<forall>w \<in> set ?ws. 0 \<le> w" using wf by (auto simp: line_wf_def)
  note maps = map_share_out [of "allocateProportional disc ?ws" ds "allocateProportional fee ?ws", folded ls, simplified]
  have len: "length ls = length ds" by (simp add: ls)
  show "ls \<noteq> []" using ne wf len by auto
  show "map le_lineIndex ls = [0..<length ls]" using maps(1) wf len by simp
  show "\<forall>l \<in> set ls. line_wf l" using wf by (auto simp: ls dest: set_zip_leftD)
  show "\<forall>l \<in> set ls. 0 \<le> le_refundableShareMinor l"
  proof
    fix l assume "l \<in> set ls"
    then obtain i where i: "i < length ds" "l = ls ! i" using len by (metis in_set_conv_nth)
    then have "le_refundableShareMinor l = ?ws ! i - allocateProportional disc ?ws ! i + allocateProportional fee ?ws ! i"
      by (simp add: ls)
    then show "0 \<le> le_refundableShareMinor l"
      using allocate_bounds(1) [OF ws nn(2), of i] allocate_bounds(2) [OF ws nn(1), of i] i nn tot by simp
  qed
  show "sum_list (map le_lineTotalMinor ls) = subtotal" using maps(2) tot by simp
  show "sum_list (map le_billDiscountAllocMinor ls) = disc" using maps(3) allocate_sum [OF ws nn(1)] tot nn by simp
  show "sum_list (map le_feeAllocMinor ls) = (if subtotal = 0 then 0 else fee)" using maps(4) allocate_sum [OF ws nn(2)] tot by simp
  show "sum_list (map le_refundableShareMinor ls) = (if subtotal = 0 then 0 else subtotal - disc + fee)"
    using maps(5) allocate_sum [OF ws nn(1)] allocate_sum [OF ws nn(2)] tot nn by simp
qed

lemma gross_payments_nonneg: "gross_payments g ps = Inr g' \<Longrightarrow> \<forall>m. 0 \<le> g m \<Longrightarrow> \<forall>m. 0 \<le> g' m"
  by (induction g ps rule: gross_payments.induct) (auto split: if_splits option.splits)

lemma evidence_payments_Inr:
  "evidence_payments order change tot = Inr net \<Longrightarrow> (\<forall>m. 0 \<le> net m) \<and> method_total net = tot"
  by (auto simp: evidence_payments_def and_then_Inr_iff Let_def split: if_splits dest!: gross_payments_nonneg)

lemma evidence_money_Inr:
  "evidence_money order c = Inr (subtotal, disc, fee, change, tot) \<Longrightarrow>
   0 \<le> disc \<and> 0 \<le> fee \<and> disc \<le> subtotal \<and> tot = subtotal - disc + fee"
  by (auto simp: evidence_money_def split: if_splits option.splits)

lemma parse_wf:
  assumes "parseSaleEvidence orderId asyncOrder canonical branch = Inr s"
  shows "sale_wf s" "shares_exact s"
proof -
  obtain order c subtotal disc fee change tot net ls where
    m: "evidence_money order c = Inr (subtotal, disc, fee, change, tot)"
    and p: "evidence_payments order change tot = Inr net"
    and l: "evidence_lines order subtotal disc fee = Inr ls"
    and s: "sv_subtotalMinor s = subtotal" "sv_billDiscountMinor s = disc" "sv_feeMinor s = fee" "sv_totalMinor s = tot"
      "sv_netPaid s = net" "sv_lines s = ls"
    using assms by (auto simp: parseSaleEvidence_def and_then_Inr_iff)
  note money = evidence_money_Inr [OF m]
  note lines = evidence_lines_Inr [OF l] 
  show "sale_wf s" using lines money evidence_payments_Inr [OF p] by (simp add: sale_wf_def s)
  show "shares_exact s" using lines money by (auto simp: shares_exact_def s)
qed

end
