(* ===== verification/SaleReturn.thy ===== *)
theory SaleReturn
  imports SaleEvidence
begin

text \<open>
  \<^verbatim>\<open>functions/src/saleReturnCore.ts\<close>, the rest: the ledger of a sale's accepted returns, the
  refund arithmetic, the lots a return goes back into and the planner that accepts or refuses
  a return. The reading of the sale is in \<^verbatim>\<open>SaleEvidence\<close>, the properties are in
  \<^verbatim>\<open>SaleReturnProps\<close>.
\<close>

section \<open>Requests\<close>

definition SALE_RETURN_MAX_LINES :: nat where "SALE_RETURN_MAX_LINES = 100"
definition SALE_RETURN_REASON_MAX :: nat where "SALE_RETURN_REASON_MAX = 300"
definition SALE_RETURN_NOTE_MAX :: nat where "SALE_RETURN_NOTE_MAX = 500"
definition SALE_RETURN_REFERENCE_MAX :: nat where "SALE_RETURN_REFERENCE_MAX = 120"

record return_line =
  rl_lineIndex :: nat
  rl_productId :: jsstr
  rl_qtyMilli :: int

record return_request =
  rr_attemptId :: jsstr
  rr_orderId :: jsstr
  rr_branchId :: jsstr
  rr_lines :: "return_line list"
  rr_refundMethod :: refund_method
  rr_refundReference :: jsstr
  rr_reason :: jsstr
  rr_note :: jsstr
  rr_expectedRefundMinor :: int
  rr_shiftId :: "jsstr option"
  rr_approverStaffId :: jsstr
  rr_pin :: jsstr

definition trimmedString :: "jsval \<Rightarrow> jsstr" where
  "trimmedString v = (case v of JStr s \<Rightarrow> trim s | _ \<Rightarrow> [])"

definition is_char :: "char \<Rightarrow> 16 word \<Rightarrow> bool" where
  "is_char c u \<longleftrightarrow> u = of_char c"

definition ascii_alnum :: "16 word \<Rightarrow> bool" where
  "ascii_alnum u \<longleftrightarrow> is_digit u \<or> (65 \<le> unat u \<and> unat u \<le> 90) \<or> (97 \<le> unat u \<and> unat u \<le> 122)"

definition ATTEMPT_ID_RE :: "jsstr \<Rightarrow> bool" where
  "ATTEMPT_ID_RE s \<longleftrightarrow> 8 \<le> length s \<and> length s \<le> 80 \<and>
     list_all (\<lambda>u. ascii_alnum u \<or> is_char (CHR ''_'') u \<or> is_char (CHR ''-'') u) s"

definition DOC_ID_RE :: "jsstr \<Rightarrow> bool" where
  "DOC_ID_RE s \<longleftrightarrow> 1 \<le> length s \<and> length s \<le> 200 \<and> list_all (\<lambda>u. \<not> is_char (CHR ''/'') u) s"

text \<open>One entry of the request's \<^verbatim>\<open>lines\<close>.\<close>

definition request_line :: "jsval \<Rightarrow> return_line option" where
  "request_line raw =
    (if \<not> plain_object raw then None
     else case doc_field raw ''lineIndex'' of
       JNum n \<Rightarrow>
         if \<not> isSafeInteger n \<or> js_lt n (Fin 0) then None
         else if trimmedString (doc_field raw ''productId'') = [] then None
         else (case toMilliExact (doc_field raw ''qty'') of None \<Rightarrow> None
           | Some q \<Rightarrow> if q \<le> 0 then None
               else Some \<lparr>rl_lineIndex = nat \<lfloor>num_val n\<rfloor>, rl_productId = trimmedString (doc_field raw ''productId''),
                 rl_qtyMilli = q\<rparr>)
     | _ \<Rightarrow> None)"

text \<open>The loop over the lines; an index that was seen before refuses the request.\<close>

fun request_lines :: "nat list \<Rightarrow> jsval list \<Rightarrow> return_line list option" where
  "request_lines seen [] = Some []"
| "request_lines seen (raw # raws) = (case request_line raw of None \<Rightarrow> None
   | Some l \<Rightarrow> if rl_lineIndex l \<in> set seen then None
       else map_option ((#) l) (request_lines (rl_lineIndex l # seen) raws))"

definition by_line_index :: "return_line \<Rightarrow> return_line \<Rightarrow> int" where
  "by_line_index a b = int (rl_lineIndex a) - int (rl_lineIndex b)"

definition request_ids :: "jsval \<Rightarrow> (jsstr \<times> jsstr \<times> jsstr) option" where
  "request_ids req =
    (let attempt = trimmedString (doc_field req ''attemptId''); order = trimmedString (doc_field req ''orderId'');
         branch = trimmedString (doc_field req ''branchId'')
     in if \<not> ATTEMPT_ID_RE attempt \<or> \<not> DOC_ID_RE order \<or> \<not> DOC_ID_RE branch \<or> branch = js ''ALL'' then None
        else Some (attempt, order, branch))"

definition checked_lines :: "jsval \<Rightarrow> return_line list option" where
  "checked_lines req =
    (let raws = elements (doc_field req ''lines'') in
     if \<not> is_array (doc_field req ''lines'') \<or> raws = [] \<or> SALE_RETURN_MAX_LINES < length raws then None
     else map_option (sort_by by_line_index) (request_lines [] raws))"

definition validateSubmitSaleReturnRequest :: "jsval \<Rightarrow> bool \<Rightarrow> return_request option" where
  "validateSubmitSaleReturnRequest req requirePin =
    (let ref = trimmedString (doc_field req ''refundReference''); reason = trimmedString (doc_field req ''reason'');
         note = trimmedString (doc_field req ''note''); shift = trimmedString (doc_field req ''shiftId'');
         approver = trimmedString (doc_field req ''approverStaffId''); pin = readString (doc_field req ''pin'')
     in case (request_ids req, checked_lines req, refund_method_of (doc_field req ''refundMethod''),
              toMinorExact (doc_field req ''expectedRefundAmount'')) of
       (Some (attempt, order, branch), Some lines, Some method, Some expected) \<Rightarrow>
         if SALE_RETURN_REFERENCE_MAX < length ref \<or> reason = [] \<or> SALE_RETURN_REASON_MAX < length reason
            \<or> SALE_RETURN_NOTE_MAX < length note \<or> expected < 0 \<or> (shift \<noteq> [] \<and> \<not> DOC_ID_RE shift)
            \<or> approver = [] \<or> (requirePin \<and> pin = []) then None
         else Some \<lparr>rr_attemptId = attempt, rr_orderId = order, rr_branchId = branch, rr_lines = lines,
           rr_refundMethod = method, rr_refundReference = ref, rr_reason = reason, rr_note = note,
           rr_expectedRefundMinor = expected, rr_shiftId = (if shift = [] then None else Some shift),
           rr_approverStaffId = approver, rr_pin = pin\<rparr>
     | _ \<Rightarrow> None)"

section \<open>Refund arithmetic\<close>

definition cumulativeRefundMinor :: "int \<Rightarrow> int \<Rightarrow> int \<Rightarrow> int" where
  "cumulativeRefundMinor share sold cum =
    (if sold \<le> 0 \<or> cum \<le> 0 \<or> share \<le> 0 then 0
     else (2 * share * min cum sold + sold) sdiv (2 * sold))"

definition lineRefundForReturnMinor :: "int \<Rightarrow> int \<Rightarrow> int \<Rightarrow> int \<Rightarrow> int" where
  "lineRefundForReturnMinor share sold previously qty =
    cumulativeRefundMinor share sold (previously + qty) - cumulativeRefundMinor share sold previously"

section \<open>Lots\<close>

record portion =
  pn_portionIndex :: nat
  pn_originalLotId :: jsstr
  pn_qtyBaseMilli :: int
  pn_costPerUnit :: jsnum

text \<open>The loop over the lots: the cursor and the number of portions so far.\<close>

fun cut_portions :: "int \<Rightarrow> int \<Rightarrow> int \<Rightarrow> nat \<Rightarrow> lot_evidence list \<Rightarrow> portion list" where
  "cut_portions start stop cursor n [] = []"
| "cut_portions start stop cursor n (lot # lots) =
    (let lotEnd = cursor + lt_qtyBaseMilli lot;
         taken = min stop lotEnd - max start cursor
     in if taken > 0
        then \<lparr>pn_portionIndex = n, pn_originalLotId = lt_lotId lot, pn_qtyBaseMilli = taken, pn_costPerUnit = lt_cost lot\<rparr>
             # cut_portions start stop lotEnd (Suc n) lots
        else cut_portions start stop lotEnd n lots)"

definition planLotRestoration :: "lot_evidence list \<Rightarrow> int \<Rightarrow> int \<Rightarrow> portion list option" where
  "planLotRestoration lots previously qty =
    (if previously < 0 \<or> qty \<le> 0 then None
     else if previously + qty > sum_list (map lt_qtyBaseMilli lots) then None
     else Some (cut_portions previously (previously + qty) 0 0 lots))"

fun oversell_free_end :: "int \<Rightarrow> lot_evidence list \<Rightarrow> int" where
  "oversell_free_end cursor [] = cursor"
| "oversell_free_end cursor (lot # lots) =
    (if lt_lotId lot = OVERSELL_LOT_ID then cursor else oversell_free_end (cursor + lt_qtyBaseMilli lot) lots)"

definition oversellFreeBaseEnd :: "lot_evidence list \<Rightarrow> int" where
  "oversellFreeBaseEnd lots = oversell_free_end 0 lots"

text \<open>Cost of the portions in satang: a double, rounded once.\<close>

definition portionsCostMinor :: "portion list \<Rightarrow> jsnum" where
  "portionsCostMinor ps = math_round (foldl (\<lambda>s p. js_add s
     (js_mul (js_mul (js_div (whole (pn_qtyBaseMilli p)) (Fin 1000)) (pn_costPerUnit p)) (Fin 100))) (Fin 0) ps)"

datatype in_place_reject =
  LotMissing | ProductMismatch | LotBranchMismatch | GhostLot | QtyMalformed | RemainingExceedsReceived
  | CapacityExceeded | CostMismatch

text \<open>The current remaining quantity and the next one.\<close>

definition decideInPlaceLotRestore ::
  "jsval option \<Rightarrow> jsstr \<Rightarrow> jsstr \<Rightarrow> jsnum list \<Rightarrow> int \<Rightarrow> in_place_reject + int \<times> int" where
  "decideInPlaceLotRestore lotDoc productId branchId costs restore = (case lotDoc of None \<Rightarrow> Inl LotMissing
   | Some lot \<Rightarrow>
     if doc_field lot ''productId'' \<noteq> JStr productId then Inl ProductMismatch
     else if doc_field lot ''branchId'' \<noteq> JStr branchId then Inl LotBranchMismatch
     else if doc_field lot ''isGhost'' = JBool True then Inl GhostLot
     else (case (toMilliExact (doc_field lot ''qtyReceived''), toMilliExact (doc_field lot ''qtyRemaining'')) of
       (Some received, Some remaining) \<Rightarrow>
         if received < 0 \<or> remaining < 0 then Inl QtyMalformed
         else if remaining > received then Inl RemainingExceedsReceived
         else if \<not> safe_int restore \<or> restore \<le> 0 then Inl QtyMalformed
         else if remaining + restore > received then Inl CapacityExceeded
         else let cost = doc_field lot ''costPerUnit'' in
           if \<not> is_finite_num cost \<or> costs = [] \<or> \<not> list_all (\<lambda>c. js_eq c (to_number cost)) costs then Inl CostMismatch
           else Inr (remaining, remaining + restore)
     | _ \<Rightarrow> Inl QtyMalformed))"

section \<open>The ledger\<close>

record ledger_line =
  gl_qtyMilli :: int
  gl_qtyBaseMilli :: int
  gl_refundedMinor :: int

record return_ledger =
  lg_returnCount :: int
  lg_refundedTotalMinor :: int
  lg_byMethod :: by_method
  lg_lines :: "(nat, ledger_line) jsmap"
  lg_acceptedReturnIds :: "jsstr list"

definition emptyLedger :: return_ledger where
  "emptyLedger = \<lparr>lg_returnCount = 0, lg_refundedTotalMinor = 0, lg_byMethod = (\<lambda>_. 0), lg_lines = [],
     lg_acceptedReturnIds = []\<rparr>"

definition no_line :: ledger_line where
  "no_line = \<lparr>gl_qtyMilli = 0, gl_qtyBaseMilli = 0, gl_refundedMinor = 0\<rparr>"

text \<open>\<^verbatim>\<open>ledger.lines.get(i) ?? { 0, 0, 0 }\<close>\<close>

definition prior_line :: "(nat, ledger_line) jsmap \<Rightarrow> nat \<Rightarrow> ledger_line" where
  "prior_line m i = (case map_of m i of Some l \<Rightarrow> l | None \<Rightarrow> no_line)"

definition lineReturnedQtyMilli :: "return_ledger \<Rightarrow> nat \<Rightarrow> int" where
  "lineReturnedQtyMilli g i = gl_qtyMilli (prior_line (lg_lines g) i)"

definition isFullyReturned :: "sale_evidence \<Rightarrow> return_ledger \<Rightarrow> bool" where
  "isFullyReturned sale g = list_all (\<lambda>l. lineReturnedQtyMilli g (le_lineIndex l) \<ge> le_soldQtyMilli l) (sv_lines sale)"

text \<open>\<^verbatim>\<open>new Map(sale.lines.map((l) => [l.lineIndex, l]))\<close>\<close>

definition byIndex :: "sale_evidence \<Rightarrow> nat \<Rightarrow> line_evidence option" where
  "byIndex sale = map_of (map (\<lambda>l. (le_lineIndex l, l)) (rev (sv_lines sale)))"

subsection \<open>Reading and writing it\<close>

definition nonNegInt :: "jsval \<Rightarrow> int option" where
  "nonNegInt v = (case v of JNum n \<Rightarrow> if isSafeInteger n \<and> \<not> js_lt n (Fin 0) then Some \<lfloor>num_val n\<rfloor> else None | _ \<Rightarrow> None)"

fun read_methods :: "jsval \<Rightarrow> money_method list \<Rightarrow> by_method \<Rightarrow> by_method option" where
  "read_methods raw [] g = Some g"
| "read_methods raw (m # ms) g =
    (case nonNegInt (or_else (doc_field raw (method_name m)) (JNum (Fin 0))) of None \<Rightarrow> None
     | Some v \<Rightarrow> read_methods raw ms (g(m := v)))"

definition read_ledger_line :: "jsval \<Rightarrow> (nat \<times> ledger_line) option" where
  "read_ledger_line l =
    (if \<not> object_value l then None
     else case (nonNegInt (doc_field l ''lineIndex''), nonNegInt (doc_field l ''returnedQtyMilli''),
            nonNegInt (doc_field l ''returnedQtyBaseMilli''), nonNegInt (doc_field l ''refundedMinor'')) of
       (Some i, Some q, Some b, Some r) \<Rightarrow>
         Some (nat i, \<lparr>gl_qtyMilli = q, gl_qtyBaseMilli = b, gl_refundedMinor = r\<rparr>)
     | _ \<Rightarrow> None)"

fun read_ledger_lines :: "(nat, ledger_line) jsmap \<Rightarrow> jsval list \<Rightarrow> (nat, ledger_line) jsmap option" where
  "read_ledger_lines m [] = Some m"
| "read_ledger_lines m (l # ls) = (case read_ledger_line l of None \<Rightarrow> None
   | Some (i, d) \<Rightarrow> if map_of m i \<noteq> None then None else read_ledger_lines (map_set i d m) ls)"

definition parse_present_ledger :: "jsval \<Rightarrow> return_ledger option" where
  "parse_present_ledger raw =
    (case (nonNegInt (doc_field raw ''returnCount''), nonNegInt (doc_field raw ''refundedTotalMinor'')) of
       (Some cnt, Some tot) \<Rightarrow>
         if \<not> plain_object (doc_field raw ''refundedByMethodMinor'') then None
         else (case read_methods (doc_field raw ''refundedByMethodMinor'') MONEY_REFUND_METHODS (\<lambda>_. 0) of None \<Rightarrow> None
         | Some g \<Rightarrow>
           if \<not> is_array (doc_field raw ''lines'') then None
           else (case read_ledger_lines [] (elements (doc_field raw ''lines'')) of None \<Rightarrow> None
           | Some m \<Rightarrow>
             let ids = elements (doc_field raw ''acceptedReturnIds'') in
             if \<not> is_array (doc_field raw ''acceptedReturnIds'') \<or> \<not> list_all (\<lambda>x. readString x \<noteq> []) ids then None
             else if int (length ids) \<noteq> cnt \<or> \<not> distinct ids then None
             else Some \<lparr>lg_returnCount = cnt, lg_refundedTotalMinor = tot, lg_byMethod = g, lg_lines = m,
               lg_acceptedReturnIds = map readString ids\<rparr>))
     | _ \<Rightarrow> None)"

definition parseReturnLedger :: "jsval \<Rightarrow> return_ledger option" where
  "parseReturnLedger raw =
    (if raw = JUndef then Some emptyLedger
     else if \<not> plain_object raw then None
     else if doc_field raw ''schemaVersion'' \<noteq> JNum (Fin 1) then None
     else parse_present_ledger raw)"

definition ledger_line_consistent :: "sale_evidence \<Rightarrow> nat \<times> ledger_line \<Rightarrow> bool" where
  "ledger_line_consistent sale e = (case byIndex sale (fst e) of None \<Rightarrow> False
   | Some s \<Rightarrow> let l = snd e in
       gl_qtyMilli l \<le> le_soldQtyMilli s \<and> gl_qtyBaseMilli l \<le> le_soldQtyBaseMilli s \<and>
       (if gl_qtyMilli l = le_soldQtyMilli s then Some (le_soldQtyBaseMilli s)
        else exactBaseMilli (gl_qtyMilli l) (le_unitFactor s)) = Some (gl_qtyBaseMilli l) \<and>
       gl_refundedMinor l = cumulativeRefundMinor (le_refundableShareMinor s) (le_soldQtyMilli s) (gl_qtyMilli l))"

definition ledgerConsistentWithSale :: "sale_evidence \<Rightarrow> return_ledger \<Rightarrow> bool" where
  "ledgerConsistentWithSale sale g \<longleftrightarrow>
     1 \<le> lg_returnCount g \<and> list_all (ledger_line_consistent sale) (lg_lines g) \<and>
     sum_list (map (gl_refundedMinor \<circ> snd) (lg_lines g)) = lg_refundedTotalMinor g \<and>
     method_total (lg_byMethod g) = lg_refundedTotalMinor g \<and>
     lg_refundedTotalMinor g \<le> sv_totalMinor sale \<and>
     list_all (\<lambda>m. lg_byMethod g m \<le> sv_netPaid sale m) MONEY_REFUND_METHODS \<and>
     lg_returnCount g \<le> sum_list (map (gl_qtyMilli \<circ> snd) (lg_lines g))"

definition parseReturnLedgerForSale :: "jsval \<Rightarrow> sale_evidence \<Rightarrow> return_ledger option" where
  "parseReturnLedgerForSale raw sale =
    (if raw = JUndef then Some emptyLedger
     else case parseReturnLedger raw of None \<Rightarrow> None
     | Some g \<Rightarrow>
       if doc_field raw ''orderId'' \<noteq> JStr (sv_orderId sale) \<or> doc_field raw ''branchId'' \<noteq> JStr (sv_branchId sale) then None
       else if ledgerConsistentWithSale sale g then Some g else None)"

definition saleReturnLedgerBlocksVoid :: "bool \<Rightarrow> bool" where
  "saleReturnLedgerBlocksVoid ledgerExists = ledgerExists"

definition num_entry :: "string \<Rightarrow> int \<Rightarrow> jsstr \<times> jsval" where
  "num_entry k n = (js k, JNum (whole n))"

definition ledger_line_doc :: "nat \<times> ledger_line \<Rightarrow> jsval" where
  "ledger_line_doc e = JObj [num_entry ''lineIndex'' (int (fst e)), num_entry ''returnedQtyMilli'' (gl_qtyMilli (snd e)),
     num_entry ''returnedQtyBaseMilli'' (gl_qtyBaseMilli (snd e)), num_entry ''refundedMinor'' (gl_refundedMinor (snd e))]"

definition by_key :: "nat \<times> ledger_line \<Rightarrow> nat \<times> ledger_line \<Rightarrow> int" where
  "by_key a b = int (fst a) - int (fst b)"

definition serializeReturnLedger :: "return_ledger \<Rightarrow> jsstr \<Rightarrow> jsstr \<Rightarrow> (jsstr, jsval) jsmap" where
  "serializeReturnLedger g orderId branchId =
    [num_entry ''schemaVersion'' 1, (js ''orderId'', JStr orderId), (js ''branchId'', JStr branchId),
     num_entry ''returnCount'' (lg_returnCount g), num_entry ''refundedTotalMinor'' (lg_refundedTotalMinor g),
     (js ''refundedByMethodMinor'', JObj (map (\<lambda>m. num_entry (method_name m) (lg_byMethod g m)) MONEY_REFUND_METHODS)),
     (js ''lines'', JArr (map ledger_line_doc (sort_by by_key (lg_lines g)))),
     (js ''acceptedReturnIds'', JArr (map JStr (lg_acceptedReturnIds g)))]"

section \<open>How much of a line can still be returned\<close>

text \<open>The search downwards, at most a thousand steps.\<close>

fun search_down :: "nat \<Rightarrow> int \<Rightarrow> jsnum \<Rightarrow> int \<Rightarrow> int" where
  "search_down 0 q unitFactor avail = 0"
| "search_down (Suc n) q unitFactor avail =
    (if q \<le> 0 then 0
     else case exactBaseMilli q unitFactor of
       Some b \<Rightarrow> if b \<le> avail then q else search_down n (q - 1) unitFactor avail
     | None \<Rightarrow> search_down n (q - 1) unitFactor avail)"

text \<open>\<^verbatim>\<open>Math.min(remaining, Math.floor(x))\<close>; a quotient that is not a number starts no search.\<close>

definition floor_min :: "int \<Rightarrow> jsnum \<Rightarrow> int" where
  "floor_min remaining x =
    (if x = NaN then 0 else if isFinite x then min remaining \<lfloor>num_val x\<rfloor> else if x = PosInf then remaining else 0)"

definition maxSupportedReturnQtyMilli :: "line_evidence \<Rightarrow> ledger_line option \<Rightarrow> int" where
  "maxSupportedReturnQtyMilli line prior =
    (let p = (case prior of Some l \<Rightarrow> l | None \<Rightarrow> no_line);
         remaining = le_soldQtyMilli line - gl_qtyMilli p;
         freeEnd = oversellFreeBaseEnd (le_lots line);
         avail = freeEnd - gl_qtyBaseMilli p
     in if remaining \<le> 0 then 0
        else if freeEnd \<ge> le_soldQtyBaseMilli line then remaining
        else if avail \<le> 0 then 0
        else search_down 1000 (floor_min remaining (js_div (js_add (whole avail) SCALED_ABS_TOLERANCE) (le_unitFactor line)))
               (le_unitFactor line) avail)"

section \<open>The planner\<close>

datatype plan_reject =
  RpInvalidRequest | RpNotEligible | RpUnsupportedEvidence | RpOverReturn | RpRefundMismatch
  | RpMethodNotAllowed | RpCapExceeded | RpReferenceRequired | RpOversellUnsupported

record planned_line =
  pl_line :: line_evidence
  pl_previouslyMilli :: int
  pl_qtyMilli :: int
  pl_qtyBaseMilli :: int
  pl_refundMinor :: int
  pl_revenueMinor :: int
  pl_costMinor :: jsnum
  pl_portions :: "portion list"

record return_plan =
  rp_lines :: "planned_line list"
  rp_refundMinor :: int
  rp_revenueMinor :: int
  rp_costMinor :: jsnum
  rp_refundMethod :: refund_method
  rp_nextLedger :: return_ledger

definition plan_return_line :: "sale_evidence \<Rightarrow> return_ledger \<Rightarrow> return_line \<Rightarrow> plan_reject + planned_line" where
  "plan_return_line sale g req = (case byIndex sale (rl_lineIndex req) of None \<Rightarrow> Inl RpInvalidRequest
   | Some line \<Rightarrow>
     let p = prior_line (lg_lines g) (rl_lineIndex req); q = rl_qtyMilli req;
         remainingBase = le_soldQtyBaseMilli line - gl_qtyBaseMilli p
     in if le_productId line \<noteq> rl_productId req \<or> q \<le> 0 then Inl RpInvalidRequest
        else if gl_qtyMilli p + q > le_soldQtyMilli line then Inl RpOverReturn
        else (case exactBaseMilli q (le_unitFactor line) of None \<Rightarrow> Inl RpUnsupportedEvidence
        | Some b \<Rightarrow>
          let base = (if gl_qtyMilli p + q = le_soldQtyMilli line then remainingBase else b)
          in if b \<le> 0 then Inl RpUnsupportedEvidence
             else if base \<le> 0 \<or> base > remainingBase then Inl RpOverReturn
             else (case planLotRestoration (le_lots line) (gl_qtyBaseMilli p) base of None \<Rightarrow> Inl RpOverReturn
             | Some portions \<Rightarrow>
               if portions = [] then Inl RpOverReturn
               else if list_ex (\<lambda>p. pn_originalLotId p = OVERSELL_LOT_ID) portions then Inl RpOversellUnsupported
               else Inr \<lparr>pl_line = line, pl_previouslyMilli = gl_qtyMilli p, pl_qtyMilli = q, pl_qtyBaseMilli = base,
                 pl_refundMinor = lineRefundForReturnMinor (le_refundableShareMinor line) (le_soldQtyMilli line) (gl_qtyMilli p) q,
                 pl_revenueMinor = lineRefundForReturnMinor (le_lineTotalMinor line) (le_soldQtyMilli line) (gl_qtyMilli p) q,
                 pl_costMinor = portionsCostMinor portions, pl_portions = portions\<rparr>)))"

text \<open>May this refund go back by this method?\<close>

definition refund_method_check ::
  "sale_evidence \<Rightarrow> return_ledger \<Rightarrow> refund_method \<Rightarrow> jsstr \<Rightarrow> int \<Rightarrow> plan_reject + unit" where
  "refund_method_check sale g method reference refund =
    (if refund = 0 then (if method \<noteq> None then Inl RpMethodNotAllowed else Inr ())
     else case method of None \<Rightarrow> Inl RpMethodNotAllowed
     | Some m \<Rightarrow>
       if \<not> sv_netPaid sale m > 0 then Inl RpMethodNotAllowed
       else if lg_byMethod g m + refund > sv_netPaid sale m then Inl RpCapExceeded
       else if m \<noteq> PayCash \<and> reference = [] then Inl RpReferenceRequired
       else Inr ())"

definition add_planned :: "(nat, ledger_line) jsmap \<Rightarrow> planned_line \<Rightarrow> (nat, ledger_line) jsmap" where
  "add_planned m l =
    (let i = le_lineIndex (pl_line l); p = prior_line m i in
     map_set i \<lparr>gl_qtyMilli = gl_qtyMilli p + pl_qtyMilli l, gl_qtyBaseMilli = gl_qtyBaseMilli p + pl_qtyBaseMilli l,
       gl_refundedMinor = gl_refundedMinor p + pl_refundMinor l\<rparr> m)"

definition next_ledger :: "return_ledger \<Rightarrow> planned_line list \<Rightarrow> refund_method \<Rightarrow> int \<Rightarrow> jsstr \<Rightarrow> return_ledger" where
  "next_ledger g planned method refund returnId =
    \<lparr>lg_returnCount = lg_returnCount g + 1, lg_refundedTotalMinor = lg_refundedTotalMinor g + refund,
     lg_byMethod = (case method of None \<Rightarrow> lg_byMethod g | Some m \<Rightarrow> (lg_byMethod g)(m := lg_byMethod g m + refund)),
     lg_lines = foldl add_planned (lg_lines g) planned, lg_acceptedReturnIds = lg_acceptedReturnIds g @ [returnId]\<rparr>"

definition planSaleReturn :: "sale_evidence \<Rightarrow> return_ledger \<Rightarrow> return_request \<Rightarrow> jsstr \<Rightarrow> plan_reject + return_plan" where
  "planSaleReturn sale g req returnId =
    (if isFullyReturned sale g then Inl RpNotEligible
     else and_then (map_result (plan_return_line sale g) (rr_lines req)) (\<lambda>planned.
       let refund = sum_list (map pl_refundMinor planned); method = rr_refundMethod req in
       if refund \<noteq> rr_expectedRefundMinor req then Inl RpRefundMismatch
       else if lg_refundedTotalMinor g + refund > sv_totalMinor sale then Inl RpCapExceeded
       else and_then (refund_method_check sale g method (rr_refundReference req) refund) (\<lambda>_. Inr
         \<lparr>rp_lines = planned, rp_refundMinor = refund, rp_revenueMinor = sum_list (map pl_revenueMinor planned),
          rp_costMinor = foldl (\<lambda>s l. js_add s (pl_costMinor l)) (Fin 0) planned, rp_refundMethod = method,
          rp_nextLedger = next_ledger g planned method refund returnId\<rparr>)))"

section \<open>What the customer spent\<close>

datatype spend_reject = SpNoCustomer | SpZeroRefund | SpCustomerMissing | SpNoAggregate | SpMalformed

record spend_field =
  sf_key :: string
  sf_before :: jsnum
  sf_after :: jsnum
  sf_clamped :: bool

fun spend_fields :: "jsval \<Rightarrow> int \<Rightarrow> string list \<Rightarrow> spend_reject + spend_field list" where
  "spend_fields d refund [] = Inr []"
| "spend_fields d refund (k # ks) =
    (if is_nullish (doc_field d k) then spend_fields d refund ks
     else case toMinorExact (doc_field d k) of None \<Rightarrow> Inl SpMalformed
     | Some before \<Rightarrow>
       and_then (spend_fields d refund ks) (\<lambda>fs. Inr
         (\<lparr>sf_key = k, sf_before = minorToBaht before, sf_after = minorToBaht (max 0 (before - refund)),
           sf_clamped = (before - refund < 0)\<rparr> # fs)))"

definition planCustomerSpendAdjustment :: "jsstr option \<Rightarrow> jsval option \<Rightarrow> int \<Rightarrow> spend_reject + int \<times> spend_field list" where
  "planCustomerSpendAdjustment customerId customerDoc refund =
    (if \<not> truthy customerId then Inl SpNoCustomer
     else if refund \<le> 0 then Inl SpZeroRefund
     else case customerDoc of None \<Rightarrow> Inl SpCustomerMissing
     | Some d \<Rightarrow> and_then (spend_fields d refund [''lifetimeValue'', ''totalSpent''])
         (\<lambda>fs. if fs = [] then Inl SpNoAggregate else Inr (refund, fs)))"

section \<open>The view of a sale\<close>

record context_line =
  cx_lineIndex :: nat
  cx_productId :: jsstr
  cx_productName :: jsstr
  cx_sku :: jsstr
  cx_unit :: jsstr
  cx_soldQty :: jsnum
  cx_returnedQty :: jsnum
  cx_returnableQty :: jsnum
  cx_soldQtyMilli :: int
  cx_returnedQtyMilli :: int
  cx_supportedReturnableQty :: jsnum
  cx_supportedReturnableQtyMilli :: int
  cx_oversellLimited :: bool
  cx_unitPrice :: jsnum
  cx_lineDiscount :: jsnum
  cx_lineTotal :: jsnum
  cx_billDiscountAlloc :: jsnum
  cx_feeAlloc :: jsnum
  cx_refundableShareMinor :: int
  cx_refundedAmount :: jsnum

record return_context =
  cv_orderId :: jsstr
  cv_billId :: jsstr
  cv_branchId :: jsstr
  cv_customerName :: "jsstr option"
  cv_saleCreatedAtMs :: jsnum
  cv_total :: jsnum
  cv_refundedTotal :: jsnum
  cv_returnCount :: int
  cv_fullyReturned :: bool
  cv_lines :: "context_line list"
  cv_refundMethods :: "(money_method \<times> jsnum) list"

definition context_line_of :: "return_ledger \<Rightarrow> line_evidence \<Rightarrow> context_line" where
  "context_line_of g l =
    (let prior = map_of (lg_lines g) (le_lineIndex l); p = prior_line (lg_lines g) (le_lineIndex l);
         returned = gl_qtyMilli p; remaining = max 0 (le_soldQtyMilli l - returned);
         supported = maxSupportedReturnQtyMilli l prior
     in \<lparr>cx_lineIndex = le_lineIndex l, cx_productId = le_productId l, cx_productName = le_productName l,
         cx_sku = le_sku l, cx_unit = le_unit l, cx_soldQty = milliToQty (le_soldQtyMilli l),
         cx_returnedQty = milliToQty returned, cx_returnableQty = milliToQty remaining,
         cx_soldQtyMilli = le_soldQtyMilli l, cx_returnedQtyMilli = returned,
         cx_supportedReturnableQty = milliToQty supported, cx_supportedReturnableQtyMilli = supported,
         cx_oversellLimited = (supported < remaining), cx_unitPrice = minorToBaht (le_unitPriceMinor l),
         cx_lineDiscount = minorToBaht (le_lineDiscountMinor l), cx_lineTotal = minorToBaht (le_lineTotalMinor l),
         cx_billDiscountAlloc = minorToBaht (le_billDiscountAllocMinor l), cx_feeAlloc = minorToBaht (le_feeAllocMinor l),
         cx_refundableShareMinor = le_refundableShareMinor l, cx_refundedAmount = minorToBaht (gl_refundedMinor p)\<rparr>)"

definition buildReturnContextView :: "sale_evidence \<Rightarrow> return_ledger \<Rightarrow> return_context" where
  "buildReturnContextView sale g =
    \<lparr>cv_orderId = sv_orderId sale, cv_billId = sv_billId sale, cv_branchId = sv_branchId sale,
     cv_customerName = sv_customerName sale, cv_saleCreatedAtMs = sv_saleCreatedAtMs sale,
     cv_total = minorToBaht (sv_totalMinor sale), cv_refundedTotal = minorToBaht (lg_refundedTotalMinor g),
     cv_returnCount = lg_returnCount g, cv_fullyReturned = isFullyReturned sale g,
     cv_lines = map (context_line_of g) (sv_lines sale),
     cv_refundMethods = map (\<lambda>m. (m, minorToBaht (max 0 (sv_netPaid sale m - lg_byMethod g m))))
       (filter (\<lambda>m. sv_netPaid sale m > 0) MONEY_REFUND_METHODS)\<rparr>"

end
