(* ===== verification/SaleExact.thy ===== *)
theory SaleExact
  imports SaleReturn
begin

text \<open>
  The exact conversions of \<^verbatim>\<open>saleReturnCore.ts\<close>: satang and thousandths survive the division and
  the multiplication of doubles over the whole supported range, and a whole unit factor
  multiplies exactly.
\<close>

lemma tolerance: "\<exists>t. SCALED_ABS_TOLERANCE = Fin t \<and> 9 / 100000 < t \<and> t < 11 / 100000"
proof -
  have "fl (1 / 10000) = Fin (fl_val (1 / 10000))" using fl_nonneg [of "1 / 10000"] by simp
  moreover have "\<bar>fl_val (1 / 10000) - 1 / 10000\<bar> < 1 / 100000" using fl_err [of "1 / 10000"] by simp
  moreover from this have "9 / 100000 < fl_val (1 / 10000)" "fl_val (1 / 10000) < 11 / 100000" by linarith+
  ultimately show ?thesis unfolding SCALED_ABS_TOLERANCE_def lit_def by blast
qed

text \<open>The rounding error of a value, without its sign.\<close>

lemma fl_near:
  fixes a d c b :: rat
  assumes "\<bar>a - b\<bar> \<le> c"
  shows "\<bar>fl_val a - b\<bar> \<le> c + (\<bar>b\<bar> + c) / 9007199254740992 + 1 / 10 ^ 30"
proof -
  have "\<bar>a\<bar> \<le> \<bar>b\<bar> + c" using assms by linarith
  then have "\<bar>a\<bar> / 9007199254740992 \<le> (\<bar>b\<bar> + c) / 9007199254740992" by (rule divide_right_mono) simp
  moreover have "\<bar>fl_val a - b\<bar> \<le> \<bar>fl_val a - a\<bar> + \<bar>a - b\<bar>" by linarith
  ultimately show ?thesis using fl_err [of a] assms by linarith
qed

lemma near_integer_close:
  assumes s: "0 \<le> s" "\<bar>s - of_int n\<bar> \<le> 8 / 100000" and n: "0 \<le> n" "n \<le> 9007199254740991"
  shows "near_integer (Fin s) = Some n"
proof -
  obtain t where t: "SCALED_ABS_TOLERANCE = Fin t" "9 / 100000 < t" using tolerance by blast
  have r: "math_round (Fin s) = Fin (of_int n)" using s by (intro math_round_near) auto
  have lt: "\<bar>s - of_int n\<bar> < 2 powi 1023" using s small_lt_max [of "s - of_int n"] by simp
  have "\<bar>fl_val (s - of_int n) - 0\<bar> \<le> 8 / 100000 + (\<bar>0\<bar> + 8 / 100000) / 9007199254740992 + 1 / 10 ^ 30"
    using s(2) by (intro fl_near) simp
  then have "\<bar>fl_val (s - of_int n)\<bar> < 9 / 100000" by simp
  then have "\<not> js_lt SCALED_ABS_TOLERANCE (js_abs (js_sub (Fin s) (Fin (of_int n))))"
    using t(2) fl_fin [OF lt] unfolding t(1) js_sub_Fin by (simp add: js_lt_finite num_val_js_abs)
  then show ?thesis using n
    by (simp add: near_integer_def r isSafeInteger_def isInteger_def safe_int_def del: math_round.simps)
qed

lemma near_integer_far:
  assumes s: "0 \<le> s" "12 / 100000 \<le> \<bar>s - of_int n\<bar>" "\<bar>s - of_int n\<bar> < 1 / 2"
  shows "near_integer (Fin s) = None"
proof -
  obtain t where t: "SCALED_ABS_TOLERANCE = Fin t" "t < 11 / 100000" using tolerance by blast
  have r: "math_round (Fin s) = Fin (of_int n)" using s by (intro math_round_near) auto
  have lt: "\<bar>s - of_int n\<bar> < 2 powi 1023" using s small_lt_max [of "s - of_int n"] by simp
  have "\<bar>fl_val (s - of_int n) - (s - of_int n)\<bar> \<le> \<bar>s - of_int n\<bar> / 9007199254740992 + 1 / 10 ^ 30" by (rule fl_err)
  moreover have "\<bar>s - of_int n\<bar> / 9007199254740992 \<le> 1 / 2 / 9007199254740992" using s(3) by (intro divide_right_mono) auto
  ultimately have "\<bar>fl_val (s - of_int n) - (s - of_int n)\<bar> \<le> 1 / 2 / 9007199254740992 + 1 / 10 ^ 30" by linarith
  then have "\<bar>fl_val (s - of_int n) - (s - of_int n)\<bar> \<le> 1 / 100000" by simp
  then have "11 / 100000 \<le> \<bar>fl_val (s - of_int n)\<bar>" using s(2) by linarith
  then have "js_lt SCALED_ABS_TOLERANCE (js_abs (js_sub (Fin s) (Fin (of_int n))))"
    using t(2) fl_fin [OF lt] unfolding t(1) js_sub_Fin by (simp add: js_lt_finite num_val_js_abs)
  then show ?thesis by (simp add: near_integer_def r Let_def del: math_round.simps)
qed

lemma scaled_round_trip:
  assumes f: "f = 100 \<or> f = 1000" and n: "0 \<le> n" "n \<le> m * f" "m * f \<le> 10 ^ 11"
  shows "toScaledExact (JNum (js_div (math_round (whole n)) (whole f))) (whole f) (whole m) = Some n"
proof -
  define N :: rat where "N = of_int n"
  define F :: rat where "F = of_int f"
  define M :: rat where "M = of_int m"
  define v where "v = fl_val (N / F)"
  have F: "0 < F" "F \<le> 1000" "100 \<le> F" using f by (auto simp: F_def)
  have N: "0 \<le> N" "N \<le> 10 ^ 11" "N \<le> M * F" "n \<noteq> m * f \<Longrightarrow> N + 1 \<le> M * F"
  proof -
    show "0 \<le> N" using n by (simp add: N_def)
    have "of_int n \<le> (of_int (10 ^ 11) :: rat)" using n by (simp only: of_int_le_iff)
    then show "N \<le> 10 ^ 11" by (simp add: N_def)
    have "of_int n \<le> (of_int (m * f) :: rat)" using n by (simp only: of_int_le_iff)
    then show "N \<le> M * F" by (simp add: N_def M_def F_def)
    assume "n \<noteq> m * f"
    then have "of_int (n + 1) \<le> (of_int (m * f) :: rat)" using n by (simp only: of_int_le_iff)
    then show "N + 1 \<le> M * F" by (simp add: N_def M_def F_def)
  qed
  have x: "0 \<le> N / F" "N / F \<le> 10 ^ 30"
  proof -
    show "0 \<le> N / F" using N F by simp
    have "N / F \<le> N / 100" using N F by (intro divide_left_mono) auto
    also have "\<dots> \<le> 10 ^ 30" using N by simp
    finally show "N / F \<le> 10 ^ 30" .
  qed
  have v: "fl (N / F) = Fin v" "0 \<le> v" using fl_nonneg [OF x] by (simp_all add: v_def)
  have err: "\<bar>v * F - N\<bar> \<le> 1 / 50000"
  proof -
    have e: "\<bar>v - N / F\<bar> \<le> N / F / 9007199254740992 + 1 / 10 ^ 30" using fl_err [of "N / F"] x by (simp add: v_def)
    have "v * F - N = (v - N / F) * F" using F by (simp add: field_simps)
    then have "\<bar>v * F - N\<bar> = \<bar>v - N / F\<bar> * F" using F by (simp add: abs_mult)
    also have "\<dots> \<le> (N / F / 9007199254740992 + 1 / 10 ^ 30) * F" using e F by (intro mult_right_mono) auto
    also have "\<dots> = N / 9007199254740992 + F / 10 ^ 30" using F by (simp add: distrib_right)
    also have "\<dots> \<le> 10 ^ 11 / 9007199254740992 + 1000 / 10 ^ 30"
      using N F by (intro add_mono divide_right_mono) auto
    also have "\<dots> \<le> 1 / 50000" by simp
    finally show ?thesis .
  qed
  have y: "0 \<le> v * F" "v * F \<le> 10 ^ 30"
  proof -
    show "0 \<le> v * F" using v F by simp
    have "v * F \<le> N + 1 / 50000" using err by linarith
    also have "\<dots> \<le> 10 ^ 11 + 1 / 50000" using N by simp
    finally show "v * F \<le> 10 ^ 30" by simp
  qed
  have w: "fl (v * F) = Fin (fl_val (v * F))" "0 \<le> fl_val (v * F)" using fl_nonneg [OF y] by auto
  have "\<bar>fl_val (v * F) - N\<bar> \<le> 1 / 50000 + (\<bar>N\<bar> + 1 / 50000) / 9007199254740992 + 1 / 10 ^ 30"
    by (rule fl_near [OF err])
  also have "\<dots> \<le> 1 / 50000 + (10 ^ 11 + 1 / 50000) / 9007199254740992 + 1 / 10 ^ 30"
    using N by (intro add_mono divide_right_mono) auto
  also have "\<dots> \<le> 8 / 100000" by simp
  finally have close: "\<bar>fl_val (v * F) - of_int n\<bar> \<le> 8 / 100000" by (simp add: N_def)
  have small: "v \<le> M"
  proof (cases "n = m * f")
    case True
    then have "N / F = of_int m" using F by (simp add: N_def F_def)
    moreover have "exact_range m" using True n f by (auto simp: exact_range_def)
    ultimately have "fl (N / F) = whole m" by (simp only: fl_whole)
    then show ?thesis using v(1) by (simp add: whole_def M_def)
  next
    case False
    then have "v * F \<le> M * F" using err N(4) by linarith
    then show ?thesis using F by simp
  qed
  have "math_round (whole n) = Fin (of_int n)" using N unfolding whole_def N_def by (intro math_round_near) auto
  then have d: "js_div (math_round (whole n)) (whole f) = Fin v"
    using F N v(1) by (simp add: whole_def js_div_Fin N_def F_def)
  have m: "js_mul (Fin v) (whole f) = Fin (fl_val (v * F))"
    using v(2) F w(1) by (simp add: whole_def js_mul_Fin F_def)
  have "n \<le> 9007199254740991" using order_trans [OF n(2,3)] by simp
  then have "near_integer (Fin (fl_val (v * F))) = Some n"
    using near_integer_close [OF w(2) close] n by simp
  then show ?thesis
    using small v(2) m by (simp add: toScaledExact_def d js_lt_finite num_val_js_abs M_def not_less)
qed

lemma milli_round_trip: "0 \<le> n \<Longrightarrow> n \<le> 10 ^ 11 \<Longrightarrow> toMilliExact (JNum (milliToQty n)) = Some n"
  using scaled_round_trip [of 1000 n "10 ^ 8"]
  by (simp add: toMilliExact_def milliToQty_def QTY_MAX_ABS_def whole_def)

lemma minor_round_trip: "0 \<le> n \<Longrightarrow> n \<le> 10 ^ 11 \<Longrightarrow> toMinorExact (JNum (minorToBaht n)) = Some n"
  using scaled_round_trip [of 100 n "10 ^ 9"]
  by (simp add: toMinorExact_def minorToBaht_def MONEY_MAX_ABS_BAHT_def whole_def)

lemma whole_near_integer: "safe_int n \<Longrightarrow> 0 \<le> n \<Longrightarrow> near_integer (whole n) = Some n"
  unfolding whole_def by (rule near_integer_close) (auto simp: safe_int_def)

lemma exactBaseMilli_whole:
  assumes "0 \<le> q" "safe_int q" "0 < u" "safe_int (q * u)"
  shows "exactBaseMilli q (whole u) = Some (q * u)"
proof -
  have "js_mul (whole q) (whole u) = fl (of_int q * of_int u)"
    using assms unfolding whole_def by (intro js_mul_Fin) auto
  also have "\<dots> = whole (q * u)"
    using fl_whole [of "q * u"] assms(4) by (simp add: exact_range_def safe_int_def)
  finally show ?thesis
    using assms whole_near_integer [of "q * u"] by (simp add: exactBaseMilli_def whole_lits(1))
qed

text \<open>A unit factor that is a little more than one: single thousandths are exact, pairs are not.\<close>

lemma fractional_factor:
  defines "f \<equiv> Fin (16385 / 16384)"
  shows "exactBaseMilli 1 f = Some 1" "exactBaseMilli 2 f = None" "exactBaseMilli 16384 f = Some 16385"
proof -
  have m: "js_mul (whole n) f = Fin (fl_val (of_int n * (16385 / 16384))) \<and> 0 \<le> fl_val (of_int n * (16385 / 16384))"
    if n: "0 \<le> n" "n \<le> 16384" for n
  proof -
    have r: "0 \<le> (of_int n :: rat)" "(of_int n :: rat) \<le> 16384" using n by auto
    then have "js_mul (whole n) f = fl (of_int n * (16385 / 16384))" unfolding whole_def f_def by (intro js_mul_Fin) auto
    then show ?thesis using fl_nonneg [of "of_int n * (16385 / 16384)"] r by simp
  qed
  have e: "\<bar>fl_val (of_int n * (16385 / 16384)) - of_int n * (16385 / 16384)\<bar> \<le> 1 / 10 ^ 10" if "n = 1 \<or> n = 2" for n
    using that fl_err [of "of_int n * (16385 / 16384)"] by auto
  note simps = exactBaseMilli_def f_def js_le_def js_lt_finite js_eq_finite safe_int_def
  have one: "near_integer (js_mul (whole 1) f) = Some 1"
  proof -
    define v where "v = fl_val (16385 / 16384)"
    have "\<bar>v - 16385 / 16384\<bar> \<le> 1 / 10000000000" using e [of 1] by (simp add: v_def)
    then have "\<bar>v - 1\<bar> \<le> 8 / 100000" by linarith
    then have "\<bar>v - of_int 1\<bar> \<le> 8 / 100000" by simp
    moreover have "js_mul (whole 1) f = Fin v" "0 \<le> v" using m [of 1] by (simp_all add: v_def)
    ultimately show ?thesis using near_integer_close [of v 1] by simp
  qed
  have two: "near_integer (js_mul (whole 2) f) = None"
  proof -
    define v where "v = fl_val (16385 / 8192)"
    have "\<bar>v - 16385 / 8192\<bar> \<le> 1 / 10000000000" using e [of 2] by (simp add: v_def)
    then have "12 / 100000 \<le> \<bar>v - 2\<bar> \<and> \<bar>v - 2\<bar> < 1 / 2" by linarith
    then have "12 / 100000 \<le> \<bar>v - of_int 2\<bar>" "\<bar>v - of_int 2\<bar> < 1 / 2" by simp_all
    moreover have "js_mul (whole 2) f = Fin v" "0 \<le> v" using m [of 2] by (simp_all add: v_def)
    ultimately show ?thesis using near_integer_far [of v 2] by simp
  qed
  have "js_mul (whole 16384) f = whole 16385"
    unfolding whole_def f_def using fl_whole [of 16385] by (simp add: js_mul_Fin exact_range_def whole_def)
  then have all: "near_integer (js_mul (whole 16384) f) = Some 16385" by (simp add: whole_near_integer safe_int_def)
  show "exactBaseMilli 1 f = Some 1" "exactBaseMilli 2 f = None" "exactBaseMilli 16384 f = Some 16385"
    using one two all by (simp_all add: simps)
qed

end
