(* ===== verification/SaleReturnLaws.thy ===== *)
theory SaleReturnLaws
  imports SaleShares SaleExact
begin

text \<open>
  What an accepted return does to the ledger: the invariant \<^verbatim>\<open>ledger_ok\<close> (every line within what
  was sold, every refund determined by the returned quantity, every tender within what it
  paid) is kept by the planner, the refunds of a line telescope, and the portions follow the
  recorded lots. The ledger document reads back.
\<close>

section \<open>Cumulative refunds\<close>

lemma cumulative_div:
  "0 \<le> share \<Longrightarrow> 0 < sold \<Longrightarrow> 0 \<le> cum \<Longrightarrow> cum \<le> sold \<Longrightarrow>
   cumulativeRefundMinor share sold cum = (2 * share * cum + sold) div (2 * sold)"
  by (auto simp: cumulativeRefundMinor_def sdiv_nonneg min_def div_pos_pos_trivial)

lemma cumulative_zero [simp]: "cumulativeRefundMinor share sold 0 = 0"
  by (simp add: cumulativeRefundMinor_def)

lemma cumulative_full: "0 \<le> share \<Longrightarrow> 0 < sold \<Longrightarrow> cumulativeRefundMinor share sold sold = share"
proof -
  assume a: "0 \<le> share" "0 < sold"
  have "(2 * share * sold + sold) div (2 * sold) = (sold + share * (2 * sold)) div (2 * sold)" by (simp add: algebra_simps)
  also have "\<dots> = share" using a by simp
  finally show ?thesis using a by (simp add: cumulative_div)
qed

lemma cumulative_mono:
  "0 \<le> share \<Longrightarrow> 0 < sold \<Longrightarrow> 0 \<le> a \<Longrightarrow> a \<le> b \<Longrightarrow> b \<le> sold \<Longrightarrow>
   cumulativeRefundMinor share sold a \<le> cumulativeRefundMinor share sold b"
  by (simp add: cumulative_div zdiv_mono1 mult_left_mono)

lemma cumulative_bounds:
  assumes "0 \<le> share" "0 < sold" "0 \<le> c" "c \<le> sold"
  shows "0 \<le> cumulativeRefundMinor share sold c" "cumulativeRefundMinor share sold c \<le> share"
  using cumulative_mono [of share sold 0 c] cumulative_mono [of share sold c sold] assms by (simp_all add: cumulative_full)

text \<open>Half a satang of the exact proportion.\<close>

lemma cumulative_near:
  assumes "0 \<le> share" "0 < sold" "0 \<le> c" "c \<le> sold"
  shows "\<bar>2 * sold * cumulativeRefundMinor share sold c - 2 * share * c\<bar> \<le> sold"
proof -
  let ?x = "2 * share * c + sold" and ?t = "2 * sold"
  have "?t * (?x div ?t) + ?x mod ?t = ?x" "0 \<le> ?x mod ?t" "?x mod ?t < ?t" using assms by simp_all
  then show ?thesis unfolding cumulative_div [OF assms] abs_le_iff by linarith
qed

section \<open>Portions\<close>

lemma cut_portions_sum:
  "\<forall>r \<in> set lots. 0 < lt_qtyBaseMilli r \<Longrightarrow> start \<le> stop \<Longrightarrow> stop \<le> cursor + sum_list (map lt_qtyBaseMilli lots) \<Longrightarrow>
   sum_list (map pn_qtyBaseMilli (cut_portions start stop cursor n lots)) = max stop cursor - max start cursor"
proof (induction start stop cursor n lots rule: cut_portions.induct)
  case (2 start stop cursor n lot lots)
  then show ?case by (auto simp: Let_def max_def min_def)
qed (auto simp: max_def)

lemma cut_portions_oversell:
  "\<forall>r \<in> set lots. 0 < lt_qtyBaseMilli r \<Longrightarrow> stop \<le> cursor + sum_list (map lt_qtyBaseMilli lots) \<Longrightarrow>
   start \<le> oversell_free_end cursor lots \<Longrightarrow>
   \<not> list_ex (\<lambda>p. pn_originalLotId p = OVERSELL_LOT_ID) (cut_portions start stop cursor n lots) \<Longrightarrow>
   stop \<le> oversell_free_end cursor lots \<or> stop \<le> start"
proof (induction start stop cursor n lots rule: cut_portions.induct)
  case (2 start stop cursor n lot lots)
  then show ?case by (auto simp: Let_def split: if_splits)
qed auto

definition lot_amount :: "portion list \<Rightarrow> jsstr \<Rightarrow> int" where
  "lot_amount ps i = sum_list (map pn_qtyBaseMilli (filter (\<lambda>p. pn_originalLotId p = i) ps))"

lemma lot_amount_simps [simp]:
  "lot_amount [] i = 0"
  "lot_amount (p # ps) i = (if pn_originalLotId p = i then pn_qtyBaseMilli p else 0) + lot_amount ps i"
  by (simp_all add: lot_amount_def)

lemma lot_amount_cut:
  "lot_amount (cut_portions start stop cursor n (lot # lots)) i =
   (if lt_lotId lot = i then max 0 (min stop (cursor + lt_qtyBaseMilli lot) - max start cursor) else 0)
   + (\<lambda>n. lot_amount (cut_portions start stop (cursor + lt_qtyBaseMilli lot) n lots) i) (if min stop (cursor + lt_qtyBaseMilli lot) - max start cursor > 0 then Suc n else n)"
  by (auto simp: Let_def max_def)

lemma lot_amount_index: "lot_amount (cut_portions start stop cursor n lots) i = lot_amount (cut_portions start stop cursor 0 lots) i"
proof (induction lots arbitrary: cursor n)
  case (Cons lot lots)
  then show ?case using lot_amount_cut [of start stop cursor n lot lots i] lot_amount_cut [of start stop cursor 0 lot lots i] by metis
qed simp

lemma lot_amount_cut':
  "lot_amount (cut_portions start stop cursor 0 (lot # lots)) i =
   (if lt_lotId lot = i then max 0 (min stop (cursor + lt_qtyBaseMilli lot) - max start cursor) else 0)
   + lot_amount (cut_portions start stop (cursor + lt_qtyBaseMilli lot) 0 lots) i"
  using lot_amount_cut [of start stop cursor 0 lot lots i] lot_amount_index by metis

lemma overlap_split:
  "s \<le> m \<Longrightarrow> m \<le> e \<Longrightarrow> k \<le> c \<Longrightarrow>
   max 0 (min m c - max s k) + max 0 (min e c - max m k) = max 0 (min e c - max s k)" for s :: int
  unfolding max_def min_def by auto

lemma lot_amount_split:
  "start \<le> mid \<Longrightarrow> mid \<le> stop \<Longrightarrow> \<forall>r \<in> set lots. 0 < lt_qtyBaseMilli r \<Longrightarrow>
   lot_amount (cut_portions start mid cursor 0 lots) i + lot_amount (cut_portions mid stop cursor 0 lots) i
   = lot_amount (cut_portions start stop cursor 0 lots) i"
proof (induction lots arbitrary: cursor)
  case (Cons lot lots)
  have "max 0 (min mid c - max start cursor) + max 0 (min stop c - max mid cursor) = max 0 (min stop c - max start cursor)"
    if "c = cursor + lt_qtyBaseMilli lot" for c
    using Cons.prems that by (intro overlap_split) auto
  then show ?case using Cons.IH [OF Cons.prems(1,2), of "cursor + lt_qtyBaseMilli lot"] Cons.prems(3)
    unfolding lot_amount_cut' by auto
qed simp

lemma lot_amount_bound:
  "\<forall>r \<in> set lots. 0 < lt_qtyBaseMilli r \<Longrightarrow> lot_amount (cut_portions start stop cursor 0 lots) i
   \<le> sum_list (map lt_qtyBaseMilli (filter (\<lambda>r. lt_lotId r = i) lots))"
proof (induction lots arbitrary: cursor)
  case (Cons lot lots)
  have "max 0 (min stop (cursor + lt_qtyBaseMilli lot) - max start cursor) \<le> lt_qtyBaseMilli lot" using Cons.prems by auto
  then show ?case using Cons.IH [of "cursor + lt_qtyBaseMilli lot"] Cons.prems unfolding lot_amount_cut' by auto
qed simp

lemma plan_lots:
  assumes p: "planLotRestoration lots a q = Some ps" and pos: "\<forall>r \<in> set lots. 0 < lt_qtyBaseMilli r"
  shows "sum_list (map pn_qtyBaseMilli ps) = q" "0 \<le> a" "0 < q" "a + q \<le> sum_list (map lt_qtyBaseMilli lots)"
    "ps = cut_portions a (a + q) 0 0 lots"
  using assms cut_portions_sum [of lots a "a + q" 0 0] by (auto simp: planLotRestoration_def split: if_splits)

section \<open>The invariant of the ledger\<close>

text \<open>One line of the ledger against its line of the sale.\<close>

definition line_ok :: "line_evidence \<Rightarrow> ledger_line \<Rightarrow> bool" where
  "line_ok l p \<longleftrightarrow> 0 \<le> gl_qtyMilli p \<and> gl_qtyMilli p \<le> le_soldQtyMilli l \<and>
     0 \<le> gl_qtyBaseMilli p \<and> gl_qtyBaseMilli p \<le> le_soldQtyBaseMilli l \<and>
     gl_qtyBaseMilli p \<le> oversellFreeBaseEnd (le_lots l) \<and>
     (gl_qtyMilli p = le_soldQtyMilli l \<longrightarrow> gl_qtyBaseMilli p = le_soldQtyBaseMilli l) \<and>
     gl_refundedMinor p = cumulativeRefundMinor (le_refundableShareMinor l) (le_soldQtyMilli l) (gl_qtyMilli p)"

definition lines_ok :: "sale_evidence \<Rightarrow> (nat, ledger_line) jsmap \<Rightarrow> bool" where
  "lines_ok sale m \<longleftrightarrow> map_wf m \<and> (\<forall>i p. map_of m i = Some p \<longrightarrow> (\<exists>l. byIndex sale i = Some l \<and> line_ok l p))"

definition refunded :: "(nat, ledger_line) jsmap \<Rightarrow> int" where
  "refunded m = sum_list (map (gl_refundedMinor \<circ> snd) m)"

definition returned :: "(nat, ledger_line) jsmap \<Rightarrow> int" where
  "returned m = sum_list (map (gl_qtyMilli \<circ> snd) m)"

definition ledger_ok :: "sale_evidence \<Rightarrow> return_ledger \<Rightarrow> bool" where
  "ledger_ok sale g \<longleftrightarrow> lines_ok sale (lg_lines g) \<and> refunded (lg_lines g) = lg_refundedTotalMinor g \<and>
     method_total (lg_byMethod g) = lg_refundedTotalMinor g \<and> lg_refundedTotalMinor g \<le> sv_totalMinor sale \<and>
     (\<forall>m. 0 \<le> lg_byMethod g m \<and> lg_byMethod g m \<le> sv_netPaid sale m) \<and>
     lg_returnCount g = int (length (lg_acceptedReturnIds g)) \<and>
     lg_returnCount g \<le> returned (lg_lines g)"

subsection \<open>Sums over a map\<close>

lemma sum_map_set:
  fixes f :: "'v \<Rightarrow> int"
  assumes "map_wf m"
  shows "sum_list (map (f \<circ> snd) (map_set k v m)) =
    sum_list (map (f \<circ> snd) m) - (case map_of m k of Some u \<Rightarrow> f u | None \<Rightarrow> 0) + f v"
  using assms
proof (induction m)
  case (Cons e m)
  have "k \<in> fst ` set m \<longleftrightarrow> map_of m k \<noteq> None" by (auto simp: map_of_eq_None_iff)
  then show ?case using Cons by (cases e) (auto simp: map_wf_def split: option.splits)
qed simp

lemma no_line_simps [simp]: "gl_qtyMilli no_line = 0" "gl_qtyBaseMilli no_line = 0" "gl_refundedMinor no_line = 0"
  by (simp_all add: no_line_def)

lemma prior_line_set [simp]: "prior_line (map_set k v m) i = (if i = k then v else prior_line m i)"
  by (simp add: prior_line_def)

lemma sum_prior:
  assumes "map_wf m" "f no_line = 0"
  shows "sum_list (map (f \<circ> snd) (map_set k v m)) = sum_list (map (f \<circ> snd) m) - (f (prior_line m k) :: int) + f v"
  using sum_map_set [OF assms(1), of f k v] assms(2) by (simp add: prior_line_def split: option.splits)

subsection \<open>Lines of the sale by index\<close>

lemma byIndex_in: "byIndex sale i = Some l \<Longrightarrow> l \<in> set (sv_lines sale) \<and> le_lineIndex l = i"
  by (auto simp: byIndex_def dest!: map_of_SomeD)

lemma byIndex_nth:
  assumes "sale_wf sale"
  shows "byIndex sale i = (if i < length (sv_lines sale) then Some (sv_lines sale ! i) else None)"
proof -
  let ?ls = "sv_lines sale"
  have k: "map le_lineIndex ?ls = [0..<length ?ls]" using assms by (simp add: sale_wf_def)
  have idx: "le_lineIndex (?ls ! j) = j" if "j < length ?ls" for j
    using arg_cong [OF k, of "\<lambda>xs. xs ! j"] that by simp
  let ?m = "map (\<lambda>l. (le_lineIndex l, l)) (rev ?ls)"
  have "map fst ?m = rev (map le_lineIndex ?ls)" by (simp add: rev_map comp_def)
  then have d: "distinct (map fst ?m)" using k by simp
  show ?thesis
  proof (cases "i < length ?ls")
    case True
    then have "(i, ?ls ! i) \<in> set ?m" using idx by (auto simp: image_iff intro: bexI [of _ "?ls ! i"])
    then show ?thesis using True map_of_is_SomeI [OF d] by (simp add: byIndex_def)
  next
    case False
    have "byIndex sale i = None"
    proof (rule ccontr)
      assume "byIndex sale i \<noteq> None"
      then obtain l where "l \<in> set ?ls" "le_lineIndex l = i" using byIndex_in by blast
      then show False using False idx by (metis in_set_conv_nth)
    qed
    then show ?thesis using False by simp
  qed
qed

lemma byIndex_wf:
  "sale_wf sale \<Longrightarrow> byIndex sale i = Some l \<Longrightarrow> line_wf l \<and> 0 \<le> le_refundableShareMinor l \<and> le_lineIndex l = i"
  using byIndex_in [of sale i l] by (auto simp: sale_wf_def)

lemma free_end_bounds:
  "\<forall>r \<in> set lots. 0 < lt_qtyBaseMilli r \<Longrightarrow>
   cursor \<le> oversell_free_end cursor lots \<and> oversell_free_end cursor lots \<le> cursor + sum_list (map lt_qtyBaseMilli lots)"
proof (induction lots arbitrary: cursor)
  case (Cons lot lots)
  have "0 \<le> sum_list (map lt_qtyBaseMilli lots)" using Cons.prems by (intro sum_list_nonneg) auto
  then show ?case using Cons.IH [of "cursor + lt_qtyBaseMilli lot"] Cons.prems by auto
qed simp

lemma line_ok_none: "line_wf l \<Longrightarrow> line_ok l no_line"
  using free_end_bounds [of "le_lots l" 0] by (simp add: line_ok_def line_wf_def oversellFreeBaseEnd_def)

lemma lines_ok_prior:
  "sale_wf sale \<Longrightarrow> lines_ok sale m \<Longrightarrow> byIndex sale i = Some l \<Longrightarrow> line_ok l (prior_line m i)"
  unfolding lines_ok_def prior_line_def by (cases "map_of m i") (fastforce intro: line_ok_none dest: byIndex_wf)+

subsection \<open>One planned line\<close>

lemma plan_return_line_Inr:
  assumes wf: "sale_wf sale" and ok: "lines_ok sale (lg_lines g)" and p: "plan_return_line sale g req = Inr d"
  defines "i \<equiv> rl_lineIndex req" and "l \<equiv> pl_line d" and "pr \<equiv> prior_line (lg_lines g) (rl_lineIndex req)"
  shows "byIndex sale i = Some l" "le_lineIndex l = i" "0 < pl_qtyMilli d" "pl_qtyMilli d = rl_qtyMilli req"
    "pl_refundMinor d = cumulativeRefundMinor (le_refundableShareMinor l) (le_soldQtyMilli l) (gl_qtyMilli pr + pl_qtyMilli d) - gl_refundedMinor pr"
    "pl_revenueMinor d = cumulativeRefundMinor (le_lineTotalMinor l) (le_soldQtyMilli l) (gl_qtyMilli pr + pl_qtyMilli d)
       - cumulativeRefundMinor (le_lineTotalMinor l) (le_soldQtyMilli l) (gl_qtyMilli pr)"
    "0 \<le> pl_refundMinor d"
    "planLotRestoration (le_lots l) (gl_qtyBaseMilli pr) (pl_qtyBaseMilli d) = Some (pl_portions d)"
    "\<not> list_ex (\<lambda>p. pn_originalLotId p = OVERSELL_LOT_ID) (pl_portions d)"
    "pl_qtyBaseMilli d = (if gl_qtyMilli pr + pl_qtyMilli d = le_soldQtyMilli l then le_soldQtyBaseMilli l - gl_qtyBaseMilli pr
       else the (exactBaseMilli (pl_qtyMilli d) (le_unitFactor l)))"
    "line_ok l \<lparr>gl_qtyMilli = gl_qtyMilli pr + pl_qtyMilli d, gl_qtyBaseMilli = gl_qtyBaseMilli pr + pl_qtyBaseMilli d,
       gl_refundedMinor = gl_refundedMinor pr + pl_refundMinor d\<rparr>"
proof -
  from p show b: "byIndex sale i = Some l" and q: "0 < pl_qtyMilli d" "pl_qtyMilli d = rl_qtyMilli req"
    and lots: "planLotRestoration (le_lots l) (gl_qtyBaseMilli pr) (pl_qtyBaseMilli d) = Some (pl_portions d)"
    and no: "\<not> list_ex (\<lambda>p. pn_originalLotId p = OVERSELL_LOT_ID) (pl_portions d)"
    and base: "pl_qtyBaseMilli d = (if gl_qtyMilli pr + pl_qtyMilli d = le_soldQtyMilli l then le_soldQtyBaseMilli l - gl_qtyBaseMilli pr
       else the (exactBaseMilli (pl_qtyMilli d) (le_unitFactor l)))"
    by (auto simp: plan_return_line_def Let_def i_def l_def pr_def split: option.splits if_splits)
  from p have le: "gl_qtyMilli pr + pl_qtyMilli d \<le> le_soldQtyMilli l" and rem: "pl_qtyBaseMilli d \<le> le_soldQtyBaseMilli l - gl_qtyBaseMilli pr"
    and r: "pl_refundMinor d = lineRefundForReturnMinor (le_refundableShareMinor l) (le_soldQtyMilli l) (gl_qtyMilli pr) (pl_qtyMilli d)"
    and v: "pl_revenueMinor d = lineRefundForReturnMinor (le_lineTotalMinor l) (le_soldQtyMilli l) (gl_qtyMilli pr) (pl_qtyMilli d)"
    by (auto simp: plan_return_line_def Let_def i_def l_def pr_def split: option.splits if_splits)
  have l: "line_wf l" "0 \<le> le_refundableShareMinor l" "le_lineIndex l = i" using byIndex_wf [OF wf b] by auto
  then have sold: "0 < le_soldQtyMilli l" and pos: "\<forall>r \<in> set (le_lots l). 0 < lt_qtyBaseMilli r" by (auto simp: line_wf_def)
  show "le_lineIndex l = i" by (rule l)
  have pr: "line_ok l pr" using lines_ok_prior [OF wf ok b] by (simp add: pr_def i_def)
  then have prr: "0 \<le> gl_qtyMilli pr" "gl_refundedMinor pr = cumulativeRefundMinor (le_refundableShareMinor l) (le_soldQtyMilli l) (gl_qtyMilli pr)"
    and free: "gl_qtyBaseMilli pr \<le> oversellFreeBaseEnd (le_lots l)" by (auto simp: line_ok_def)
  show refund: "pl_refundMinor d = cumulativeRefundMinor (le_refundableShareMinor l) (le_soldQtyMilli l) (gl_qtyMilli pr + pl_qtyMilli d) - gl_refundedMinor pr"
    using r prr by (simp add: lineRefundForReturnMinor_def)
  show "pl_revenueMinor d = cumulativeRefundMinor (le_lineTotalMinor l) (le_soldQtyMilli l) (gl_qtyMilli pr + pl_qtyMilli d)
       - cumulativeRefundMinor (le_lineTotalMinor l) (le_soldQtyMilli l) (gl_qtyMilli pr)"
    using v by (simp add: lineRefundForReturnMinor_def)
  show "0 \<le> pl_refundMinor d" using cumulative_mono [OF l(2) sold prr(1), of "gl_qtyMilli pr + pl_qtyMilli d"] q le refund prr(2) by simp
  note pl = plan_lots [OF lots pos]
  have "gl_qtyBaseMilli pr + pl_qtyBaseMilli d \<le> oversellFreeBaseEnd (le_lots l)"
    using cut_portions_oversell [OF pos, of "gl_qtyBaseMilli pr + pl_qtyBaseMilli d" 0 "gl_qtyBaseMilli pr" 0] pl no free
    by (auto simp: oversellFreeBaseEnd_def)
  then show "line_ok l \<lparr>gl_qtyMilli = gl_qtyMilli pr + pl_qtyMilli d, gl_qtyBaseMilli = gl_qtyBaseMilli pr + pl_qtyBaseMilli d,
       gl_refundedMinor = gl_refundedMinor pr + pl_refundMinor d\<rparr>"
    using pl q le rem prr(1) refund base by (simp add: line_ok_def)
qed

subsection \<open>All planned lines\<close>

definition planned_line_ok :: "sale_evidence \<Rightarrow> (nat, ledger_line) jsmap \<Rightarrow> planned_line \<Rightarrow> bool" where
  "planned_line_ok sale m d \<longleftrightarrow> (let l = pl_line d; i = le_lineIndex l; p = prior_line m i in
     byIndex sale i = Some l \<and> 0 < pl_qtyMilli d \<and> 0 \<le> pl_refundMinor d \<and>
     line_ok l \<lparr>gl_qtyMilli = gl_qtyMilli p + pl_qtyMilli d, gl_qtyBaseMilli = gl_qtyBaseMilli p + pl_qtyBaseMilli d,
       gl_refundedMinor = gl_refundedMinor p + pl_refundMinor d\<rparr>)"

lemma map_result_list: "map_result f xs = Inr ys \<longleftrightarrow> list_all2 (\<lambda>x y. f x = Inr y) xs ys"
  by (induction f xs arbitrary: ys rule: map_result.induct) (auto simp: and_then_Inr_iff list_all2_Cons1)

lemma map_result_length: "map_result f xs = Inr ys \<Longrightarrow> length ys = length xs"
  by (auto simp: map_result_list dest: list_all2_lengthD)

lemma planned_lines:
  assumes "sale_wf sale" "lines_ok sale (lg_lines g)" "map_result (plan_return_line sale g) reqs = Inr ds"
  shows "map (le_lineIndex \<circ> pl_line) ds = map rl_lineIndex reqs" "\<forall>d \<in> set ds. planned_line_ok sale (lg_lines g) d"
    "map pl_qtyMilli ds = map rl_qtyMilli reqs"
proof -
  have a: "list_all2 (\<lambda>r d. plan_return_line sale g r = Inr d) reqs ds" using assms(3) by (simp add: map_result_list)
  have one: "le_lineIndex (pl_line d) = rl_lineIndex r \<and> planned_line_ok sale (lg_lines g) d \<and> pl_qtyMilli d = rl_qtyMilli r"
    if "plan_return_line sale g r = Inr d" for r d
    using plan_return_line_Inr [OF assms(1,2) that] by (simp add: planned_line_ok_def Let_def)
  show "map (le_lineIndex \<circ> pl_line) ds = map rl_lineIndex reqs" "map pl_qtyMilli ds = map rl_qtyMilli reqs"
    "\<forall>d \<in> set ds. planned_line_ok sale (lg_lines g) d"
    using a one by (induction rule: list_all2_induct) auto
qed

lemma add_planned_lines_ok:
  assumes ok: "lines_ok sale m" and d: "planned_line_ok sale m d"
  shows "lines_ok sale (add_planned m d)" "refunded (add_planned m d) = refunded m + pl_refundMinor d"
    "returned (add_planned m d) = returned m + pl_qtyMilli d"
proof -
  have wf: "map_wf m" using ok by (simp add: lines_ok_def)
  show "lines_ok sale (add_planned m d)"
    using ok d by (auto simp: lines_ok_def planned_line_ok_def add_planned_def Let_def)
  show "refunded (add_planned m d) = refunded m + pl_refundMinor d"
    "returned (add_planned m d) = returned m + pl_qtyMilli d"
    unfolding refunded_def returned_def add_planned_def Let_def by (simp_all add: sum_prior [OF wf])
qed

lemma planned_line_ok_frame:
  "le_lineIndex (pl_line d) \<noteq> le_lineIndex (pl_line e) \<Longrightarrow> planned_line_ok sale (add_planned m e) d = planned_line_ok sale m d"
  by (simp add: planned_line_ok_def add_planned_def Let_def)

lemma fold_planned_lines_ok:
  "lines_ok sale m \<Longrightarrow> \<forall>d \<in> set ds. planned_line_ok sale m d \<Longrightarrow> distinct (map (le_lineIndex \<circ> pl_line) ds) \<Longrightarrow>
   lines_ok sale (foldl add_planned m ds) \<and> refunded (foldl add_planned m ds) = refunded m + sum_list (map pl_refundMinor ds) \<and>
   returned (foldl add_planned m ds) = returned m + sum_list (map pl_qtyMilli ds)"
proof (induction ds arbitrary: m)
  case (Cons d ds)
  note a = add_planned_lines_ok [of sale m d]
  have "\<forall>e \<in> set ds. planned_line_ok sale (add_planned m d) e"
    using Cons.prems by (auto simp: planned_line_ok_frame image_iff)
  then show ?case using Cons.IH [of "add_planned m d"] Cons.prems a by auto
qed simp

text \<open>Every line of the next ledger: what was returned before, and what is returned now.\<close>

definition plus_planned :: "ledger_line \<Rightarrow> planned_line \<Rightarrow> ledger_line" where
  "plus_planned p d = \<lparr>gl_qtyMilli = gl_qtyMilli p + pl_qtyMilli d, gl_qtyBaseMilli = gl_qtyBaseMilli p + pl_qtyBaseMilli d,
     gl_refundedMinor = gl_refundedMinor p + pl_refundMinor d\<rparr>"

lemma prior_add_planned:
  "prior_line (add_planned m e) j =
    (if j = le_lineIndex (pl_line e) then plus_planned (prior_line m j) e else prior_line m j)"
  by (simp add: add_planned_def plus_planned_def Let_def)

lemma fold_planned_other:
  "i \<notin> le_lineIndex ` pl_line ` set ds \<Longrightarrow> prior_line (foldl add_planned m ds) i = prior_line m i"
  by (induction ds arbitrary: m) (auto simp: prior_add_planned)

lemma fold_planned_prior:
  "distinct (map (le_lineIndex \<circ> pl_line) ds) \<Longrightarrow> d \<in> set ds \<Longrightarrow>
   prior_line (foldl add_planned m ds) (le_lineIndex (pl_line d)) = plus_planned (prior_line m (le_lineIndex (pl_line d))) d"
proof (induction ds arbitrary: m)
  case (Cons e ds)
  then have e: "le_lineIndex (pl_line e) \<notin> le_lineIndex ` pl_line ` set ds" by (auto simp: image_iff)
  show ?case
  proof (cases "d = e")
    case True
    then show ?thesis using fold_planned_other [OF e] by (simp add: prior_add_planned)
  next
    case False
    then have "d \<in> set ds" using Cons.prems by simp
    then have "le_lineIndex (pl_line d) \<noteq> le_lineIndex (pl_line e)" using e by (metis imageI)
    then show ?thesis using Cons.IH [of "add_planned m e"] Cons.prems \<open>d \<in> set ds\<close> by (simp add: prior_add_planned)
  qed
qed simp

lemma method_total_upd: "method_total (g(m := g m + r)) = method_total g + r"
  by (cases m) (simp_all add: method_total_def MONEY_REFUND_METHODS_def)

lemma plan_Inr:
  assumes p: "planSaleReturn sale g req rid = Inr pl"
  obtains ds where "map_result (plan_return_line sale g) (rr_lines req) = Inr ds" "rp_lines pl = ds"
    "rp_refundMinor pl = sum_list (map pl_refundMinor ds)" "rp_refundMinor pl = rr_expectedRefundMinor req"
    "lg_refundedTotalMinor g + rp_refundMinor pl \<le> sv_totalMinor sale"
    "refund_method_check sale g (rr_refundMethod req) (rr_refundReference req) (rp_refundMinor pl) = Inr ()"
    "rp_refundMethod pl = rr_refundMethod req" "rp_revenueMinor pl = sum_list (map pl_revenueMinor ds)"
    "rp_nextLedger pl = next_ledger g ds (rr_refundMethod req) (rp_refundMinor pl) rid" "\<not> isFullyReturned sale g"
  using p by (fastforce simp: planSaleReturn_def and_then_Inr_iff Let_def split: if_splits)

text \<open>The invariant survives every accepted return.\<close>

lemma next_ledger_ok:
  assumes wf: "sale_wf sale" and ok: "ledger_ok sale g" and ne: "rr_lines req \<noteq> []" and d: "distinct (map rl_lineIndex (rr_lines req))"
    and p: "planSaleReturn sale g req rid = Inr pl"
  shows "ledger_ok sale (rp_nextLedger pl)"
proof -
  obtain ds where ds: "map_result (plan_return_line sale g) (rr_lines req) = Inr ds" "rp_refundMinor pl = sum_list (map pl_refundMinor ds)"
    "lg_refundedTotalMinor g + rp_refundMinor pl \<le> sv_totalMinor sale"
    "refund_method_check sale g (rr_refundMethod req) (rr_refundReference req) (rp_refundMinor pl) = Inr ()"
    "rp_nextLedger pl = next_ledger g ds (rr_refundMethod req) (rp_refundMinor pl) rid"
    using plan_Inr [OF p] by metis
  have lok: "lines_ok sale (lg_lines g)" using ok by (simp add: ledger_ok_def)
  note pls = planned_lines [OF wf lok ds(1)]
  have dd: "distinct (map (le_lineIndex \<circ> pl_line) ds)" using pls(1) d by simp
  note fold = fold_planned_lines_ok [OF lok pls(2) dd]
  have r0: "0 \<le> rp_refundMinor pl" using pls(2) by (auto simp: ds(2) planned_line_ok_def Let_def intro!: sum_list_nonneg)
  have q1: "1 \<le> sum_list (map pl_qtyMilli ds)"
  proof -
    obtain e es where e: "ds = e # es" using ne map_result_length [OF ds(1)] by (cases ds) auto
    have "0 \<le> sum_list (map pl_qtyMilli es)" using pls(2) by (auto simp: e planned_line_ok_def Let_def less_imp_le intro!: sum_list_nonneg)
    then show ?thesis using pls(2) by (auto simp: e planned_line_ok_def Let_def)
  qed
  have meth: "method_total (lg_byMethod (rp_nextLedger pl)) = lg_refundedTotalMinor g + rp_refundMinor pl
    \<and> (\<forall>m. 0 \<le> lg_byMethod (rp_nextLedger pl) m \<and> lg_byMethod (rp_nextLedger pl) m \<le> sv_netPaid sale m)"
    using ok ds(4) r0 by (auto simp: ds(5) next_ledger_def ledger_ok_def refund_method_check_def method_total_upd
        split: option.splits if_splits)
  show ?thesis using fold meth ok ds(2,3) q1 by (simp add: ledger_ok_def ds(5) next_ledger_def)
qed

lemma total_nonneg: "sale_wf sale \<Longrightarrow> 0 \<le> sv_totalMinor sale"
proof -
  assume w: "sale_wf sale"
  then have n: "0 \<le> sv_netPaid sale m" for m by (simp add: sale_wf_def)
  have "0 \<le> method_total (sv_netPaid sale)"
    using n [of PayCash] n [of PayQr] n [of PayKbank] n [of PayCard] by (simp add: method_total_def MONEY_REFUND_METHODS_def)
  then show ?thesis using w by (simp add: sale_wf_def)
qed

lemma empty_ledger_ok: "sale_wf sale \<Longrightarrow> ledger_ok sale emptyLedger"
  using total_nonneg [of sale]
  by (auto simp: ledger_ok_def emptyLedger_def lines_ok_def refunded_def returned_def sale_wf_def
      method_total_def MONEY_REFUND_METHODS_def)

section \<open>The ledger document\<close>

definition nat53 :: "int \<Rightarrow> bool" where
  "nat53 n \<longleftrightarrow> 0 \<le> n \<and> safe_int n"

definition line_storable :: "nat \<times> ledger_line \<Rightarrow> bool" where
  "line_storable e \<longleftrightarrow> nat53 (int (fst e)) \<and> nat53 (gl_qtyMilli (snd e)) \<and> nat53 (gl_qtyBaseMilli (snd e)) \<and>
     nat53 (gl_refundedMinor (snd e))"

definition storable :: "return_ledger \<Rightarrow> bool" where
  "storable g \<longleftrightarrow> map_wf (lg_lines g) \<and> list_all line_storable (lg_lines g) \<and> nat53 (lg_returnCount g) \<and>
     nat53 (lg_refundedTotalMinor g) \<and> (\<forall>m. nat53 (lg_byMethod g m)) \<and>
     lg_returnCount g = int (length (lg_acceptedReturnIds g)) \<and> distinct (lg_acceptedReturnIds g) \<and> [] \<notin> set (lg_acceptedReturnIds g)"

definition by_index :: "return_ledger \<Rightarrow> return_ledger" where
  "by_index g = g\<lparr>lg_lines := sort_by by_key (lg_lines g)\<rparr>"

lemma nonNegInt_whole [simp]: "nat53 n \<Longrightarrow> nonNegInt (JNum (whole n)) = Some n"
  by (simp add: nonNegInt_def isSafeInteger_def isInteger_def nat53_def whole_lits(1))

lemma read_ledger_line_doc: "line_storable e \<Longrightarrow> read_ledger_line (ledger_line_doc e) = Some e"
  by (cases e) (simp add: read_ledger_line_def ledger_line_doc_def object_value_def doc_field_def num_entry_def line_storable_def)

lemma map_set_new: "k \<notin> fst ` set m \<Longrightarrow> map_set k v m = m @ [(k, v)]"
  by (induction m) auto

lemma read_ledger_lines_docs:
  "list_all line_storable es \<Longrightarrow> distinct (map fst (m @ es)) \<Longrightarrow> read_ledger_lines m (map ledger_line_doc es) = Some (m @ es)"
proof (induction es arbitrary: m)
  case (Cons e es)
  obtain i d where e: "e = (i, d)" by (cases e)
  have i: "i \<notin> fst ` set m" using Cons.prems by (auto simp: e)
  then have "map_of m i = None" by (simp add: map_of_eq_None_iff)
  then show ?case using Cons.IH [of "m @ [e]"] Cons.prems read_ledger_line_doc [of e] i by (force simp: e map_set_new)
qed simp

lemma read_methods_doc:
  assumes "\<forall>m. nat53 (g m)"
  shows "read_methods (JObj (map (\<lambda>m. num_entry (method_name m) (g m)) MONEY_REFUND_METHODS)) MONEY_REFUND_METHODS (\<lambda>_. 0) = Some g"
proof -
  have "(\<lambda>_. 0)(PayCash := g PayCash, PayQr := g PayQr, PayKbank := g PayKbank, PayCard := g PayCard) = g"
    by (rule ext, rename_tac m, case_tac m) simp_all
  then show ?thesis using assms by (simp add: MONEY_REFUND_METHODS_def doc_field_def num_entry_def)
qed

lemma serialize_fields:
  assumes "d = JObj (serializeReturnLedger g orderId branchId @ extra)"
  shows "doc_field d ''schemaVersion'' = JNum (Fin 1)" "doc_field d ''orderId'' = JStr orderId" "doc_field d ''branchId'' = JStr branchId"
    "doc_field d ''returnCount'' = JNum (whole (lg_returnCount g))"
    "doc_field d ''refundedTotalMinor'' = JNum (whole (lg_refundedTotalMinor g))"
    "doc_field d ''refundedByMethodMinor'' = JObj (map (\<lambda>m. num_entry (method_name m) (lg_byMethod g m)) MONEY_REFUND_METHODS)"
    "doc_field d ''lines'' = JArr (map ledger_line_doc (sort_by by_key (lg_lines g)))"
    "doc_field d ''acceptedReturnIds'' = JArr (map JStr (lg_acceptedReturnIds g))" "plain_object d" "d \<noteq> JUndef"
  by (simp_all add: assms serializeReturnLedger_def doc_field_def num_entry_def whole_def)

lemma ledger_round_trip:
  assumes "storable g"
  shows "parseReturnLedger (JObj (serializeReturnLedger g orderId branchId @ extra)) = Some (by_index g)"
proof -
  let ?es = "sort_by by_key (lg_lines g)"
  have m: "mset ?es = mset (lg_lines g)" by simp
  have "distinct (map fst ?es)" using assms m by (metis storable_def map_wf_def mset_eq_imp_distinct_iff mset_map)
  moreover have "list_all line_storable ?es" using assms by (simp add: storable_def list_all_iff)
  ultimately have l: "read_ledger_lines [] (map ledger_line_doc ?es) = Some ?es"
    using read_ledger_lines_docs [of ?es "[]"] by simp
  have d: "distinct (map JStr (lg_acceptedReturnIds g)) = distinct (lg_acceptedReturnIds g)"
    by (simp add: distinct_map inj_on_def)
  have s: "map readString (map JStr (lg_acceptedReturnIds g)) = lg_acceptedReturnIds g"
    by (simp add: readString_def comp_def)
  have a: "list_all (\<lambda>x. readString x \<noteq> []) (map JStr (lg_acceptedReturnIds g))"
    using assms by (auto simp: storable_def list_all_iff readString_def)
  have st: "nat53 (lg_returnCount g)" "nat53 (lg_refundedTotalMinor g)" "\<forall>m. nat53 (lg_byMethod g m)"
    "lg_returnCount g = int (length (lg_acceptedReturnIds g))" "distinct (lg_acceptedReturnIds g)"
    using assms unfolding storable_def by blast+
  let ?d = "JObj (serializeReturnLedger g orderId branchId @ extra)"
  note f = serialize_fields [OF refl, where g = g and orderId = orderId and branchId = branchId and extra = extra]
  have "parse_present_ledger ?d = Some (by_index g)"
    unfolding parse_present_ledger_def f using read_methods_doc [OF st(3)]
    by (simp add: st(1,2) l d s a st(5) del: map_map flip: st(4)) (simp add: by_index_def)
  then show ?thesis unfolding parseReturnLedger_def f using f(9,10) by simp
qed

end
