(* ===== verification/SubmitReturn.thy ===== *)
theory SubmitReturn
  imports SaleReturnLaws
begin

text \<open>
  \<^verbatim>\<open>functions/src/submitSaleReturn.ts\<close>: the call that submits a return. The transaction reads the
  sale, its ledger, the fence of the attempt and the lots, and commits the return, the refund,
  the next ledger, the lots, the stock, the drawer entry and the customer's spend together.
  The checks of who may do this (\<^verbatim>\<open>checkRequester\<close>, the manager's approval and the re-check of both
  inside the transaction) are arguments: their outcome is an error code or nothing. They are
  modelled in \<^verbatim>\<open>PrivilegedAuthority\<close> and \<^verbatim>\<open>ManagerApproval\<close>. The audit documents and the stock
  movement documents are left out; the two SHA-256 identities are functions given to the model.
\<close>

section \<open>Identities\<close>

record return_ids =
  id_return :: "jsstr \<Rightarrow> jsstr \<Rightarrow> jsstr \<Rightarrow> jsstr"
  id_digest :: "return_request \<Rightarrow> jsstr"

definition deriveCashRefundEntryId :: "jsstr \<Rightarrow> jsstr" where
  "deriveCashRefundEntryId returnId = js ''rfd_'' @ returnId"

definition deriveReturnPortionDocId :: "jsstr \<Rightarrow> nat \<Rightarrow> nat \<Rightarrow> jsstr" where
  "deriveReturnPortionDocId returnId lineIndex portionIndex =
    js ''ret_'' @ returnId @ js ''_'' @ decimal lineIndex @ js ''_'' @ decimal portionIndex"

definition deriveReturnNo :: "jsstr \<Rightarrow> int \<Rightarrow> jsstr" where
  "deriveReturnNo billId sequence = js ''RT-'' @ billId @ js ''-'' @ decimal (nat sequence)"

section \<open>The documents\<close>

record stored_return =
  sr_orderId :: jsstr
  sr_returnNo :: jsstr
  sr_requesterStaffId :: jsstr
  sr_contentDigest :: jsstr
  sr_refundId :: "jsstr option"
  sr_refundAmount :: jsnum
  sr_refundMethod :: refund_method
  sr_plan :: return_plan

record stored_refund =
  sf_method :: refund_method
  sf_amount :: jsnum

record attempt_fence =
  fn_requesterStaffId :: jsstr
  fn_contentDigest :: jsstr

record cash_payout =
  co_shiftId :: jsstr
  co_amount :: jsnum

record return_shop =
  rs_asyncOrders :: "(jsstr, jsval) jsmap"
  rs_orders :: "(jsstr, jsval) jsmap"
  rs_shifts :: "(jsstr, jsval) jsmap"
  rs_returns :: "(jsstr, stored_return) jsmap"
  rs_refunds :: "(jsstr, stored_refund) jsmap"
  rs_fences :: "(jsstr, attempt_fence) jsmap"
  rs_ledgers :: "(jsstr, jsval) jsmap"
  rs_lots :: "(jsstr, jsval) jsmap"
  rs_stocks :: "(jsstr \<times> jsstr, jsval) jsmap"
  rs_payouts :: "(jsstr, cash_payout) jsmap"
  rs_customers :: "(jsstr, jsval) jsmap"

datatype return_error =
  RePlan plan_reject | ReOrderNotFound | ReBranchMismatch | ReShiftRequired | ReIdempotencyConflict
  | ReNotCommitted | ReSelfApproval | ReInvalidTarget | ReAuthority jsstr

section \<open>Restoring the lots\<close>

record lot_agg =
  ag_productIds :: "jsstr list"
  ag_costs :: "jsnum list"
  ag_baseMilli :: int

definition no_agg :: lot_agg where
  "no_agg = \<lparr>ag_productIds = [], ag_costs = [], ag_baseMilli = 0\<rparr>"

definition add_portion :: "(jsstr, lot_agg) jsmap \<Rightarrow> planned_line \<times> portion \<Rightarrow> (jsstr, lot_agg) jsmap" where
  "add_portion m lp =
    (let p = snd lp; a = (case map_of m (pn_originalLotId p) of Some a \<Rightarrow> a | None \<Rightarrow> no_agg) in
     map_set (pn_originalLotId p) \<lparr>ag_productIds = List.insert (le_productId (pl_line (fst lp))) (ag_productIds a),
       ag_costs = ag_costs a @ [pn_costPerUnit p], ag_baseMilli = ag_baseMilli a + pn_qtyBaseMilli p\<rparr> m)"

definition plan_portions :: "return_plan \<Rightarrow> (planned_line \<times> portion) list" where
  "plan_portions plan = concat (map (\<lambda>l. map (Pair l) (pl_portions l)) (rp_lines plan))"

definition lot_aggregate :: "return_plan \<Rightarrow> (jsstr, lot_agg) jsmap" where
  "lot_aggregate plan = foldl add_portion [] (plan_portions plan)"

type_synonym lot_decision = "in_place_reject + int \<times> int"

definition lot_decisions :: "(jsstr, jsval) jsmap \<Rightarrow> jsstr \<Rightarrow> return_plan \<Rightarrow> (jsstr, lot_decision) jsmap" where
  "lot_decisions lots branch plan = map (\<lambda>(lotId, a). (lotId, decideInPlaceLotRestore (map_of lots lotId)
     (case ag_productIds a of [p] \<Rightarrow> p | _ \<Rightarrow> []) branch (ag_costs a) (ag_baseMilli a))) (lot_aggregate plan)"

text \<open>One portion as it is written; no reason means it went back into its own lot.\<close>

record portion_write =
  pw_lineIndex :: nat
  pw_productId :: jsstr
  pw_originalLotId :: jsstr
  pw_qtyBaseMilli :: int
  pw_costPerUnit :: jsnum
  pw_reason :: "in_place_reject option"
  pw_restoredLotId :: jsstr
  pw_movementId :: jsstr

definition portion_write_of :: "(jsstr, lot_decision) jsmap \<Rightarrow> jsstr \<Rightarrow> planned_line \<times> portion \<Rightarrow> portion_write" where
  "portion_write_of decisions returnId lp =
    (let l = pl_line (fst lp); p = snd lp; docId = deriveReturnPortionDocId returnId (le_lineIndex l) (pn_portionIndex p);
         reason = (case map_of decisions (pn_originalLotId p) of Some (Inl r) \<Rightarrow> Some r | _ \<Rightarrow> None)
     in \<lparr>pw_lineIndex = le_lineIndex l, pw_productId = le_productId l, pw_originalLotId = pn_originalLotId p,
         pw_qtyBaseMilli = pn_qtyBaseMilli p, pw_costPerUnit = pn_costPerUnit p, pw_reason = reason,
         pw_restoredLotId = (if reason = None then pn_originalLotId p else docId), pw_movementId = docId\<rparr>)"

fun in_place_reject_name :: "in_place_reject \<Rightarrow> string" where
  "in_place_reject_name LotMissing = ''lot_missing''"
| "in_place_reject_name ProductMismatch = ''product_mismatch''"
| "in_place_reject_name LotBranchMismatch = ''branch_mismatch''"
| "in_place_reject_name GhostLot = ''ghost_lot''"
| "in_place_reject_name QtyMalformed = ''qty_malformed''"
| "in_place_reject_name RemainingExceedsReceived = ''remaining_exceeds_received''"
| "in_place_reject_name CapacityExceeded = ''capacity_exceeded''"
| "in_place_reject_name CostMismatch = ''cost_mismatch''"

definition restoration_lot :: "jsval \<Rightarrow> return_request \<Rightarrow> jsstr \<Rightarrow> portion_write \<Rightarrow> jsval" where
  "restoration_lot now v returnId p = JObj
    [(js ''id'', JStr (pw_restoredLotId p)), (js ''productId'', JStr (pw_productId p)), (js ''branchId'', JStr (rr_branchId v)),
     (js ''receivingId'', JStr returnId), (js ''costPerUnit'', JNum (pw_costPerUnit p)),
     (js ''qtyReceived'', JNum (milliToQty (pw_qtyBaseMilli p))), (js ''qtyRemaining'', JNum (milliToQty (pw_qtyBaseMilli p))),
     (js ''receivedAt'', now), (js ''expiryDate'', JNull), (js ''isDepleted'', JBool False), (js ''isGhost'', JBool False),
     (js ''createdAt'', now), (js ''source'', JStr (js ''sale_return'')), (js ''sourceReturnId'', JStr returnId),
     (js ''sourceOrderId'', JStr (rr_orderId v)), (js ''sourceLineIndex'', JNum (whole (int (pw_lineIndex p)))),
     (js ''sourceMovementId'', JStr (pw_movementId p)), (js ''originalLotId'', JStr (pw_originalLotId p)),
     (js ''originalCostPerUnit'', JNum (pw_costPerUnit p)),
     (js ''restoreDecisionReason'', (case pw_reason p of None \<Rightarrow> JNull | Some r \<Rightarrow> JStr (js (in_place_reject_name r))))]"

definition create_lots ::
  "jsval \<Rightarrow> return_request \<Rightarrow> jsstr \<Rightarrow> portion_write list \<Rightarrow> (jsstr, jsval) jsmap \<Rightarrow> (jsstr, jsval) jsmap" where
  "create_lots now v returnId ws lots =
    foldl (\<lambda>m p. map_set (pw_restoredLotId p) (restoration_lot now v returnId p) m) lots
      (filter (\<lambda>p. pw_reason p \<noteq> None) ws)"

definition refill_lot :: "jsval \<Rightarrow> (jsstr, jsval) jsmap \<Rightarrow> jsstr \<times> lot_decision \<Rightarrow> (jsstr, jsval) jsmap" where
  "refill_lot now m d = (case snd d of Inl _ \<Rightarrow> m
   | Inr (_, next) \<Rightarrow> (case map_of m (fst d) of None \<Rightarrow> m
     | Some lot \<Rightarrow> map_set (fst d) (merge_doc lot
         [fput ''qtyRemaining'' (JNum (milliToQty next)), fput ''isDepleted'' (JBool False), fput ''updatedAt'' now]) m))"

definition stock_by_product :: "portion_write list \<Rightarrow> (jsstr, int) jsmap" where
  "stock_by_product ws = foldl (\<lambda>m p. map_set (pw_productId p)
     ((case map_of m (pw_productId p) of Some n \<Rightarrow> n | None \<Rightarrow> 0) + pw_qtyBaseMilli p) m) [] ws"

definition add_stock ::
  "jsval \<Rightarrow> jsstr \<Rightarrow> (jsstr \<times> jsstr, jsval) jsmap \<Rightarrow> jsstr \<times> int \<Rightarrow> (jsstr \<times> jsstr, jsval) jsmap" where
  "add_stock now branch m e =
    (let k = (fst e, branch); d = (case map_of m k of Some d \<Rightarrow> d | None \<Rightarrow> JObj []) in
     map_set k (merge_doc d [fput ''branchId'' (JStr branch), fadd ''totalStockBase'' (milliToQty (snd e)),
       fput ''lastMovementAt'' now, fput ''updatedAt'' now]) m)"

section \<open>The transaction\<close>

definition sale_of :: "return_shop \<Rightarrow> return_request \<Rightarrow> evidence_reject + sale_evidence" where
  "sale_of s v = parseSaleEvidence (rr_orderId v) (map_of (rs_asyncOrders s) (rr_orderId v))
     (map_of (rs_orders s) (rr_orderId v)) (rr_branchId v)"

definition ledger_doc :: "return_shop \<Rightarrow> jsstr \<Rightarrow> jsval" where
  "ledger_doc s orderId = (case map_of (rs_ledgers s) orderId of Some d \<Rightarrow> d | None \<Rightarrow> JUndef)"

definition tx_plan :: "return_shop \<Rightarrow> return_request \<Rightarrow> jsstr \<Rightarrow> return_error + sale_evidence \<times> return_plan" where
  "tx_plan s v returnId = (case sale_of s v of
     Inl (NotEligible _) \<Rightarrow> Inl (RePlan RpNotEligible) | Inl (Unsupported _) \<Rightarrow> Inl (RePlan RpUnsupportedEvidence)
   | Inr sale \<Rightarrow> (case parseReturnLedgerForSale (ledger_doc s (rr_orderId v)) sale of
       None \<Rightarrow> Inl (RePlan RpUnsupportedEvidence)
     | Some g \<Rightarrow> (case planSaleReturn sale g v returnId of Inl r \<Rightarrow> Inl (RePlan r) | Inr plan \<Rightarrow> Inr (sale, plan))))"

definition own_open_shift :: "return_shop \<Rightarrow> return_request \<Rightarrow> jsstr \<Rightarrow> bool" where
  "own_open_shift s v staffId = (case rr_shiftId v of None \<Rightarrow> False
   | Some sh \<Rightarrow> (case map_of (rs_shifts s) sh of None \<Rightarrow> False
     | Some d \<Rightarrow> doc_field d ''status'' = JStr (js ''open'') \<and> doc_field d ''branchId'' = JStr (rr_branchId v)
         \<and> doc_field d ''staffId'' = JStr staffId))"

definition customer_adjustment :: "return_shop \<Rightarrow> sale_evidence \<Rightarrow> return_plan \<Rightarrow> spend_reject + int \<times> spend_field list" where
  "customer_adjustment s sale plan = planCustomerSpendAdjustment (sv_customerId sale)
     (if truthy (sv_customerId sale) \<and> rp_refundMinor plan > 0 then map_of (rs_customers s) (the (sv_customerId sale)) else None)
     (rp_refundMinor plan)"

definition spend_customer :: "jsval \<Rightarrow> sale_evidence \<Rightarrow> spend_reject + int \<times> spend_field list \<Rightarrow> (jsstr, jsval) jsmap \<Rightarrow> (jsstr, jsval) jsmap" where
  "spend_customer now sale adj m = (case adj of Inl _ \<Rightarrow> m
   | Inr (_, fs) \<Rightarrow> (case map_of m (the (sv_customerId sale)) of None \<Rightarrow> m
     | Some d \<Rightarrow> map_set (the (sv_customerId sale))
         (merge_doc d (fput ''updatedAt'' now # map (\<lambda>f. fput (sf_key f) (JNum (sf_after f))) fs)) m))"

definition cash_refund :: "return_plan \<Rightarrow> bool" where
  "cash_refund plan \<longleftrightarrow> rp_refundMethod plan = Some PayCash \<and> rp_refundMinor plan > 0"

definition portion_writes :: "return_shop \<Rightarrow> return_request \<Rightarrow> jsstr \<Rightarrow> return_plan \<Rightarrow> portion_write list" where
  "portion_writes s v returnId plan =
    map (portion_write_of (lot_decisions (rs_lots s) (rr_branchId v) plan) returnId) (plan_portions plan)"

text \<open>A \<^verbatim>\<open>create\<close> of a document that exists makes the whole transaction fail.\<close>

definition creates_fresh :: "return_shop \<Rightarrow> jsstr \<Rightarrow> return_plan \<Rightarrow> portion_write list \<Rightarrow> bool" where
  "creates_fresh s returnId plan ws \<longleftrightarrow>
     (rp_refundMinor plan > 0 \<longrightarrow> map_of (rs_refunds s) returnId = None) \<and>
     (cash_refund plan \<longrightarrow> map_of (rs_payouts s) (deriveCashRefundEntryId returnId) = None) \<and>
     list_all (\<lambda>p. pw_reason p \<noteq> None \<longrightarrow> map_of (rs_lots s) (pw_restoredLotId p) = None) ws"

definition tx_writes ::
  "jsval \<Rightarrow> return_ids \<Rightarrow> jsstr \<Rightarrow> return_request \<Rightarrow> jsstr \<Rightarrow> sale_evidence \<Rightarrow> return_plan \<Rightarrow> return_shop \<Rightarrow> return_shop" where
  "tx_writes now ids staffId v returnId sale plan s =
    (let ws = portion_writes s v returnId plan; ds = lot_decisions (rs_lots s) (rr_branchId v) plan;
         amount = minorToBaht (rp_refundMinor plan)
     in s\<lparr>rs_returns := map_set returnId \<lparr>sr_orderId = rr_orderId v,
            sr_returnNo = deriveReturnNo (sv_billId sale) (lg_returnCount (rp_nextLedger plan)), sr_requesterStaffId = staffId,
            sr_contentDigest = id_digest ids v, sr_refundId = (if rp_refundMinor plan > 0 then Some returnId else None),
            sr_refundAmount = amount, sr_refundMethod = rp_refundMethod plan, sr_plan = plan\<rparr> (rs_returns s),
          rs_refunds := (if rp_refundMinor plan > 0
            then map_set returnId \<lparr>sf_method = rp_refundMethod plan, sf_amount = amount\<rparr> (rs_refunds s) else rs_refunds s),
          rs_ledgers := map_set (rr_orderId v) (JObj (serializeReturnLedger (rp_nextLedger plan) (rr_orderId v) (rr_branchId v)
            @ [(js ''updatedAt'', now)])) (rs_ledgers s),
          rs_lots := foldl (refill_lot now) (create_lots now v returnId ws (rs_lots s)) ds,
          rs_stocks := foldl (add_stock now (rr_branchId v)) (rs_stocks s) (stock_by_product ws),
          rs_customers := spend_customer now sale (customer_adjustment s sale plan) (rs_customers s),
          rs_payouts := (if cash_refund plan then map_set (deriveCashRefundEntryId returnId)
            \<lparr>co_shiftId = (case rr_shiftId v of Some sh \<Rightarrow> sh | None \<Rightarrow> []), co_amount = amount\<rparr> (rs_payouts s) else rs_payouts s)\<rparr>)"

datatype tx_result = TxReplay | TxReject return_error | TxAborted | TxCommitted return_plan

definition return_tx ::
  "jsval \<Rightarrow> return_ids \<Rightarrow> return_error option \<Rightarrow> jsstr \<Rightarrow> return_request \<Rightarrow> return_shop \<Rightarrow> tx_result \<times> return_shop" where
  "return_tx now ids gate staffId v s =
    (let returnId = id_return ids (rr_branchId v) (rr_orderId v) (rr_attemptId v) in
     if map_of (rs_returns s) returnId \<noteq> None then (TxReplay, s)
     else if map_of (rs_fences s) returnId \<noteq> None then (TxReject ReNotCommitted, s)
     else case gate of Some e \<Rightarrow> (TxReject e, s)
     | None \<Rightarrow> (case tx_plan s v returnId of Inl e \<Rightarrow> (TxReject e, s)
       | Inr (sale, plan) \<Rightarrow>
         if rp_refundMethod plan = Some PayCash \<and> \<not> own_open_shift s v staffId then (TxReject ReShiftRequired, s)
         else if \<not> creates_fresh s returnId plan (portion_writes s v returnId plan) then (TxAborted, s)
         else (TxCommitted plan, tx_writes now ids staffId v returnId sale plan s)))"

section \<open>The call\<close>

datatype return_response =
  RespOk jsstr jsstr "jsstr option" jsnum refund_method bool
| RespFail return_error
| RespThrow

definition replay_response :: "jsstr \<Rightarrow> stored_return \<Rightarrow> return_response" where
  "replay_response returnId r = RespOk returnId (sr_returnNo r) (sr_refundId r) (sr_refundAmount r) (sr_refundMethod r) True"

definition replay_or_conflict :: "return_ids \<Rightarrow> jsstr \<Rightarrow> return_request \<Rightarrow> jsstr \<Rightarrow> stored_return \<Rightarrow> return_response" where
  "replay_or_conflict ids staffId v returnId r =
    (if sr_contentDigest r \<noteq> id_digest ids v \<or> sr_requesterStaffId r \<noteq> staffId then RespFail ReIdempotencyConflict
     else replay_response returnId r)"

text \<open>Resolve: replay what committed, or fence the attempt for good.\<close>

definition resolve_attempt :: "return_ids \<Rightarrow> jsstr \<Rightarrow> return_request \<Rightarrow> return_shop \<Rightarrow> return_response \<times> return_shop" where
  "resolve_attempt ids staffId v s =
    (let returnId = id_return ids (rr_branchId v) (rr_orderId v) (rr_attemptId v) in
     case map_of (rs_returns s) returnId of Some r \<Rightarrow> (replay_or_conflict ids staffId v returnId r, s)
     | None \<Rightarrow> (case map_of (rs_fences s) returnId of
         Some f \<Rightarrow> (RespFail (if fn_requesterStaffId f = staffId \<and> fn_contentDigest f = id_digest ids v
           then ReNotCommitted else ReIdempotencyConflict), s)
       | None \<Rightarrow> (RespFail ReNotCommitted, s\<lparr>rs_fences := map_set returnId
           \<lparr>fn_requesterStaffId = staffId, fn_contentDigest = id_digest ids v\<rparr> (rs_fences s)\<rparr>)))"

text \<open>What the pre-flight refuses, on the state it reads.\<close>

definition preflight :: "return_shop \<Rightarrow> return_request \<Rightarrow> jsstr \<Rightarrow> return_error option" where
  "preflight s v returnId = (case sale_of s v of
     Inl (NotEligible RnOrderNotFound) \<Rightarrow> Some ReOrderNotFound
   | Inl (NotEligible RnBranchMismatch) \<Rightarrow> Some ReBranchMismatch
   | _ \<Rightarrow> (case tx_plan s v returnId of Inl e \<Rightarrow> Some e
     | Inr (_, plan) \<Rightarrow> if rp_refundMethod plan = Some PayCash \<and> rr_shiftId v = None then Some ReShiftRequired else None))"

definition request_mode :: "jsval \<Rightarrow> bool option" where
  "request_mode raw = (let m = doc_field raw ''mode'' in
     if m = JUndef \<or> m = JStr (js ''submit'') then Some False else if m = JStr (js ''resolve'') then Some True else None)"

text \<open>
  The whole call. The state may change between the pre-flight and the transaction, so the
  transaction runs on the state \<open>later s\<close>. \<open>auth\<close> is nothing for a caller who is not signed in and
  otherwise what \<^verbatim>\<open>checkRequester\<close> answers for a branch. \<open>approval\<close> is the outcome of the approval request
  and \<open>gate\<close> that of the checks inside the transaction.
\<close>

definition finish_tx :: "return_ids \<Rightarrow> jsstr \<Rightarrow> return_request \<Rightarrow> jsstr \<Rightarrow> tx_result \<times> return_shop \<Rightarrow> return_response \<times> return_shop" where
  "finish_tx ids staffId v returnId r = (case fst r of
     TxReplay \<Rightarrow> (case map_of (rs_returns (snd r)) returnId of Some x \<Rightarrow> (replay_or_conflict ids staffId v returnId x, snd r)
       | None \<Rightarrow> (RespFail ReInvalidTarget, snd r))
   | TxReject e \<Rightarrow> (RespFail e, snd r)
   | TxAborted \<Rightarrow> (RespThrow, snd r)
   | TxCommitted plan \<Rightarrow> (case map_of (rs_returns (snd r)) returnId of
       Some x \<Rightarrow> (RespOk returnId (sr_returnNo x) (if rp_refundMinor plan > 0 then Some returnId else None)
         (minorToBaht (rp_refundMinor plan)) (rp_refundMethod plan) False, snd r)
     | None \<Rightarrow> (RespThrow, snd r)))"

definition performSubmitSaleReturn ::
  "jsval \<Rightarrow> return_ids \<Rightarrow> (jsstr \<Rightarrow> return_error + jsstr) option \<Rightarrow> return_error option \<Rightarrow> return_error option \<Rightarrow>
   (return_shop \<Rightarrow> return_shop) \<Rightarrow> jsval \<Rightarrow> return_shop \<Rightarrow> return_response \<times> return_shop" where
  "performSubmitSaleReturn now ids auth approval gate later raw s =
    (case auth of None \<Rightarrow> (RespFail (ReAuthority (js ''not_authorized'')), s)
     | Some checkRequester \<Rightarrow>
    (case request_mode raw of None \<Rightarrow> (RespFail (RePlan RpInvalidRequest), s)
     | Some resolveOnly \<Rightarrow>
    (case validateSubmitSaleReturnRequest raw (\<not> resolveOnly) of None \<Rightarrow> (RespFail (RePlan RpInvalidRequest), s)
     | Some v \<Rightarrow>
    (case checkRequester (rr_branchId v) of Inl e \<Rightarrow> (RespFail e, s)
     | Inr staffId \<Rightarrow>
       let returnId = id_return ids (rr_branchId v) (rr_orderId v) (rr_attemptId v) in
       if rr_approverStaffId v = staffId then (RespFail ReSelfApproval, s)
       else if resolveOnly then resolve_attempt ids staffId v s
       else case map_of (rs_returns s) returnId of Some r \<Rightarrow> (replay_or_conflict ids staffId v returnId r, s)
       | None \<Rightarrow>
         if map_of (rs_fences s) returnId \<noteq> None then (RespFail ReNotCommitted, s)
         else case preflight s v returnId of Some e \<Rightarrow> (RespFail e, s)
         | None \<Rightarrow> (case approval of Some e \<Rightarrow> (RespFail e, s)
           | None \<Rightarrow> finish_tx ids staffId v returnId (return_tx now ids gate staffId v (later s)))))))"

section \<open>The context of a sale\<close>

datatype context_answer =
  CxInvalidRequest | CxRefused return_error | CxNotEligible not_eligible_reason | CxUnsupported unsupported_reason
| CxLedgerMalformed | CxFullyReturned return_context | CxOversellOnly return_context | CxEligible return_context

definition performGetSaleReturnContext ::
  "(jsstr \<Rightarrow> return_error + jsstr) \<Rightarrow> jsval \<Rightarrow> return_shop \<Rightarrow> context_answer" where
  "performGetSaleReturnContext checkRequester raw s =
    (let orderId = trimmedString (doc_field raw ''orderId''); branchId = trimmedString (doc_field raw ''branchId'') in
     if \<not> DOC_ID_RE orderId \<or> \<not> DOC_ID_RE branchId \<or> branchId = js ''ALL'' then CxInvalidRequest
     else case checkRequester branchId of Inl e \<Rightarrow> CxRefused e
     | Inr _ \<Rightarrow> (case parseSaleEvidence orderId (map_of (rs_asyncOrders s) orderId) (map_of (rs_orders s) orderId) branchId of
         Inl (NotEligible r) \<Rightarrow> if r = RnBranchMismatch then CxRefused ReBranchMismatch else CxNotEligible r
       | Inl (Unsupported r) \<Rightarrow> CxUnsupported r
       | Inr sale \<Rightarrow> (case parseReturnLedgerForSale (ledger_doc s orderId) sale of None \<Rightarrow> CxLedgerMalformed
         | Some g \<Rightarrow>
           let view = buildReturnContextView sale g in
           if isFullyReturned sale g then CxFullyReturned view
           else if list_all (\<lambda>l. cx_supportedReturnableQtyMilli l \<le> 0) (cv_lines view) then CxOversellOnly view
           else CxEligible view)))"

end
