(* ===== verification/SubmitReturnLaws.thy ===== *)
theory SubmitReturnLaws
  imports SubmitReturn
begin

text \<open>
  Runs of the return call: any sequence of submissions and resolutions, each with its own
  answers of the authority checks. The invariant \<^verbatim>\<open>shop_ok\<close> ties the ledger of every order to
  the returns that were accepted for it and to the sale it was read from.
\<close>

section \<open>Sizes\<close>

text \<open>
  A sale fits in the numbers of its ledger: the count of its lines and the sum of its
  quantities are safe integers. A document of the database has at most a megabyte, so no sale
  comes near either bound.
\<close>

definition sale_small :: "sale_evidence \<Rightarrow> bool" where
  "sale_small sale \<longleftrightarrow> safe_int (int (length (sv_lines sale))) \<and> safe_int (sum_list (map le_soldQtyMilli (sv_lines sale)))"

lemma near_integer_safe: "near_integer x = Some n \<Longrightarrow> safe_int n"
  by (auto simp: near_integer_def isSafeInteger_def Let_def split: if_splits)

lemma exactBaseMilli_safe: "exactBaseMilli q u = Some b \<Longrightarrow> safe_int q \<and> safe_int b"
  by (auto simp: exactBaseMilli_def split: if_splits dest: near_integer_safe)

lemma toScaledExact_safe: "toScaledExact v f m = Some n \<Longrightarrow> safe_int n"
  by (auto simp: toScaledExact_def split: jsval.splits if_splits dest: near_integer_safe)

lemma toMinorExact_safe: "toMinorExact v = Some n \<Longrightarrow> safe_int n"
  by (simp add: toMinorExact_def toScaledExact_safe)

lemma evidence_money_safe: "evidence_money order c = Inr (subtotal, disc, fee, change, tot) \<Longrightarrow> safe_int tot"
  by (auto simp: evidence_money_def split: if_splits option.splits dest: toMinorExact_safe)

lemma parse_total_safe: "parseSaleEvidence o1 a c b = Inr sale \<Longrightarrow> safe_int (sv_totalMinor sale)"
  unfolding parseSaleEvidence_def and_then_Inr_iff by (clarsimp simp: and_then_Inr_iff evidence_money_safe)

lemma parse_ids: "parseSaleEvidence o1 a c b = Inr sale \<Longrightarrow> sv_orderId sale = o1 \<and> sv_branchId sale = b"
  by (auto simp: parseSaleEvidence_def and_then_Inr_iff)

lemma safe_le: "0 \<le> a \<Longrightarrow> a \<le> b \<Longrightarrow> safe_int b \<Longrightarrow> nat53 a"
  by (simp add: nat53_def safe_int_def)

section \<open>Sums over the lines of the sale\<close>

lemma sum_prior_lines:
  fixes f :: "ledger_line \<Rightarrow> int"
  assumes "f no_line = 0"
  shows "map_wf m \<Longrightarrow> fst ` set m \<subseteq> {..<n} \<Longrightarrow> sum_list (map (f \<circ> snd) m) = (\<Sum>i<n. f (prior_line m i))"
proof (induction m)
  case Nil
  then show ?case using assms by (simp add: prior_line_def)
next
  case (Cons e m)
  obtain k v where e: "e = (k, v)" by (cases e)
  have wf: "map_wf m" "k \<notin> fst ` set m" "k < n" "fst ` set m \<subseteq> {..<n}" using Cons.prems by (auto simp: e map_wf_def)
  have none: "map_of m k = None" using wf(2) by (simp add: map_of_eq_None_iff)
  have "(\<Sum>i<n. f (prior_line (e # m) i)) = (\<Sum>i<n. (if i = k then f v else 0) + f (prior_line m i))"
    using assms none by (intro sum.cong) (auto simp: prior_line_def e)
  also have "\<dots> = f v + (\<Sum>i<n. f (prior_line m i))" using wf(3) by (simp add: sum.distrib)
  finally show ?case using Cons.IH [OF wf(1,4)] by (simp add: e)
qed

lemma lines_ok_keys: "sale_wf sale \<Longrightarrow> lines_ok sale m \<Longrightarrow> fst ` set m \<subseteq> {..<length (sv_lines sale)}"
proof
  fix i assume w: "sale_wf sale" "lines_ok sale m" and "i \<in> fst ` set m"
  then obtain p where "map_of m i = Some p" by (metis map_of_eq_None_iff not_None_eq)
  then obtain l where "byIndex sale i = Some l" using w(2) unfolding lines_ok_def by blast
  then show "i \<in> {..<length (sv_lines sale)}" using byIndex_nth [OF w(1), of i] by (auto split: if_splits)
qed

lemma over_lines:
  assumes "sale_wf sale" "lines_ok sale m" "f no_line = (0 :: int)"
  shows "sum_list (map (f \<circ> snd) m) = (\<Sum>i<length (sv_lines sale). f (prior_line m i))"
  using sum_prior_lines [where f = f, OF assms(3)] assms(2) lines_ok_keys [OF assms(1,2)] by (simp add: lines_ok_def)

lemma prior_ok:
  assumes "sale_wf sale" "lines_ok sale m" "i < length (sv_lines sale)"
  shows "line_ok (sv_lines sale ! i) (prior_line m i)"
  using lines_ok_prior [OF assms(1,2)] byIndex_nth [OF assms(1), of i] assms(3) by simp

lemma returned_le:
  assumes "sale_wf sale" "lines_ok sale m"
  shows "returned m \<le> sum_list (map le_soldQtyMilli (sv_lines sale))"
proof -
  have "returned m = (\<Sum>i<length (sv_lines sale). gl_qtyMilli (prior_line m i))"
    unfolding returned_def using over_lines [OF assms, of gl_qtyMilli] by simp
  also have "\<dots> \<le> (\<Sum>i<length (sv_lines sale). le_soldQtyMilli (sv_lines sale ! i))"
    using prior_ok [OF assms] by (intro sum_mono) (auto simp: line_ok_def)
  also have "\<dots> = sum_list (map le_soldQtyMilli (sv_lines sale))" by (simp add: sum_list_over)
  finally show ?thesis .
qed

text \<open>Everything returned: everything that was paid for the lines is refunded.\<close>

lemma fully_returned_refund:
  assumes wf: "sale_wf sale" and ok: "ledger_ok sale g" and full: "isFullyReturned sale g"
  shows "lg_refundedTotalMinor g = sum_list (map le_refundableShareMinor (sv_lines sale))"
proof -
  let ?ls = "sv_lines sale" and ?m = "lg_lines g"
  have lok: "lines_ok sale ?m" using ok by (simp add: ledger_ok_def)
  have k: "map le_lineIndex ?ls = [0..<length ?ls]" using wf by (simp add: sale_wf_def)
  have "lg_refundedTotalMinor g = (\<Sum>i<length ?ls. gl_refundedMinor (prior_line ?m i))"
    using ok over_lines [OF wf lok, of gl_refundedMinor] by (simp add: ledger_ok_def refunded_def)
  also have "\<dots> = (\<Sum>i<length ?ls. le_refundableShareMinor (?ls ! i))"
  proof (intro sum.cong refl)
    fix i assume "i \<in> {..<length ?ls}"
    then have i: "i < length ?ls" by simp
    have idx: "le_lineIndex (?ls ! i) = i" using arg_cong [OF k, of "\<lambda>xs. xs ! i"] i by simp
    have "?ls ! i \<in> set ?ls" using i by simp
    then have l: "line_wf (?ls ! i)" "0 \<le> le_refundableShareMinor (?ls ! i)" using wf by (auto simp: sale_wf_def)
    have p: "line_ok (?ls ! i) (prior_line ?m i)" by (rule prior_ok [OF wf lok i])
    have "le_soldQtyMilli (?ls ! i) \<le> gl_qtyMilli (prior_line ?m i)"
      using full i idx by (auto simp: isFullyReturned_def lineReturnedQtyMilli_def list_all_length)
    then show "gl_refundedMinor (prior_line ?m i) = le_refundableShareMinor (?ls ! i)"
      using p l cumulative_full [OF l(2), of "le_soldQtyMilli (?ls ! i)"] by (auto simp: line_ok_def line_wf_def)
  qed
  finally show ?thesis by (simp add: sum_list_over)
qed

lemma ledger_storable:
  assumes wf: "sale_wf sale" and small: "sale_small sale" and t: "safe_int (sv_totalMinor sale)" and ok: "ledger_ok sale g"
    and ids: "distinct (lg_acceptedReturnIds g)" "[] \<notin> set (lg_acceptedReturnIds g)"
  shows "storable g"
proof -
  have lok: "lines_ok sale (lg_lines g)" using ok by (simp add: ledger_ok_def)
  have tot: "0 \<le> lg_refundedTotalMinor g"
  proof -
    have "0 \<le> lg_byMethod g m" for m using ok by (simp add: ledger_ok_def)
    then have "0 \<le> method_total (lg_byMethod g)" by (simp add: method_total_def MONEY_REFUND_METHODS_def)
    then show ?thesis using ok by (simp add: ledger_ok_def)
  qed
  have lines: "line_storable e" if "e \<in> set (lg_lines g)" for e
  proof -
    obtain i p where e: "e = (i, p)" by (cases e)
    have m: "map_of (lg_lines g) i = Some p" using that lok by (simp add: e lines_ok_def map_wf_def)
    then obtain l where l: "byIndex sale i = Some l" "line_ok l p" using lok unfolding lines_ok_def by blast
    have w: "line_wf l" "0 \<le> le_refundableShareMinor l" using byIndex_wf [OF wf l(1)] by auto
    have i: "i < length (sv_lines sale)" using l(1) byIndex_nth [OF wf, of i] by (auto split: if_splits)
    have s: "safe_int (le_soldQtyMilli l)" "safe_int (le_soldQtyBaseMilli l)"
      using w(1) exactBaseMilli_safe by (auto simp: line_wf_def)
    have sold: "0 < le_soldQtyMilli l" using w by (simp add: line_wf_def)
    have r: "0 \<le> gl_refundedMinor p"
      using l(2) cumulative_bounds [OF w(2) sold, of "gl_qtyMilli p"] by (auto simp: line_ok_def)
    have "gl_refundedMinor p \<le> refunded (lg_lines g)"
    proof -
      have all: "\<forall>x \<in> set (map (gl_refundedMinor \<circ> snd) (lg_lines g)). 0 \<le> x"
      proof clarsimp
        fix j q assume "(j, q) \<in> set (lg_lines g)"
        then have "map_of (lg_lines g) j = Some q" using lok by (simp add: lines_ok_def map_wf_def)
        then obtain k where k: "byIndex sale j = Some k" "line_ok k q" using lok unfolding lines_ok_def by blast
        have "line_wf k" "0 \<le> le_refundableShareMinor k" using byIndex_wf [OF wf k(1)] by auto
        then show "0 \<le> gl_refundedMinor q"
          using k(2) cumulative_bounds [of "le_refundableShareMinor k" "le_soldQtyMilli k" "gl_qtyMilli q"] by (auto simp: line_ok_def line_wf_def)
      qed
      have "gl_refundedMinor p \<in> set (map (gl_refundedMinor \<circ> snd) (lg_lines g))" using that e by force
      then show ?thesis unfolding refunded_def using all by (intro member_le_sum_list) auto
    qed
    then have "gl_refundedMinor p \<le> sv_totalMinor sale" using ok by (simp add: ledger_ok_def)
    moreover have "nat53 (int i)" using i small by (auto simp: sale_small_def nat53_def safe_int_def)
    ultimately show ?thesis using l(2) s r t by (auto simp: line_storable_def e line_ok_def intro: safe_le)
  qed
  have byM: "nat53 (lg_byMethod g m)" for m
  proof -
    have n: "0 \<le> sv_netPaid sale k" for k using wf by (simp add: sale_wf_def)
    have "sv_netPaid sale m \<le> method_total (sv_netPaid sale)"
      using n [of PayCash] n [of PayQr] n [of PayKbank] n [of PayCard] by (cases m) (simp_all add: method_total_def MONEY_REFUND_METHODS_def)
    moreover have "0 \<le> lg_byMethod g m" "lg_byMethod g m \<le> sv_netPaid sale m" using ok by (simp_all add: ledger_ok_def)
    ultimately show ?thesis using wf t by (intro safe_le [of _ "sv_totalMinor sale"]) (auto simp: sale_wf_def)
  qed
  have cnt: "nat53 (lg_returnCount g)" "lg_returnCount g = int (length (lg_acceptedReturnIds g))"
  proof -
    show c: "lg_returnCount g = int (length (lg_acceptedReturnIds g))" using ok by (simp add: ledger_ok_def)
    have "lg_returnCount g \<le> sum_list (map le_soldQtyMilli (sv_lines sale))"
      using ok returned_le [OF wf lok] by (simp add: ledger_ok_def)
    then show "nat53 (lg_returnCount g)" using small c by (intro safe_le) (auto simp: sale_small_def)
  qed
  have "nat53 (lg_refundedTotalMinor g)" using tot ok t by (intro safe_le [of _ "sv_totalMinor sale"]) (auto simp: ledger_ok_def)
  then show ?thesis using lines byM cnt ids lok by (simp add: storable_def lines_ok_def list_all_iff)
qed

section \<open>The validated request\<close>

interpretation line_order: comparator by_line_index
  by unfold_locales (auto simp: by_line_index_def)

lemma request_lines_distinct:
  "request_lines seen raws = Some ls \<Longrightarrow> distinct (map rl_lineIndex ls) \<and> set seen \<inter> rl_lineIndex ` set ls = {} \<and>
   length ls = length raws \<and> (\<forall>l \<in> set ls. 0 < rl_qtyMilli l \<and> rl_productId l \<noteq> [])"
proof (induction seen raws arbitrary: ls rule: request_lines.induct)
  case (2 seen raw raws)
  then obtain l ls' where l: "request_line raw = Some l" "rl_lineIndex l \<notin> set seen"
    "request_lines (rl_lineIndex l # seen) raws = Some ls'" "ls = l # ls'"
    by (auto split: option.splits if_splits)
  have "0 < rl_qtyMilli l \<and> rl_productId l \<noteq> []"
    using l(1) by (auto simp: request_line_def split: if_splits jsval.splits option.splits)
  then show ?case using "2.IH" [OF l(1,2,3)] l by auto
qed simp

lemma checked_lines_sorted:
  assumes "checked_lines raw = Some ls"
  shows "sorted_wrt (<) (map rl_lineIndex ls)" "ls \<noteq> []" "length ls \<le> SALE_RETURN_MAX_LINES"
    "\<forall>l \<in> set ls. 0 < rl_qtyMilli l \<and> rl_productId l \<noteq> []"
proof -
  obtain ls0 where a: "is_array (doc_field raw ''lines'')" "elements (doc_field raw ''lines'') \<noteq> []"
    "length (elements (doc_field raw ''lines'')) \<le> SALE_RETURN_MAX_LINES"
    and r: "request_lines [] (elements (doc_field raw ''lines'')) = Some ls0" and l: "ls = sort_by by_line_index ls0"
    using assms by (auto simp: checked_lines_def Let_def split: if_splits)
  note d = request_lines_distinct [OF r]
  have "distinct (map rl_lineIndex ls)"
    using d l by (metis mset_sort_by mset_map mset_eq_imp_distinct_iff)
  moreover have "sorted_wrt (\<le>) (map rl_lineIndex ls)"
    using line_order.sorted_sort_by [of ls0] by (simp add: l sorted_wrt_map by_line_index_def)
  ultimately show "sorted_wrt (<) (map rl_lineIndex ls)" by (simp add: strict_sorted_iff)
  have len: "length ls = length (elements (doc_field raw ''lines''))" using d l by simp
  then show "ls \<noteq> []" "length ls \<le> SALE_RETURN_MAX_LINES" using a by auto
  show "\<forall>l \<in> set ls. 0 < rl_qtyMilli l \<and> rl_productId l \<noteq> []" using d l by simp
qed

lemma validate_Some:
  assumes "validateSubmitSaleReturnRequest raw pin = Some v"
  shows "checked_lines raw = Some (rr_lines v)" "0 \<le> rr_expectedRefundMinor v" "rr_reason v \<noteq> []" "rr_approverStaffId v \<noteq> []"
    "ATTEMPT_ID_RE (rr_attemptId v)" "DOC_ID_RE (rr_orderId v)" "DOC_ID_RE (rr_branchId v)" "rr_branchId v \<noteq> js ''ALL''"
    "pin \<longrightarrow> rr_pin v \<noteq> []"
  using assms by (auto simp: validateSubmitSaleReturnRequest_def request_ids_def Let_def split: option.splits if_splits)

lemma validated_lines:
  assumes "validateSubmitSaleReturnRequest raw pin = Some v"
  shows "distinct (map rl_lineIndex (rr_lines v))" "rr_lines v \<noteq> []"
  using checked_lines_sorted [OF validate_Some(1) [OF assms]] by (simp_all add: strict_sorted_iff)

section \<open>Runs\<close>

text \<open>The transaction of a submission with the answer of its checks, and a resolution.\<close>

datatype return_event = TxEvent jsval "return_error option" jsstr jsval | ResolveEvent jsstr jsval

fun return_step :: "return_ids \<Rightarrow> return_shop \<Rightarrow> return_event \<Rightarrow> return_shop" where
  "return_step ids s (TxEvent now gate staffId raw) = (case validateSubmitSaleReturnRequest raw True of None \<Rightarrow> s
   | Some v \<Rightarrow> snd (return_tx now ids gate staffId v s))"
| "return_step ids s (ResolveEvent staffId raw) = (case validateSubmitSaleReturnRequest raw False of None \<Rightarrow> s
   | Some v \<Rightarrow> snd (resolve_attempt ids staffId v s))"

definition returns_of :: "return_shop \<Rightarrow> jsstr \<Rightarrow> (jsstr \<times> stored_return) list" where
  "returns_of s orderId = filter (\<lambda>e. sr_orderId (snd e) = orderId) (rs_returns s)"

definition refund_of :: "jsstr \<times> stored_return \<Rightarrow> int" where
  "refund_of e = rp_refundMinor (sr_plan (snd e))"

definition refunded_by :: "money_method \<Rightarrow> (jsstr \<times> stored_return) list \<Rightarrow> int" where
  "refunded_by m es = sum_list (map refund_of (filter (\<lambda>e. rp_refundMethod (sr_plan (snd e)) = Some m) es))"

definition order_ok :: "return_shop \<Rightarrow> sale_evidence \<Rightarrow> bool" where
  "order_ok s sale \<longleftrightarrow> (\<exists>g. parseReturnLedger (ledger_doc s (sv_orderId sale)) = Some g \<and> ledger_ok sale g \<and>
     lg_acceptedReturnIds g = map fst (returns_of s (sv_orderId sale)) \<and>
     lg_refundedTotalMinor g = sum_list (map refund_of (returns_of s (sv_orderId sale))) \<and>
     (\<forall>m. lg_byMethod g m = refunded_by m (returns_of s (sv_orderId sale))))"

definition is_sale :: "return_shop \<Rightarrow> sale_evidence \<Rightarrow> bool" where
  "is_sale s sale \<longleftrightarrow> sale_small sale \<and>
     parseSaleEvidence (sv_orderId sale) (map_of (rs_asyncOrders s) (sv_orderId sale))
       (map_of (rs_orders s) (sv_orderId sale)) (sv_branchId sale) = Inr sale"

definition shop_ok :: "return_ids \<Rightarrow> return_shop \<Rightarrow> bool" where
  "shop_ok ids s \<longleftrightarrow> (\<forall>a b c. id_return ids a b c \<noteq> []) \<and> map_wf (rs_returns s) \<and> [] \<notin> fst ` set (rs_returns s) \<and>
     fst ` set (rs_fences s) \<inter> fst ` set (rs_returns s) = {} \<and> (\<forall>sale. is_sale s sale \<longrightarrow> order_ok s sale)"

lemma parse_branch: "parseSaleEvidence o1 a c b = Inr sale \<Longrightarrow> \<exists>d. a = Some d \<and> doc_field d ''branchId'' = JStr b"
  by (auto simp: parseSaleEvidence_def and_then_Inr_iff evidence_docs_def split: option.splits if_splits)

lemma is_sale_unique: "is_sale s a \<Longrightarrow> is_sale s b \<Longrightarrow> sv_orderId a = sv_orderId b \<Longrightarrow> a = b"
  unfolding is_sale_def using parse_branch by (metis jsval.inject(3) option.inject sum.inject(2))

interpretation key_order: comparator by_key
  by unfold_locales (auto simp: by_key_def)

lemma by_index_map_of: "map_wf (lg_lines g) \<Longrightarrow> map_wf (lg_lines (by_index g)) \<and> map_of (lg_lines (by_index g)) = map_of (lg_lines g)"
proof -
  assume w: "map_wf (lg_lines g)"
  have m: "mset (sort_by by_key (lg_lines g)) = mset (lg_lines g)" by simp
  have d: "distinct (map fst (sort_by by_key (lg_lines g)))"
    using w m by (metis map_wf_def mset_eq_imp_distinct_iff mset_map)
  have "map_of (sort_by by_key (lg_lines g)) = map_of (lg_lines g)"
    using d w by (metis map_wf_def map_of_eqI set_sort_by set_map map_of_is_SomeI map_of_SomeD option.exhaust
      map_of_eq_None_iff ext)
  then show ?thesis using d by (simp add: by_index_def map_wf_def)
qed

lemma by_index_sum: "sum_list (map f (lg_lines (by_index g))) = sum_list (map f (lg_lines g))" for f :: "_ \<Rightarrow> int"
  by (metis by_index_def mset_map mset_sort_by return_ledger.ext_inject return_ledger.surjective return_ledger.update_convs(4) sum_mset_sum_list)

lemma by_index_ok: "ledger_ok sale g \<Longrightarrow> ledger_ok sale (by_index g)"
  using by_index_map_of [of g] by (auto simp: ledger_ok_def lines_ok_def refunded_def returned_def by_index_sum) (auto simp: by_index_def)

subsection \<open>A commit\<close>

lemma read_ledger_parse: "parseReturnLedgerForSale d sale = Some g \<Longrightarrow> parseReturnLedger d = Some g"
  by (auto simp: parseReturnLedgerForSale_def parseReturnLedger_def split: option.splits if_splits)

lemma sale_of_facts:
  "sale_of s v = Inr sale \<Longrightarrow> sv_orderId sale = rr_orderId v \<and> sv_branchId sale = rr_branchId v \<and> sale_wf sale \<and>
   safe_int (sv_totalMinor sale) \<and> (is_sale s sale \<longleftrightarrow> sale_small sale)"
  unfolding sale_of_def using parse_ids parse_wf(1) parse_total_safe unfolding is_sale_def by metis

lemma is_sale_facts: "is_sale s sale \<Longrightarrow> sale_wf sale \<and> safe_int (sv_totalMinor sale)"
  unfolding is_sale_def using parse_wf(1) parse_total_safe by blast

lemma tx_commit:
  assumes "return_tx now ids gate staffId v s = (r, s')"
  obtains (unchanged) "s' = s" "\<And>plan. r \<noteq> TxCommitted plan"
  | (commit) rid sale g plan where "rid = id_return ids (rr_branchId v) (rr_orderId v) (rr_attemptId v)"
      "map_of (rs_returns s) rid = None" "map_of (rs_fences s) rid = None" "gate = None" "sale_of s v = Inr sale"
      "parseReturnLedger (ledger_doc s (rr_orderId v)) = Some g" "planSaleReturn sale g v rid = Inr plan"
      "rp_refundMethod plan = Some PayCash \<longrightarrow> own_open_shift s v staffId"
      "creates_fresh s rid plan (portion_writes s v rid plan)"
      "r = TxCommitted plan" "s' = tx_writes now ids staffId v rid sale plan s"
proof -
  let ?rid = "id_return ids (rr_branchId v) (rr_orderId v) (rr_attemptId v)"
  show ?thesis
  proof (cases "map_of (rs_returns s) ?rid = None \<and> map_of (rs_fences s) ?rid = None \<and> gate = None")
    case True
    show ?thesis
    proof (cases "tx_plan s v ?rid")
      case (Inl e)
      then show ?thesis using assms True unchanged by (auto simp: return_tx_def Let_def)
    next
      case (Inr x)
      obtain sale plan where x: "x = (sale, plan)" by (cases x)
      have "\<exists>g. sale_of s v = Inr sale \<and> parseReturnLedgerForSale (ledger_doc s (rr_orderId v)) sale = Some g \<and>
          planSaleReturn sale g v ?rid = Inr plan"
        using Inr by (auto simp: tx_plan_def x split: sum.splits evidence_reject.splits option.splits)
      then obtain g where g: "sale_of s v = Inr sale" "parseReturnLedgerForSale (ledger_doc s (rr_orderId v)) sale = Some g"
        "planSaleReturn sale g v ?rid = Inr plan" by blast
      show ?thesis
      proof (cases "(rp_refundMethod plan = Some PayCash \<longrightarrow> own_open_shift s v staffId)
          \<and> creates_fresh s ?rid plan (portion_writes s v ?rid plan)")
        case True2: True
        then show ?thesis
          using assms True Inr commit [OF refl _ _ _ g(1) read_ledger_parse [OF g(2)] g(3)]
          by (auto simp: return_tx_def Let_def x split: if_splits)
      next
        case False
        then show ?thesis using assms True Inr unchanged by (auto simp: return_tx_def Let_def x split: if_splits)
      qed
    qed
  next
    case False
    then show ?thesis using assms unchanged by (auto simp: return_tx_def Let_def split: option.splits if_splits)
  qed
qed

lemma writes_simps [simp]:
  "rs_asyncOrders (tx_writes now ids staffId v rid sale plan s) = rs_asyncOrders s"
  "rs_orders (tx_writes now ids staffId v rid sale plan s) = rs_orders s"
  "rs_shifts (tx_writes now ids staffId v rid sale plan s) = rs_shifts s"
  "rs_fences (tx_writes now ids staffId v rid sale plan s) = rs_fences s"
  by (simp_all add: tx_writes_def Let_def)

definition stored_of :: "return_ids \<Rightarrow> jsstr \<Rightarrow> jsstr \<Rightarrow> return_request \<Rightarrow> sale_evidence \<Rightarrow> return_plan \<Rightarrow> stored_return" where
  "stored_of ids rid staffId v sale plan = \<lparr>sr_orderId = rr_orderId v,
     sr_returnNo = deriveReturnNo (sv_billId sale) (lg_returnCount (rp_nextLedger plan)), sr_requesterStaffId = staffId,
     sr_contentDigest = id_digest ids v, sr_refundId = (if rp_refundMinor plan > 0
       then Some rid else None),
     sr_refundAmount = minorToBaht (rp_refundMinor plan), sr_refundMethod = rp_refundMethod plan, sr_plan = plan\<rparr>"

lemma stored_of_simps [simp]:
  "sr_orderId (stored_of ids rid staffId v sale plan) = rr_orderId v" "sr_plan (stored_of ids rid staffId v sale plan) = plan"
  "sr_requesterStaffId (stored_of ids rid staffId v sale plan) = staffId" "sr_contentDigest (stored_of ids rid staffId v sale plan) = id_digest ids v"
  "sr_refundId (stored_of ids rid staffId v sale plan) = (if rp_refundMinor plan > 0 then Some rid else None)"
  "sr_refundAmount (stored_of ids rid staffId v sale plan) = minorToBaht (rp_refundMinor plan)"
  "sr_refundMethod (stored_of ids rid staffId v sale plan) = rp_refundMethod plan"
  by (simp_all add: stored_of_def)

lemma writes_returns:
  assumes "map_of (rs_returns s) rid = None"
  shows "rs_returns (tx_writes now ids staffId v rid sale plan s) = rs_returns s @ [(rid, stored_of ids rid staffId v sale plan)]"
proof -
  have "rid \<notin> fst ` set (rs_returns s)" using assms by (simp add: map_of_eq_None_iff)
  then show ?thesis by (simp add: tx_writes_def Let_def map_set_new stored_of_def)
qed

lemma writes_ledger:
  "ledger_doc (tx_writes now ids staffId v rid sale plan s) orderId =
    (if orderId = rr_orderId v then JObj (serializeReturnLedger (rp_nextLedger plan) orderId (rr_branchId v) @ [(js ''updatedAt'', now)])
     else ledger_doc s orderId)"
  by (simp add: ledger_doc_def tx_writes_def Let_def)

lemma next_ledger_facts:
  assumes "planSaleReturn sale g v rid = Inr plan"
  shows "lg_acceptedReturnIds (rp_nextLedger plan) = lg_acceptedReturnIds g @ [rid]"
    "lg_refundedTotalMinor (rp_nextLedger plan) = lg_refundedTotalMinor g + rp_refundMinor plan"
    "lg_byMethod (rp_nextLedger plan) m = lg_byMethod g m + (if rp_refundMethod plan = Some m then rp_refundMinor plan else 0)"
    "lg_returnCount (rp_nextLedger plan) = lg_returnCount g + 1"
proof -
  obtain ds where "rp_nextLedger plan = next_ledger g ds (rr_refundMethod v) (rp_refundMinor plan) rid"
    "rp_refundMethod plan = rr_refundMethod v" using plan_Inr [OF assms] by metis
  then show "lg_acceptedReturnIds (rp_nextLedger plan) = lg_acceptedReturnIds g @ [rid]"
    "lg_refundedTotalMinor (rp_nextLedger plan) = lg_refundedTotalMinor g + rp_refundMinor plan"
    "lg_byMethod (rp_nextLedger plan) m = lg_byMethod g m + (if rp_refundMethod plan = Some m then rp_refundMinor plan else 0)"
    "lg_returnCount (rp_nextLedger plan) = lg_returnCount g + 1"
    by (auto simp: next_ledger_def split: option.splits)
qed

lemma commit_parses:
  assumes ok: "order_ok s sale" and isS: "is_sale s sale" and v: "rr_lines v \<noteq> []" "distinct (map rl_lineIndex (rr_lines v))"
    and new: "map_of (rs_returns s) rid = None" and wf: "map_wf (rs_returns s)" "[] \<notin> fst ` set (rs_returns s)" "rid \<noteq> []"
    and o: "sv_orderId sale = rr_orderId v"
    and g: "parseReturnLedger (ledger_doc s (rr_orderId v)) = Some g" and p: "planSaleReturn sale g v rid = Inr plan"
  shows "ledger_ok sale (rp_nextLedger plan)"
    "parseReturnLedger (ledger_doc (tx_writes now ids staffId v rid sale plan s) (rr_orderId v)) = Some (by_index (rp_nextLedger plan))"
proof -
  have g1: "ledger_ok sale g" "lg_acceptedReturnIds g = map fst (returns_of s (rr_orderId v))"
    using ok g by (auto simp: order_ok_def o)
  have sw: "sale_wf sale" "safe_int (sv_totalMinor sale)" "sale_small sale"
    using is_sale_facts [OF isS] isS by (auto simp: is_sale_def)
  let ?n = "rp_nextLedger plan"
  show nok: "ledger_ok sale ?n" by (rule next_ledger_ok [OF sw(1) g1(1) v p])
  have sub: "set (map fst (returns_of s (rr_orderId v))) \<subseteq> fst ` set (rs_returns s)" by (auto simp: returns_of_def)
  have dist: "distinct (map fst (returns_of s (rr_orderId v)))"
    using wf(1) unfolding returns_of_def map_wf_def by (rule distinct_map_filter)
  have rid: "rid \<notin> fst ` set (rs_returns s)" using new by (simp add: map_of_eq_None_iff)
  have ids: "distinct (lg_acceptedReturnIds ?n)" "[] \<notin> set (lg_acceptedReturnIds ?n)"
    using dist sub rid wf by (auto simp: next_ledger_facts(1) [OF p] g1(2))
  have "storable ?n" by (rule ledger_storable [OF sw(1,3,2) nok ids])
  then show "parseReturnLedger (ledger_doc (tx_writes now ids staffId v rid sale plan s) (rr_orderId v)) = Some (by_index ?n)"
    by (simp add: writes_ledger ledger_round_trip)
qed

lemma commit_order_ok:
  assumes ok: "order_ok s sale" and isS: "is_sale s sale" and v: "rr_lines v \<noteq> []" "distinct (map rl_lineIndex (rr_lines v))"
    and new: "map_of (rs_returns s) rid = None" and wf: "map_wf (rs_returns s)" "[] \<notin> fst ` set (rs_returns s)" "rid \<noteq> []"
    and o: "sv_orderId sale = rr_orderId v"
    and g: "parseReturnLedger (ledger_doc s (rr_orderId v)) = Some g" and p: "planSaleReturn sale g v rid = Inr plan"
  shows "order_ok (tx_writes now ids staffId v rid sale plan s) sale"
proof -
  have g1: "lg_acceptedReturnIds g = map fst (returns_of s (rr_orderId v))"
    "lg_refundedTotalMinor g = sum_list (map refund_of (returns_of s (rr_orderId v)))"
    "\<forall>m. lg_byMethod g m = refunded_by m (returns_of s (rr_orderId v))"
    using ok g by (auto simp: order_ok_def o)
  let ?n = "rp_nextLedger plan" and ?s = "tx_writes now ids staffId v rid sale plan s"
  note parses = commit_parses [OF assms]
  have ret: "returns_of ?s (rr_orderId v) = returns_of s (rr_orderId v) @ [(rid, stored_of ids rid staffId v sale plan)]"
    by (simp add: returns_of_def writes_returns [OF new])
  have "lg_acceptedReturnIds (by_index ?n) = map fst (returns_of ?s (rr_orderId v))"
    "lg_refundedTotalMinor (by_index ?n) = sum_list (map refund_of (returns_of ?s (rr_orderId v)))"
    "lg_byMethod (by_index ?n) m = refunded_by m (returns_of ?s (rr_orderId v))" for m
    using g1 by (simp_all add: by_index_def next_ledger_facts [OF p] ret refund_of_def refunded_by_def)
  then show ?thesis using by_index_ok [OF parses(1)] parses(2) unfolding order_ok_def o by blast
qed

lemma shop_ok_tx:
  assumes ok: "shop_ok ids s" and v: "rr_lines v \<noteq> []" "distinct (map rl_lineIndex (rr_lines v))"
  shows "shop_ok ids (snd (return_tx now ids gate staffId v s))"
proof -
  obtain r s' where r: "return_tx now ids gate staffId v s = (r, s')" by (cases "return_tx now ids gate staffId v s")
  from r show ?thesis
  proof (cases rule: tx_commit)
    case unchanged
    then show ?thesis using ok r by simp
  next
    case (commit rid sale g plan)
    note f = sale_of_facts [OF commit(5)]
    have base: "map_wf (rs_returns s)" "[] \<notin> fst ` set (rs_returns s)" "rid \<noteq> []"
      "fst ` set (rs_fences s) \<inter> fst ` set (rs_returns s) = {}" using ok by (auto simp: shop_ok_def commit(1))
    have rid: "rid \<notin> fst ` set (rs_returns s)" "rid \<notin> fst ` set (rs_fences s)" using commit(2,3) by (simp_all add: map_of_eq_None_iff)
    have sales: "is_sale s' k = is_sale s k" for k by (simp add: is_sale_def commit(11))
    have "order_ok s' k" if k: "is_sale s k" for k
    proof (cases "sv_orderId k = rr_orderId v")
      case True
      have "parseSaleEvidence (rr_orderId v) (map_of (rs_asyncOrders s) (rr_orderId v)) (map_of (rs_orders s) (rr_orderId v)) (sv_branchId k) = Inr k"
        using k True by (simp add: is_sale_def)
      moreover have "parseSaleEvidence (rr_orderId v) (map_of (rs_asyncOrders s) (rr_orderId v)) (map_of (rs_orders s) (rr_orderId v)) (rr_branchId v) = Inr sale"
        using commit(5) by (simp add: sale_of_def)
      ultimately have "k = sale" using parse_branch by (metis jsval.inject(3) option.inject sum.inject(2))
      moreover have "order_ok s k" using ok k by (simp add: shop_ok_def)
      ultimately show ?thesis
        using commit_order_ok [OF _ _ v commit(2) base(1,2,3) _ commit(6,7)] k True by (simp add: commit(11))
    next
      case False
      have "order_ok s k" using ok k by (simp add: shop_ok_def)
      moreover have "returns_of s' (sv_orderId k) = returns_of s (sv_orderId k)"
        using False by (simp add: returns_of_def commit(11) writes_returns [OF commit(2)])
      ultimately show ?thesis using False by (simp add: order_ok_def commit(11) writes_ledger)
    qed
    moreover have "map_wf (rs_returns s')" "[] \<notin> fst ` set (rs_returns s')" "fst ` set (rs_fences s') \<inter> fst ` set (rs_returns s') = {}"
      using base rid by (auto simp: commit(11) writes_returns [OF commit(2)] map_wf_def)
    ultimately show ?thesis using ok r sales by (simp add: shop_ok_def)
  qed
qed

lemma shop_ok_resolve: "shop_ok ids s \<Longrightarrow> shop_ok ids (snd (resolve_attempt ids staffId v s))"
  by (auto simp: resolve_attempt_def Let_def shop_ok_def is_sale_def order_ok_def ledger_doc_def returns_of_def keys_map_set
      map_of_eq_None_iff split: option.splits)

lemma shop_ok_step: "shop_ok ids s \<Longrightarrow> shop_ok ids (return_step ids s e)"
  by (cases e) (auto split: option.splits intro!: shop_ok_tx shop_ok_resolve dest: validated_lines)

interpretation returns: invariant_machine "return_step ids" "shop_ok ids" for ids
  by unfold_locales (rule shop_ok_step)

end
