(* ===== verification/ReturnRuns.thy ===== *)
theory ReturnRuns
  imports SubmitReturnLaws
begin

text \<open>
  Properties of runs of the return call from a shop in which nothing was returned yet: refunds
  stay within what was paid, in total and by tender; returning everything refunds everything;
  an accepted return is final, an attempt that was resolved as not committed never commits,
  and the refund and drawer documents are exactly those of the accepted returns.
\<close>

definition no_returns :: "return_ids \<Rightarrow> return_shop \<Rightarrow> bool" where
  "no_returns ids s \<longleftrightarrow> (\<forall>a b c. id_return ids a b c \<noteq> []) \<and> rs_returns s = [] \<and> rs_ledgers s = [] \<and> rs_fences s = []
     \<and> rs_refunds s = [] \<and> rs_payouts s = []"

lemma fresh_shop_ok: "no_returns ids s \<Longrightarrow> shop_ok ids s"
proof -
  assume n: "no_returns ids s"
  have "order_ok s sale" if "is_sale s sale" for sale
  proof -
    have "sale_wf sale" using is_sale_facts [OF that] by simp
    then show ?thesis
      using n empty_ledger_ok [of sale]
      by (auto simp: order_ok_def no_returns_def ledger_doc_def parseReturnLedger_def returns_of_def refunded_by_def emptyLedger_def)
  qed
  then show ?thesis using n by (simp add: shop_ok_def no_returns_def)
qed

lemma run_ok: "no_returns ids s \<Longrightarrow> shop_ok ids (run (return_step ids) s es)"
  by (rule returns.inv_run) (rule fresh_shop_ok)

section \<open>What a step leaves alone\<close>

lemma tx_frame:
  "rs_asyncOrders (snd (return_tx now ids gate staffId v s)) = rs_asyncOrders s \<and>
   rs_orders (snd (return_tx now ids gate staffId v s)) = rs_orders s \<and> rs_shifts (snd (return_tx now ids gate staffId v s)) = rs_shifts s \<and>
   rs_fences (snd (return_tx now ids gate staffId v s)) = rs_fences s"
proof -
  obtain r s' where r: "return_tx now ids gate staffId v s = (r, s')" by (cases "return_tx now ids gate staffId v s")
  from r have "rs_asyncOrders s' = rs_asyncOrders s \<and> rs_orders s' = rs_orders s \<and> rs_shifts s' = rs_shifts s \<and> rs_fences s' = rs_fences s"
    by (cases rule: tx_commit) simp_all
  then show ?thesis by (simp add: r)
qed

lemma resolve_frame:
  "snd (resolve_attempt ids staffId v s) = s \<or>
   (\<exists>rid f. snd (resolve_attempt ids staffId v s) = s\<lparr>rs_fences := map_set rid f (rs_fences s)\<rparr> \<and>
     map_of (rs_returns s) rid = None \<and> map_of (rs_fences s) rid = None)"
  by (auto simp: resolve_attempt_def Let_def split: option.splits)

lemma step_sales: "rs_asyncOrders (return_step ids s e) = rs_asyncOrders s \<and> rs_orders (return_step ids s e) = rs_orders s
   \<and> rs_shifts (return_step ids s e) = rs_shifts s"
proof (cases e)
  case (TxEvent now gate staffId raw)
  then show ?thesis by (simp add: tx_frame split: option.splits)
next
  case (ResolveEvent staffId raw)
  have "rs_asyncOrders (snd (resolve_attempt ids staffId v s)) = rs_asyncOrders s \<and> rs_orders (snd (resolve_attempt ids staffId v s)) = rs_orders s
    \<and> rs_shifts (snd (resolve_attempt ids staffId v s)) = rs_shifts s" for v
    using resolve_frame [of ids staffId v s] by auto
  then show ?thesis by (simp add: ResolveEvent split: option.splits)
qed

lemma run_sales: "rs_asyncOrders (run (return_step ids) s es) = rs_asyncOrders s \<and> rs_orders (run (return_step ids) s es) = rs_orders s"
  by (induction es arbitrary: s) (simp_all add: step_sales)

lemma run_is_sale: "is_sale (run (return_step ids) s es) sale = is_sale s sale"
  using run_sales [of ids s es] by (simp add: is_sale_def)

lemma run_order_ok:
  "no_returns ids s \<Longrightarrow> is_sale s sale \<Longrightarrow> order_ok (run (return_step ids) s es) sale"
  using run_ok [of ids s es] run_is_sale [of ids s es sale] by (auto simp: shop_ok_def)

section \<open>Accepted returns are final\<close>

lemma step_returns:
  "\<exists>new. rs_returns (return_step ids s e) = rs_returns s @ new \<and> (\<forall>x \<in> set new. fst x \<notin> fst ` set (rs_returns s) \<and> fst x \<notin> fst ` set (rs_fences s))"
proof (cases e)
  case (TxEvent now gate staffId raw)
  show ?thesis
  proof (cases "validateSubmitSaleReturnRequest raw True")
    case (Some v)
    obtain r s' where r: "return_tx now ids gate staffId v s = (r, s')" by (cases "return_tx now ids gate staffId v s")
    from r have "\<exists>new. rs_returns s' = rs_returns s @ new \<and> (\<forall>x \<in> set new. fst x \<notin> fst ` set (rs_returns s) \<and> fst x \<notin> fst ` set (rs_fences s))"
    proof (cases rule: tx_commit)
      case (commit rid sale g plan)
      then show ?thesis by (intro exI [of _ "[(rid, stored_of ids rid staffId v sale plan)]"]) (auto simp: writes_returns map_of_eq_None_iff)
    qed simp
    then show ?thesis by (simp add: TxEvent Some r)
  qed (simp add: TxEvent)
next
  case (ResolveEvent staffId raw)
  have "rs_returns (snd (resolve_attempt ids staffId v s)) = rs_returns s" for v
    using resolve_frame [of ids staffId v s] by auto
  then show ?thesis by (simp add: ResolveEvent split: option.splits)
qed

lemma step_returns_keep: "map_of (rs_returns s) rid = Some r \<Longrightarrow> map_of (rs_returns (return_step ids s e)) rid = Some r"
  using step_returns [of ids s e] by auto

lemma run_returns_keep: "map_of (rs_returns s) rid = Some r \<Longrightarrow> map_of (rs_returns (run (return_step ids) s es)) rid = Some r"
  by (induction es arbitrary: s) (auto simp: step_returns_keep)

lemma step_fences_grow: "fst ` set (rs_fences s) \<subseteq> fst ` set (rs_fences (return_step ids s e))"
proof (cases e)
  case (TxEvent now gate staffId raw)
  then show ?thesis by (simp add: tx_frame split: option.splits)
next
  case (ResolveEvent staffId raw)
  have "fst ` set (rs_fences s) \<subseteq> fst ` set (rs_fences (snd (resolve_attempt ids staffId v s)))" for v
  proof -
    have "fst ` set (rs_fences s) \<subseteq> fst ` set (map_set rid f (rs_fences s))" for rid f by (simp only: keys_map_set) blast
    then have "fst ` set (rs_fences s) \<subseteq> fst ` set (rs_fences (s\<lparr>rs_fences := map_set rid f (rs_fences s)\<rparr>))" for rid f by simp
    then show ?thesis using resolve_frame [of ids staffId v s] by (elim disjE exE conjE) (simp_all only: order_refl)
  qed
  then show ?thesis by (simp add: ResolveEvent split: option.splits)
qed

text \<open>A fenced attempt: nothing leaves the fence.\<close>

definition fenced :: "jsstr \<Rightarrow> return_shop \<Rightarrow> bool" where
  "fenced rid s \<longleftrightarrow> rid \<in> fst ` set (rs_fences s) \<and> rid \<notin> fst ` set (rs_returns s)"

lemma fenced_step: "fenced rid s \<Longrightarrow> fenced rid (return_step ids s e)"
proof -
  assume f: "fenced rid s"
  obtain new where n: "rs_returns (return_step ids s e) = rs_returns s @ new" "\<forall>x \<in> set new. fst x \<notin> fst ` set (rs_fences s)"
    using step_returns [of ids s e] by blast
  then have "rid \<notin> fst ` set new" using f by (metis fenced_def imageE)
  then show ?thesis using f n(1) step_fences_grow [of s ids e] by (auto simp: fenced_def image_Un)
qed

interpretation fence: invariant_machine "return_step ids" "fenced rid" for ids rid
  by unfold_locales (rule fenced_step)

lemma resolve_fences:
  assumes "fst (resolve_attempt ids staffId v s) = RespFail ReNotCommitted"
    and "fst ` set (rs_fences s) \<inter> fst ` set (rs_returns s) = {}"
  shows "fenced (id_return ids (rr_branchId v) (rr_orderId v) (rr_attemptId v)) (snd (resolve_attempt ids staffId v s))"
proof -
  let ?rid = "id_return ids (rr_branchId v) (rr_orderId v) (rr_attemptId v)"
  have n: "map_of (rs_returns s) ?rid = None"
    using assms(1) by (auto simp: resolve_attempt_def Let_def replay_or_conflict_def replay_response_def split: option.splits if_splits)
  then have n': "?rid \<notin> fst ` set (rs_returns s)" by (simp add: map_of_eq_None_iff)
  show ?thesis
  proof (cases "map_of (rs_fences s) ?rid")
    case None
    then show ?thesis using n n' by (simp add: resolve_attempt_def Let_def fenced_def keys_map_set)
  next
    case (Some f)
    then have "?rid \<in> fst ` set (rs_fences s)" by (metis map_of_eq_None_iff option.distinct(1))
    then show ?thesis using n n' Some by (simp add: resolve_attempt_def Let_def fenced_def)
  qed
qed

section \<open>The money documents\<close>

text \<open>The refund and the drawer entry of every accepted return, and no others.\<close>

definition money_ok :: "return_shop \<Rightarrow> bool" where
  "money_ok s \<longleftrightarrow> (\<forall>rid. map_of (rs_refunds s) rid = (case map_of (rs_returns s) rid of
       Some r \<Rightarrow> if rp_refundMinor (sr_plan r) > 0 then Some \<lparr>sf_method = rp_refundMethod (sr_plan r),
         sf_amount = minorToBaht (rp_refundMinor (sr_plan r))\<rparr> else None
     | None \<Rightarrow> None) \<and>
     map_option co_amount (map_of (rs_payouts s) (deriveCashRefundEntryId rid)) = (case map_of (rs_returns s) rid of
       Some r \<Rightarrow> if cash_refund (sr_plan r) then Some (minorToBaht (rp_refundMinor (sr_plan r))) else None
     | None \<Rightarrow> None))"

lemma entry_id_inj [simp]: "deriveCashRefundEntryId a = deriveCashRefundEntryId b \<longleftrightarrow> a = b"
  by (simp add: deriveCashRefundEntryId_def)

lemma money_ok_tx: "money_ok s \<Longrightarrow> money_ok (snd (return_tx now ids gate staffId v s))"
proof -
  assume m: "money_ok s"
  obtain r s' where r: "return_tx now ids gate staffId v s = (r, s')" by (cases "return_tx now ids gate staffId v s")
  from r show ?thesis
  proof (cases rule: tx_commit)
    case (commit rid sale g plan)
    have ret: "map_of (rs_returns s') k = (if k = rid then Some (stored_of ids rid staffId v sale plan) else map_of (rs_returns s) k)" for k
      by (simp add: commit(11) tx_writes_def Let_def stored_of_def)
    have ref: "map_of (rs_refunds s') k = (if k = rid \<and> rp_refundMinor plan > 0
        then Some \<lparr>sf_method = rp_refundMethod plan, sf_amount = minorToBaht (rp_refundMinor plan)\<rparr> else map_of (rs_refunds s) k)" for k
      by (simp add: commit(11) tx_writes_def Let_def)
    have pay: "map_option co_amount (map_of (rs_payouts s') (deriveCashRefundEntryId k)) = (if k = rid \<and> cash_refund plan
        then Some (minorToBaht (rp_refundMinor plan)) else map_option co_amount (map_of (rs_payouts s) (deriveCashRefundEntryId k)))" for k
      by (simp add: commit(11) tx_writes_def Let_def)
    show ?thesis using m commit(2) unfolding money_ok_def r snd_conv ret ref pay by (auto split: option.splits)
  qed (use m r in simp)
qed

lemma money_ok_step: "money_ok s \<Longrightarrow> money_ok (return_step ids s e)"
proof (cases e)
  case (ResolveEvent staffId raw)
  assume m: "money_ok s"
  have "money_ok (snd (resolve_attempt ids staffId v s))" for v
    using resolve_frame [of ids staffId v s] m by (auto simp: money_ok_def)
  then show ?thesis using m by (simp add: ResolveEvent split: option.splits)
qed (auto split: option.splits intro: money_ok_tx)

interpretation money: invariant_machine "return_step ids" money_ok for ids
  by unfold_locales (rule money_ok_step)

section \<open>The whole call\<close>

lemma perform_cases:
  assumes "performSubmitSaleReturn now ids auth approval gate later raw s = (r, s')"
  obtains (refused) e where "r = RespFail e" "s' = s"
  | (resolve) v chk staffId where "request_mode raw = Some True" "validateSubmitSaleReturnRequest raw False = Some v"
      "auth = Some chk" "chk (rr_branchId v) = Inr staffId" "(r, s') = resolve_attempt ids staffId v s"
  | (replay) v chk staffId x where "request_mode raw = Some False" "validateSubmitSaleReturnRequest raw True = Some v" "auth = Some chk" "chk (rr_branchId v) = Inr staffId"
      "map_of (rs_returns s) (id_return ids (rr_branchId v) (rr_orderId v) (rr_attemptId v)) = Some x"
      "r = replay_or_conflict ids staffId v (id_return ids (rr_branchId v) (rr_orderId v) (rr_attemptId v)) x" "s' = s"
  | (tx) v chk staffId where "request_mode raw = Some False" "validateSubmitSaleReturnRequest raw True = Some v" "auth = Some chk" "chk (rr_branchId v) = Inr staffId"
      "rr_approverStaffId v \<noteq> staffId"
      "preflight s v (id_return ids (rr_branchId v) (rr_orderId v) (rr_attemptId v)) = None" "approval = None"
      "(r, s') = finish_tx ids staffId v (id_return ids (rr_branchId v) (rr_orderId v) (rr_attemptId v)) (return_tx now ids gate staffId v (later s))"
proof -
  note d = assms [unfolded performSubmitSaleReturn_def Let_def]
  show thesis
  proof (cases "auth = None \<or> request_mode raw = None")
    case True
    then have "(\<exists>e. r = RespFail e) \<and> s' = s" using d by (auto split: option.splits)
    then show thesis using refused by blast
  next
    case False
    then obtain chk res where mode: "auth = Some chk" "request_mode raw = Some res" by auto
    show thesis
    proof (cases "validateSubmitSaleReturnRequest raw (\<not> res)")
      case None
      then show thesis using d mode refused [of "RePlan RpInvalidRequest"] by simp
    next
      case v: (Some v)
      show thesis
      proof (cases "chk (rr_branchId v)")
        case (Inl e)
        then show thesis using d mode v refused [of e] by simp
      next
        case staff: (Inr staffId)
        let ?rid = "id_return ids (rr_branchId v) (rr_orderId v) (rr_attemptId v)"
        consider "rr_approverStaffId v = staffId" | "rr_approverStaffId v \<noteq> staffId" res
          | x where "rr_approverStaffId v \<noteq> staffId" "\<not> res" "map_of (rs_returns s) ?rid = Some x"
          | "rr_approverStaffId v \<noteq> staffId" "\<not> res" "map_of (rs_returns s) ?rid = None" "map_of (rs_fences s) ?rid \<noteq> None"
          | e where "rr_approverStaffId v \<noteq> staffId" "\<not> res" "map_of (rs_returns s) ?rid = None" "map_of (rs_fences s) ?rid = None"
            "preflight s v ?rid = Some e"
          | e where "rr_approverStaffId v \<noteq> staffId" "\<not> res" "map_of (rs_returns s) ?rid = None" "map_of (rs_fences s) ?rid = None"
            "preflight s v ?rid = None" "approval = Some e"
          | "rr_approverStaffId v \<noteq> staffId" "\<not> res" "map_of (rs_returns s) ?rid = None" "map_of (rs_fences s) ?rid = None"
            "preflight s v ?rid = None" "approval = None"
          by (cases res; cases "map_of (rs_returns s) ?rid"; cases "map_of (rs_fences s) ?rid"; cases "preflight s v ?rid"; cases approval) blast+
        then show thesis
        proof cases
          case 1
          then show thesis using d mode v staff refused [of ReSelfApproval] by simp
        next
          case 2
          then show thesis using d mode v staff by (intro resolve [of v chk staffId]) simp_all
        next
          case (3 x)
          then show thesis using d mode v staff by (intro replay [of v chk staffId x]) simp_all
        next
          case 4
          then show thesis using d mode v staff by (intro refused [of ReNotCommitted]) auto
        next
          case (5 e)
          then show thesis using d mode v staff refused [of e] by simp
        next
          case (6 e)
          then show thesis using d mode v staff refused [of e] by simp
        next
          case 7
          then show thesis using d mode v staff by (intro tx [of v chk staffId]) simp_all
        qed
      qed
    qed
  qed
qed

lemma finish_tx_state [simp]: "snd (finish_tx ids staffId v rid r) = snd r"
  by (simp add: finish_tx_def split: tx_result.splits option.splits)

lemma finish_committed:
  assumes "finish_tx ids staffId v rid (return_tx now ids gate staffId v s) = (RespOk a b c d m False, s')"
    and "rid = id_return ids (rr_branchId v) (rr_orderId v) (rr_attemptId v)"
  shows "\<exists>x. map_of (rs_returns s') rid = Some x \<and> sr_contentDigest x = id_digest ids v \<and> sr_requesterStaffId x = staffId \<and>
    a = rid \<and> b = sr_returnNo x \<and> c = sr_refundId x \<and> d = sr_refundAmount x \<and> m = sr_refundMethod x"
proof -
  obtain r t where r: "return_tx now ids gate staffId v s = (r, t)" by (cases "return_tx now ids gate staffId v s")
  from r show ?thesis
  proof (cases rule: tx_commit)
    case (commit rid' sale g plan)
    have "map_of (rs_returns t) rid = Some (stored_of ids rid staffId v sale plan)"
      by (simp add: commit(11) tx_writes_def Let_def stored_of_def assms(2) commit(1))
    then show ?thesis using assms(1) by (auto simp: r commit(10) finish_tx_def)
  next
    case unchanged
    have no: "\<not> (\<exists>b c d m. replay_or_conflict ids staffId v rid x = RespOk a b c d m False)" for x
      by (simp add: replay_or_conflict_def replay_response_def)
    show ?thesis using assms(1) unchanged(2) no by (auto simp: r finish_tx_def split: tx_result.splits option.splits)
  qed
qed

section \<open>The properties\<close>

text \<open>C2. Whatever sequence of submissions and resolutions is processed from a shop without
  returns, the refunds recorded for a sale never add up to more than was paid for it, and the
  refunds by one tender never to more than that tender paid (net of change).\<close>

theorem refunds_within_paid:
  assumes "no_returns ids s" "is_sale s sale"
  shows "sum_list (map refund_of (returns_of (run (return_step ids) s es) (sv_orderId sale))) \<le> sv_totalMinor sale
    \<and> (\<forall>m. refunded_by m (returns_of (run (return_step ids) s es) (sv_orderId sale)) \<le> sv_netPaid sale m)
    \<and> method_total (\<lambda>m. refunded_by m (returns_of (run (return_step ids) s es) (sv_orderId sale)))
      = sum_list (map refund_of (returns_of (run (return_step ids) s es) (sv_orderId sale)))"
proof -
  obtain g where "ledger_ok sale g"
    "lg_refundedTotalMinor g = sum_list (map refund_of (returns_of (run (return_step ids) s es) (sv_orderId sale)))"
    "\<forall>m. lg_byMethod g m = refunded_by m (returns_of (run (return_step ids) s es) (sv_orderId sale))"
    using run_order_ok [OF assms, of es] by (auto simp: order_ok_def)
  moreover from this have "method_total (\<lambda>m. refunded_by m (returns_of (run (return_step ids) s es) (sv_orderId sale)))
    = method_total (lg_byMethod g)" by (simp add: method_total_def MONEY_REFUND_METHODS_def)
  ultimately show ?thesis by (simp add: ledger_ok_def)
qed

text \<open>C6. Once every line of a sale is fully returned, in however many returns, the refunds add
  up to exactly what was paid, and to nothing when all the lines were free.\<close>

theorem full_return_refunds_everything:
  assumes "no_returns ids s" "is_sale s sale"
    and "parseReturnLedger (ledger_doc (run (return_step ids) s es) (sv_orderId sale)) = Some g" "isFullyReturned sale g"
  shows "sum_list (map refund_of (returns_of (run (return_step ids) s es) (sv_orderId sale)))
    = (if sv_subtotalMinor sale = 0 then 0 else sv_totalMinor sale)"
proof -
  have g: "ledger_ok sale g" "lg_refundedTotalMinor g = sum_list (map refund_of (returns_of (run (return_step ids) s es) (sv_orderId sale)))"
    using run_order_ok [OF assms(1,2), of es] assms(3) by (auto simp: order_ok_def)
  have w: "sale_wf sale" "shares_exact sale" using assms(2) parse_wf by (auto simp: is_sale_def)
  show ?thesis using fully_returned_refund [OF w(1) g(1) assms(4)] g(2) w(2) by (simp add: shares_exact_def)
qed

text \<open>C13. In every such run, of each line at most what was sold is returned, no oversold unit
  goes back into stock, and what was refunded is the line's share in proportion to the
  returned quantity, to half a satang, however the returns were split.\<close>

theorem lines_within_sold:
  assumes "no_returns ids s" "is_sale s sale" "i < length (sv_lines sale)"
    and "parseReturnLedger (ledger_doc (run (return_step ids) s es) (sv_orderId sale)) = Some g"
  shows "0 \<le> gl_qtyMilli (prior_line (lg_lines g) i) \<and> gl_qtyMilli (prior_line (lg_lines g) i) \<le> le_soldQtyMilli (sv_lines sale ! i)
    \<and> gl_qtyBaseMilli (prior_line (lg_lines g) i) \<le> oversellFreeBaseEnd (le_lots (sv_lines sale ! i))
    \<and> \<bar>2 * le_soldQtyMilli (sv_lines sale ! i) * gl_refundedMinor (prior_line (lg_lines g) i)
       - 2 * le_refundableShareMinor (sv_lines sale ! i) * gl_qtyMilli (prior_line (lg_lines g) i)\<bar> \<le> le_soldQtyMilli (sv_lines sale ! i)"
proof -
  have w: "sale_wf sale" using is_sale_facts [OF assms(2)] by simp
  have "ledger_ok sale g" using run_order_ok [OF assms(1,2), of es] assms(4) by (auto simp: order_ok_def)
  then have p: "line_ok (sv_lines sale ! i) (prior_line (lg_lines g) i)" using prior_ok [OF w _ assms(3)] by (simp add: ledger_ok_def)
  have "line_wf (sv_lines sale ! i)" "0 \<le> le_refundableShareMinor (sv_lines sale ! i)"
    using w assms(3) by (auto simp: sale_wf_def)
  then show ?thesis using p cumulative_near [of "le_refundableShareMinor (sv_lines sale ! i)" "le_soldQtyMilli (sv_lines sale ! i)"]
    by (auto simp: line_ok_def line_wf_def)
qed

text \<open>C4. A retry of a call that committed, at any later moment and whatever the approval would
  answer, returns the receipt of the first one and changes nothing.\<close>

theorem retry_replays_receipt:
  assumes "performSubmitSaleReturn now ids auth approval gate later raw s = (RespOk rid no refund amount method False, s')"
  shows "performSubmitSaleReturn now2 ids auth approval2 gate2 later2 raw (run (return_step ids) s' es)
    = (RespOk rid no refund amount method True, run (return_step ids) s' es)"
  using assms
proof (cases rule: perform_cases)
  case (tx v chk staffId)
  let ?rid = "id_return ids (rr_branchId v) (rr_orderId v) (rr_attemptId v)"
  obtain x where x: "map_of (rs_returns s') ?rid = Some x" "sr_contentDigest x = id_digest ids v" "sr_requesterStaffId x = staffId"
    "rid = ?rid" "no = sr_returnNo x" "refund = sr_refundId x"
    "amount = sr_refundAmount x" "method = sr_refundMethod x"
    using finish_committed [OF tx(8) [symmetric] refl] by blast
  have "map_of (rs_returns (run (return_step ids) s' es)) ?rid = Some x" by (rule run_returns_keep [OF x(1)])
  then show ?thesis using tx x
    by (simp add: performSubmitSaleReturn_def Let_def replay_or_conflict_def replay_response_def)
next
  case (replay v chk staffId x)
  then show ?thesis by (simp add: replay_or_conflict_def replay_response_def split: if_splits)
next
  case (resolve v chk staffId)
  have "fst (resolve_attempt ids staffId v s) \<noteq> RespOk rid no refund amount method False"
    by (auto simp: resolve_attempt_def Let_def replay_or_conflict_def replay_response_def split: option.splits)
  then show ?thesis using resolve(5) by (metis fst_conv)
qed simp

text \<open>C10. When resolving an attempt answers that it was not committed, that attempt commits in
  no later run, so a new attempt cannot refund the same goods twice through it.\<close>

theorem resolved_attempt_never_commits:
  assumes "no_returns ids s" "request_mode raw = Some True" "validateSubmitSaleReturnRequest raw False = Some v"
    "chk (rr_branchId v) = Inr staffId" "rr_approverStaffId v \<noteq> staffId"
    and "performSubmitSaleReturn now ids (Some chk) approval gate later raw (run (return_step ids) s es) = (RespFail ReNotCommitted, s')"
  shows "map_of (rs_returns (run (return_step ids) s' fs)) (id_return ids (rr_branchId v) (rr_orderId v) (rr_attemptId v)) = None"
proof -
  have r: "resolve_attempt ids staffId v (run (return_step ids) s es) = (RespFail ReNotCommitted, s')"
    using assms by (simp add: performSubmitSaleReturn_def Let_def)
  have d: "fst ` set (rs_fences (run (return_step ids) s es)) \<inter> fst ` set (rs_returns (run (return_step ids) s es)) = {}"
    using run_ok [OF assms(1)] by (simp add: shop_ok_def)
  have "fenced (id_return ids (rr_branchId v) (rr_orderId v) (rr_attemptId v)) s'"
    using resolve_fences [OF _ d, of ids staffId v] r by simp
  then have "fenced (id_return ids (rr_branchId v) (rr_orderId v) (rr_attemptId v)) (run (return_step ids) s' fs)"
    by (rule fence.inv_run)
  then show ?thesis by (simp add: fenced_def map_of_eq_None_iff)
qed

text \<open>C14. After any such run every accepted return with a refund has its refund document with that
  amount and tender, every accepted cash refund its entry in the drawer, and no other refund or
  drawer document exists.\<close>

theorem money_documents_match:
  assumes "no_returns ids s"
  shows "map_of (rs_refunds (run (return_step ids) s es)) rid
      = (case map_of (rs_returns (run (return_step ids) s es)) rid of
         Some r \<Rightarrow> if rp_refundMinor (sr_plan r) > 0 then Some \<lparr>sf_method = rp_refundMethod (sr_plan r),
           sf_amount = minorToBaht (rp_refundMinor (sr_plan r))\<rparr> else None
       | None \<Rightarrow> None)
    \<and> map_option co_amount (map_of (rs_payouts (run (return_step ids) s es)) (deriveCashRefundEntryId rid))
      = (case map_of (rs_returns (run (return_step ids) s es)) rid of
         Some r \<Rightarrow> if cash_refund (sr_plan r) then Some (minorToBaht (rp_refundMinor (sr_plan r))) else None
       | None \<Rightarrow> None)"
proof -
  have "money_ok s" using assms by (simp add: money_ok_def no_returns_def)
  then have "money_ok (run (return_step ids) s es)" by (rule money.inv_run)
  then show ?thesis unfolding money_ok_def by blast
qed

text \<open>C22. Every call is one step of the machine, taken on the state of its transaction, and a
  call that is refused changes nothing but the fence a resolution writes.\<close>

theorem call_refines_step:
  assumes "performSubmitSaleReturn now ids auth approval gate later raw s = (r, s')"
  shows "(s' = s \<or> (\<exists>staffId. s' = return_step ids (later s) (TxEvent now gate staffId raw) \<or> s' = return_step ids s (ResolveEvent staffId raw)))
    \<and> (\<forall>e. r = RespFail e \<longrightarrow> s' \<in> {s, later s} \<or> s' = s\<lparr>rs_fences := rs_fences s'\<rparr>)"
  using assms
proof (cases rule: perform_cases)
  case (resolve v chk staffId)
  then have s': "s' = snd (resolve_attempt ids staffId v s)" by (metis snd_conv)
  have "s' = s\<lparr>rs_fences := rs_fences s'\<rparr>" unfolding s' using resolve_frame [of ids staffId v s] by auto
  then show ?thesis using resolve(2) s' by auto
next
  case (tx v chk staffId)
  then have s': "s' = snd (return_tx now ids gate staffId v (later s))" by (metis finish_tx_state snd_conv)
  obtain q t where q: "return_tx now ids gate staffId v (later s) = (q, t)" by (cases "return_tx now ids gate staffId v (later s)")
  have "s' = later s" if "r = RespFail e" for e
    using q
  proof (cases rule: tx_commit)
    case (commit rid sale g plan)
    have "map_of (rs_returns t) rid \<noteq> None" by (simp add: commit(11) tx_writes_def Let_def)
    then show ?thesis using that tx(8) by (auto simp: q commit(1,10) finish_tx_def split: option.splits)
  qed (simp add: s' q)
  then show ?thesis using tx(2) s' by auto
qed auto

end
