(* ===== verification/ReturnDemo.thy ===== *)
theory ReturnDemo
  imports ReturnRuns
begin

text \<open>
  A concrete shop: a settled cash sale of three units from two lots, a return of one unit, the
  return of all of them and a resolved attempt. The properties of \<^verbatim>\<open>ReturnRuns\<close> are applied to it.
\<close>

section \<open>Whole amounts\<close>

lemma whole_scaled:
  assumes "0 \<le> n" "n \<le> m" "0 < f" "safe_int (n * f)"
  shows "toScaledExact (JNum (whole n)) (whole f) (whole m) = Some (n * f)"
proof -
  have "js_mul (whole n) (whole f) = fl (of_int n * of_int f)"
    using assms unfolding whole_def by (intro js_mul_Fin) auto
  also have "\<dots> = whole (n * f)" using fl_whole [of "n * f"] assms(4) by (simp add: exact_range_def safe_int_def)
  finally have m: "js_mul (whole n) (whole f) = whole (n * f)" .
  have "\<not> js_lt (whole m) (js_abs (whole n))" using assms by (simp add: whole_def js_lt_finite)
  then show ?thesis using assms m whole_near_integer [of "n * f"] by (simp add: toScaledExact_def)
qed

lemma minor_whole: "0 \<le> n \<Longrightarrow> n \<le> 1000000000 \<Longrightarrow> toMinorExact (JNum (whole n)) = Some (n * 100)"
  using whole_scaled [of n 1000000000 100] by (simp add: toMinorExact_def MONEY_MAX_ABS_BAHT_def whole_def safe_int_def)

lemma milli_whole: "0 \<le> n \<Longrightarrow> n \<le> 100000000 \<Longrightarrow> toMilliExact (JNum (whole n)) = Some (n * 1000)"
  using whole_scaled [of n 100000000 1000] by (simp add: toMilliExact_def QTY_MAX_ABS_def whole_def safe_int_def)

section \<open>The sale\<close>

definition rd_lot_ref :: "string \<Rightarrow> int \<Rightarrow> int \<Rightarrow> jsval" where
  "rd_lot_ref lotId qty cost = JObj [(js ''lotId'', JStr (js lotId)), (js ''qty'', JNum (whole qty)), (js ''cost'', JNum (whole cost))]"

definition rd_line :: jsval where
  "rd_line = JObj [(js ''productId'', JStr (js ''P'')), (js ''unit'', JStr (js ''pc'')), (js ''unitFactor'', JNum (whole 1)),
     (js ''qty'', JNum (whole 3)), (js ''qtyBase'', JNum (whole 3)), (js ''unitPrice'', JNum (whole 10)),
     (js ''lineTotal'', JNum (whole 30)), (js ''lotRefs'', JArr [rd_lot_ref ''L1'' 2 4, rd_lot_ref ''L2'' 1 5])]"

definition rd_order :: jsval where
  "rd_order = JObj [(js ''branchId'', JStr (js ''B'')), (js ''status'', JStr (js ''completed'')),
     (js ''reconcileStatus'', JStr (js ''settled'')), (js ''billId'', JStr (js ''bill'')), (js ''subtotal'', JNum (whole 30)),
     (js ''total'', JNum (whole 30)), (js ''lines'', JArr [rd_line]),
     (js ''payments'', JArr [JObj [(js ''method'', JStr (js ''cash'')), (js ''amount'', JNum (whole 30))]])]"

definition rd_canonical :: jsval where
  "rd_canonical = JObj [(js ''branchId'', JStr (js ''B'')), (js ''status'', JStr (js ''completed'')), (js ''total'', JNum (whole 30))]"

definition rd_sale_line :: line_evidence where
  "rd_sale_line = \<lparr>le_lineIndex = 0, le_productId = js ''P'', le_productName = [], le_sku = [], le_category = [], le_unit = js ''pc'',
     le_unitFactor = whole 1, le_soldQtyMilli = 3000, le_soldQtyBaseMilli = 3000, le_unitPriceMinor = 1000, le_lineDiscountMinor = 0,
     le_lineTotalMinor = 3000, le_lots = [\<lparr>lt_lotId = js ''L1'', lt_qtyBaseMilli = 2000, lt_cost = whole 4\<rparr>,
       \<lparr>lt_lotId = js ''L2'', lt_qtyBaseMilli = 1000, lt_cost = whole 5\<rparr>],
     le_billDiscountAllocMinor = 0, le_feeAllocMinor = 0, le_refundableShareMinor = 3000\<rparr>"

definition rd_sale :: sale_evidence where
  "rd_sale = \<lparr>sv_orderId = js ''S'', sv_billId = js ''bill'', sv_branchId = js ''B'', sv_customerId = None, sv_customerName = None,
     sv_saleCreatedAtMs = Fin 0, sv_saleShiftId = None, sv_saleStaffId = None, sv_subtotalMinor = 3000, sv_billDiscountMinor = 0,
     sv_feeMinor = 0, sv_totalMinor = 3000, sv_netPaid = (\<lambda>_. 0)(PayCash := 3000), sv_lines = [rd_sale_line]\<rparr>"

lemma read_demo_lots: "read_lot_refs rd_line = Inr (le_lots rd_sale_line)"
  by (simp add: read_lot_refs_def rd_line_def doc_field_def rd_lot_ref_def read_lot_def object_value_def readString_def milli_whole
      and_then_def rd_sale_line_def js_def whole_compare whole_lits of_char_eq)

lemma read_demo_line: "read_line 0 rd_line = Inr (rd_sale_line\<lparr>le_refundableShareMinor := 0\<rparr>)"
proof -
  have q: "line_quantities rd_line = Inr (3000, 3000)"
    using exactBaseMilli_whole [of 3000 1]
    by (simp add: line_quantities_def rd_line_def doc_field_def milli_whole safe_int_def)
  have a: "line_amounts rd_line = Inr (1000, 3000, 0)"
    by (simp add: line_amounts_def optMinor_def rd_line_def doc_field_def minor_whole)
  have f: "doc_field rd_line ''productId'' = JStr (js ''P'')" "doc_field rd_line ''unitFactor'' = JNum (whole 1)"
    "doc_field rd_line ''productSnap'' = JUndef" "doc_field rd_line ''unit'' = JStr (js ''pc'')" "plain_object rd_line"
    by (simp_all add: rd_line_def doc_field_def)
  show ?thesis
    by (simp add: read_line_def q a read_demo_lots f) (simp add: rd_sale_line_def readString_def whole_lits doc_field_def)
qed

lemma demo_parse: "parseSaleEvidence (js ''S'') (Some rd_order) (Some rd_canonical) (js ''B'') = Inr rd_sale"
proof -
  have d: "evidence_docs (Some rd_order) (Some rd_canonical) (js ''B'') = Inr (rd_order, rd_canonical)"
    by (simp add: evidence_docs_def isOrderVoidedOrVoiding_def rd_order_def rd_canonical_def doc_field_def readString_def)
  have k: "evidence_kind rd_order rd_canonical = Inr ()"
    by (simp add: evidence_kind_def vat_present_def rd_order_def rd_canonical_def doc_field_def is_nullish_def)
  have m: "evidence_money rd_order rd_canonical = Inr (3000, 0, 0, 0, 3000)"
    by (simp add: evidence_money_def optMinor_def rd_order_def rd_canonical_def doc_field_def minor_whole)
  have p: "evidence_payments rd_order 0 3000 = Inr ((\<lambda>_. 0)(PayCash := 3000))"
    by (simp add: evidence_payments_def rd_order_def doc_field_def object_value_def minor_whole money_method_of_def MONEY_REFUND_METHODS_def
        method_total_def)
  have l: "evidence_lines rd_order 3000 0 0 = Inr [rd_sale_line]"
    by (simp add: evidence_lines_def rd_order_def doc_field_def read_demo_line allocate_zero share_out_def) (simp add: rd_sale_line_def)
  show ?thesis
    by (simp add: parseSaleEvidence_def d k m p l) (simp add: rd_sale_def rd_order_def doc_field_def readString_def str_of_def)
qed

section \<open>The requests\<close>

definition rd_request :: "string \<Rightarrow> int \<Rightarrow> int \<Rightarrow> (jsstr \<times> jsval) list \<Rightarrow> jsval" where
  "rd_request attempt qty amount mode = JObj ([(js ''attemptId'', JStr (js attempt)), (js ''orderId'', JStr (js ''S'')), (js ''branchId'', JStr (js ''B'')),
     (js ''lines'', JArr [JObj [(js ''lineIndex'', JNum (whole 0)), (js ''productId'', JStr (js ''P'')), (js ''qty'', JNum (whole qty))]]),
     (js ''refundMethod'', JStr (js ''cash'')), (js ''reason'', JStr (js ''broken'')), (js ''expectedRefundAmount'', JNum (whole amount)),
     (js ''shiftId'', JStr (js ''sh'')), (js ''approverStaffId'', JStr (js ''bob'')), (js ''pin'', JStr (js ''1234''))] @ mode)"

definition rd_valid :: "string \<Rightarrow> int \<Rightarrow> int \<Rightarrow> return_request" where
  "rd_valid attempt qty amount = \<lparr>rr_attemptId = js attempt, rr_orderId = js ''S'', rr_branchId = js ''B'',
     rr_lines = [\<lparr>rl_lineIndex = 0, rl_productId = js ''P'', rl_qtyMilli = qty * 1000\<rparr>], rr_refundMethod = Some PayCash,
     rr_refundReference = [], rr_reason = js ''broken'', rr_note = [], rr_expectedRefundMinor = amount * 100,
     rr_shiftId = Some (js ''sh''), rr_approverStaffId = js ''bob'', rr_pin = js ''1234''\<rparr>"

definition plain_word :: "string \<Rightarrow> bool" where
  "plain_word s \<longleftrightarrow> s = [] \<or> \<not> is_ws (of_char (hd s)) \<and> \<not> is_ws (of_char (last s))"

lemma trimmed_plain: "plain_word s \<Longrightarrow> trimmedString (JStr (js s)) = js s"
  by (simp add: trimmedString_def plain_word_def trim_js)

lemma trimmedString_Undef: "trimmedString JUndef = []"
  by (simp add: trimmedString_def)

lemma words: "plain_word ''S''" "plain_word ''B''" "plain_word ''P''" "plain_word ''broken''" "plain_word ''sh''" "plain_word ''bob''"
    "plain_word ''attempt1''" "plain_word ''attempt2''"
  by (simp_all add: plain_word_def is_ws_def unat_of_char)

lemma attempt_ids: "ATTEMPT_ID_RE (js ''attempt1'')" "ATTEMPT_ID_RE (js ''attempt2'')"
  by (simp_all add: ATTEMPT_ID_RE_def js_def ascii_alnum_def is_digit_def unat_of_char)

lemma doc_ids: "DOC_ID_RE (js ''S'')" "DOC_ID_RE (js ''B'')" "DOC_ID_RE (js ''sh'')"
  by (simp_all add: DOC_ID_RE_def js_def is_char_def of_char_16_inj)

definition rd_resolve :: "(jsstr \<times> jsval) list" where
  "rd_resolve = [(js ''mode'', JStr (js ''resolve''))]"

lemma rd_request_valid:
  assumes "attempt = ''attempt1'' \<or> attempt = ''attempt2''" "1 \<le> qty" "qty \<le> 3" "0 \<le> amount" "amount \<le> 30"
    and mode: "mode = [] \<or> mode = rd_resolve"
  shows "validateSubmitSaleReturnRequest (rd_request attempt qty amount mode) pin = Some (rd_valid attempt qty amount)"
proof -
  let ?r = "rd_request attempt qty amount mode"
  have at: "plain_word attempt" "ATTEMPT_ID_RE (js attempt)" using assms(1) words attempt_ids by auto
  have i: "request_ids ?r = Some (js attempt, js ''S'', js ''B'')"
    using at by (simp add: request_ids_def rd_request_def doc_field_def trimmed_plain words doc_ids Let_def)
  have l: "checked_lines ?r = Some [\<lparr>rl_lineIndex = 0, rl_productId = js ''P'', rl_qtyMilli = qty * 1000\<rparr>]"
    using assms by (simp add: checked_lines_def rd_request_def doc_field_def SALE_RETURN_MAX_LINES_def request_line_def trimmed_plain words
        milli_whole isSafeInteger_def isInteger_def safe_int_def whole_lits(1))
  have e: "toMinorExact (JNum (whole amount)) = Some (amount * 100)" using assms by (simp add: minor_whole)
  show ?thesis
    unfolding validateSubmitSaleReturnRequest_def i l
    using mode assms(2-5) e by (auto simp: rd_resolve_def rd_request_def doc_field_def trimmed_plain words doc_ids refund_method_of_def money_method_of_def
        MONEY_REFUND_METHODS_def SALE_RETURN_REFERENCE_MAX_def SALE_RETURN_REASON_MAX_def SALE_RETURN_NOTE_MAX_def readString_def
        rd_valid_def trimmedString_Undef Let_def)
qed

section \<open>The shop\<close>

definition rd_ids :: return_ids where
  "rd_ids = \<lparr>id_return = (\<lambda>b k a. js ''r'' @ a), id_digest = (\<lambda>v. decimal (nat (rr_expectedRefundMinor v)))\<rparr>"

definition rd_shop :: return_shop where
  "rd_shop = \<lparr>rs_asyncOrders = [(js ''S'', rd_order)], rs_orders = [(js ''S'', rd_canonical)],
     rs_shifts = [(js ''sh'', JObj [(js ''status'', JStr (js ''open'')), (js ''branchId'', JStr (js ''B'')), (js ''staffId'', JStr (js ''ann''))])],
     rs_returns = [], rs_refunds = [], rs_fences = [], rs_ledgers = [],
     rs_lots = [], rs_stocks = [], rs_payouts = [], rs_customers = []\<rparr>"

lemma demo_no_returns: "no_returns rd_ids rd_shop"
  by (simp add: no_returns_def rd_ids_def rd_shop_def)

lemma demo_is_sale: "is_sale rd_shop rd_sale"
  using demo_parse by (simp add: is_sale_def sale_small_def rd_shop_def safe_int_def rd_sale_def rd_sale_line_def)

definition rd_portions :: "int \<Rightarrow> portion list" where
  "rd_portions qty = cut_portions 0 (qty * 1000) 0 0 (le_lots rd_sale_line)"

definition rd_plan :: "string \<Rightarrow> int \<Rightarrow> return_plan" where
  "rd_plan attempt qty = (let l = \<lparr>pl_line = rd_sale_line, pl_previouslyMilli = 0, pl_qtyMilli = qty * 1000, pl_qtyBaseMilli = qty * 1000,
       pl_refundMinor = qty * 1000, pl_revenueMinor = qty * 1000, pl_costMinor = portionsCostMinor (rd_portions qty), pl_portions = rd_portions qty\<rparr>
     in \<lparr>rp_lines = [l], rp_refundMinor = qty * 1000, rp_revenueMinor = qty * 1000, rp_costMinor = js_add (Fin 0) (pl_costMinor l),
         rp_refundMethod = Some PayCash, rp_nextLedger = next_ledger emptyLedger [l] (Some PayCash) (qty * 1000) (js ''r'' @ js attempt)\<rparr>)"

lemma demo_portions: "rd_portions 1 \<noteq> [] \<and> rd_portions 3 \<noteq> []"
  "\<not> list_ex (\<lambda>p. pn_originalLotId p = OVERSELL_LOT_ID) (rd_portions 1)" "\<not> list_ex (\<lambda>p. pn_originalLotId p = OVERSELL_LOT_ID) (rd_portions 3)"
  by (simp_all add: rd_portions_def rd_sale_line_def OVERSELL_LOT_ID_def)

lemma rd_plan_made:
  assumes "qty = 1 \<or> qty = 3"
  shows "planSaleReturn rd_sale emptyLedger (rd_valid attempt qty (10 * qty)) (js ''r'' @ js attempt) = Inr (rd_plan attempt qty)"
proof -
  have b: "byIndex rd_sale 0 = Some rd_sale_line" by (simp add: byIndex_def rd_sale_def rd_sale_line_def)
  have p: "prior_line (lg_lines emptyLedger) 0 = no_line" by (simp add: emptyLedger_def prior_line_def)
  have e: "exactBaseMilli 1000 (le_unitFactor rd_sale_line) = Some 1000" "exactBaseMilli 3000 (le_unitFactor rd_sale_line) = Some 3000"
    using exactBaseMilli_whole [of 1000 1] exactBaseMilli_whole [of 3000 1] by (simp_all add: rd_sale_line_def safe_int_def)
  have l: "planLotRestoration (le_lots rd_sale_line) 0 1000 = Some (rd_portions 1)"
    "planLotRestoration (le_lots rd_sale_line) 0 3000 = Some (rd_portions 3)"
    by (simp_all add: planLotRestoration_def rd_portions_def rd_sale_line_def)
  have f: "le_soldQtyMilli rd_sale_line = 3000" "le_soldQtyBaseMilli rd_sale_line = 3000" "le_productId rd_sale_line = js ''P''"
    "le_refundableShareMinor rd_sale_line = 3000" "le_lineTotalMinor rd_sale_line = 3000"
    by (simp_all add: rd_sale_line_def)
  have r: "lineRefundForReturnMinor 3000 3000 0 1000 = 1000" "lineRefundForReturnMinor 3000 3000 0 3000 = 3000"
    by (simp_all add: lineRefundForReturnMinor_def cumulativeRefundMinor_def sdiv_nonneg)
  have "plan_return_line rd_sale emptyLedger \<lparr>rl_lineIndex = 0, rl_productId = js ''P'', rl_qtyMilli = qty * 1000\<rparr>
    = Inr \<lparr>pl_line = rd_sale_line, pl_previouslyMilli = 0, pl_qtyMilli = qty * 1000, pl_qtyBaseMilli = qty * 1000,
       pl_refundMinor = qty * 1000, pl_revenueMinor = qty * 1000, pl_costMinor = portionsCostMinor (rd_portions qty), pl_portions = rd_portions qty\<rparr>"
    using assms demo_portions by (auto simp: plan_return_line_def b p e l f r Let_def)
  moreover have "\<not> isFullyReturned rd_sale emptyLedger"
    by (simp add: isFullyReturned_def lineReturnedQtyMilli_def emptyLedger_def prior_line_def rd_sale_def rd_sale_line_def)
  moreover have "refund_method_check rd_sale emptyLedger (Some PayCash) [] (qty * 1000) = Inr ()"
    using assms by (auto simp: refund_method_check_def rd_sale_def emptyLedger_def)
  ultimately show ?thesis
    using assms by (auto simp: planSaleReturn_def rd_valid_def rd_plan_def Let_def emptyLedger_def rd_sale_def)
qed

section \<open>The transaction\<close>

definition rd_after :: "int \<Rightarrow> return_shop" where
  "rd_after qty = tx_writes JNull rd_ids (js ''ann'') (rd_valid ''attempt1'' qty (10 * qty)) (js ''r'' @ js ''attempt1'') rd_sale
     (rd_plan ''attempt1'' qty) rd_shop"

definition rd_submit :: "int \<Rightarrow> return_event" where
  "rd_submit qty = TxEvent JNull None (js ''ann'') (rd_request ''attempt1'' qty (10 * qty) [])"

lemma demo_tx_plan:
  assumes "qty = 1 \<or> qty = 3"
  shows "tx_plan rd_shop (rd_valid attempt qty (10 * qty)) (js ''r'' @ js attempt) = Inr (rd_sale, rd_plan attempt qty)"
proof -
  have s: "sale_of rd_shop (rd_valid attempt qty (10 * qty)) = Inr rd_sale"
    using demo_parse by (simp add: sale_of_def rd_shop_def rd_valid_def)
  have g: "parseReturnLedgerForSale (ledger_doc rd_shop (rr_orderId (rd_valid attempt qty (10 * qty)))) rd_sale = Some emptyLedger"
    by (simp add: ledger_doc_def rd_shop_def parseReturnLedgerForSale_def)
  show ?thesis by (simp add: tx_plan_def s g rd_plan_made [OF assms])
qed

lemma demo_tx:
  assumes "qty = 1 \<or> qty = 3"
  shows "return_tx JNull rd_ids None (js ''ann'') (rd_valid ''attempt1'' qty (10 * qty)) rd_shop
    = (TxCommitted (rd_plan ''attempt1'' qty), rd_after qty)"
proof -
  let ?v = "rd_valid ''attempt1'' qty (10 * qty)"
  have id: "id_return rd_ids (rr_branchId ?v) (rr_orderId ?v) (rr_attemptId ?v) = js ''r'' @ js ''attempt1''"
    by (simp add: rd_ids_def rd_valid_def)
  have sh: "own_open_shift rd_shop ?v (js ''ann'')" by (simp add: own_open_shift_def rd_valid_def rd_shop_def doc_field_def)
  have cr: "creates_fresh rd_shop (js ''r'' @ js ''attempt1'') plan ws" for plan ws
    by (simp add: creates_fresh_def rd_shop_def list_all_iff)
  have ne: "map_of (rs_returns rd_shop) k = None" "map_of (rs_fences rd_shop) k = None" for k by (simp_all add: rd_shop_def)
  show ?thesis unfolding return_tx_def id Let_def by (simp add: ne demo_tx_plan [OF assms] sh cr rd_after_def)
qed

lemma demo_step: "qty = 1 \<or> qty = 3 \<Longrightarrow> return_step rd_ids rd_shop (rd_submit qty) = rd_after qty"
  using rd_request_valid [of "''attempt1''" qty "10 * qty" "[]" True] demo_tx [of qty] by (auto simp: rd_submit_def)

lemma demo_returns: "qty = 1 \<or> qty = 3 \<Longrightarrow> returns_of (rd_after qty) (js ''S'')
    = [(js ''r'' @ js ''attempt1'', stored_of rd_ids (js ''r'' @ js ''attempt1'') (js ''ann'') (rd_valid ''attempt1'' qty (10 * qty)) rd_sale (rd_plan ''attempt1'' qty))]"
  by (simp add: rd_after_def writes_returns rd_shop_def returns_of_def) (simp add: rd_valid_def)

lemma demo_refunds: "qty = 1 \<or> qty = 3 \<Longrightarrow> map refund_of (returns_of (rd_after qty) (js ''S'')) = [qty * 1000]"
  by (simp add: demo_returns refund_of_def rd_plan_def Let_def)

lemma demo_ledger:
  assumes "qty = 1 \<or> qty = 3"
  shows "parseReturnLedger (ledger_doc (rd_after qty) (js ''S'')) = Some (rp_nextLedger (rd_plan ''attempt1'' qty))"
proof -
  let ?g = "rp_nextLedger (rd_plan ''attempt1'' qty)"
  have "storable ?g"
    using assms by (auto simp: storable_def rd_plan_def Let_def next_ledger_def emptyLedger_def add_planned_def prior_line_def
        map_wf_def line_storable_def nat53_def safe_int_def rd_sale_line_def)
  moreover have "by_index ?g = ?g"
    by (simp add: by_index_def rd_plan_def Let_def next_ledger_def emptyLedger_def add_planned_def)
  ultimately show ?thesis
    by (simp add: rd_after_def writes_ledger ledger_round_trip) (simp add: rd_valid_def ledger_round_trip)
qed

lemma demo_ledger_line:
  "prior_line (lg_lines (rp_nextLedger (rd_plan ''attempt1'' qty))) 0 = \<lparr>gl_qtyMilli = qty * 1000, gl_qtyBaseMilli = qty * 1000, gl_refundedMinor = qty * 1000\<rparr>"
  by (simp add: rd_plan_def Let_def next_ledger_def emptyLedger_def add_planned_def prior_line_def rd_sale_line_def)

lemmas rd_sale_simps = rd_sale_def rd_sale_line_def

section \<open>The witnesses\<close>

theorem refunds_within_paid_witness:
  "map refund_of (returns_of (run (return_step rd_ids) rd_shop [rd_submit 1]) (sv_orderId rd_sale)) = [1000] \<and>
   sum_list (map refund_of (returns_of (run (return_step rd_ids) rd_shop [rd_submit 1]) (sv_orderId rd_sale))) \<le> sv_totalMinor rd_sale"
  using refunds_within_paid [OF demo_no_returns demo_is_sale, of "[rd_submit 1]"] demo_step [of 1] demo_refunds [of 1]
  by (simp add: rd_sale_simps)

theorem full_return_refunds_everything_witness:
  "sum_list (map refund_of (returns_of (run (return_step rd_ids) rd_shop [rd_submit 3]) (sv_orderId rd_sale))) = 3000"
proof -
  have f: "isFullyReturned rd_sale (rp_nextLedger (rd_plan ''attempt1'' 3))"
    using demo_ledger_line [of 3] by (simp add: isFullyReturned_def lineReturnedQtyMilli_def rd_sale_simps)
  have "parseReturnLedger (ledger_doc (run (return_step rd_ids) rd_shop [rd_submit 3]) (sv_orderId rd_sale)) = Some (rp_nextLedger (rd_plan ''attempt1'' 3))"
    using demo_ledger [of 3] demo_step [of 3] by (simp add: rd_sale_def)
  then show ?thesis using full_return_refunds_everything [OF demo_no_returns demo_is_sale _ f, of "[rd_submit 3]"] by (simp add: rd_sale_simps)
qed

theorem lines_within_sold_witness:
  "gl_qtyMilli (prior_line (lg_lines (rp_nextLedger (rd_plan ''attempt1'' 1))) 0) \<le> le_soldQtyMilli (sv_lines rd_sale ! 0)"
proof -
  have "parseReturnLedger (ledger_doc (run (return_step rd_ids) rd_shop [rd_submit 1]) (sv_orderId rd_sale)) = Some (rp_nextLedger (rd_plan ''attempt1'' 1))"
    using demo_ledger [of 1] demo_step [of 1] by (simp add: rd_sale_def)
  moreover have "0 < length (sv_lines rd_sale)" by (simp add: rd_sale_def)
  ultimately show ?thesis using lines_within_sold [OF demo_no_returns demo_is_sale] by blast
qed

lemma demo_call:
  "performSubmitSaleReturn JNull rd_ids (Some (\<lambda>_. Inr (js ''ann''))) None None id (rd_request ''attempt1'' 1 10 []) rd_shop
   = (RespOk (js ''r'' @ js ''attempt1'') (js ''RT-bill-1'') (Some (js ''r'' @ js ''attempt1'')) (minorToBaht 1000) (Some PayCash) False, rd_after 1)"
proof -
  let ?v = "rd_valid ''attempt1'' 1 10" and ?rid = "js ''r'' @ js ''attempt1''"
  have m: "request_mode (rd_request ''attempt1'' 1 10 []) = Some False" by (simp add: request_mode_def rd_request_def doc_field_def)
  have v: "validateSubmitSaleReturnRequest (rd_request ''attempt1'' 1 10 []) True = Some ?v" by (simp add: rd_request_valid)
  have id: "id_return rd_ids (rr_branchId ?v) (rr_orderId ?v) (rr_attemptId ?v) = ?rid" by (simp add: rd_ids_def rd_valid_def)
  have a: "rr_approverStaffId ?v \<noteq> js ''ann''" by (simp add: rd_valid_def)
  have s: "sale_of rd_shop ?v = Inr rd_sale" using demo_parse by (simp add: sale_of_def rd_shop_def rd_valid_def)
  have t: "tx_plan rd_shop ?v ?rid = Inr (rd_sale, rd_plan ''attempt1'' 1)" using demo_tx_plan [of 1 "''attempt1''"] by simp
  have "rr_shiftId ?v = Some (js ''sh'')" by (simp add: rd_valid_def)
  then have p: "preflight rd_shop ?v ?rid = None" by (simp add: preflight_def s t)
  have ne: "map_of (rs_returns rd_shop) k = None" "map_of (rs_fences rd_shop) k = None" for k by (simp_all add: rd_shop_def)
  have x: "return_tx JNull rd_ids None (js ''ann'') ?v rd_shop = (TxCommitted (rd_plan ''attempt1'' 1), rd_after 1)" using demo_tx [of 1] by simp
  have r: "map_of (rs_returns (rd_after 1)) ?rid = Some (stored_of rd_ids (js ''r'' @ js ''attempt1'') (js ''ann'') ?v rd_sale (rd_plan ''attempt1'' 1))"
    by (simp add: rd_after_def tx_writes_def Let_def stored_of_def)
  have "decimal 1 = [digit 1]" by (subst decimal.simps) simp
  then have no: "sr_returnNo (stored_of rd_ids (js ''r'' @ js ''attempt1'') (js ''ann'') ?v rd_sale (rd_plan ''attempt1'' 1)) = js ''RT-bill-1''"
    by (simp add: stored_of_def deriveReturnNo_def rd_sale_def rd_plan_def Let_def next_ledger_def emptyLedger_def digit_def js_def)
  show ?thesis
    unfolding performSubmitSaleReturn_def option.case m not_False_eq_True v sum.case Let_def id
    using a by (simp add: ne p x finish_tx_def r no) (simp add: rd_plan_def Let_def)
qed

theorem retry_replays_receipt_witness:
  "performSubmitSaleReturn JNull rd_ids (Some (\<lambda>_. Inr (js ''ann''))) (Some ReInvalidTarget) None id (rd_request ''attempt1'' 1 10 []) (rd_after 1)
   = (RespOk (js ''r'' @ js ''attempt1'') (js ''RT-bill-1'') (Some (js ''r'' @ js ''attempt1'')) (minorToBaht 1000) (Some PayCash) True, rd_after 1)"
  using retry_replays_receipt [OF demo_call, where es = "[]"] by simp

theorem resolved_attempt_never_commits_witness:
  "map_of (rs_returns (run (return_step rd_ids) (rd_shop\<lparr>rs_fences := [(js ''r'' @ js ''attempt1'',
     \<lparr>fn_requesterStaffId = js ''ann'', fn_contentDigest = id_digest rd_ids (rd_valid ''attempt1'' 1 10)\<rparr>)]\<rparr>) [rd_submit 1])) (js ''r'' @ js ''attempt1'') = None"
proof -
  let ?raw = "rd_request ''attempt1'' 1 10 rd_resolve" and ?v = "rd_valid ''attempt1'' 1 10"
  have m: "request_mode ?raw = Some True" by (simp add: request_mode_def rd_request_def rd_resolve_def doc_field_def)
  have v: "validateSubmitSaleReturnRequest ?raw False = Some ?v" by (simp add: rd_request_valid)
  have id: "id_return rd_ids (rr_branchId ?v) (rr_orderId ?v) (rr_attemptId ?v) = js ''r'' @ js ''attempt1''" by (simp add: rd_ids_def rd_valid_def)
  have a: "rr_approverStaffId ?v \<noteq> js ''ann''" by (simp add: rd_valid_def)
  have "performSubmitSaleReturn JNull rd_ids (Some (\<lambda>_. Inr (js ''ann''))) None None id ?raw (run (return_step rd_ids) rd_shop [])
    = (RespFail ReNotCommitted, rd_shop\<lparr>rs_fences := [(js ''r'' @ js ''attempt1'',
       \<lparr>fn_requesterStaffId = js ''ann'', fn_contentDigest = id_digest rd_ids ?v\<rparr>)]\<rparr>)"
    unfolding performSubmitSaleReturn_def option.case m not_True_eq_False v sum.case Let_def resolve_attempt_def id
    using a by (simp add: rd_shop_def)
  then show ?thesis using resolved_attempt_never_commits [OF demo_no_returns m v _ a, where chk = "\<lambda>_. Inr (js ''ann'')" and es = "[]" and fs = "[rd_submit 1]"] id by fastforce
qed

theorem money_documents_match_witness:
  "map_of (rs_refunds (rd_after 1)) (js ''r'' @ js ''attempt1'') = Some \<lparr>sf_method = Some PayCash, sf_amount = minorToBaht 1000\<rparr>"
proof -
  have r: "map_of (rs_returns (rd_after 1)) (js ''r'' @ js ''attempt1'')
    = Some (stored_of rd_ids (js ''r'' @ js ''attempt1'') (js ''ann'') (rd_valid ''attempt1'' 1 10) rd_sale (rd_plan ''attempt1'' 1))"
    by (simp add: rd_after_def tx_writes_def Let_def stored_of_def)
  show ?thesis
    using money_documents_match [OF demo_no_returns, of "[rd_submit 1]" "js ''r'' @ js ''attempt1''"] demo_step [of 1]
    by (simp add: r) (simp add: rd_plan_def Let_def)
qed

theorem call_refines_step_witness:
  "\<exists>staffId. rd_after 1 = rd_shop \<or> rd_after 1 = return_step rd_ids rd_shop (TxEvent JNull None staffId (rd_request ''attempt1'' 1 10 []))
     \<or> rd_after 1 = return_step rd_ids rd_shop (ResolveEvent staffId (rd_request ''attempt1'' 1 10 []))"
  using call_refines_step [OF demo_call] by auto

end
