(* ===== verification/ReturnFacts.thy ===== *)
theory ReturnFacts
  imports ReturnDemo
begin

text \<open>
  Properties of the parts of a return: the shares of a bill, the stored numbers and the stored
  ledger, the lots a return goes back into, and whether a sale stays open for further returns.
\<close>

section \<open>Shares\<close>

text \<open>C24. An accepted bill splits its discount and its fee over the lines without losing a satang
  (the fee is lost only when all lines are free), no line's refundable share is negative, and
  the shares add up to what was paid.\<close>

theorem refundable_shares_exact:
  assumes "parseSaleEvidence orderId asyncOrder canonical branch = Inr sale"
  shows "(\<forall>l \<in> set (sv_lines sale). 0 \<le> le_refundableShareMinor l)
    \<and> sum_list (map le_billDiscountAllocMinor (sv_lines sale)) = sv_billDiscountMinor sale
    \<and> sum_list (map le_feeAllocMinor (sv_lines sale)) = (if sv_subtotalMinor sale = 0 then 0 else sv_feeMinor sale)
    \<and> sum_list (map le_refundableShareMinor (sv_lines sale)) = (if sv_subtotalMinor sale = 0 then 0 else sv_totalMinor sale)"
  using parse_wf [OF assms] by (simp add: sale_wf_def shares_exact_def)

theorem refundable_shares_exact_witness: "sum_list (map le_refundableShareMinor (sv_lines rd_sale)) = 3000"
  using refundable_shares_exact [OF demo_parse] by (simp add: rd_sale_simps)

text \<open>C25. The allocation of an amount over non-negative weights adds up to the amount, gives every
  line its exact proportion to less than one unit, and no more than its weight when the amount
  is not larger than the sum of the weights.\<close>

theorem allocation_exact_and_fair:
  assumes "\<forall>w \<in> set weights. 0 \<le> w" "0 \<le> amount" "0 < sum_list weights" "i < length weights"
  shows "sum_list (allocateProportional amount weights) = amount \<and> 0 \<le> allocateProportional amount weights ! i
    \<and> \<bar>allocateProportional amount weights ! i * sum_list weights - amount * weights ! i\<bar> < sum_list weights
    \<and> (amount \<le> sum_list weights \<longrightarrow> allocateProportional amount weights ! i \<le> weights ! i)"
  using allocate_sum [OF assms(1,2)] allocate_bounds [OF assms(1,2,4)] assms(3) by auto

theorem allocation_exact_and_fair_witness: "sum_list (allocateProportional 100 [1, 1, 1]) = (100 :: int)"
  using allocation_exact_and_fair [of "[1, 1, 1]" 100 0] by simp

lemma fee_of_free_lines_is_lost: "allocateProportional 500 [0, 0] = [0, 0]"
  by (simp add: allocate_zero)

section \<open>Stored numbers and the stored ledger\<close>

text \<open>C30. Every quantity and every amount in the supported range reads back exactly from the
  decimal number it is stored as, although both conversions round.\<close>

theorem stored_amounts_read_back:
  assumes "0 \<le> n" "n \<le> 10 ^ 11"
  shows "toMilliExact (JNum (milliToQty n)) = Some n \<and> toMinorExact (JNum (minorToBaht n)) = Some n"
  using milli_round_trip [OF assms] minor_round_trip [OF assms] by simp

theorem stored_amounts_read_back_witness: "toMinorExact (JNum (minorToBaht 1999)) = Some 1999"
  using stored_amounts_read_back [of 1999] by simp

text \<open>C29. A ledger of safe integers reads back from its document, its lines in index order,
  whatever further fields the document carries.\<close>

theorem stored_ledger_reads_back:
  assumes "storable g"
  shows "parseReturnLedger (JObj (serializeReturnLedger g orderId branchId @ extra)) = Some (by_index g)"
  by (rule ledger_round_trip [OF assms])

theorem stored_ledger_reads_back_witness:
  "parseReturnLedger (JObj (serializeReturnLedger (emptyLedger\<lparr>lg_lines := [(1, no_line), (0, no_line)]\<rparr>) [] [] @ []))
   = Some (emptyLedger\<lparr>lg_lines := [(0, no_line), (1, no_line)]\<rparr>)"
proof -
  have "storable (emptyLedger\<lparr>lg_lines := [(1, no_line), (0, no_line)]\<rparr>)"
    by (simp add: storable_def emptyLedger_def map_wf_def line_storable_def nat53_def safe_int_def)
  from stored_ledger_reads_back [OF this, of "[]" "[]" "[]"] show ?thesis
    by (simp add: by_index_def emptyLedger_def by_key_def)
qed

section \<open>Lots\<close>

text \<open>C20. Two consecutive returns of a line put back into every lot exactly what one return of
  both quantities would, all of what is returned and never more than the sale took from it.\<close>

theorem returns_follow_the_lots:
  assumes "\<forall>r \<in> set lots. 0 < lt_qtyBaseMilli r"
    and "planLotRestoration lots a q = Some ps" "planLotRestoration lots (a + q) r = Some qs"
  shows "\<exists>rs. planLotRestoration lots a (q + r) = Some rs \<and> sum_list (map pn_qtyBaseMilli rs) = q + r
    \<and> (\<forall>i. lot_amount ps i + lot_amount qs i = lot_amount rs i
         \<and> lot_amount rs i \<le> sum_list (map lt_qtyBaseMilli (filter (\<lambda>l. lt_lotId l = i) lots)))"
proof -
  note p = plan_lots [OF assms(2,1)] and q = plan_lots [OF assms(3,1)]
  let ?rs = "cut_portions a (a + q + r) 0 0 lots"
  have rs: "planLotRestoration lots a (q + r) = Some ?rs" using p q by (simp add: planLotRestoration_def add.assoc)
  have "lot_amount ps i + lot_amount qs i = lot_amount ?rs i" for i
    using lot_amount_split [OF _ _ assms(1), of a "a + q" "a + q + r" 0 i] p q by simp
  then show ?thesis using rs plan_lots(1) [OF rs assms(1)] lot_amount_bound [OF assms(1)] by auto
qed

theorem returns_follow_the_lots_witness:
  "\<exists>rs. planLotRestoration (le_lots rd_sale_line) 0 3000 = Some rs \<and> sum_list (map pn_qtyBaseMilli rs) = 3000"
proof -
  have "planLotRestoration (le_lots rd_sale_line) 0 1000 \<noteq> None" "planLotRestoration (le_lots rd_sale_line) (0 + 1000) 2000 \<noteq> None"
    by (simp_all add: planLotRestoration_def rd_sale_line_def)
  then obtain ps qs where "planLotRestoration (le_lots rd_sale_line) 0 1000 = Some ps"
    "planLotRestoration (le_lots rd_sale_line) (0 + 1000) 2000 = Some qs" by blast
  then show ?thesis using returns_follow_the_lots [of "le_lots rd_sale_line" 0 1000 ps 2000 qs] by (auto simp: rd_sale_line_def)
qed

section \<open>Does a sale stay open for returns?\<close>

text \<open>All unit factors whole, as in counting pieces and boxes of pieces.\<close>

definition whole_units :: "sale_evidence \<Rightarrow> bool" where
  "whole_units sale \<longleftrightarrow> (\<forall>l \<in> set (sv_lines sale). \<exists>u. le_unitFactor l = whole u \<and> 0 < u \<and> safe_int (le_soldQtyMilli l * u))"

lemma whole_base:
  assumes l: "line_wf l" "le_unitFactor l = whole u" "0 < u" "safe_int (le_soldQtyMilli l * u)" and q: "0 \<le> q" "q \<le> le_soldQtyMilli l"
  shows "exactBaseMilli q (le_unitFactor l) = Some (q * u)" "le_soldQtyBaseMilli l = le_soldQtyMilli l * u"
proof -
  have s: "safe_int (le_soldQtyMilli l)" using l(1) exactBaseMilli_safe by (auto simp: line_wf_def)
  have "q * u \<le> le_soldQtyMilli l * u" using q l by (intro mult_right_mono) auto
  also have "\<dots> \<le> 9007199254740991" using l(4) by (simp add: safe_int_def)
  finally have "q * u \<le> 9007199254740991" .
  moreover have "0 \<le> q * u" using q l by simp
  ultimately have "safe_int (q * u)" unfolding safe_int_def by linarith
  moreover have "safe_int q" using q s by (simp add: safe_int_def)
  ultimately show "exactBaseMilli q (le_unitFactor l) = Some (q * u)" using exactBaseMilli_whole [of q u] q l by simp
  have "exactBaseMilli (le_soldQtyMilli l) (le_unitFactor l) = Some (le_soldQtyMilli l * u)"
    using exactBaseMilli_whole [of "le_soldQtyMilli l" u] l s by (simp add: line_wf_def)
  then show "le_soldQtyBaseMilli l = le_soldQtyMilli l * u" using l(1) by (simp add: line_wf_def)
qed

text \<open>The base quantity of every line of the ledger is its quantity times the factor.\<close>

definition base_exact :: "sale_evidence \<Rightarrow> return_ledger \<Rightarrow> bool" where
  "base_exact sale g \<longleftrightarrow> (\<forall>i l u. byIndex sale i = Some l \<longrightarrow> le_unitFactor l = whole u \<longrightarrow>
     gl_qtyBaseMilli (prior_line (lg_lines g) i) = gl_qtyMilli (prior_line (lg_lines g) i) * u)"

lemma consistent_base_exact:
  assumes wf: "sale_wf sale" and w: "whole_units sale" and ok: "ledger_ok sale g" and c: "ledgerConsistentWithSale sale g"
  shows "base_exact sale g"
  unfolding base_exact_def
proof (intro allI impI)
  fix i l u assume b: "byIndex sale i = Some l" and u: "le_unitFactor l = whole u"
  show "gl_qtyBaseMilli (prior_line (lg_lines g) i) = gl_qtyMilli (prior_line (lg_lines g) i) * u"
  proof (cases "map_of (lg_lines g) i")
    case (Some p)
    have "line_ok l p" using lines_ok_prior [OF wf _ b, of "lg_lines g"] ok Some by (simp add: ledger_ok_def prior_line_def)
    then have q: "0 \<le> gl_qtyMilli p" "gl_qtyMilli p \<le> le_soldQtyMilli l" by (simp_all add: line_ok_def)
    have "0 < u" "safe_int (le_soldQtyMilli l * u)" using w byIndex_in [OF b] u by (auto simp: whole_units_def)
    note base = whole_base [OF conjunct1 [OF byIndex_wf [OF wf b]] u this q]
    have "(i, p) \<in> set (lg_lines g)" using Some by (rule map_of_SomeD)
    then have "ledger_line_consistent sale (i, p)" using c by (auto simp: ledgerConsistentWithSale_def list_all_iff)
    then show ?thesis using b base Some by (auto simp: ledger_line_consistent_def Let_def prior_line_def split: if_splits)
  qed (simp add: prior_line_def)
qed

lemma list_all2_origin: "list_all2 P xs ys \<Longrightarrow> y \<in> set ys \<Longrightarrow> \<exists>x \<in> set xs. P x y"
  by (induction rule: list_all2_induct) auto

lemma next_base_exact:
  assumes wf: "sale_wf sale" and w: "whole_units sale" and ok: "ledger_ok sale g" and be: "base_exact sale g"
    and d: "distinct (map rl_lineIndex (rr_lines v))" and p: "planSaleReturn sale g v rid = Inr plan"
  shows "base_exact sale (rp_nextLedger plan)"
  unfolding base_exact_def
proof (intro allI impI)
  fix i l u assume b: "byIndex sale i = Some l" and u: "le_unitFactor l = whole u"
  have lok: "lines_ok sale (lg_lines g)" using ok by (simp add: ledger_ok_def)
  obtain ds where ds: "map_result (plan_return_line sale g) (rr_lines v) = Inr ds"
    "lg_lines (rp_nextLedger plan) = foldl add_planned (lg_lines g) ds"
  proof -
    obtain ds where "map_result (plan_return_line sale g) (rr_lines v) = Inr ds"
      "rp_nextLedger plan = next_ledger g ds (rr_refundMethod v) (rp_refundMinor plan) rid" using plan_Inr [OF p] by metis
    then show ?thesis using that by (simp add: next_ledger_def)
  qed
  note pls = planned_lines [OF wf lok ds(1)]
  have dd: "distinct (map (le_lineIndex \<circ> pl_line) ds)" using pls(1) d by simp
  let ?pr = "prior_line (lg_lines g) i"
  have old: "gl_qtyBaseMilli ?pr = gl_qtyMilli ?pr * u" using be b u by (simp add: base_exact_def)
  show "gl_qtyBaseMilli (prior_line (lg_lines (rp_nextLedger plan)) i) = gl_qtyMilli (prior_line (lg_lines (rp_nextLedger plan)) i) * u"
  proof (cases "i \<in> le_lineIndex ` pl_line ` set ds")
    case True
    then obtain e where e: "e \<in> set ds" "le_lineIndex (pl_line e) = i" by blast
    obtain r where r: "r \<in> set (rr_lines v)" "plan_return_line sale g r = Inr e"
      using list_all2_origin [OF ds(1) [unfolded map_result_list] e(1)] by blast
    note f = plan_return_line_Inr [OF wf lok r(2)]
    have i: "rl_lineIndex r = i" using f(2) e(2) by simp
    have l: "pl_line e = l" using f(1) b i by simp
    have q: "0 \<le> pl_qtyMilli e" "pl_qtyMilli e \<le> le_soldQtyMilli l" "0 \<le> gl_qtyMilli ?pr + pl_qtyMilli e"
      using f(3,11) lines_ok_prior [OF wf lok b] unfolding line_ok_def i l by auto
    have uu: "0 < u" "safe_int (le_soldQtyMilli l * u)" using w byIndex_in [OF b] u by (auto simp: whole_units_def)
    note base = whole_base [OF conjunct1 [OF byIndex_wf [OF wf b]] u uu q(1,2)]
    have "gl_qtyBaseMilli ?pr + pl_qtyBaseMilli e = (gl_qtyMilli ?pr + pl_qtyMilli e) * u"
    proof (cases "gl_qtyMilli ?pr + pl_qtyMilli e = le_soldQtyMilli l")
      case True
      then show ?thesis using f(10) base(2) unfolding i l by simp
    next
      case False
      then show ?thesis using f(10) old base(1) unfolding i l by (simp add: distrib_right)
    qed
    then show ?thesis using fold_planned_prior [OF dd e(1), of "lg_lines g"] e(2) by (simp add: ds(2) plus_planned_def)
  next
    case False
    then show ?thesis using fold_planned_other old by (simp add: ds(2))
  qed
qed

lemma base_exact_consistent:
  assumes wf: "sale_wf sale" and w: "whole_units sale" and ok: "ledger_ok sale g" and be: "base_exact sale g" and c: "1 \<le> lg_returnCount g"
  shows "ledgerConsistentWithSale sale g"
proof -
  have "ledger_line_consistent sale e" if e: "e \<in> set (lg_lines g)" for e
  proof -
    obtain i p where ip: "e = (i, p)" by (cases e)
    have m: "map_of (lg_lines g) i = Some p" using e ok by (simp add: ip ledger_ok_def lines_ok_def map_wf_def)
    then obtain l where l: "byIndex sale i = Some l" "line_ok l p" using ok unfolding ledger_ok_def lines_ok_def by blast
    obtain u where u: "le_unitFactor l = whole u" "0 < u" "safe_int (le_soldQtyMilli l * u)"
      using w byIndex_in [OF l(1)] by (auto simp: whole_units_def)
    have q: "0 \<le> gl_qtyMilli p" "gl_qtyMilli p \<le> le_soldQtyMilli l" using l(2) by (simp_all add: line_ok_def)
    note base = whole_base [OF conjunct1 [OF byIndex_wf [OF wf l(1)]] u q]
    have "gl_qtyBaseMilli p = gl_qtyMilli p * u" using be [unfolded base_exact_def, rule_format, OF l(1) u(1)] m by (simp add: prior_line_def)
    then show ?thesis using l base by (auto simp: ledger_line_consistent_def ip Let_def line_ok_def)
  qed
  then show ?thesis using ok c by (simp add: ledgerConsistentWithSale_def list_all_iff ledger_ok_def refunded_def returned_def)
qed

lemma by_index_base_exact: "map_wf (lg_lines g) \<Longrightarrow> base_exact sale g \<Longrightarrow> base_exact sale (by_index g)"
  using by_index_map_of [of g] by (simp add: base_exact_def prior_line_def)

text \<open>The machine invariant: every sale in whole units can still be read with its ledger.\<close>

definition stays_open :: "return_ids \<Rightarrow> return_shop \<Rightarrow> bool" where
  "stays_open ids s \<longleftrightarrow> shop_ok ids s \<and> (\<forall>sale. is_sale s sale \<longrightarrow> whole_units sale \<longrightarrow>
     (\<exists>g. parseReturnLedgerForSale (ledger_doc s (sv_orderId sale)) sale = Some g))"

lemma open_ledger:
  assumes "parseReturnLedgerForSale d sale = Some g" "sale_wf sale" "whole_units sale" "ledger_ok sale g"
  shows "base_exact sale g"
proof (cases "d = JUndef")
  case True
  then show ?thesis using assms(1) by (auto simp: parseReturnLedgerForSale_def emptyLedger_def base_exact_def prior_line_def)
next
  case False
  then have "ledgerConsistentWithSale sale g" using assms(1) by (auto simp: parseReturnLedgerForSale_def split: option.splits if_splits)
  then show ?thesis by (rule consistent_base_exact [OF assms(2,3,4)])
qed

lemma commit_stays_open:
  assumes ok: "order_ok s sale" and isS: "is_sale s sale" and v: "rr_lines v \<noteq> []" "distinct (map rl_lineIndex (rr_lines v))"
    and new: "map_of (rs_returns s) rid = None" and sw: "map_wf (rs_returns s)" "[] \<notin> fst ` set (rs_returns s)" "rid \<noteq> []"
    and o: "sv_orderId sale = rr_orderId v" "sv_branchId sale = rr_branchId v" and w: "whole_units sale"
    and g: "parseReturnLedgerForSale (ledger_doc s (rr_orderId v)) sale = Some g" and p: "planSaleReturn sale g v rid = Inr plan"
  shows "\<exists>g'. parseReturnLedgerForSale (ledger_doc (tx_writes now ids staffId v rid sale plan s) (rr_orderId v)) sale = Some g'"
proof -
  have wf: "sale_wf sale" using is_sale_facts [OF isS] by simp
  have gok: "ledger_ok sale g" using ok read_ledger_parse [OF g] by (auto simp: order_ok_def o)
  let ?n = "rp_nextLedger plan" and ?d = "ledger_doc (tx_writes now ids staffId v rid sale plan s) (rr_orderId v)"
  note c = commit_parses [OF ok isS v new sw o(1) read_ledger_parse [OF g] p]
  have "base_exact sale ?n" by (rule next_base_exact [OF wf w gok open_ledger [OF g wf w gok] v(2) p])
  then have be: "base_exact sale (by_index ?n)" using c(1) by (intro by_index_base_exact) (simp_all add: ledger_ok_def lines_ok_def)
  have "1 \<le> lg_returnCount (by_index ?n)" using gok next_ledger_facts(4) [OF p] by (simp add: ledger_ok_def by_index_def)
  then have "ledgerConsistentWithSale sale (by_index ?n)" by (rule base_exact_consistent [OF wf w by_index_ok [OF c(1)] be])
  moreover have d: "?d = JObj (serializeReturnLedger ?n (rr_orderId v) (rr_branchId v) @ [(js ''updatedAt'', now)])"
    by (simp add: writes_ledger)
  ultimately show ?thesis
    unfolding parseReturnLedgerForSale_def c(2) serialize_fields(2,3) [OF d] o by (simp add: serialize_fields(10) [OF d])
qed

lemma stays_open_tx:
  assumes ok: "stays_open ids s" and v: "rr_lines v \<noteq> []" "distinct (map rl_lineIndex (rr_lines v))"
  shows "stays_open ids (snd (return_tx now ids gate staffId v s))"
proof -
  obtain r s' where r: "return_tx now ids gate staffId v s = (r, s')" by (cases "return_tx now ids gate staffId v s")
  have sok: "shop_ok ids s" using ok by (simp add: stays_open_def)
  have sok': "shop_ok ids s'" using shop_ok_tx [OF sok v, of now gate staffId] r by simp
  from r have "\<exists>g. parseReturnLedgerForSale (ledger_doc s' (sv_orderId k)) k = Some g" if k: "is_sale s k" "whole_units k" for k
  proof (cases rule: tx_commit)
    case unchanged
    then show ?thesis using ok k by (simp add: stays_open_def)
  next
    case (commit rid sale g plan)
    note f = sale_of_facts [OF commit(5)]
    obtain h where h: "parseReturnLedgerForSale (ledger_doc s (sv_orderId k)) k = Some h" using ok k by (auto simp: stays_open_def)
    show ?thesis
    proof (cases "sv_orderId k = rr_orderId v")
      case True
      have "parseSaleEvidence (rr_orderId v) (map_of (rs_asyncOrders s) (rr_orderId v)) (map_of (rs_orders s) (rr_orderId v)) (sv_branchId k) = Inr k"
        using k True by (simp add: is_sale_def)
      moreover have "parseSaleEvidence (rr_orderId v) (map_of (rs_asyncOrders s) (rr_orderId v)) (map_of (rs_orders s) (rr_orderId v)) (rr_branchId v) = Inr sale"
        using commit(5) by (simp add: sale_of_def)
      ultimately have ks: "k = sale" using parse_branch by (metis jsval.inject(3) option.inject sum.inject(2))
      have "h = g" using read_ledger_parse [OF h] commit(6) True by simp
      moreover have "order_ok s k" "map_wf (rs_returns s)" "[] \<notin> fst ` set (rs_returns s)" "rid \<noteq> []"
        using sok k by (auto simp: shop_ok_def commit(1))
      ultimately show ?thesis
        using commit_stays_open [OF _ k(1) v commit(2) _ _ _ True _ k(2)] h commit(7) True f by (auto simp: commit(11) ks)
    next
      case False
      then show ?thesis using h by (simp add: commit(11) writes_ledger)
    qed
  qed
  moreover have "is_sale s' k = is_sale s k" for k using tx_frame [of now ids gate staffId v s] r by (simp add: is_sale_def)
  ultimately show ?thesis using sok' r by (simp add: stays_open_def)
qed

lemma stays_open_step: "stays_open ids s \<Longrightarrow> stays_open ids (return_step ids s e)"
proof (cases e)
  case (TxEvent now gate staffId raw)
  assume "stays_open ids s"
  then show ?thesis by (auto simp: TxEvent split: option.splits intro!: stays_open_tx dest: validated_lines)
next
  case (ResolveEvent staffId raw)
  assume ok: "stays_open ids s"
  have "stays_open ids (snd (resolve_attempt ids staffId v s))" for v
  proof -
    have "shop_ok ids (snd (resolve_attempt ids staffId v s))" using ok by (simp add: stays_open_def shop_ok_resolve)
    then show ?thesis using ok resolve_frame [of ids staffId v s] by (auto simp: stays_open_def is_sale_def ledger_doc_def)
  qed
  then show ?thesis using ok by (simp add: ResolveEvent split: option.splits)
qed

interpretation opened: invariant_machine "return_step ids" "stays_open ids" for ids
  by unfold_locales (rule stays_open_step)

text \<open>C17. A sale whose units are whole multiples of the base unit is never locked out: after any
  run its ledger still reads back and agrees with the sale, so the next return is planned.\<close>

theorem whole_units_never_locked_out:
  assumes "no_returns ids s" "is_sale s sale" "whole_units sale"
  shows "\<exists>g. parseReturnLedgerForSale (ledger_doc (run (return_step ids) s es) (sv_orderId sale)) sale = Some g"
proof -
  have "stays_open ids s" using fresh_shop_ok [OF assms(1)] assms(1)
    by (auto simp: stays_open_def no_returns_def ledger_doc_def parseReturnLedgerForSale_def)
  then have "stays_open ids (run (return_step ids) s es)" by (rule opened.inv_run)
  then show ?thesis using assms(2,3) run_is_sale by (simp add: stays_open_def)
qed

theorem whole_units_never_locked_out_witness:
  "\<exists>g. parseReturnLedgerForSale (ledger_doc (run (return_step rd_ids) rd_shop [rd_submit 1]) (sv_orderId rd_sale)) rd_sale = Some g"
proof -
  have "whole_units rd_sale" by (auto simp: whole_units_def rd_sale_simps safe_int_def)
  then show ?thesis by (rule whole_units_never_locked_out [OF demo_no_returns demo_is_sale])
qed

subsection \<open>A factor that locks a sale\<close>

text \<open>A sale of 16.384 units of a product whose unit is 1.00006103515625 base units.\<close>

definition fr_line :: line_evidence where
  "fr_line = \<lparr>le_lineIndex = 0, le_productId = js ''P'', le_productName = [], le_sku = [], le_category = [], le_unit = js ''u'',
     le_unitFactor = Fin (16385 / 16384), le_soldQtyMilli = 16384, le_soldQtyBaseMilli = 16385, le_unitPriceMinor = 1000,
     le_lineDiscountMinor = 0, le_lineTotalMinor = 16384,
     le_lots = [\<lparr>lt_lotId = js ''L'', lt_qtyBaseMilli = 16385, lt_cost = whole 1\<rparr>], le_billDiscountAllocMinor = 0,
     le_feeAllocMinor = 0, le_refundableShareMinor = 16384\<rparr>"

definition fr_sale :: sale_evidence where
  "fr_sale = \<lparr>sv_orderId = js ''S'', sv_billId = js ''bill'', sv_branchId = js ''B'', sv_customerId = None, sv_customerName = None,
     sv_saleCreatedAtMs = Fin 0, sv_saleShiftId = None, sv_saleStaffId = None, sv_subtotalMinor = 16384, sv_billDiscountMinor = 0,
     sv_feeMinor = 0, sv_totalMinor = 16384, sv_netPaid = (\<lambda>_. 0)(PayCash := 16384), sv_lines = [fr_line]\<rparr>"

definition fr_ledger :: "int \<Rightarrow> return_ledger" where
  "fr_ledger n = \<lparr>lg_returnCount = n, lg_refundedTotalMinor = n, lg_byMethod = (\<lambda>_. 0)(PayCash := n),
     lg_lines = [(0, \<lparr>gl_qtyMilli = n, gl_qtyBaseMilli = n, gl_refundedMinor = n\<rparr>)],
     lg_acceptedReturnIds = (if n = 1 then [js ''r1''] else [js ''r1'', js ''r2''])\<rparr>"

definition fr_request :: return_request where
  "fr_request = \<lparr>rr_attemptId = js ''attempt1'', rr_orderId = js ''S'', rr_branchId = js ''B'',
     rr_lines = [\<lparr>rl_lineIndex = 0, rl_productId = js ''P'', rl_qtyMilli = 1\<rparr>], rr_refundMethod = Some PayCash, rr_refundReference = [],
     rr_reason = js ''r'', rr_note = [], rr_expectedRefundMinor = 1, rr_shiftId = None, rr_approverStaffId = js ''bob'', rr_pin = []\<rparr>"

lemma fr_factor: "le_unitFactor fr_line = Fin (16385 / 16384)"
  by (simp add: fr_line_def)

lemma fr_plan:
  assumes "g = emptyLedger \<and> n = 0 \<or> g = fr_ledger 1 \<and> n = 1"
  shows "\<exists>plan. planSaleReturn fr_sale g fr_request (if n = 0 then js ''r1'' else js ''r2'') = Inr plan \<and> rp_nextLedger plan = fr_ledger (n + 1)"
proof -
  have b: "byIndex fr_sale 0 = Some fr_line" by (simp add: byIndex_def fr_sale_def fr_line_def)
  have p: "prior_line (lg_lines g) 0 = \<lparr>gl_qtyMilli = n, gl_qtyBaseMilli = n, gl_refundedMinor = n\<rparr>"
    using assms by (auto simp: emptyLedger_def prior_line_def no_line_def fr_ledger_def)
  have e: "exactBaseMilli 1 (le_unitFactor fr_line) = Some 1" using fractional_factor(1) by (simp add: fr_factor)
  have f: "le_soldQtyMilli fr_line = 16384" "le_soldQtyBaseMilli fr_line = 16385" "le_productId fr_line = js ''P''" "le_lineIndex fr_line = 0"
    "le_refundableShareMinor fr_line = 16384" "le_lineTotalMinor fr_line = 16384" by (simp_all add: fr_line_def)
  have l: "planLotRestoration (le_lots fr_line) n 1 = Some [\<lparr>pn_portionIndex = 0, pn_originalLotId = js ''L'', pn_qtyBaseMilli = 1, pn_costPerUnit = whole 1\<rparr>]"
    using assms by (auto simp: planLotRestoration_def fr_line_def)
  have r: "lineRefundForReturnMinor 16384 16384 n 1 = 1"
    using assms by (auto simp: lineRefundForReturnMinor_def cumulativeRefundMinor_def sdiv_nonneg)
  have n: "n = 0 \<or> n = 1" using assms by auto
  have "\<exists>d. plan_return_line fr_sale g \<lparr>rl_lineIndex = 0, rl_productId = js ''P'', rl_qtyMilli = 1\<rparr> = Inr d \<and> pl_line d = fr_line
      \<and> pl_qtyMilli d = 1 \<and> pl_qtyBaseMilli d = 1 \<and> pl_refundMinor d = 1"
    using n by (auto simp: plan_return_line_def b p e l r f Let_def OVERSELL_LOT_ID_def)
  then obtain d where d: "plan_return_line fr_sale g \<lparr>rl_lineIndex = 0, rl_productId = js ''P'', rl_qtyMilli = 1\<rparr> = Inr d"
    "pl_line d = fr_line" "pl_qtyMilli d = 1" "pl_qtyBaseMilli d = 1" "pl_refundMinor d = 1" by blast
  have nf: "\<not> isFullyReturned fr_sale g"
    using n p by (auto simp: isFullyReturned_def lineReturnedQtyMilli_def fr_sale_def f)
  have t: "lg_refundedTotalMinor g = n" "lg_byMethod g PayCash = n" using assms by (auto simp: emptyLedger_def fr_ledger_def)
  have c: "refund_method_check fr_sale g (Some PayCash) [] 1 = Inr ()"
    using n by (auto simp: refund_method_check_def t fr_sale_def)
  have nl: "next_ledger g [d] (Some PayCash) 1 (if n = 0 then js ''r1'' else js ''r2'') = fr_ledger (n + 1)"
    using assms d f by (auto simp: next_ledger_def fr_ledger_def emptyLedger_def add_planned_def prior_line_def)
  have rq: "rr_lines fr_request = [\<lparr>rl_lineIndex = 0, rl_productId = js ''P'', rl_qtyMilli = 1\<rparr>]" "rr_refundMethod fr_request = Some PayCash"
    "rr_refundReference fr_request = []" "rr_expectedRefundMinor fr_request = 1" "sv_totalMinor fr_sale = 16384"
    by (simp_all add: fr_request_def fr_sale_def)
  have "\<not> sv_totalMinor fr_sale < n + 1" using n rq by auto
  then show ?thesis using nf nl by (simp add: planSaleReturn_def rq d c t Let_def)
qed

lemma fr_consistent: "ledgerConsistentWithSale fr_sale (fr_ledger 1)" "\<not> ledgerConsistentWithSale fr_sale (fr_ledger 2)"
proof -
  have b: "byIndex fr_sale 0 = Some fr_line" by (simp add: byIndex_def fr_sale_def fr_line_def)
  have f: "le_soldQtyMilli fr_line = 16384" "le_soldQtyBaseMilli fr_line = 16385" "le_refundableShareMinor fr_line = 16384"
    by (simp_all add: fr_line_def)
  show "ledgerConsistentWithSale fr_sale (fr_ledger 1)"
    using fractional_factor(1) by (simp add: ledgerConsistentWithSale_def fr_ledger_def ledger_line_consistent_def b f fr_factor
        method_total_def MONEY_REFUND_METHODS_def cumulativeRefundMinor_def sdiv_nonneg) (simp add: fr_sale_def)
  show "\<not> ledgerConsistentWithSale fr_sale (fr_ledger 2)"
    using fractional_factor(2) by (simp add: ledgerConsistentWithSale_def fr_ledger_def ledger_line_consistent_def b f fr_factor)
qed

text \<open>C16. Two accepted returns of 0.001 units of a line whose unit factor is slightly more than one
  leave a ledger that the code itself refuses to read: the sale takes no further return, although
  nearly all of it is unreturned. The planner checks the base quantity of each return, the reader
  that of their sum.\<close>

theorem accepted_returns_lock_the_sale:
  "sale_wf fr_sale \<and>
   (\<exists>plan. planSaleReturn fr_sale emptyLedger fr_request (js ''r1'') = Inr plan \<and> rp_nextLedger plan = fr_ledger 1) \<and>
   parseReturnLedgerForSale (JObj (serializeReturnLedger (fr_ledger 1) (js ''S'') (js ''B''))) fr_sale = Some (fr_ledger 1) \<and>
   (\<exists>plan. planSaleReturn fr_sale (fr_ledger 1) fr_request (js ''r2'') = Inr plan \<and> rp_nextLedger plan = fr_ledger 2) \<and>
   parseReturnLedgerForSale (JObj (serializeReturnLedger (fr_ledger 2) (js ''S'') (js ''B''))) fr_sale = None"
proof -
  have wf: "sale_wf fr_sale"
    using fractional_factor(3) by (auto simp: sale_wf_def fr_sale_def line_wf_def fr_line_def method_total_def MONEY_REFUND_METHODS_def)
  have st: "storable (fr_ledger 1)" "storable (fr_ledger 2)" "by_index (fr_ledger n) = fr_ledger n" for n
    by (auto simp: storable_def fr_ledger_def map_wf_def line_storable_def nat53_def safe_int_def by_index_def)
  have p: "parseReturnLedger (JObj (serializeReturnLedger (fr_ledger n) (js ''S'') (js ''B''))) = Some (fr_ledger n)" if "n = 1 \<or> n = 2" for n
    using that ledger_round_trip [of "fr_ledger n" "js ''S''" "js ''B''" "[]"] st by auto
  have d: "doc_field (JObj (serializeReturnLedger (fr_ledger n) (js ''S'') (js ''B''))) ''orderId'' = JStr (js ''S'')"
    "doc_field (JObj (serializeReturnLedger (fr_ledger n) (js ''S'') (js ''B''))) ''branchId'' = JStr (js ''B'')" for n
    using serialize_fields(2,3) [of _ "fr_ledger n" "js ''S''" "js ''B''" "[]"] by simp_all
  have i: "sv_orderId fr_sale = js ''S''" "sv_branchId fr_sale = js ''B''" by (simp_all add: fr_sale_def)
  show ?thesis
    using wf fr_plan [of emptyLedger 0] fr_plan [of "fr_ledger 1" 1] fr_consistent
    by (simp add: parseReturnLedgerForSale_def p d i)
qed

end
