(* ===== verification/ReturnStock.thy ===== *)
theory ReturnStock
  imports ReturnFacts
begin

text \<open>
  The stock side of a return: what a commit adds to the stock of every product, and the lot a
  return goes back into in place.
\<close>

section \<open>Stock\<close>

definition stock_added :: "(jsstr, int) jsmap \<Rightarrow> jsstr \<Rightarrow> int" where
  "stock_added m p = (case map_of m p of Some n \<Rightarrow> n | None \<Rightarrow> 0)"

lemma stock_added_set: "stock_added (map_set q n m) p = (if p = q then n else stock_added m p)"
  by (simp add: stock_added_def)

lemma stock_by_product_sum:
  "stock_added (stock_by_product ws) p = sum_list (map pw_qtyBaseMilli (filter (\<lambda>w. pw_productId w = p) ws))"
proof -
  have "stock_added (foldl (\<lambda>m w. map_set (pw_productId w) (stock_added m (pw_productId w) + pw_qtyBaseMilli w) m) m ws) p
    = stock_added m p + sum_list (map pw_qtyBaseMilli (filter (\<lambda>w. pw_productId w = p) ws))" for m
    by (induction ws arbitrary: m) (auto simp: stock_added_set)
  from this [of "[]"] show ?thesis by (simp add: stock_by_product_def stock_added_def)
qed

lemma portion_write_simps [simp]:
  "pw_productId (portion_write_of ds rid lp) = le_productId (pl_line (fst lp))"
  "pw_qtyBaseMilli (portion_write_of ds rid lp) = pn_qtyBaseMilli (snd lp)"
  by (simp_all add: portion_write_of_def Let_def)

lemma plan_portions_sum:
  "\<forall>l \<in> set ls. sum_list (map pn_qtyBaseMilli (pl_portions l)) = pl_qtyBaseMilli l \<Longrightarrow>
   sum_list (map (pn_qtyBaseMilli \<circ> snd) (filter (\<lambda>lp. le_productId (pl_line (fst lp)) = p) (concat (map (\<lambda>l. map (Pair l) (pl_portions l)) ls))))
   = sum_list (map pl_qtyBaseMilli (filter (\<lambda>l. le_productId (pl_line l) = p) ls))"
proof (induction ls)
  case (Cons l ls)
  have "filter (\<lambda>lp. le_productId (pl_line (fst lp)) = p) (map (Pair l) (pl_portions l)) =
      (if le_productId (pl_line l) = p then map (Pair l) (pl_portions l) else [])"
    by (simp add: filter_map comp_def)
  then show ?case using Cons by (simp add: comp_def)
qed simp

text \<open>What a plan returns of a product, and the stock figure of a product in a branch.\<close>

definition returned_base :: "return_plan \<Rightarrow> jsstr \<Rightarrow> int" where
  "returned_base plan p = sum_list (map pl_qtyBaseMilli (filter (\<lambda>l. le_productId (pl_line l) = p) (rp_lines plan)))"

definition stock_figure :: "(jsstr \<times> jsstr, jsval) jsmap \<Rightarrow> jsstr \<Rightarrow> jsstr \<Rightarrow> jsval" where
  "stock_figure m p b = doc_field (case map_of m (p, b) of Some d \<Rightarrow> d | None \<Rightarrow> JObj []) ''totalStockBase''"

lemma planned_portions:
  assumes wf: "sale_wf sale" and p: "plan_return_line sale g r = Inr d"
  shows "sum_list (map pn_qtyBaseMilli (pl_portions d)) = pl_qtyBaseMilli d"
    "x \<in> set (pl_portions d) \<Longrightarrow> 0 < pn_qtyBaseMilli x"
proof -
  from p obtain a where b: "byIndex sale (rl_lineIndex r) = Some (pl_line d)"
    and lots: "planLotRestoration (le_lots (pl_line d)) a (pl_qtyBaseMilli d) = Some (pl_portions d)"
    by (auto simp: plan_return_line_def Let_def split: option.splits if_splits)
  have "\<forall>l \<in> set (le_lots (pl_line d)). 0 < lt_qtyBaseMilli l" using byIndex_wf [OF wf b] by (simp add: line_wf_def)
  note l = plan_lots [OF lots this]
  show "sum_list (map pn_qtyBaseMilli (pl_portions d)) = pl_qtyBaseMilli d" by (rule l(1))
  have "\<forall>x \<in> set (cut_portions a e c n ls). 0 < pn_qtyBaseMilli x" for e c n ls
    by (induction ls arbitrary: c n) (auto simp: Let_def)
  then show "x \<in> set (pl_portions d) \<Longrightarrow> 0 < pn_qtyBaseMilli x" using l(5) by metis
qed

lemma stock_by_product_map: "map_wf (stock_by_product ws) \<and> fst ` set (stock_by_product ws) = pw_productId ` set ws"
proof -
  let ?f = "\<lambda>m w. (case map_of m (pw_productId w) of Some n \<Rightarrow> n | None \<Rightarrow> 0) + pw_qtyBaseMilli w"
  have "map_wf m \<Longrightarrow> map_wf (foldl (\<lambda>m w. map_set (pw_productId w) (?f m w) m) m ws)
    \<and> fst ` set (foldl (\<lambda>m w. map_set (pw_productId w) (?f m w) m) m ws) = fst ` set m \<union> pw_productId ` set ws" for m
    by (induction ws arbitrary: m) (auto simp: keys_map_set)
  from this [of "[]"] show ?thesis by (simp add: stock_by_product_def)
qed

lemma sum_of_positive:
  fixes f :: "'a \<Rightarrow> int"
  assumes "\<forall>w \<in> set ws. 0 < f w" "p \<in> g ` set ws"
  shows "0 < sum_list (map f (filter (\<lambda>w. g w = p) ws))"
  using assms
proof (induction ws)
  case (Cons w ws)
  have "0 \<le> sum_list (map f (filter (\<lambda>w. g w = p) ws))" using Cons.prems(1) by (intro sum_list_nonneg) (auto intro: less_imp_le)
  then show ?case using Cons by fastforce
qed simp

lemma stock_figure_add:
  "stock_figure (add_stock now branch m (q, n)) p b =
    (if p = q \<and> b = branch then incremented (stock_figure m p b) (milliToQty n) else stock_figure m p b)"
  by (simp add: stock_figure_def add_stock_def Let_def doc_field_merge)

lemma stock_figure_foldl:
  "map_wf es \<Longrightarrow> stock_figure (foldl (add_stock now branch) m es) p b =
    (case map_of es p of Some n \<Rightarrow> if b = branch then incremented (stock_figure m p b) (milliToQty n) else stock_figure m p b
     | None \<Rightarrow> stock_figure m p b)"
proof (induction es arbitrary: m)
  case (Cons e es)
  obtain q n where e: "e = (q, n)" by (cases e)
  have "map_of es q = None" "map_wf es" using Cons.prems by (auto simp: e map_wf_def map_of_eq_None_iff)
  then show ?case using Cons.IH [of "add_stock now branch m e"] by (auto simp: e stock_figure_add split: option.splits)
qed simp

text \<open>C23. Every commit, from any state, raises the stored stock of every product it returns, in the
  branch of the sale, by exactly the base quantity its planned lines return of that product, in one
  increment; the stock of every other product and of every other branch stays as it was.\<close>

theorem returned_goods_reach_stock:
  assumes "return_tx now ids gate staffId v s = (TxCommitted plan, s')"
  shows "stock_figure (rs_stocks s') p b =
    (if b = rr_branchId v \<and> 0 < returned_base plan p
     then incremented (stock_figure (rs_stocks s) p b) (milliToQty (returned_base plan p))
     else stock_figure (rs_stocks s) p b)"
  using assms
proof (cases rule: tx_commit)
  case (commit rid sale g plan')
  then have plan: "planSaleReturn sale g v rid = Inr plan" and wf: "sale_wf sale" using sale_of_facts by simp_all
  let ?ws = "portion_writes s v rid plan"
  obtain ds where ds: "map_result (plan_return_line sale g) (rr_lines v) = Inr ds" "rp_lines plan = ds"
    using plan_Inr [OF plan] by metis
  have pl: "\<exists>r. plan_return_line sale g r = Inr d" if "d \<in> set ds" for d
    using list_all2_origin [OF ds(1) [unfolded map_result_list] that] by blast
  have "\<forall>d \<in> set ds. sum_list (map pn_qtyBaseMilli (pl_portions d)) = pl_qtyBaseMilli d"
    using pl planned_portions(1) [OF wf] by blast
  from plan_portions_sum [OF this, of p] have total: "stock_added (stock_by_product ?ws) p = returned_base plan p"
    by (simp add: returned_base_def stock_by_product_sum portion_writes_def plan_portions_def ds(2) filter_map comp_def)
  have "\<forall>w \<in> set ?ws. 0 < pw_qtyBaseMilli w"
    using pl planned_portions(2) [OF wf] by (fastforce simp: portion_writes_def plan_portions_def ds(2))
  then have "0 < stock_added (stock_by_product ?ws) p" if "p \<in> pw_productId ` set ?ws"
    using that unfolding stock_by_product_sum by (rule sum_of_positive)
  then have "map_of (stock_by_product ?ws) p = (if 0 < returned_base plan p then Some (returned_base plan p) else None)"
    using total stock_by_product_map [of ?ws] map_of_eq_None_iff [of "stock_by_product ?ws" p]
    by (auto simp: stock_added_def split: option.splits)
  moreover have "rs_stocks s' = foldl (add_stock now (rr_branchId v)) (rs_stocks s) (stock_by_product ?ws)"
    using commit(10,11) by (simp add: tx_writes_def Let_def)
  ultimately show ?thesis by (simp add: stock_figure_foldl stock_by_product_map)
qed auto

theorem returned_goods_reach_stock_witness:
  "stock_figure (rs_stocks (rd_after 3)) (js ''P'') (js ''B'') = JNum (whole 3)
   \<and> stock_figure (rs_stocks (rd_after 3)) (js ''P'') (js ''C'') = JUndef"
proof -
  have t: "return_tx JNull rd_ids None (js ''ann'') (rd_valid ''attempt1'' 3 30) rd_shop = (TxCommitted (rd_plan ''attempt1'' 3), rd_after 3)"
    using demo_tx [of 3] by simp
  have r: "returned_base (rd_plan ''attempt1'' 3) (js ''P'') = 3000"
    by (simp add: returned_base_def rd_plan_def Let_def rd_sale_line_def)
  have e: "stock_figure (rs_stocks rd_shop) (js ''P'') b = JUndef" for b
    by (simp add: stock_figure_def rd_shop_def doc_field_def)
  have "rr_branchId (rd_valid ''attempt1'' 3 30) = js ''B''" by (simp add: rd_valid_def)
  moreover have "milliToQty 3000 = whole 3"
  proof -
    have "math_round (whole 3000) = Fin 3000" using math_round_near [of 3000 3000] by (simp add: whole_def del: math_round.simps)
    then show ?thesis using js_div_Fin [of 3000 1000] fl_whole [of 3] by (simp add: milliToQty_def whole_def exact_range_def del: math_round.simps)
  qed
  ultimately show ?thesis
    using returned_goods_reach_stock [OF t, of "js ''P''" "js ''B''"] returned_goods_reach_stock [OF t, of "js ''P''" "js ''C''"]
    by (simp add: r e incremented_def)
qed

section \<open>The lot in place\<close>

lemma math_round_val: "isFinite y \<Longrightarrow> num_val (math_round y) = of_int \<lfloor>num_val y + 1 / 2\<rfloor>"
  by (cases y) (auto simp: Let_def floor_eq_iff)

lemma near_integer_floor: "near_integer y = Some n \<Longrightarrow> isFinite y \<Longrightarrow> n = \<lfloor>num_val y + 1 / 2\<rfloor>"
  by (auto simp: near_integer_def Let_def math_round_val split: if_splits)

lemma toMilliExact_bound:
  assumes "toMilliExact v = Some n"
  shows "n \<le> 10 ^ 11"
proof -
  obtain x where x: "v = JNum x" "isFinite x" "\<not> js_lt QTY_MAX_ABS (js_abs x)" and n: "near_integer (js_mul x (Fin 1000)) = Some n"
    using assms by (auto simp: toMilliExact_def toScaledExact_def split: jsval.splits if_splits)
  define r where "r = num_val x * 1000"
  have "\<bar>num_val x\<bar> \<le> 10 ^ 8" using x by (simp add: QTY_MAX_ABS_def js_lt_finite num_val_js_abs)
  then have r: "\<bar>r\<bar> \<le> 10 ^ 11" by (simp add: r_def abs_mult)
  have y: "isFinite (js_mul x (Fin 1000)) \<and> num_val (js_mul x (Fin 1000)) \<le> 10 ^ 11 + 1 / 10"
  proof (cases "r = 0")
    case True
    then show ?thesis using x by (auto simp: js_mul_def r_def signed_zero_def Let_def)
  next
    case False
    then have m: "js_mul x (Fin 1000) = fl r" using x by (auto simp: js_mul_def r_def Let_def)
    have lt: "\<bar>r\<bar> < 2 powi 1023" using r by (intro small_lt_max) simp
    have "\<bar>fl_val r - r\<bar> \<le> \<bar>r\<bar> / 9007199254740992 + 1 / 10 ^ 30" by (rule fl_err)
    also have "\<dots> \<le> 10 ^ 11 / 9007199254740992 + 1 / 10 ^ 30" using r by (intro add_mono divide_right_mono) auto
    also have "\<dots> \<le> 1 / 10" by simp
    finally have "fl_val r \<le> 10 ^ 11 + 1 / 10" using r by linarith
    then show ?thesis using fl_fin [OF lt] by (simp add: m)
  qed
  have "\<lfloor>num_val (js_mul x (Fin 1000)) + 1 / 2\<rfloor> \<le> \<lfloor>10 ^ 11 + 1 / 10 + 1 / 2 :: rat\<rfloor>" using y by (intro floor_mono) simp
  also have "\<dots> = 10 ^ 11" by (simp add: floor_eq_iff)
  finally show ?thesis using near_integer_floor [OF n] y by simp
qed

text \<open>C28. A lot that is refilled in place is the lot of that product, branch and cost, and afterwards
  holds exactly what it held plus what came back, never more than was received into it.\<close>

theorem refilled_lot_fits:
  assumes "decideInPlaceLotRestore (Some lot) productId branchId costs restore = Inr (remaining, next)" "map_of m lotId = Some lot"
  shows "\<exists>lot' received. map_of (refill_lot now m (lotId, Inr (remaining, next))) lotId = Some lot'
    \<and> toMilliExact (doc_field lot ''qtyRemaining'') = Some remaining \<and> next = remaining + restore
    \<and> toMilliExact (doc_field lot' ''qtyRemaining'') = Some next
    \<and> toMilliExact (doc_field lot' ''qtyReceived'') = Some received \<and> next \<le> received
    \<and> doc_field lot' ''productId'' = JStr productId \<and> doc_field lot' ''branchId'' = JStr branchId
    \<and> (\<forall>c \<in> set costs. js_eq c (to_number (doc_field lot' ''costPerUnit'')))"
proof -
  obtain received where r: "toMilliExact (doc_field lot ''qtyReceived'') = Some received"
    "toMilliExact (doc_field lot ''qtyRemaining'') = Some remaining" "next = remaining + restore" "0 \<le> remaining" "0 < restore"
    "next \<le> received" "doc_field lot ''productId'' = JStr productId" "doc_field lot ''branchId'' = JStr branchId"
    "\<forall>c \<in> set costs. js_eq c (to_number (doc_field lot ''costPerUnit''))"
    using assms(1) by (auto simp: decideInPlaceLotRestore_def Let_def list_all_iff split: if_splits option.splits)
  have n: "0 \<le> next" "next \<le> 10 ^ 11" using r toMilliExact_bound [OF r(1)] by auto
  let ?lot = "merge_doc lot [fput ''qtyRemaining'' (JNum (milliToQty next)), fput ''isDepleted'' (JBool False), fput ''updatedAt'' now]"
  have "map_of (refill_lot now m (lotId, Inr (remaining, next))) lotId = Some ?lot" using assms(2) by (simp add: refill_lot_def)
  moreover have "doc_field ?lot ''qtyRemaining'' = JNum (milliToQty next)" "doc_field ?lot ''qtyReceived'' = doc_field lot ''qtyReceived''"
    "doc_field ?lot ''productId'' = doc_field lot ''productId''" "doc_field ?lot ''branchId'' = doc_field lot ''branchId''"
    "doc_field ?lot ''costPerUnit'' = doc_field lot ''costPerUnit''"
    by (simp_all add: doc_field_merge)
  ultimately show ?thesis using r milli_round_trip [OF n] by auto
qed

definition rd_lot :: jsval where
  "rd_lot = JObj [(js ''productId'', JStr (js ''P'')), (js ''branchId'', JStr (js ''B'')), (js ''qtyReceived'', JNum (whole 5)),
     (js ''qtyRemaining'', JNum (whole 2)), (js ''costPerUnit'', JNum (whole 4))]"

theorem refilled_lot_fits_witness:
  "\<exists>lot'. map_of (refill_lot JNull [(js ''L1'', rd_lot)] (js ''L1'', Inr (2000, 3000))) (js ''L1'') = Some lot'
     \<and> toMilliExact (doc_field lot' ''qtyRemaining'') = Some 3000"
proof -
  have "decideInPlaceLotRestore (Some rd_lot) (js ''P'') (js ''B'') [whole 4] 1000 = Inr (2000, 3000)"
    by (simp add: decideInPlaceLotRestore_def rd_lot_def doc_field_def milli_whole safe_int_def)
  from refilled_lot_fits [OF this, of "[(js ''L1'', rd_lot)]" "js ''L1''" JNull] show ?thesis by auto
qed

end
