(* ===== verification/Spec2Isabelle.thy ===== *)
theory Spec2Isabelle
  imports Prelude JsNumber JsString ShiftCloseMoney ShiftLedger ShiftCloseState PrivilegedVoidFlow
    PrivilegedAuthority ManagerApproval JsText SaleIntentJournal SaleIntentSweep JsDoc
    CanonicalSale FifoLots Settlement SettlementRun StockLedger SettlementGaps SettlementRetry
    SettlementNeverBlocks SettlementRoundTrip SettlementDemo SettlementRepair ReturnStock
begin

text \<open>
  TwinPet POS is an offline-first point of sale: a desktop terminal (\<^verbatim>\<open>src/src\<close>, TypeScript)
  that sells without a network, and Cloud Functions (\<^verbatim>\<open>src/functions/src\<close>) that settle,
  validate and authorise what the terminals did. This library models the decision logic of both
  sides; storage, network, clock and the React pages are outside it and enter as arguments.

  \<^bold>\<open>The foundations.\<close> \<^theory_text>\<open>Prelude\<close>: strings as UTF-16 code units, \<^verbatim>\<open>Map\<close> as insertion-ordered
  association lists, the stable \<^verbatim>\<open>sort\<close>, the clock, and the shared interfaces
  (\<open>comparator\<close>, \<open>keyed_store\<close>, \<open>invariant_machine\<close>, \<open>absorbing_machine\<close>), each interpreted on the
  model's own definitions where it is used. \<^theory_text>\<open>JsNumber\<close>: IEEE-754 doubles as a
  datatype over exact rationals with round-to-nearest-even, \<^verbatim>\<open>Math.round\<close>, \<^verbatim>\<open>BigInt\<close>, dynamic
  values (\<open>jsval\<close>) and results (\<open>js_error + 'a\<close>), with the rounding-error and exactness lemmas the
  money proofs use. \<^theory_text>\<open>JsString\<close>: code points, UTF-8 and byte order.
  \<^theory_text>\<open>JsText\<close>: decimal printing, \<^verbatim>\<open>padStart\<close>, \<^verbatim>\<open>Number(string)\<close>, splitting.

  \<^bold>\<open>The components and their code.\<close>
  \<^item> \<^theory_text>\<open>ShiftLedger\<close>: the terminal's drawer, \<^verbatim>\<open>src/src/lib/money.ts\<close>, \<^verbatim>\<open>pos/localLedger.ts\<close>,
    \<^verbatim>\<open>pos/shiftLedger.ts\<close>: floating-point folds over the local orders and cash entries.
  \<^item> \<^theory_text>\<open>ShiftCloseMoney\<close>: the server's exact recomputation, \<^verbatim>\<open>shiftCloseValidationCore.ts\<close> and
    \<^verbatim>\<open>shiftCloseValidationDrawerFold.ts\<close>: classification, canonical order, integer folds, verdict.
  \<^item> \<^theory_text>\<open>ShiftCloseState\<close>: the life of a shift-close case, \<^verbatim>\<open>shiftCloseValidationState.ts\<close> and
    \<^verbatim>\<open>resolveShiftCloseAlertCore.ts\<close>: alert projection, adjudication, the two cursor streams.
  \<^item> \<^theory_text>\<open>PrivilegedVoidFlow\<close>: the terminal's flow for voiding a bill with a manager,
    \<^verbatim>\<open>pos/privilegedVoid/privilegedVoidFlowMachine.ts\<close> and \<^verbatim>\<open>privilegedVoidActiveRow.ts\<close>.
  \<^item> \<^theory_text>\<open>PrivilegedAuthority\<close>: session freshness and live permissions, \<^verbatim>\<open>authorityFence.ts\<close> and
    \<^verbatim>\<open>privilegedActionAuthority.ts\<close>.
  \<^item> \<^theory_text>\<open>ManagerApproval\<close>: the approval callable, \<^verbatim>\<open>requestManagerApproval.ts\<close> and its core,
    \<^verbatim>\<open>pinPolicy.ts\<close>, \<^verbatim>\<open>credentialStore.ts\<close>: lockout, PIN comparison, minting over a document store.
  \<^item> \<^theory_text>\<open>SaleIntentJournal\<close>: the terminal's crash-safe journal of sales,
    \<^verbatim>\<open>pos/offline/saleIntentJournal*.ts\<close>: the status matrix, event log, pruning, every operation of
    the API over a store whose transactions may fail to open or to commit.
  \<^item> \<^theory_text>\<open>SaleIntentSweep\<close>: the boot sweep, observer and selectors over that journal,
    \<^verbatim>\<open>saleIntentSweep*.ts\<close>, \<^verbatim>\<open>saleIntentObserver.ts\<close>, \<^verbatim>\<open>saleIntentUiSelectors.ts\<close>.
  \<^item> \<^theory_text>\<open>JsDoc\<close>: documents as dynamic values, field writes, \<^verbatim>\<open>set(merge)\<close>, whole numbers as doubles.
  \<^item> \<^theory_text>\<open>CanonicalSale\<close>, \<^theory_text>\<open>FifoLots\<close>: \<^verbatim>\<open>canonicalSaleSource.ts\<close> (the validator of sale documents),
    \<^verbatim>\<open>fifo.ts\<close> and \<^verbatim>\<open>voidReversal.ts\<close> (lot cuts, restocks, credit reversal).
  \<^item> \<^theory_text>\<open>Settlement\<close>: the server's settlement of offline sales over one database (\<open>pos_db\<close>),
    \<^verbatim>\<open>reconcileOrder.ts\<close>, \<^verbatim>\<open>voidIntent.ts\<close>, \<^verbatim>\<open>retryReconcile.ts\<close>, \<^verbatim>\<open>sweeper.ts\<close>: every document each
    transaction reads and writes. Commit time, generated ids and timestamps of the library are \<open>settle_env\<close>.
  \<^item> \<^theory_text>\<open>SettlementRun\<close>: the machine of creations (\<^verbatim>\<open>firestore.rules\<close>), deliveries, voids, retries and
    repairs in any order, duplicated, stale or failing; \<^theory_text>\<open>StockLedger\<close>: its stock books;
    \<^theory_text>\<open>SettlementRetry\<close>, \<^theory_text>\<open>SettlementNeverBlocks\<close>, \<^theory_text>\<open>SettlementRoundTrip\<close>, \<^theory_text>\<open>SettlementRepair\<close>: the
    bound on retries, independence of the stock, settle-then-void, repair against settlement;
    \<^theory_text>\<open>SettlementGaps\<close>: where it goes wrong; \<^theory_text>\<open>SettlementDemo\<close>: a shop on which all of them are applied.
  \<^item> \<^theory_text>\<open>SaleEvidence\<close>, \<^theory_text>\<open>SaleShares\<close>, \<^theory_text>\<open>SaleExact\<close>: the first half of \<^verbatim>\<open>saleReturnCore.ts\<close>: reading a
    settled sale as evidence for a return, the allocation of discount and fee, exact decimal scaling;
    \<^theory_text>\<open>SaleReturn\<close>, \<^theory_text>\<open>SaleReturnLaws\<close>: the rest of that file: request validation, refunds by cumulative
    rounding, lot portions, the return ledger and the planner, with the invariant of the ledger.
  \<^item> \<^theory_text>\<open>SubmitReturn\<close>, \<^theory_text>\<open>SubmitReturnLaws\<close>: \<^verbatim>\<open>submitSaleReturn.ts\<close> over one shop state (\<open>return_shop\<close>):
    transaction, replay, fence, resolve mode, pre-flight, context; \<^theory_text>\<open>ReturnRuns\<close>, \<^theory_text>\<open>ReturnFacts\<close>,
    \<^theory_text>\<open>ReturnStock\<close>: refund caps, full return, exactly-once replay, fences, money documents, round trips,
    lots and stock; \<^theory_text>\<open>ReturnDemo\<close>: a shop on which they are applied.

  \<^bold>\<open>How they interact.\<close> A terminal folds its local ledger and captures totals at closing
  (\<^theory_text>\<open>ShiftLedger\<close>); the server recomputes them from the same documents (\<^theory_text>\<open>ShiftCloseMoney\<close>) and
  moves the case (\<^theory_text>\<open>ShiftCloseState\<close>). The theorems of this root theory join the two sides:
  \<open>cash_parity_terminal_server\<close> and \<open>drawer_parity_terminal_server\<close> say that the floating-point
  totals pass the exact check. A void is prepared by \<^theory_text>\<open>PrivilegedVoidFlow\<close>, whose PIN step asks
  \<^theory_text>\<open>ManagerApproval\<close>, which asks \<^theory_text>\<open>PrivilegedAuthority\<close>. A sale is journalled by
  \<open>observe\<close> (\<^theory_text>\<open>SaleIntentSweep\<close>) before it is written, and reconciled with the server by the sweep; the
  written document starts the settlement machine (\<^theory_text>\<open>SettlementRun\<close>), which the approved void enters
  as \<open>PrivilegedVoid\<close>. A settled sale can be returned instead (\<^theory_text>\<open>SubmitReturn\<close>), which reads the
  documents the settlement wrote and whose ledger document refuses a later void.

  \<^bold>\<open>What the lemmas show.\<close> Each component has its invariant and the preservation by every operation
  (approvals are append-only, alert projections stay valid, the journal stays well formed, the void
  flow never changes its target), the functional behaviour of its operations on every branch, and the
  property the component exists for (no sale is lost, an approval needs proof, a case is processed
  once, the totals agree, a sale settles once and is reversed once, the stock is its opening plus its
  movements, refunds stay within what was paid). Where the code departs from its comments the theorem says so:
  \<open>total_precision_gap\<close>, \<open>precheck_rejected_row_hides_open_row\<close>, \<open>lock_lost_early\<close>,
  \<open>sweep_starves\<close>, \<open>prune_overshoots\<close>,
  \<open>forged_sale_voids_victim\<close>, \<open>redelivery_reopens_settled_sale\<close>, \<open>pending_void_becomes_anomaly\<close>,
  \<open>accepted_sale_never_settles\<close>,
  \<open>accepted_returns_lock_the_sale\<close>, \<open>fee_of_free_lines_is_lost\<close>.

  \<^bold>\<open>Bounds and fuel.\<close> Doubles are exact rationals rounded at 53 bits; parity holds below
  THB 134,217,728 and for at most 1000 entries, the caps of the code. The drain loop of
  \<^theory_text>\<open>ShiftCloseState\<close> takes fuel; \<open>drain_terminates\<close> shows that one step per row is enough. All other
  loops are structural recursion. The stock theorems speak of whole quantities: initial stock plus the
  volume of all movements stays below \<open>2 ^ 53\<close> (\<open>2 ^ 51\<close> in the round trip), where doubles are exact. Returns compute in integers of satang and
  thousandths, which the code keeps in doubles below \<open>2 ^ 53\<close> (\<open>sale_small\<close> bounds the sales the run theorems
  speak of); the search for the largest returnable quantity takes the thousand steps of the code.

  \<^bold>\<open>Not modelled.\<close> Firestore, IndexedDB and the native stores (represented by their transaction
  contracts), hashing, signatures and PIN key derivation (arguments), locale-dependent comparison and
  formatting (arguments or left out), the React pages, stores and hooks, the Tauri shell, printing,
  and the callables that only wire a core to its transport. Sale returns are a machine of their own
  over their own state: they are not events of the settlement machine, nor are transfers, receiving
  or the deletion of a sale document by an administrator. Of a return, the authority checks and the
  manager approval enter as outcomes (they are modelled in \<^theory_text>\<open>PrivilegedAuthority\<close> and
  \<^theory_text>\<open>ManagerApproval\<close>); its audit and stock movement documents, the consumption of the approval and
  the copy of the drawer entry in the list of the shift are left out. The shift-close worker, the terminal's shift service and its durable
  queues, and the offline adjudication of privileged actions are not modelled: they drive the modelled
  kernels through storage, paging and signatures.
\<close>

section \<open>Terminal and server money arithmetic\<close>

text \<open>A raw snapshot entry that records the cash movement \<open>e\<close>, given in satang.\<close>

definition raw_matches :: "cash_entry_raw \<Rightarrow> cash_type \<times> int \<Rightarrow> bool" where
  "raw_matches r e \<longleftrightarrow> is_str (ce_id r) \<and> ce_id r \<noteq> JStr []
     \<and> ce_type r = JStr (js (case fst e of PayIn \<Rightarrow> ''pay_in'' | PayOut \<Rightarrow> ''pay_out''))
     \<and> ce_amount r = JNum (baht (snd e))"

lemma raw_matches_wellformed:
  assumes "raw_matches r e" "satang_ok (snd e)"
  shows "raw_wellformed r" "raw_type r = Some (fst e)" "amount_minor (ce_amount r) = Some (snd e)"
proof -
  show am: "amount_minor (ce_amount r) = Some (snd e)"
    using assms toPositiveEntryMinor_baht [of "snd e"]
    by (simp add: raw_matches_def satang_ok_def amount_minor_def)
  show ty: "raw_type r = Some (fst e)"
    using assms(1) by (auto simp: raw_matches_def raw_type_def split: cash_type.splits)
  show "raw_wellformed r" using assms(1) am ty by (simp add: raw_wellformed_def raw_matches_def)
qed

lemma raw_matches_total:
  "list_all2 raw_matches rs es \<Longrightarrow> list_all (\<lambda>e. satang_ok (snd e)) es \<Longrightarrow>
   list_all raw_wellformed rs \<and> raw_total t rs = cash_sum t es"
  by (induction rs es rule: list_all2_induct)
    (auto simp: raw_total_def cash_sum_def raw_matches_wellformed)

text \<open>C8. For an honest shift of at most 1000 two-decimal cash movements, the totals the terminal
  computes in floating point and captures at closing pass the server's exact parity check:
  the verdict is true, never null and never a discrepancy, as long as each total is below
  THB 134,217,728.\<close>

theorem cash_parity_terminal_server:
  assumes "list_all2 raw_matches rs es" and "list_all (\<lambda>e. satang_ok (snd e)) es"
    and "distinct (map ce_id rs)" and "length es \<le> 1000"
    and "cash_sum PayIn es < EXACT_LIMIT" and "cash_sum PayOut es < EXACT_LIMIT"
  shows "\<exists>f. foldCashEntriesSnapshot rs = Inr f
    \<and> (case foldCashEntries (map terminal_entry es) of (payInTotal, payOutTotal) \<Rightarrow>
         drawerCashParityMatches f payInTotal payOutTotal = Inr (Some True))"
proof -
  have len: "length rs \<le> CAP_SNAPSHOT_ENTRIES"
    using list_all2_lengthD [OF assms(1)] assms(4) by (simp add: CAP_SNAPSHOT_ENTRIES_def)
  then have "snapshot_clean rs"
    using raw_matches_total [OF assms(1,2), of PayIn] assms(3) by (simp add: snapshot_clean_def)
  then obtain f where f: "foldCashEntriesSnapshot rs = Inr f"
    "cf_payInMinor f = Some (cash_sum PayIn es)" "cf_payOutMinor f = Some (cash_sum PayOut es)"
    using snapshot_result [of rs] raw_matches_total [OF assms(1,2)] by metis
  have "drawerCashParityMatches f (baht (cash_sum PayIn es)) (baht (cash_sum PayOut es)) = Inr (Some True)"
    using f assms(5,6) cash_sum_bounds [OF assms(2)]
    by (simp add: drawerCashParityMatches_def roundMoneyKernel_baht toNonNegativeTotalMinor_baht baht_bounds)
  then show ?thesis using f(1) foldCashEntries_exact [OF assms(2,4)] by auto
qed

theorem cash_parity_terminal_server_witness:
  "\<exists>rs f. foldCashEntriesSnapshot rs = Inr f \<and>
    (case foldCashEntries (map terminal_entry [(PayIn, 10), (PayIn, 20), (PayOut, 5)]) of (i, p) \<Rightarrow>
       drawerCashParityMatches f i p = Inr (Some True))"
proof -
  let ?r = "\<lambda>i t n. \<lparr>ce_id = JStr (js i), ce_type = JStr (js t), ce_amount = JNum (baht n), ce_note = JNull,
    ce_staffId = JStr (js ''s''), ce_staffName = JStr (js ''n''), ce_at = JNum (Fin 1)\<rparr>"
  let ?rs = "[?r ''a'' ''pay_in'' 10, ?r ''b'' ''pay_in'' 20, ?r ''c'' ''pay_out'' 5]"
  let ?es = "[(PayIn, 10), (PayIn, 20), (PayOut, 5)] :: (cash_type \<times> int) list"
  have "\<exists>f. foldCashEntriesSnapshot ?rs = Inr f
    \<and> (case foldCashEntries (map terminal_entry ?es) of (payInTotal, payOutTotal) \<Rightarrow>
         drawerCashParityMatches f payInTotal payOutTotal = Inr (Some True))"
    by (rule cash_parity_terminal_server)
      (simp_all add: raw_matches_def satang_ok_def cash_sum_def EXACT_LIMIT_def)
  then show ?thesis by (rule exI [of _ ?rs])
qed

text \<open>A synced order document that records the sale \<open>spec\<close>.\<close>

definition payment_doc :: "tender \<times> int \<Rightarrow> jsval" where
  "payment_doc p = JObj [(js ''method'', JStr (tender_name (fst p))), (js ''amount'', JNum (baht (snd p)))]"

definition doc_matches :: "jsstr \<Rightarrow> async_order \<Rightarrow> sale_spec \<Rightarrow> bool" where
  "doc_matches dev d spec \<longleftrightarrow> drawer_member dev d
     \<and> ao_payments d = JArr (map payment_doc (fst spec)) \<and> ao_changeAmt d = JNum (baht (snd spec))"

lemma payment_doc_contrib:
  "satang_ok (snd p) \<Longrightarrow> payment_contrib (payment_doc p) = Some p"
  using toPositiveEntryMinor_baht [of "snd p"]
  by (cases p) (simp add: payment_contrib_def payment_doc_def satang_ok_def amount_minor_def)

lemma tendered_docs:
  "list_all (\<lambda>p. satang_ok (snd p)) ps \<Longrightarrow>
   list_all (\<lambda>p. payment_contrib p \<noteq> None) (map payment_doc ps) \<and> tendered (map payment_doc ps) t = spec_sum t ps"
  by (induction ps) (auto simp: tendered_Cons payment_doc_contrib, simp add: tendered_def)

lemma doc_matches_expected:
  assumes "doc_matches dev d spec" "spec_ok spec"
  shows "drawer_member dev d" "sale_wellformed d" "sale_expected t d = spec_amount t spec"
proof -
  show "drawer_member dev d" using assms by (simp add: doc_matches_def)
  have c: "total_minor (ao_changeAmt d) = Some (snd spec)"
    using assms toNonNegativeTotalMinor_baht [of "snd spec"]
    by (simp add: doc_matches_def spec_ok_def total_minor_def EXACT_LIMIT_def)
  have ps: "list_all (\<lambda>p. satang_ok (snd p)) (fst spec)" using assms(2) by (simp add: spec_ok_def)
  show "sale_wellformed d"
    using assms(1) c tendered_docs [OF ps] by (simp add: sale_wellformed_def doc_matches_def)
  show "sale_expected t d = spec_amount t spec"
    using assms(1) c tendered_docs [OF ps, of t] tendered_docs [OF ps, of Cash]
    by (simp add: sale_expected_def doc_matches_def spec_amount_def)
qed

lemma docs_match_all:
  "list_all2 (doc_matches dev) docs specs \<Longrightarrow> list_all spec_ok specs \<Longrightarrow>
   filter (drawer_member dev) docs = docs \<and> list_all sale_wellformed docs
   \<and> sum_list (map (sale_expected t) docs) = sum_list (map (spec_amount t) specs)"
  by (induction docs specs rule: list_all2_induct) (auto simp: doc_matches_expected)

text \<open>C12. For the same two-decimal sales (at most 1000 sales and payments together), the server's
  exact tender fold and the terminal's floating-point \<^verbatim>\<open>summarizeDrawer\<close> agree on every
  tender: the server's satang count is exactly the one the terminal's amount stands for,
  and both count the same number of bills.\<close>

theorem drawer_parity_terminal_server:
  assumes "list_all2 (doc_matches dev) docs specs" and "list_all2 sale_matches sales specs"
    and "list_all spec_ok specs" and "spec_cost specs \<le> 1000"
  shows "\<exists>d n. foldDeviceScopedDrawer docs dev = Inr d
    \<and> dr_expected d t = Some (Fin (of_int n)) \<and> dt_expected (summarizeDrawer sales) t = baht n
    \<and> dr_totalBills d = Some (dt_totalBills (summarizeDrawer sales))"
proof -
  define n where "n = sum_list (map (spec_amount t) specs)"
  note all = docs_match_all [OF assms(1,3), of t]
  have "mset (filter (drawer_member dev) (sort_by (cmp_on ao_id utf8ByteCompare) docs)) =
      mset (filter (drawer_member dev) docs)" by simp
  also have "\<dots> = mset docs" using all by metis
  finally have perm: "mset (filter (drawer_member dev) (sort_by (cmp_on ao_id utf8ByteCompare) docs)) = mset docs" .
  then have len: "length (filter (drawer_member dev) (sort_by (cmp_on ao_id utf8ByteCompare) docs)) = length docs"
    by (rule mset_eq_length)
  have nb: "List.find (\<lambda>d. \<not> sale_wellformed d)
      (filter (drawer_member dev) (sort_by (cmp_on ao_id utf8ByteCompare) docs)) = None"
    using all by (auto simp: find_None_iff list_all_iff)
  have "sum_list (map (sale_expected t) (filter (drawer_member dev) (sort_by (cmp_on ao_id utf8ByteCompare) docs))) = n"
  proof -
    have "mset (map (sale_expected t) (filter (drawer_member dev) (sort_by (cmp_on ao_id utf8ByteCompare) docs)))
      = mset (map (sale_expected t) docs)" using perm by (metis mset_map)
    then show ?thesis using all by (metis n_def sum_mset_sum_list)
  qed
  moreover have "number_of_bigint n = Fin (of_int n)"
    using spec_total_bounds [OF assms(3), of t] assms(4)
    unfolding number_of_bigint_def n_def by (intro fl_nat) auto
  ultimately obtain d where "foldDeviceScopedDrawer docs dev = Inr d"
    "dr_expected d t = Some (Fin (of_int n))" "dr_totalBills d = Some (length docs)"
    using nb len unfolding drawer_unfold Let_def by auto
  moreover have "length docs = length sales"
    using list_all2_lengthD [OF assms(1)] list_all2_lengthD [OF assms(2)] by simp
  ultimately show ?thesis
    using summarizeDrawer_exact [OF assms(2,3,4), of t] unfolding n_def
    by (auto simp: summarizeDrawer_def Let_def)
qed

theorem drawer_parity_terminal_server_witness:
  "\<exists>docs sales d n. docs \<noteq> [] \<and> foldDeviceScopedDrawer docs (js ''D'') = Inr d
    \<and> dr_expected d Cash = Some (Fin (of_int n)) \<and> dt_expected (summarizeDrawer sales) Cash = baht n"
proof -
  let ?spec = "([(Cash, 10000), (Qr, 250)], 4975) :: sale_spec"
  let ?d = "\<lparr>ao_id = js ''D-1'', ao_deviceId = JStr (js ''D''), ao_status = JStr (js ''pending''),
    ao_voidRequested = JUndef, ao_reconcileStatus = JUndef, ao_changeAmt = JNum (baht 4975),
    ao_payments = JArr (map payment_doc (fst ?spec))\<rparr>"
  let ?s = "\<lparr>ls_id = js ''D-1'', ls_changeAmt = baht 4975, ls_payments = map terminal_payment (fst ?spec),
    ls_pendingSync = True, ls_clientCreatedAt = Fin 1, ls_occurredAt = Fin 1, ls_sortSeq = Fin 1\<rparr>"
  have 1: "doc_matches (js ''D'') ?d ?spec"
    by (simp add: doc_matches_def drawer_member_def isLedgerSaleDoc_def)
  have 2: "sale_matches ?s ?spec" by (simp add: sale_matches_def)
  have 3: "list_all spec_ok [?spec]" "spec_cost [?spec] \<le> 1000"
    by (simp_all add: spec_ok_def satang_ok_def spec_cost_def)
  show ?thesis
    using drawer_parity_terminal_server [of "js ''D''" "[?d]" "[?spec]" "[?s]" Cash] 1 2 3 by blast
qed

end
